(* ===== verification/Prelude.thy ===== *)
theory Prelude
  imports Main "HOL-Library.Word" "HOL-Library.Monad_Syntax"
begin

text \<open>
  Shared vocabulary of the development: the machine integers of the C and C++ sources,
  kernel return codes, array access that can fault, the bit-length function behind
  \<^verbatim>\<open>fls64\<close>, and the scan of a fixed-capacity table that the kernel module uses for its
  call-context table and for its use-reuse pair table.  The generic facts on lists and
  words that the components share are collected here, in the simpset or in one of the
  collections below.
\<close>

unbundle bit_operations_syntax

named_theorems kern_simps \<open>unfolding rules of the kernel module's operations\<close>
named_theorems frame_simps \<open>fields an operation leaves alone\<close>

type_synonym u8 = "8 word"
type_synonym u32 = "32 word"
type_synonym u64 = "64 word"
type_synonym s32 = "32 word"
type_synonym s64 = "64 word"

text \<open>
  Kernel return codes: \<^verbatim>\<open>0\<close> is \<open>RetOk\<close>, \<^verbatim>\<open>-EINVAL\<close> is \<open>RetErr EINVAL\<close>;
  \<open>EXT n\<close> stands for a code that a kernel interface outside the module returned.
\<close>

datatype errno = EPERM | ENOENT | ESRCH | EFAULT | EBUSY | EEXIST | EINVAL | ENOTTY | ENOMEM | EXT int

datatype kret = RetOk | RetErr errno

text \<open>\<^verbatim>\<open>if (!ret && r) ret = r;\<close>: the first failure is the one reported.\<close>

definition first_err :: "kret \<Rightarrow> kret \<Rightarrow> kret" where
  "first_err ret r = (if ret = RetOk then r else ret)"

lemma first_err_simps [simp]:
  "first_err RetOk r = r" "first_err (RetErr e) r = RetErr e"
  by (simp_all add: first_err_def)

subsection \<open>Arrays behind pointers\<close>

text \<open>
  A heap array is \<open>'a list option\<close>: \<open>None\<close> is the null pointer.  Reading or writing
  through a null pointer, or out of range, is a fault, the \<open>None\<close> of the result.
\<close>

definition arr_get :: "'a list option \<Rightarrow> nat \<Rightarrow> 'a option" where
  "arr_get a i = (case a of None \<Rightarrow> None | Some xs \<Rightarrow> if i < length xs then Some (xs ! i) else None)"

definition arr_set :: "'a list option \<Rightarrow> nat \<Rightarrow> 'a \<Rightarrow> 'a list option option" where
  "arr_set a i v =
     (case a of None \<Rightarrow> None | Some xs \<Rightarrow> if i < length xs then Some (Some (xs[i := v])) else None)"

lemma arr_get_Some [simp]: "i < length xs \<Longrightarrow> arr_get (Some xs) i = Some (xs ! i)"
  by (simp add: arr_get_def)

lemma arr_set_Some [simp]: "i < length xs \<Longrightarrow> arr_set (Some xs) i v = Some (Some (xs[i := v]))"
  by (simp add: arr_set_def)

lemma arr_get_eq_Some_iff:
  "arr_get a i = Some v \<longleftrightarrow> (\<exists>xs. a = Some xs \<and> i < length xs \<and> v = xs ! i)"
  by (auto simp: arr_get_def split: option.splits)

lemma arr_set_eq_Some_iff:
  "arr_set a i v = Some b \<longleftrightarrow> (\<exists>xs. a = Some xs \<and> i < length xs \<and> b = Some (xs[i := v]))"
  by (auto simp: arr_set_def split: option.splits)

lemma arr_get_None [simp]: "arr_get None i = None"
  by (simp add: arr_get_def)

lemma arr_set_None [simp]: "arr_set None i v = None"
  by (simp add: arr_set_def)

subsection \<open>What every result of a partial operation satisfies\<close>

text \<open>
  \<open>post m P\<close>: if \<open>m\<close> returns, its result satisfies \<open>P\<close>.  The equations push \<open>P\<close> through the
  monadic structure of an operation; each operation adds an introduction rule of its own.
\<close>

definition post :: "'a option \<Rightarrow> ('a \<Rightarrow> bool) \<Rightarrow> bool" where
  "post m P \<longleftrightarrow> (\<forall>x. m = Some x \<longrightarrow> P x)"

named_theorems post_intros \<open>introduction rules for post\<close>

lemma post_Some [simp]: "post (Some x) P = P x"
  and post_None [simp]: "post None Q"
  by (simp_all add: post_def)

lemma post_bind [simp]: "post (m \<bind> f) P = post m (\<lambda>x. post (f x) P)"
  by (auto simp: post_def bind_eq_Some_conv)

lemma post_map_option [simp]: "post (map_option f m) P = post m (\<lambda>x. P (f x))"
  by (auto simp: post_def)

lemma post_if [simp]: "post (if b then m else n) P = ((b \<longrightarrow> post m P) \<and> (\<not> b \<longrightarrow> post n P))"
  by simp

lemma post_case_prod [simp]: "post (case p of (a, b) \<Rightarrow> h a b) P = (case p of (a, b) \<Rightarrow> post (h a b) P)"
  by (simp split: prod.split)

lemma post_case_option [simp]:
  "post (case z of None \<Rightarrow> m | Some y \<Rightarrow> g y) P = (case z of None \<Rightarrow> post m P | Some y \<Rightarrow> post (g y) P)"
  by (simp split: option.split)

lemma post_case_sum [simp]:
  "post (case z of Inl a \<Rightarrow> l a | Inr b \<Rightarrow> r b) P = (case z of Inl a \<Rightarrow> post (l a) P | Inr b \<Rightarrow> post (r b) P)"
  by (simp split: sum.split)

lemma post_arr [post_intros]:
  "(\<And>x. P x) \<Longrightarrow> post (arr_get a i) P" "(\<And>y. Q y) \<Longrightarrow> post (arr_set b j v) Q"
  by (simp_all add: post_def)

lemma post_mono: "post m Q \<Longrightarrow> (\<And>x. Q x \<Longrightarrow> P x) \<Longrightarrow> post m P"
  by (simp add: post_def)

lemma postD: "post m P \<Longrightarrow> m = Some x \<Longrightarrow> P x"
  by (simp add: post_def)

subsection \<open>Lists\<close>

lemma sum_list_update_word:
  fixes xs :: "'a::len word list"
  assumes "i < length xs"
  shows "sum_list (xs[i := v]) = sum_list xs - xs ! i + v"
  using assms by (induction xs arbitrary: i) (auto simp: nth_Cons split: nat.split)

lemma sum_list_incr_word:
  fixes xs :: "'a::len word list"
  assumes "i < length xs"
  shows "sum_list (xs[i := xs ! i + 1]) = sum_list xs + 1"
  using assms by (simp add: sum_list_update_word)

lemma sum_list_replicate_0 [simp]: "sum_list (replicate n (0::'a::len word)) = 0"
  by (induction n) auto

text \<open>The number of elements that satisfy \<open>P\<close>, and how one update moves it.\<close>

definition count_if :: "('a \<Rightarrow> bool) \<Rightarrow> 'a list \<Rightarrow> nat" where
  "count_if P xs = length (filter P xs)"

lemma count_if_simps [simp]:
  "count_if P [] = 0"
  "count_if P (x # xs) = (if P x then Suc (count_if P xs) else count_if P xs)"
  by (simp_all add: count_if_def)

lemma count_if_append [simp]: "count_if P (xs @ ys) = count_if P xs + count_if P ys"
  by (simp add: count_if_def)

lemma count_if_replicate: "count_if P (replicate n x) = (if P x then n else 0)"
  by (simp add: count_if_def)

lemma count_if_le_length: "count_if P xs \<le> length xs"
  by (simp add: count_if_def)

lemma count_if_update:
  assumes "i < length xs"
  shows "count_if P (xs[i := v]) + (if P (xs ! i) then 1 else 0)
       = count_if P xs + (if P v then 1 else 0)"
  using assms
proof (induction xs arbitrary: i)
  case (Cons x xs)
  show ?case
  proof (cases i)
    case (Suc j)
    then have "count_if P (xs[j := v]) + (if P (xs ! j) then 1 else 0)
             = count_if P xs + (if P v then 1 else 0)"
      using Cons by simp
    then show ?thesis by (simp add: Suc split: if_splits)
  qed simp
qed simp

lemma count_if_update_gain:
  "\<lbrakk>i < length xs; \<not> P (xs ! i); P v\<rbrakk> \<Longrightarrow> count_if P (xs[i := v]) = Suc (count_if P xs)"
  using count_if_update [of i xs P v] by simp

lemma count_if_update_lose:
  "\<lbrakk>i < length xs; P (xs ! i); \<not> P v\<rbrakk> \<Longrightarrow> Suc (count_if P (xs[i := v])) = count_if P xs"
  using count_if_update [of i xs P v] by simp

lemma count_if_update_same:
  "\<lbrakk>i < length xs; P (xs ! i) = P v\<rbrakk> \<Longrightarrow> count_if P (xs[i := v]) = count_if P xs"
  using count_if_update [of i xs P v] by (simp split: if_splits)

text \<open>The least index whose element satisfies \<open>P\<close>: a \<^verbatim>\<open>for\<close> loop that stops at the first hit.\<close>

fun find_index :: "('a \<Rightarrow> bool) \<Rightarrow> 'a list \<Rightarrow> nat option" where
  "find_index P [] = None"
| "find_index P (x # xs) = (if P x then Some 0 else map_option Suc (find_index P xs))"

lemma find_index_None_iff: "find_index P xs = None \<longleftrightarrow> (\<forall>x\<in>set xs. \<not> P x)"
  by (induction xs) auto

lemma find_index_SomeD:
  "find_index P xs = Some i \<Longrightarrow> i < length xs \<and> P (xs ! i) \<and> (\<forall>j<i. \<not> P (xs ! j))"
proof (induction xs arbitrary: i)
  case (Cons x xs)
  show ?case
  proof (cases "P x")
    case True
    with Cons.prems show ?thesis by simp
  next
    case False
    with Cons.prems obtain k where "find_index P xs = Some k" "i = Suc k" by auto
    with Cons.IH [of k] False show ?thesis
      by (auto simp: nth_Cons split: nat.split)
  qed
qed simp

subsection \<open>Scanning a fixed-capacity table\<close>

text \<open>
  The loop shared by \<^verbatim>\<open>rd_get_context_id_locked\<close> and \<^verbatim>\<open>rd_add_pair_hist_locked\<close>: return at
  the first used entry that matches, otherwise remember the first unused entry.
\<close>

datatype scan_result = Found nat | FirstFree nat | TableFull

fun scan_table :: "('e \<Rightarrow> bool) \<Rightarrow> ('e \<Rightarrow> bool) \<Rightarrow> 'e list \<Rightarrow> nat \<Rightarrow> nat option \<Rightarrow> scan_result" where
  "scan_table used hit [] i free =
     (case free of None \<Rightarrow> TableFull | Some f \<Rightarrow> FirstFree f)"
| "scan_table used hit (e # es) i free =
     (if used e then (if hit e then Found i else scan_table used hit es (Suc i) free)
      else scan_table used hit es (Suc i) (case free of None \<Rightarrow> Some i | Some f \<Rightarrow> Some f))"

lemma scan_table_spec:
  "scan_table used hit es i free =
     (case find_index (\<lambda>e. used e \<and> hit e) es of
        Some k \<Rightarrow> Found (i + k)
      | None \<Rightarrow> (case free of Some f \<Rightarrow> FirstFree f
                 | None \<Rightarrow> (case find_index (\<lambda>e. \<not> used e) es of
                              Some k \<Rightarrow> FirstFree (i + k) | None \<Rightarrow> TableFull)))"
proof (induction es arbitrary: i free)
  case Nil
  then show ?case by (simp split: option.split)
next
  case (Cons e es)
  show ?case
  proof (cases "used e \<and> hit e")
    case True
    then show ?thesis by simp
  next
    case False
    show ?thesis
    proof (cases "used e")
      case True
      with False have "\<not> hit e" by simp
      with True show ?thesis by (auto simp: Cons.IH split: option.split)
    next
      case unused: False
      then show ?thesis by (auto simp: Cons.IH split: option.split)
    qed
  qed
qed

lemma scan_table_Found:
  assumes "scan_table used hit es 0 None = Found k"
  shows "k < length es" "used (es ! k)" "hit (es ! k)"
  using assms
  by (auto simp: scan_table_spec split: option.splits dest!: find_index_SomeD)

lemma scan_table_FirstFree:
  assumes "scan_table used hit es 0 None = FirstFree k"
  shows "k < length es" "\<not> used (es ! k)" "\<And>e. e \<in> set es \<Longrightarrow> used e \<Longrightarrow> \<not> hit e"
  using assms
  by (auto simp: scan_table_spec find_index_None_iff split: option.splits dest!: find_index_SomeD)

lemma scan_table_TableFull:
  assumes "scan_table used hit es 0 None = TableFull"
  shows "\<And>e. e \<in> set es \<Longrightarrow> used e" "\<And>e. e \<in> set es \<Longrightarrow> \<not> hit e"
  using assms
  by (auto simp: scan_table_spec find_index_None_iff split: option.splits)

subsection \<open>Bit length\<close>

text \<open>\<^verbatim>\<open>fls64(x)\<close>: one plus the index of the highest set bit, 0 for 0.\<close>

fun bitlen :: "nat \<Rightarrow> nat" where
  "bitlen n = (if n = 0 then 0 else Suc (bitlen (n div 2)))"

declare bitlen.simps [simp del]

lemma bitlen_0 [simp]: "bitlen 0 = 0"
  by (subst bitlen.simps) simp

lemma bitlen_pos [simp]: "0 < n \<Longrightarrow> bitlen n = Suc (bitlen (n div 2))"
  by (subst bitlen.simps) simp

lemma bitlen_less_iff: "bitlen n \<le> k \<longleftrightarrow> n < 2 ^ k"
proof (induction n arbitrary: k rule: bitlen.induct)
  case (1 n)
  show ?case
  proof (cases "n = 0")
    case False
    show ?thesis
    proof (cases k)
      case (Suc m)
      have "bitlen (n div 2) \<le> m \<longleftrightarrow> n div 2 < 2 ^ m"
        using "1.IH" False by simp
      also have "\<dots> \<longleftrightarrow> n < 2 ^ Suc m" by auto
      finally show ?thesis using False Suc by simp
    qed (use False in simp)
  qed simp
qed

lemma bitlen_bounds:
  assumes "0 < n"
  shows "2 ^ (bitlen n - 1) \<le> n" "n < 2 ^ bitlen n"
proof -
  show "n < 2 ^ bitlen n" using bitlen_less_iff [of n "bitlen n"] by simp
  have "\<not> bitlen n \<le> bitlen n - 1" using assms by simp
  then show "2 ^ (bitlen n - 1) \<le> n" by (simp add: bitlen_less_iff)
qed

lemma bitlen_unique: "2 ^ k \<le> n \<Longrightarrow> n < 2 ^ Suc k \<Longrightarrow> bitlen n = Suc k"
  using bitlen_less_iff [of n "Suc k"] bitlen_less_iff [of n k] by linarith

definition fls64 :: "u64 \<Rightarrow> u32" where
  "fls64 x = of_nat (bitlen (unat x))"

lemma bitlen_u64_le: "bitlen (unat (x :: u64)) \<le> 64"
  using unsigned_less [of x] by (simp add: bitlen_less_iff)

lemma unat_fls64: "unat (fls64 x) = bitlen (unat x)"
  using bitlen_u64_le [of x] by (simp add: fls64_def unat_of_nat)

subsection \<open>Words\<close>

lemma word_eq_drop_bit_iff:
  fixes x :: "'a::len word"
  assumes "0 < k"
  shows "x = drop_bit k x \<longleftrightarrow> x = 0"
proof
  assume "x = drop_bit k x"
  then have "unat x = unat x div 2 ^ k"
    by (metis unsigned_drop_bit_eq drop_bit_eq_div take_bit_nat_eq_self unsigned_less
        nat_less_le drop_bit_nat_def unat_drop_bit_eq)
  moreover have "unat x div 2 ^ k \<le> unat x div 2"
  proof (rule div_le_mono2)
    show "2 \<le> (2::nat) ^ k" using assms by (cases k) auto
  qed simp
  ultimately have "unat x = 0" by linarith
  then show "x = 0" by (simp add: unat_eq_0)
qed simp

lemma word_eq_push_bit_iff:
  fixes x :: "'a::len word"
  assumes "0 < k"
  shows "x = push_bit k x \<longleftrightarrow> x = 0"
proof
  assume eq: "x = push_bit k x"
  have "\<not> bit x n" for n
  proof (induction n rule: less_induct)
    case (less n)
    have "bit x n \<longleftrightarrow> bit (push_bit k x) n" using eq by simp
    then show ?case using less [of "n - k"] assms by (auto simp: bit_simps)
  qed
  then show "x = 0" by (simp add: bit_eq_iff)
qed simp

lemma xor_eq_0_iff_word: "(a :: 'a::len word) XOR b = 0 \<longleftrightarrow> a = b"
  by (metis xor.right_neutral xor_self_eq xor.assoc xor.left_neutral)

end
