(* ===== verification/Uapi.thy ===== *)
theory Uapi
  imports Prelude
begin

text \<open>
  The structures and constants that the user-space controller and the kernel module share,
  from \<^verbatim>\<open>include/uapi/rd_wpctl_ioctl.h\<close>.  Padding (\<^verbatim>\<open>reserved\<close>) members carry no information
  and are left out; user pointers are replaced by the value copied through them.
\<close>

subsection \<open>Constants\<close>

definition RD_WPCTL_LOG2_BUCKETS :: nat where "RD_WPCTL_LOG2_BUCKETS = 64"
definition RD_WPCTL_MAX_PAIR_HISTS :: nat where "RD_WPCTL_MAX_PAIR_HISTS = 4096"
definition RD_WPCTL_MAX_CALLCHAIN_DEPTH :: nat where "RD_WPCTL_MAX_CALLCHAIN_DEPTH = 8"
definition RD_WPCTL_MAX_CONTEXTS :: nat where "RD_WPCTL_MAX_CONTEXTS = 4096"
definition RD_WPCTL_MAX_DWARF_STACK_BYTES :: nat where "RD_WPCTL_MAX_DWARF_STACK_BYTES = 8192"

lemmas uapi_consts =
  RD_WPCTL_LOG2_BUCKETS_def RD_WPCTL_MAX_PAIR_HISTS_def RD_WPCTL_MAX_CALLCHAIN_DEPTH_def
  RD_WPCTL_MAX_CONTEXTS_def RD_WPCTL_MAX_DWARF_STACK_BYTES_def

text \<open>\<^verbatim>\<open>enum rd_wpctl_callchain_mode\<close>: the field that holds it is a \<^verbatim>\<open>u32\<close>.\<close>

definition RD_CALLCHAIN_OFF :: u32 where "RD_CALLCHAIN_OFF = 0"
definition RD_CALLCHAIN_FP :: u32 where "RD_CALLCHAIN_FP = 1"
definition RD_CALLCHAIN_DWARF :: u32 where "RD_CALLCHAIN_DWARF = 2"

lemmas callchain_modes = RD_CALLCHAIN_OFF_def RD_CALLCHAIN_FP_def RD_CALLCHAIN_DWARF_def

text \<open>\<^verbatim>\<open>enum rd_wpctl_extend_kind\<close>: the field that holds it is a \<^verbatim>\<open>u8\<close>.\<close>

definition RD_EXT_NONE :: u8 where "RD_EXT_NONE = 0"
definition RD_EXT_LSL :: u8 where "RD_EXT_LSL = 1"
definition RD_EXT_UXTW :: u8 where "RD_EXT_UXTW = 2"
definition RD_EXT_SXTW :: u8 where "RD_EXT_SXTW = 3"
definition RD_EXT_UXTX :: u8 where "RD_EXT_UXTX = 4"
definition RD_EXT_SXTX :: u8 where "RD_EXT_SXTX = 5"

lemmas extend_kinds =
  RD_EXT_NONE_def RD_EXT_LSL_def RD_EXT_UXTW_def RD_EXT_SXTW_def RD_EXT_UXTX_def RD_EXT_SXTX_def

subsection \<open>Structures\<close>

record rd_wpctl_decode =
  access_size :: u32
  base_reg :: int
  base_is_sp :: u8
  has_imm :: u8
  has_index :: u8
  index_is_32 :: u8
  index_is_zero :: u8
  dec_extend :: u8
  shift :: u8
  index_reg :: int
  imm :: s64

record rd_wpctl_target =
  ut_pc_offset :: u64
  ut_abs_pc :: u64
  ut_aggregated_samples :: u64
  ut_decode :: rd_wpctl_decode

record rd_wpctl_session_cfg =
  cfg_wp_capacity :: u32
  cfg_callchain_mode :: u32
  cfg_bp_sample_period :: u64
  cfg_dwarf_stack_bytes :: u32
  cfg_dwarf_event_capacity :: u32

record rd_wpctl_target_batch =
  targets_ptr :: u64
  batch_count :: u32

record rd_wpctl_thread_register =
  reg_tid :: int
  reg_cpu :: int
  reg_scratch_base :: u64
  reg_scratch_stride :: u64

record rd_wpctl_layout =
  lay_target_count :: u32
  lay_thread_count :: u32
  lay_bucket_count :: u32

record rd_wpctl_thread_stats =
  st_index :: u32
  st_tid :: int
  st_cpu :: int
  st_active :: u8
  st_candidate_samples :: u64
  st_reservoir_seen :: u64
  st_reservoir_accepted :: u64
  st_reservoir_rejected :: u64
  st_hits :: u64
  st_evictions :: u64
  st_dropped :: u64
  st_pair_hist_used :: u32
  st_pair_hist_dropped :: u64
  st_context_used :: u32
  st_context_dropped :: u64
  st_callchain_failed :: u64
  st_callchain_truncated :: u64
  st_dwarf_event_used :: u32
  st_dwarf_event_dropped :: u64
  st_dwarf_stack_copy_failed :: u64
  st_dwarf_stack_bytes :: u64

record rd_wpctl_hist_req =
  hr_thread_index :: u32
  hr_target_index :: u32
  hr_buckets :: "u64 list"

record rd_wpctl_pair_hist_req =
  pr_thread_index :: u32
  pr_entry_index :: u32
  pr_used :: u8
  pr_seed_context_id :: u32
  pr_reuse_context_id :: u32
  pr_seed_pc_offset :: u64
  pr_reuse_pc :: u64
  pr_buckets :: "u64 list"

record rd_wpctl_context_req =
  cr_thread_index :: u32
  cr_context_id :: u32
  cr_used :: u8
  cr_depth :: u8
  cr_ips :: "u64 list"

text \<open>One register and stack snapshot; \<open>snap_stack\<close> has
  \<^const>\<open>RD_WPCTL_MAX_DWARF_STACK_BYTES\<close> bytes, of which \<open>snap_stack_size\<close> are valid.\<close>

record rd_wpctl_dwarf_snapshot =
  snap_regs :: "u64 list"
  snap_sp :: u64
  snap_pc :: u64
  snap_pstate :: u64
  snap_stack_base :: u64
  snap_stack_size :: u32
  snap_stack :: "u8 list"

record rd_wpctl_dwarf_event_req =
  de_thread_index :: u32
  de_event_index :: u32
  de_used :: u8
  de_bucket :: u8
  de_tid :: int
  de_target_index :: u32
  de_seed_pc_offset :: u64
  de_seed_pc :: u64
  de_reuse_pc :: u64
  de_seed_access :: u64
  de_hit_access :: u64
  de_delta :: u64
  de_seed :: rd_wpctl_dwarf_snapshot
  de_reuse :: rd_wpctl_dwarf_snapshot

text \<open>The all-zero values that \<^verbatim>\<open>memset\<close> and the zeroing allocators produce.\<close>

definition zero_snapshot :: rd_wpctl_dwarf_snapshot where
  "zero_snapshot = \<lparr>snap_regs = replicate 31 0, snap_sp = 0, snap_pc = 0, snap_pstate = 0,
     snap_stack_base = 0, snap_stack_size = 0,
     snap_stack = replicate RD_WPCTL_MAX_DWARF_STACK_BYTES 0\<rparr>"

definition zero_dwarf_event :: rd_wpctl_dwarf_event_req where
  "zero_dwarf_event = \<lparr>de_thread_index = 0, de_event_index = 0, de_used = 0, de_bucket = 0,
     de_tid = 0, de_target_index = 0, de_seed_pc_offset = 0, de_seed_pc = 0, de_reuse_pc = 0,
     de_seed_access = 0, de_hit_access = 0, de_delta = 0,
     de_seed = zero_snapshot, de_reuse = zero_snapshot\<rparr>"

end
