(* ===== verification/Seed_Address.thy ===== *)
theory Seed_Address
  imports Uapi
begin

text \<open>
  The pure computations of the kernel module's hit path, from \<^verbatim>\<open>kernel/rd_wpctl.c\<close>: reading
  a register by its perf number, recovering the effective address of the sampled load or
  store from its decode template, the check that a template is acceptable, the
  pseudo-random stream behind slot replacement, and the \<^verbatim>\<open>log2\<close> bucket of a reuse distance.
\<close>

subsection \<open>Registers and effective addresses\<close>

text \<open>\<^verbatim>\<open>struct pt_regs\<close>: \<open>gregs n\<close> is \<^verbatim>\<open>regs->regs[n]\<close> for \<open>n \<le> 30\<close>.\<close>

record pt_regs =
  gregs :: "nat \<Rightarrow> u64"
  regs_sp :: u64
  regs_pc :: u64
  regs_pstate :: u64

text \<open>The numbering of \<^verbatim>\<open>asm/perf_regs.h\<close>.\<close>

abbreviation PERF_REG_ARM64_X0 :: int where "PERF_REG_ARM64_X0 \<equiv> 0"
abbreviation PERF_REG_ARM64_X29 :: int where "PERF_REG_ARM64_X29 \<equiv> 29"
abbreviation PERF_REG_ARM64_LR :: int where "PERF_REG_ARM64_LR \<equiv> 30"
abbreviation PERF_REG_ARM64_SP :: int where "PERF_REG_ARM64_SP \<equiv> 31"
abbreviation PERF_REG_ARM64_PC :: int where "PERF_REG_ARM64_PC \<equiv> 32"

definition rd_read_perf_reg :: "pt_regs \<Rightarrow> int \<Rightarrow> bool \<Rightarrow> u64" where
  "rd_read_perf_reg regs perf_reg is_sp =
     (if is_sp \<or> perf_reg = PERF_REG_ARM64_SP then regs_sp regs
      else if PERF_REG_ARM64_X0 \<le> perf_reg \<and> perf_reg \<le> PERF_REG_ARM64_X29
        then gregs regs (nat perf_reg)
      else if perf_reg = PERF_REG_ARM64_LR then gregs regs 30
      else if perf_reg = PERF_REG_ARM64_PC then regs_pc regs
      else 0)"

text \<open>
  A 64-bit left shift by a \<^verbatim>\<open>u8\<close> count.  C leaves a shift by 64 or more undefined; the
  model returns \<open>None\<close> there.
\<close>

definition shl64 :: "u64 \<Rightarrow> u8 \<Rightarrow> u64 option" where
  "shl64 x n = (if unat n < 64 then Some (push_bit (unat n) x) else None)"

definition rd_index_value :: "rd_wpctl_decode \<Rightarrow> u64 \<Rightarrow> u64 option" where
  "rd_index_value dec raw =
     (let narrow = (ucast (ucast raw :: u32) :: u64);
          plain = (if index_is_32 dec \<noteq> 0 then narrow else raw)
      in if dec_extend dec = RD_EXT_NONE then Some plain
         else if dec_extend dec = RD_EXT_LSL then shl64 plain (shift dec)
         else if dec_extend dec = RD_EXT_UXTW then shl64 narrow (shift dec)
         else if dec_extend dec = RD_EXT_SXTW then shl64 (scast (ucast raw :: s32)) (shift dec)
         else if dec_extend dec = RD_EXT_UXTX then shl64 raw (shift dec)
         else if dec_extend dec = RD_EXT_SXTX then shl64 raw (shift dec)
         else Some 0)"

definition rd_compute_effective_address :: "rd_wpctl_decode \<Rightarrow> pt_regs \<Rightarrow> u64 option" where
  "rd_compute_effective_address dec regs =
     (let base = rd_read_perf_reg regs (base_reg dec) (base_is_sp dec \<noteq> 0);
          addr = (if has_imm dec \<noteq> 0 then base + imm dec else base)
      in if has_index dec \<noteq> 0 then
           do {
             index \<leftarrow> rd_index_value dec
               (if index_is_zero dec = 0 then rd_read_perf_reg regs (index_reg dec) False else 0);
             Some (addr + index)
           }
         else Some addr)"

definition rd_validate_target :: "rd_wpctl_target \<Rightarrow> kret" where
  "rd_validate_target target =
     (let dec = ut_decode target in
      if ut_abs_pc target = 0 then RetErr EINVAL
      else if access_size dec \<noteq> 1 \<and> access_size dec \<noteq> 2 \<and> access_size dec \<noteq> 4 \<and> access_size dec \<noteq> 8
        then RetErr EINVAL
      else if base_reg dec < 0 \<or> base_reg dec > PERF_REG_ARM64_SP then RetErr EINVAL
      else if has_index dec \<noteq> 0 \<and> index_is_zero dec = 0 \<and>
              (index_reg dec < 0 \<or> index_reg dec > PERF_REG_ARM64_LR) then RetErr EINVAL
      else if dec_extend dec > RD_EXT_SXTX then RetErr EINVAL
      else RetOk)"

subsection \<open>The random stream of slot replacement\<close>

definition rd_xorshift :: "u64 \<Rightarrow> u64" where
  "rd_xorshift x0 =
     (let x1 = x0 XOR drop_bit 12 x0;
          x2 = x1 XOR push_bit 25 x1
      in x2 XOR drop_bit 27 x2)"

text \<open>Returns the random value and the new state.\<close>

definition rd_next_random :: "u64 \<Rightarrow> u64 \<times> u64" where
  "rd_next_random state =
     (let x = (if state = 0 then 0x9e3779b97f4a7c15 else state);
          x' = rd_xorshift x
      in (x' * 0x2545f4914f6cdd1d, x'))"

subsection \<open>Reuse distance and its bucket\<close>

definition rd_log2_bucket :: "u64 \<Rightarrow> u32" where
  "rd_log2_bucket delta =
     (if delta = 0 then 0
      else let bucket = fls64 delta
           in if bucket \<ge> of_nat RD_WPCTL_LOG2_BUCKETS then of_nat (RD_WPCTL_LOG2_BUCKETS - 1)
              else bucket)"

text \<open>\<^verbatim>\<open>delta = hit_access > seed_access ? (hit_access - seed_access - 1) : 0\<close>.\<close>

definition rd_delta :: "u64 \<Rightarrow> u64 \<Rightarrow> u64" where
  "rd_delta seed_access hit_access =
     (if hit_access > seed_access then hit_access - seed_access - 1 else 0)"

subsection \<open>Facts\<close>

lemma shl64_eq_Some: "unat n < 64 \<Longrightarrow> shl64 x n = Some (push_bit (unat n) x)"
  by (simp add: shl64_def)

lemma rd_effective_address_defined:
  "unat (shift dec) < 64 \<Longrightarrow> \<exists>a. rd_compute_effective_address dec regs = Some a"
  by (auto simp: rd_compute_effective_address_def rd_index_value_def shl64_def Let_def)

lemma unat_rd_log2_bucket:
  "unat (rd_log2_bucket delta) = min 63 (bitlen (unat delta))"
proof (cases "delta = 0")
  case False
  have "(of_nat RD_WPCTL_LOG2_BUCKETS \<le> fls64 delta) = (64 \<le> bitlen (unat delta))"
    by (simp add: word_le_nat_alt unat_fls64 uapi_consts)
  then show ?thesis
    using False by (simp add: rd_log2_bucket_def Let_def unat_fls64 uapi_consts min_def)
qed (simp add: rd_log2_bucket_def)

lemma rd_log2_bucket_less: "unat (rd_log2_bucket delta) < RD_WPCTL_LOG2_BUCKETS"
  by (simp add: unat_rd_log2_bucket uapi_consts)

lemma rd_xorshift_eq_0_iff: "rd_xorshift x = 0 \<longleftrightarrow> x = 0"
proof -
  define x1 where "x1 = x XOR drop_bit 12 x"
  define x2 where "x2 = x1 XOR push_bit 25 x1"
  have "rd_xorshift x = x2 XOR drop_bit 27 x2"
    by (simp add: rd_xorshift_def Let_def x1_def x2_def)
  also have "\<dots> = 0 \<longleftrightarrow> x2 = 0"
    by (simp add: xor_eq_0_iff_word word_eq_drop_bit_iff)
  also have "x2 = 0 \<longleftrightarrow> x1 = 0"
    by (simp add: x2_def xor_eq_0_iff_word word_eq_push_bit_iff)
  also have "x1 = 0 \<longleftrightarrow> x = 0"
    by (simp add: x1_def xor_eq_0_iff_word word_eq_drop_bit_iff)
  finally show ?thesis .
qed

lemma rd_next_random_state_nonzero: "snd (rd_next_random s) \<noteq> 0"
  by (simp add: rd_next_random_def Let_def rd_xorshift_eq_0_iff)

subsection \<open>The address the architecture defines\<close>

text \<open>
  The address of the access as the architecture defines it, over unbounded integers: the
  base register, the signed immediate, and the extended index times a power of two.
\<close>

definition arch_index :: "rd_wpctl_decode \<Rightarrow> u64 \<Rightarrow> int" where
  "arch_index dec raw =
     (if dec_extend dec = RD_EXT_SXTW then sint (ucast raw :: s32)
      else if dec_extend dec = RD_EXT_SXTX then sint raw
      else if dec_extend dec = RD_EXT_UXTW \<or>
              (dec_extend dec \<in> {RD_EXT_NONE, RD_EXT_LSL} \<and> index_is_32 dec \<noteq> 0)
        then uint (ucast raw :: u32)
      else uint raw)"

definition arch_address :: "rd_wpctl_decode \<Rightarrow> pt_regs \<Rightarrow> int" where
  "arch_address dec regs =
     uint (rd_read_perf_reg regs (base_reg dec) (base_is_sp dec \<noteq> 0)) +
     (if has_imm dec \<noteq> 0 then sint (imm dec) else 0) +
     (if has_index dec \<noteq> 0
      then arch_index dec (if index_is_zero dec = 0 then rd_read_perf_reg regs (index_reg dec) False else 0) *
           2 ^ (if dec_extend dec = RD_EXT_NONE then 0 else unat (shift dec))
      else 0)"

lemma extend_kind_cases:
  assumes "e \<le> RD_EXT_SXTX"
  obtains "e = RD_EXT_NONE" | "e = RD_EXT_LSL" | "e = RD_EXT_UXTW" | "e = RD_EXT_SXTW"
    | "e = RD_EXT_UXTX" | "e = RD_EXT_SXTX"
proof -
  have "unat e \<le> 5" using assms by (simp add: word_le_nat_alt extend_kinds)
  then have "unat e \<in> {0, 1, 2, 3, 4, 5}" by auto
  moreover have "e = of_nat (unat e)" by simp
  ultimately have "\<exists>k\<in>{0, 1, 2, 3, 4, 5}. e = of_nat k" by blast
  then show thesis using that by (auto simp: extend_kinds)
qed

lemma shl64_of_int:
  assumes "unat n < 64" "x = word_of_int k"
  shows "shl64 x n = Some (word_of_int (k * 2 ^ unat n))"
  using assms by (simp add: shl64_def push_bit_eq_mult)

lemma rd_index_value_arch:
  assumes "dec_extend dec \<le> RD_EXT_SXTX" "unat (shift dec) < 64"
  shows "rd_index_value dec raw =
    Some (word_of_int (arch_index dec raw * 2 ^ (if dec_extend dec = RD_EXT_NONE then 0 else unat (shift dec))))"
  using assms(1)
proof (cases rule: extend_kind_cases)
  case 1
  have "(if index_is_32 dec \<noteq> 0 then ucast (ucast raw :: u32) else raw) = word_of_int (arch_index dec raw)"
    by (cases "index_is_32 dec = 0") (simp_all add: 1 arch_index_def extend_kinds)
  with 1 show ?thesis by (simp add: rd_index_value_def extend_kinds Let_def)
next
  case 2
  have "shl64 (if index_is_32 dec \<noteq> 0 then ucast (ucast raw :: u32) else raw) (shift dec) =
      Some (word_of_int (arch_index dec raw * 2 ^ unat (shift dec)))"
    by (rule shl64_of_int [OF assms(2)], cases "index_is_32 dec = 0") (simp_all add: 2 arch_index_def extend_kinds)
  with 2 show ?thesis by (simp add: rd_index_value_def extend_kinds Let_def)
next
  case 3
  have "shl64 (ucast (ucast raw :: u32)) (shift dec) = Some (word_of_int (arch_index dec raw * 2 ^ unat (shift dec)))"
    by (rule shl64_of_int [OF assms(2)]) (simp add: 3 arch_index_def extend_kinds)
  with 3 show ?thesis by (simp add: rd_index_value_def extend_kinds Let_def)
next
  case 4
  have "shl64 (scast (ucast raw :: s32)) (shift dec) = Some (word_of_int (arch_index dec raw * 2 ^ unat (shift dec)))"
    by (rule shl64_of_int [OF assms(2)]) (simp add: 4 arch_index_def extend_kinds)
  with 4 show ?thesis by (simp add: rd_index_value_def extend_kinds Let_def)
next
  case 5
  have "shl64 raw (shift dec) = Some (word_of_int (arch_index dec raw * 2 ^ unat (shift dec)))"
    by (rule shl64_of_int [OF assms(2)]) (simp add: 5 arch_index_def extend_kinds)
  with 5 show ?thesis by (simp add: rd_index_value_def extend_kinds Let_def)
next
  case 6
  have "shl64 raw (shift dec) = Some (word_of_int (arch_index dec raw * 2 ^ unat (shift dec)))"
    by (rule shl64_of_int [OF assms(2)]) (simp add: 6 arch_index_def extend_kinds)
  with 6 show ?thesis by (simp add: rd_index_value_def extend_kinds Let_def)
qed

lemma rd_effective_address_arch:
  assumes "dec_extend dec \<le> RD_EXT_SXTX" "unat (shift dec) < 64"
  shows "rd_compute_effective_address dec regs = Some (word_of_int (arch_address dec regs))"
  using rd_index_value_arch [OF assms]
  by (simp add: rd_compute_effective_address_def arch_address_def Let_def wi_hom_syms)
end
