(* ===== verification/Thread_State.thy ===== *)
theory Thread_State
  imports Seed_Address
begin

text \<open>
  The state of the kernel module (\<^verbatim>\<open>kernel/rd_wpctl.c\<close>): perf events, the per-thread context,
  the session, and the kernel interfaces the module calls.  The per-slot arrays of
  \<^verbatim>\<open>struct rd_thread_ctx\<close> (\<^verbatim>\<open>wp_states\<close>, \<^verbatim>\<open>wp_seed_va\<close>, \dots) have one length and are
  allocated, checked and freed together; the model keeps them as one array of slot records.
  Locks and list links have no counterpart: each operation is one step, and the order in
  which operations run is the sequence of steps.
\<close>

subsection \<open>Perf events and the kernel interfaces\<close>

datatype perf_type = PERF_TYPE_RAW | PERF_TYPE_BREAKPOINT | PERF_TYPE_OTHER
datatype hw_bp_type = HW_BREAKPOINT_EMPTY | HW_BREAKPOINT_X | HW_BREAKPOINT_RW

record perf_event_attr =
  attr_type :: perf_type
  attr_config :: u64
  attr_bp_type :: hw_bp_type
  attr_bp_addr :: u64
  attr_bp_len :: u32
  attr_sample_period :: u64
  attr_pinned :: bool
  attr_disabled :: bool
  attr_exclude_kernel :: bool
  attr_exclude_hv :: bool

text \<open>A perf event object: its identity stands for the pointer.\<close>

record perf_event =
  pe_id :: nat
  pe_attr :: perf_event_attr
  pe_enabled :: bool

record task_struct =
  task_tgid :: int
  task_cpus :: "nat list"

text \<open>
  What the module calls and does not define.  One environment describes one invocation of
  an operation: which allocations succeed, what the event registrations return (by their
  position in the loop), what a watchpoint modification does, the current counter value,
  and what user memory reads deliver.
\<close>

record kenv =
  hw_breakpoint_init :: perf_event_attr
  zero_attr :: perf_event_attr
  perf_event_create_kernel_counter :: "perf_event_attr \<Rightarrow> int \<Rightarrow> errno + perf_event"
  register_bp :: "nat \<Rightarrow> perf_event_attr \<Rightarrow> errno + perf_event"
  register_wp :: "nat \<Rightarrow> perf_event_attr \<Rightarrow> errno + perf_event"
  modify_user_hw_breakpoint :: "perf_event \<Rightarrow> perf_event_attr \<Rightarrow> kret \<times> perf_event"
  perf_event_enable :: "perf_event \<Rightarrow> perf_event"
  perf_event_disable :: "perf_event \<Rightarrow> perf_event"
  perf_event_read_value :: "perf_event \<Rightarrow> u64"
  user_mode :: "pt_regs \<Rightarrow> bool"
  access_ok :: "u64 \<Rightarrow> nat \<Rightarrow> bool"
  read_frame_nofault :: "u64 \<Rightarrow> (u64 \<times> u64) option"
  copy_from_user_nofault :: "u64 \<Rightarrow> nat \<Rightarrow> u8 list \<times> bool"
  alloc_ok :: "nat \<Rightarrow> bool"
  find_task :: "int \<Rightarrow> task_struct option"
  nr_cpu_ids :: int
  memdup_user :: "u64 \<Rightarrow> u32 \<Rightarrow> errno + rd_wpctl_target list"
  copy_to_user_ok :: bool
  current_pid :: int
  current_tgid :: int

definition HW_BREAKPOINT_LEN_4 :: u32 where "HW_BREAKPOINT_LEN_4 = 4"
definition HW_BREAKPOINT_LEN_8 :: u32 where "HW_BREAKPOINT_LEN_8 = 8"
definition RD_IDLE_WP_LEN :: u32 where "RD_IDLE_WP_LEN = HW_BREAKPOINT_LEN_8"
definition RD_ARM64_MEM_ACCESS_RAW_EVENT :: u64 where "RD_ARM64_MEM_ACCESS_RAW_EVENT = 0x13"
definition RD_INVALID_INDEX :: u32 where "RD_INVALID_INDEX = NOT 0"

definition rd_init_bp_attr :: "kenv \<Rightarrow> u64 \<Rightarrow> u64 \<Rightarrow> perf_event_attr" where
  "rd_init_bp_attr env pc period = (hw_breakpoint_init env)
     \<lparr>attr_bp_type := HW_BREAKPOINT_X, attr_bp_addr := pc, attr_bp_len := HW_BREAKPOINT_LEN_4,
      attr_sample_period := period, attr_disabled := True,
      attr_exclude_kernel := True, attr_exclude_hv := True\<rparr>"

definition rd_init_wp_attr :: "kenv \<Rightarrow> u64 \<Rightarrow> u32 \<Rightarrow> perf_event_attr" where
  "rd_init_wp_attr env addr len = (hw_breakpoint_init env)
     \<lparr>attr_bp_type := HW_BREAKPOINT_RW, attr_bp_addr := addr, attr_bp_len := len,
      attr_sample_period := 1, attr_disabled := True,
      attr_exclude_kernel := True, attr_exclude_hv := True\<rparr>"

definition rd_init_mem_attr :: "kenv \<Rightarrow> perf_event_attr" where
  "rd_init_mem_attr env = (zero_attr env)
     \<lparr>attr_type := PERF_TYPE_RAW, attr_config := RD_ARM64_MEM_ACCESS_RAW_EVENT,
      attr_pinned := True, attr_disabled := True,
      attr_exclude_kernel := True, attr_exclude_hv := True\<rparr>"

subsection \<open>Targets, slots, table entries\<close>

record rd_target =
  tg_pc_offset :: u64
  tg_abs_pc :: u64
  tg_aggregated_samples :: u64
  tg_decode :: rd_wpctl_decode

datatype rd_wp_state = RD_WP_IDLE | RD_WP_ARMED

record rd_pair_hist_entry =
  ph_used :: bool
  ph_seed_context_id :: u32
  ph_reuse_context_id :: u32
  ph_seed_pc_offset :: u64
  ph_reuse_pc :: u64
  ph_buckets :: "u64 list"

record rd_context_entry =
  ce_used :: bool
  ce_depth :: u8
  ce_ips :: "u64 list"

record rd_wp_slot =
  wp_state :: rd_wp_state
  wp_idle_addr :: u64
  wp_seed_va :: u64
  wp_seed_access :: u64
  wp_seed_pc_offset :: u64
  wp_seed_context_id :: u32
  wp_access_size :: u32
  wp_target_index :: u32
  wp_generation :: u32
  wp_skip_first_hit :: u8
  wp_samples :: u64

definition zero_pair_entry :: rd_pair_hist_entry where
  "zero_pair_entry = \<lparr>ph_used = False, ph_seed_context_id = 0, ph_reuse_context_id = 0,
     ph_seed_pc_offset = 0, ph_reuse_pc = 0, ph_buckets = replicate RD_WPCTL_LOG2_BUCKETS 0\<rparr>"

definition zero_context_entry :: rd_context_entry where
  "zero_context_entry = \<lparr>ce_used = False, ce_depth = 0,
     ce_ips = replicate RD_WPCTL_MAX_CALLCHAIN_DEPTH 0\<rparr>"

definition zero_slot :: rd_wp_slot where
  "zero_slot = \<lparr>wp_state = RD_WP_IDLE, wp_idle_addr = 0, wp_seed_va = 0, wp_seed_access = 0,
     wp_seed_pc_offset = 0, wp_seed_context_id = 0, wp_access_size = 0, wp_target_index = 0,
     wp_generation = 0, wp_skip_first_hit = 0, wp_samples = 0\<rparr>"

subsection \<open>Thread context and session\<close>

record rd_thread_ctx =
  task :: "task_struct option"
  tid :: int
  cpu :: int
  active :: bool
  live_detached :: bool
  scratch_base :: u64
  scratch_stride :: u64
  live_refs :: nat
  live_refs_zero :: bool
  mem_event :: "perf_event option"
  bp_events :: "perf_event option list option"
  wp_events :: "perf_event option list option"
  log2_hist :: "u64 list option"
  pair_hist :: "rd_pair_hist_entry list option"
  contexts :: "rd_context_entry list option"
  dwarf_events :: "rd_wpctl_dwarf_event_req list option"
  wp_seed_dwarf_snapshots :: "rd_wpctl_dwarf_snapshot list option"
  wp_reuse_dwarf_snapshots :: "rd_wpctl_dwarf_snapshot list option"
  wp_slots :: "rd_wp_slot list option"
  candidate_samples :: u64
  reservoir_seen :: u64
  reservoir_accepted :: u64
  reservoir_rejected :: u64
  hits :: u64
  evictions :: u64
  dropped :: u64
  pair_hist_used :: u32
  pair_hist_dropped :: u64
  context_used :: u32
  context_dropped :: u64
  callchain_failed :: u64
  callchain_truncated :: u64
  dwarf_event_used :: u32
  dwarf_event_dropped :: u64
  dwarf_stack_copy_failed :: u64
  rng :: u64

record rd_session =
  threads :: "rd_thread_ctx list"
  owner_tgid :: int
  running :: bool
  configured :: bool
  targets_loaded :: bool
  wp_capacity :: u32
  callchain_mode :: u32
  dwarf_stack_bytes :: u32
  dwarf_event_capacity :: u32
  bp_sample_period :: u64
  target_count :: u32
  targets :: "rd_target list option"

text \<open>\<^verbatim>\<open>0x9e3779b97f4a7c15ULL ^ (u64)(u32)tid\<close>: the seed of a thread's random stream.\<close>

definition rd_rng_seed :: "int \<Rightarrow> u64" where
  "rd_rng_seed t = 0x9e3779b97f4a7c15 XOR ucast (word_of_int t :: u32)"

text \<open>\<^verbatim>\<open>rd_debug_take_token\<close>: the token counter after an attempt, run without contention.\<close>

definition rd_debug_take_token :: "int \<Rightarrow> bool \<times> int" where
  "rd_debug_take_token old = (if old \<le> 0 then (False, old) else (True, old - 1))"

lemma rd_debug_take_token_bounds:
  "0 \<le> old \<Longrightarrow> 0 \<le> snd (rd_debug_take_token old) \<and> snd (rd_debug_take_token old) \<le> old"
  by (auto simp: rd_debug_take_token_def)

end
