(* ===== verification/Callchain.thy ===== *)
theory Callchain
  imports Thread_State
begin

text \<open>
  Call-context capture in the hit path of \<^verbatim>\<open>kernel/rd_wpctl.c\<close>: the frame-pointer walk, the
  copy of the user stack in 256-byte chunks, the register and stack snapshot for offline
  DWARF unwinding, and the reservation of a raw-event slot.
\<close>

subsection \<open>The frame-pointer walk\<close>

record rd_callchain_key =
  key_depth :: u8
  key_ips :: "u64 list"

definition zero_key :: rd_callchain_key where
  "zero_key = \<lparr>key_depth = 0, key_ips = replicate RD_WPCTL_MAX_CALLCHAIN_DEPTH 0\<rparr>"

text \<open>
  The \<^verbatim>\<open>while\<close> loop: the instruction pointers collected so far (\<^verbatim>\<open>key->depth\<close> is their
  number) and the current frame pointer.  The Boolean of the result is the truncation mark
  set after the loop.  Frame pointers grow strictly, so the walk ends.
\<close>

function rd_unwind :: "(u64 \<Rightarrow> (u64 \<times> u64) option) \<Rightarrow> u64 list \<Rightarrow> u64 \<Rightarrow> u64 list \<times> bool" where
  "rd_unwind rd ips fp =
     (if length ips < RD_WPCTL_MAX_CALLCHAIN_DEPTH then
        (if fp = 0 then (ips, False)
         else if fp AND 7 \<noteq> 0 then (ips, False)
         else case rd fp of
             None \<Rightarrow> (ips, False)
           | Some (prev_fp, lr) \<Rightarrow>
               if lr = 0 then (ips, False)
               else let ips' = (if lr \<noteq> last ips then ips @ [lr] else ips)
                    in if prev_fp = 0 then (ips', False)
                       else if prev_fp \<le> fp then (ips', False)
                       else rd_unwind rd ips' prev_fp)
      else (ips, fp \<noteq> 0))"
  by pat_completeness auto
termination
proof (relation "measure (\<lambda>(rd, ips, fp). 2 ^ 64 - unat fp)", goal_cases)
  case (2 rd ips fp x prev_fp lr ips')
  then have "unat fp < unat prev_fp" by (simp add: word_less_nat_alt not_le)
  moreover have "unat prev_fp < 2 ^ 64" using unsigned_less [of prev_fp] by simp
  ultimately show ?case by simp
qed simp

declare rd_unwind.simps [simp del]

text \<open>\<^verbatim>\<open>access_ok\<close> and \<^verbatim>\<open>copy_from_user_nofault\<close> of a \<^verbatim>\<open>{prev_fp, lr}\<close> frame.\<close>

definition rd_read_frame :: "kenv \<Rightarrow> u64 \<Rightarrow> (u64 \<times> u64) option" where
  "rd_read_frame env fp = (if access_ok env fp 16 then read_frame_nofault env fp else None)"

definition rd_capture_callchain ::
  "kenv \<Rightarrow> rd_thread_ctx \<Rightarrow> pt_regs option \<Rightarrow> rd_thread_ctx \<times> rd_callchain_key" where
  "rd_capture_callchain env thread regs =
     (case regs of
        None \<Rightarrow> (thread\<lparr>callchain_failed := callchain_failed thread + 1\<rparr>, zero_key)
      | Some r \<Rightarrow>
          if \<not> user_mode env r \<or> regs_pc r = 0
          then (thread\<lparr>callchain_failed := callchain_failed thread + 1\<rparr>, zero_key)
          else let (ips, truncated) = rd_unwind (rd_read_frame env) [regs_pc r] (gregs r 29);
                   key = \<lparr>key_depth = of_nat (length ips),
                          key_ips = ips @ replicate (RD_WPCTL_MAX_CALLCHAIN_DEPTH - length ips) 0\<rparr>
               in (if truncated
                   then thread\<lparr>callchain_truncated := callchain_truncated thread + 1\<rparr>
                   else thread, key))"

subsection \<open>The user stack snapshot\<close>

text \<open>Overwrite the bytes at \<open>off\<close>, keeping the length of the buffer.\<close>

definition blit :: "'a list \<Rightarrow> nat \<Rightarrow> 'a list \<Rightarrow> 'a list" where
  "blit buf off bytes = take (length buf) (take off buf @ bytes @ drop (off + length bytes) buf)"

function rd_copy_chunks ::
  "kenv \<Rightarrow> u64 \<Rightarrow> nat \<Rightarrow> nat \<Rightarrow> u8 list \<Rightarrow> nat \<times> u8 list" where
  "rd_copy_chunks env sp want copied buf =
     (if copied < want then
        let chunk = min 256 (want - copied);
            src = sp + of_nat copied
        in if \<not> access_ok env src chunk then (copied, buf)
           else let (bytes, ok) = copy_from_user_nofault env src chunk
                in if \<not> ok then (copied, blit buf copied bytes)
                   else rd_copy_chunks env sp want (copied + chunk) (blit buf copied bytes)
      else (copied, buf))"
  by pat_completeness auto
termination
  by (relation "measure (\<lambda>(env, sp, want, copied, buf). want - copied)") auto

declare rd_copy_chunks.simps [simp del]

definition rd_copy_user_stack_snapshot ::
  "kenv \<Rightarrow> rd_session \<Rightarrow> rd_thread_ctx \<Rightarrow> rd_wpctl_dwarf_snapshot \<Rightarrow> u64 \<Rightarrow>
   rd_thread_ctx \<times> rd_wpctl_dwarf_snapshot" where
  "rd_copy_user_stack_snapshot env session thread snap sp =
     (let want = min (unat (dwarf_stack_bytes session)) RD_WPCTL_MAX_DWARF_STACK_BYTES;
          snap0 = snap\<lparr>snap_stack_base := sp, snap_stack_size := 0\<rparr>
      in if want = 0 \<or> sp = 0 then (thread, snap0)
         else let (copied, buf) = rd_copy_chunks env sp want 0 (snap_stack snap0)
              in (if copied = 0
                  then thread\<lparr>dwarf_stack_copy_failed := dwarf_stack_copy_failed thread + 1\<rparr>
                  else thread,
                  snap0\<lparr>snap_stack := buf, snap_stack_size := of_nat copied\<rparr>))"

definition rd_capture_dwarf_snapshot ::
  "kenv \<Rightarrow> rd_session \<Rightarrow> rd_thread_ctx \<Rightarrow> pt_regs option \<Rightarrow>
   rd_thread_ctx \<times> rd_wpctl_dwarf_snapshot" where
  "rd_capture_dwarf_snapshot env session thread regs =
     (case regs of
        None \<Rightarrow> (thread, zero_snapshot)
      | Some r \<Rightarrow>
          if \<not> user_mode env r then (thread, zero_snapshot)
          else rd_copy_user_stack_snapshot env session thread
                 (zero_snapshot\<lparr>snap_regs := map (gregs r) [0..<31], snap_sp := regs_sp r,
                                snap_pc := regs_pc r, snap_pstate := regs_pstate r\<rparr>)
                 (regs_sp r))"

definition rd_reserve_dwarf_event_locked ::
  "rd_session \<Rightarrow> rd_thread_ctx \<Rightarrow> rd_thread_ctx \<times> u32 option" where
  "rd_reserve_dwarf_event_locked session thread =
     (if callchain_mode session \<noteq> RD_CALLCHAIN_DWARF \<or> dwarf_events thread = None \<or>
         dwarf_event_capacity session = 0
      then (thread, None)
      else if dwarf_event_used thread \<ge> dwarf_event_capacity session
      then (thread\<lparr>dwarf_event_dropped := dwarf_event_dropped thread + 1\<rparr>, None)
      else (thread\<lparr>dwarf_event_used := dwarf_event_used thread + 1\<rparr>,
            Some (dwarf_event_used thread)))"

subsection \<open>Facts about the walk\<close>

definition chain_ok :: "u64 list \<Rightarrow> bool" where
  "chain_ok ips \<longleftrightarrow> ips \<noteq> [] \<and> length ips \<le> RD_WPCTL_MAX_CALLCHAIN_DEPTH \<and>
     0 \<notin> set ips \<and> distinct_adj ips"

lemma chain_ok_snoc:
  "chain_ok ips \<Longrightarrow> length ips < RD_WPCTL_MAX_CALLCHAIN_DEPTH \<Longrightarrow> lr \<noteq> 0 \<Longrightarrow> lr \<noteq> last ips
   \<Longrightarrow> chain_ok (ips @ [lr])"
  by (auto simp: chain_ok_def distinct_adj_append_iff)

text \<open>
  One step of the walk, with the stopping conditions gathered: either it stops, with the
  chain as it is or with one new entry, or it continues at a higher frame.
\<close>

lemma rd_unwind_cases:
  obtains (stop) "rd_unwind rd ips fp = (ips, False)"
  | (full) "rd_unwind rd ips fp = (ips, fp \<noteq> 0)" "RD_WPCTL_MAX_CALLCHAIN_DEPTH \<le> length ips"
  | (last) prev_fp lr where "rd fp = Some (prev_fp, lr)" "lr \<noteq> 0"
      "length ips < RD_WPCTL_MAX_CALLCHAIN_DEPTH"
      "rd_unwind rd ips fp = ((if lr \<noteq> last ips then ips @ [lr] else ips), False)"
  | (next_frame) prev_fp lr where "rd fp = Some (prev_fp, lr)" "lr \<noteq> 0"
      "length ips < RD_WPCTL_MAX_CALLCHAIN_DEPTH" "fp \<noteq> 0" "fp AND 7 = 0"
      "prev_fp \<noteq> 0" "fp < prev_fp"
      "rd_unwind rd ips fp = rd_unwind rd (if lr \<noteq> last ips then ips @ [lr] else ips) prev_fp"
proof -
  note eq = rd_unwind.simps [of rd ips fp]
  show thesis
  proof (cases "length ips < RD_WPCTL_MAX_CALLCHAIN_DEPTH")
    case False
    with eq full show ?thesis by (simp add: not_less)
  next
    case short: True
    show ?thesis
    proof (cases "fp = 0 \<or> fp AND 7 \<noteq> 0 \<or> rd fp = None \<or> snd (the (rd fp)) = 0")
      case True
      have "rd_unwind rd ips fp = (ips, False)"
        by (subst eq) (use short True in \<open>auto split: option.splits\<close>)
      then show ?thesis by (rule stop)
    next
      case False
      then obtain prev_fp lr where rd: "rd fp = Some (prev_fp, lr)" "lr \<noteq> 0" and fp: "fp \<noteq> 0" "fp AND 7 = 0"
        by auto
      show ?thesis
      proof (cases "prev_fp = 0 \<or> prev_fp \<le> fp")
        case True
        show ?thesis
          by (rule last [OF rd short]) (subst eq, use short True fp rd in auto)
      next
        case False
        then have above: "prev_fp \<noteq> 0" "fp < prev_fp" by auto
        show ?thesis
          by (rule next_frame [OF rd short fp above]) (subst eq, use short False fp rd in auto)
      qed
    qed
  qed
qed

lemma rd_unwind_chain_ok:
  "chain_ok ips \<Longrightarrow> chain_ok (fst (rd_unwind rd ips fp)) \<and> hd (fst (rd_unwind rd ips fp)) = hd ips"
proof (induction rd ips fp rule: rd_unwind.induct)
  case (1 rd ips fp)
  have step: "chain_ok (if lr \<noteq> last ips then ips @ [lr] else ips)"
    "hd (if lr \<noteq> last ips then ips @ [lr] else ips) = hd ips"
    if "lr \<noteq> 0" "length ips < RD_WPCTL_MAX_CALLCHAIN_DEPTH" for lr
    using that "1.prems" chain_ok_snoc [of ips lr] by (auto simp: chain_ok_def)
  show ?case
  proof (cases rd fp ips rule: rd_unwind_cases)
    case stop
    with "1.prems" show ?thesis by simp
  next
    case full
    with "1.prems" show ?thesis by simp
  next
    case (last prev_fp lr)
    with step [of lr] show ?thesis by simp
  next
    case (next_frame prev_fp lr)
    then show ?thesis
      using "1.IH" [of "(prev_fp, lr)" prev_fp lr] step [of lr] by (simp add: not_le)
  qed
qed

lemma rd_unwind_truncated:
  "snd (rd_unwind rd ips fp) \<Longrightarrow> chain_ok ips \<Longrightarrow>
   length (fst (rd_unwind rd ips fp)) = RD_WPCTL_MAX_CALLCHAIN_DEPTH"
proof (induction rd ips fp rule: rd_unwind.induct)
  case (1 rd ips fp)
  show ?case
  proof (cases rd fp ips rule: rd_unwind_cases)
    case full
    with "1.prems" show ?thesis by (simp add: chain_ok_def)
  next
    case (next_frame prev_fp lr)
    moreover have "chain_ok (if lr \<noteq> last ips then ips @ [lr] else ips)"
      using next_frame "1.prems" chain_ok_snoc [of ips lr] by simp
    ultimately show ?thesis
      using "1.IH" [of "(prev_fp, lr)" prev_fp lr] "1.prems" by (simp add: not_le)
  qed (use "1.prems" in simp_all)
qed

subsection \<open>Facts about the stack copy\<close>

lemma length_blit [simp]: "length (blit buf off bytes) = length buf"
  by (simp add: blit_def)

lemma take_blit:
  "off + length bytes \<le> length buf \<Longrightarrow>
   take (off + length bytes) (blit buf off bytes) = take off buf @ bytes"
  by (cases bytes) (auto simp: blit_def min_def)

text \<open>
  What the module relies on in \<^verbatim>\<open>copy_from_user_nofault\<close>: a successful copy of \<open>n\<close> bytes
  delivers the \<open>n\<close> bytes of user memory at that address; a failed one wrote at most \<open>n\<close>.
\<close>

definition copy_reads :: "kenv \<Rightarrow> (u64 \<Rightarrow> u8) \<Rightarrow> bool" where
  "copy_reads env um \<longleftrightarrow>
     (\<forall>a n bytes ok. copy_from_user_nofault env a n = (bytes, ok) \<longrightarrow>
        length bytes \<le> n \<and> (ok \<longrightarrow> bytes = map (\<lambda>k. um (a + of_nat k)) [0..<n]))"

lemma copy_readsD:
  "copy_reads env um \<Longrightarrow> copy_from_user_nofault env a n = (bytes, True) \<Longrightarrow>
   bytes = map (\<lambda>k. um (a + of_nat k)) [0..<n]"
  "copy_reads env um \<Longrightarrow> copy_from_user_nofault env a n = (bytes, ok) \<Longrightarrow> length bytes \<le> n"
  by (auto simp: copy_reads_def)

text \<open>Whether the chunk that starts at byte \<open>k\<close> of the stack can be read.\<close>

definition chunk_readable :: "kenv \<Rightarrow> u64 \<Rightarrow> nat \<Rightarrow> nat \<Rightarrow> bool" where
  "chunk_readable env sp want k \<longleftrightarrow>
     (let src = sp + of_nat k; chunk = min 256 (want - k)
      in access_ok env src chunk \<and> snd (copy_from_user_nofault env src chunk))"

lemma rd_copy_chunks_cases:
  obtains (finish) "want \<le> copied" "rd_copy_chunks env sp want copied buf = (copied, buf)"
  | (stop) buf' where "copied < want" "\<not> chunk_readable env sp want copied"
      "rd_copy_chunks env sp want copied buf = (copied, buf')"
      "length buf' = length buf" "take copied buf' = take copied buf"
  | (more) bytes where "copied < want" "access_ok env (sp + of_nat copied) (min 256 (want - copied))"
      "copy_from_user_nofault env (sp + of_nat copied) (min 256 (want - copied)) = (bytes, True)"
      "rd_copy_chunks env sp want copied buf =
       rd_copy_chunks env sp want (copied + min 256 (want - copied)) (blit buf copied bytes)"
proof -
  let ?src = "sp + of_nat copied" and ?chunk = "min 256 (want - copied)"
  note eq = rd_copy_chunks.simps [of env sp want copied buf]
  obtain bytes ok where c: "copy_from_user_nofault env ?src ?chunk = (bytes, ok)" by fastforce
  consider "want \<le> copied" | "copied < want" "\<not> access_ok env ?src ?chunk"
    | "copied < want" "access_ok env ?src ?chunk" "\<not> ok" | "copied < want" "access_ok env ?src ?chunk" "ok"
    by linarith
  then show thesis
  proof cases
    case 1
    then show ?thesis by (intro finish) (simp_all add: eq)
  next
    case 2
    then show ?thesis by (intro stop [of buf]) (simp_all add: eq chunk_readable_def Let_def)
  next
    case 3
    then have "rd_copy_chunks env sp want copied buf = (copied, blit buf copied bytes)"
      by (simp add: eq c Let_def)
    moreover have "take copied (blit buf copied bytes) = take copied buf"
      by (simp add: blit_def min_def)
    ultimately show ?thesis
      using 3 c by (intro stop [of "blit buf copied bytes"]) (simp_all add: chunk_readable_def Let_def)
  next
    case 4
    with c show ?thesis by (intro more [of bytes]) (simp_all add: eq Let_def)
  qed
qed

text \<open>The copied bytes are the user's stack, and the copy stops only at an unreadable chunk.\<close>

definition copied_prefix ::
  "kenv \<Rightarrow> (u64 \<Rightarrow> u8) \<Rightarrow> u64 \<Rightarrow> nat \<Rightarrow> nat \<Rightarrow> u8 list \<Rightarrow> bool" where
  "copied_prefix env um sp want n buf \<longleftrightarrow>
     n \<le> want \<and> take n buf = map (\<lambda>k. um (sp + of_nat k)) [0..<n] \<and>
     (n = want \<or> (256 dvd n \<and> \<not> chunk_readable env sp want n))"

lemma map_upt_append_shift:
  "map f [0..<n] @ map (\<lambda>k. f (n + k)) [0..<m] = map f [0..<n + m]"
  by (rule nth_equalityI) (auto simp: nth_append)

lemma rd_copy_chunks_spec:
  "\<lbrakk>copy_reads env um; rd_copy_chunks env sp want copied buf = (n, buf'); copied \<le> want;
    want \<le> length buf; take copied buf = map (\<lambda>k. um (sp + of_nat k)) [0..<copied];
    256 dvd copied\<rbrakk>
   \<Longrightarrow> length buf' = length buf \<and> copied_prefix env um sp want n buf'"
proof (induction env sp want copied buf rule: rd_copy_chunks.induct)
  case (1 env sp want copied buf)
  note prems = "1.prems"
  show ?case
  proof (cases rule: rd_copy_chunks_cases [of want copied env sp buf])
    case finish
    with prems show ?thesis by (auto simp: copied_prefix_def)
  next
    case (stop buf'')
    with prems show ?thesis by (auto simp: copied_prefix_def)
  next
    case (more bytes)
    let ?c = "min 256 (want - copied)"
    have b: "bytes = map (\<lambda>k. um (sp + of_nat (copied + k))) [0..<?c]"
      using copy_readsD(1) [OF prems(1) more(3)] by (simp add: add.assoc)
    then have "take (copied + ?c) (blit buf copied bytes) = take copied buf @ bytes"
      using take_blit [of copied bytes buf] prems(3,4) by simp
    also have "\<dots> = map (\<lambda>k. um (sp + of_nat k)) [0..<copied + ?c]"
      unfolding prems(5) b by (rule map_upt_append_shift)
    finally have pre: "take (copied + ?c) (blit buf copied bytes) =
      map (\<lambda>k. um (sp + of_nat k)) [0..<copied + ?c]" .
    show ?thesis
    proof (cases "want - copied < 256")
      case True
      then have w: "copied + ?c = want" using more(1) by simp
      with more(4) have "rd_copy_chunks env sp want copied buf = (want, blit buf copied bytes)"
        by (simp add: rd_copy_chunks.simps)
      with prems pre w show ?thesis by (auto simp: copied_prefix_def)
    next
      case False
      then have c: "?c = 256" by simp
      show ?thesis
        using "1.IH" [of ?c "sp + of_nat copied" "(bytes, True)" bytes True]
          prems more pre c by (simp add: dvd_add)
    qed
  qed
qed

end
