(* ===== verification/Tables.thy ===== *)
theory Tables
  imports Callchain
begin

text \<open>
  The two fixed-capacity tables of a thread context (\<^verbatim>\<open>kernel/rd_wpctl.c\<close>): the interning of
  call contexts and the use-reuse pair histogram.  Both are scanned linearly, both only grow
  between resets.  What a client may rely on is the contract of the locale \<open>keyed_table\<close>;
  it is proved once there and obtained for each table by interpretation.
\<close>

subsection \<open>Context interning\<close>

definition context_hit :: "rd_callchain_key \<Rightarrow> rd_context_entry \<Rightarrow> bool" where
  "context_hit key e \<longleftrightarrow> ce_depth e = key_depth key \<and>
     take (unat (key_depth key)) (ce_ips e) = take (unat (key_depth key)) (key_ips key)"

definition context_fill :: "rd_callchain_key \<Rightarrow> rd_context_entry \<Rightarrow> rd_context_entry" where
  "context_fill key e = e\<lparr>ce_used := True, ce_depth := key_depth key,
     ce_ips := take (unat (key_depth key)) (key_ips key) @ drop (unat (key_depth key)) (ce_ips e)\<rparr>"

definition rd_get_context_id_locked ::
  "rd_thread_ctx \<Rightarrow> rd_callchain_key \<Rightarrow> rd_thread_ctx \<times> u32" where
  "rd_get_context_id_locked thread key =
     (case contexts thread of
        None \<Rightarrow> (thread\<lparr>context_dropped := context_dropped thread + 1\<rparr>, 0)
      | Some cs \<Rightarrow>
          if key_depth key = 0 then (thread\<lparr>context_dropped := context_dropped thread + 1\<rparr>, 0)
          else case scan_table ce_used (context_hit key) cs 0 None of
              Found i \<Rightarrow> (thread, of_nat (i + 1))
            | TableFull \<Rightarrow> (thread\<lparr>context_dropped := context_dropped thread + 1\<rparr>, 0)
            | FirstFree i \<Rightarrow>
                (thread\<lparr>contexts := Some (cs[i := context_fill key (cs ! i)]),
                        context_used := context_used thread + 1\<rparr>, of_nat (i + 1)))"

subsection \<open>The pair histogram\<close>

definition pair_hit :: "u64 \<Rightarrow> u32 \<Rightarrow> u64 \<Rightarrow> u32 \<Rightarrow> rd_pair_hist_entry \<Rightarrow> bool" where
  "pair_hit seed_pc_offset seed_context_id reuse_pc reuse_context_id e \<longleftrightarrow>
     ph_seed_pc_offset e = seed_pc_offset \<and> ph_seed_context_id e = seed_context_id \<and>
     ph_reuse_pc e = reuse_pc \<and> ph_reuse_context_id e = reuse_context_id"

definition pair_bump :: "nat \<Rightarrow> rd_pair_hist_entry \<Rightarrow> rd_pair_hist_entry" where
  "pair_bump b e = e\<lparr>ph_buckets := (ph_buckets e)[b := ph_buckets e ! b + 1]\<rparr>"

definition pair_fill ::
  "u64 \<Rightarrow> u32 \<Rightarrow> u64 \<Rightarrow> u32 \<Rightarrow> nat \<Rightarrow> rd_pair_hist_entry \<Rightarrow> rd_pair_hist_entry" where
  "pair_fill seed_pc_offset seed_context_id reuse_pc reuse_context_id b e =
     e\<lparr>ph_used := True, ph_seed_context_id := seed_context_id,
       ph_reuse_context_id := reuse_context_id, ph_seed_pc_offset := seed_pc_offset,
       ph_reuse_pc := reuse_pc, ph_buckets := (ph_buckets e)[b := 1]\<rparr>"

definition rd_add_pair_hist_locked ::
  "rd_thread_ctx \<Rightarrow> u64 \<Rightarrow> u32 \<Rightarrow> u64 \<Rightarrow> u32 \<Rightarrow> u32 \<Rightarrow> rd_thread_ctx" where
  "rd_add_pair_hist_locked thread seed_pc_offset seed_context_id reuse_pc reuse_context_id bucket =
     (case pair_hist thread of
        None \<Rightarrow> thread\<lparr>pair_hist_dropped := pair_hist_dropped thread + 1\<rparr>
      | Some ps \<Rightarrow>
          if reuse_pc = 0 \<or> unat bucket \<ge> RD_WPCTL_LOG2_BUCKETS
          then thread\<lparr>pair_hist_dropped := pair_hist_dropped thread + 1\<rparr>
          else case scan_table ph_used
                      (pair_hit seed_pc_offset seed_context_id reuse_pc reuse_context_id) ps 0 None of
              Found i \<Rightarrow> thread\<lparr>pair_hist := Some (ps[i := pair_bump (unat bucket) (ps ! i)])\<rparr>
            | TableFull \<Rightarrow> thread\<lparr>pair_hist_dropped := pair_hist_dropped thread + 1\<rparr>
            | FirstFree i \<Rightarrow>
                thread\<lparr>pair_hist := Some (ps[i := pair_fill seed_pc_offset seed_context_id
                          reuse_pc reuse_context_id (unat bucket) (ps ! i)]),
                       pair_hist_used := pair_hist_used thread + 1\<rparr>)"

subsection \<open>The contract of a keyed table\<close>

text \<open>No two used entries have the same key.\<close>

definition keys_distinct :: "('e \<Rightarrow> bool) \<Rightarrow> ('e \<Rightarrow> 'k) \<Rightarrow> 'e list \<Rightarrow> bool" where
  "keys_distinct used key es \<longleftrightarrow>
     (\<forall>i < length es. \<forall>j < length es. used (es ! i) \<longrightarrow> used (es ! j) \<longrightarrow>
        key (es ! i) = key (es ! j) \<longrightarrow> i = j)"

locale keyed_table =
  fixes used :: "'e \<Rightarrow> bool"
    and key :: "'e \<Rightarrow> 'k"
    and fill :: "'k \<Rightarrow> 'e \<Rightarrow> 'e"
    and okk :: "'k \<Rightarrow> bool"
    and oke :: "'e \<Rightarrow> bool"
  assumes used_fill: "used (fill k e)"
    and key_fill: "okk k \<Longrightarrow> oke e \<Longrightarrow> key (fill k e) = k"
    and oke_fill: "okk k \<Longrightarrow> oke e \<Longrightarrow> oke (fill k e)"
begin

lemma lookup_used:
  assumes "keys_distinct used key es" "i < length es" "used (es ! i)" "key (es ! i) = k"
  shows "scan_table used (\<lambda>e. key e = k) es 0 None = Found i"
proof (cases "scan_table used (\<lambda>e. key e = k) es 0 None")
  case (Found j)
  with scan_table_Found [OF Found] assms show ?thesis
    by (auto simp: keys_distinct_def)
next
  case (FirstFree j)
  with scan_table_FirstFree(3) [OF FirstFree, of "es ! i"] assms show ?thesis by simp
next
  case TableFull
  with scan_table_TableFull(2) [OF TableFull, of "es ! i"] assms show ?thesis by simp
qed

lemma fill_distinct:
  assumes "scan_table used (\<lambda>e. key e = k) es 0 None = FirstFree i"
    and "keys_distinct used key es" "okk k" "\<forall>e\<in>set es. oke e"
  shows "keys_distinct used key (es[i := fill k (es ! i)])"
proof -
  note free = scan_table_FirstFree [OF assms(1)]
  have new: "key (fill k (es ! i)) = k" using free(1) assms(3,4) key_fill by simp
  have other: "key (es ! j) \<noteq> k" if "j < length es" "used (es ! j)" for j
    using free(3) [of "es ! j"] that by simp
  show ?thesis
    unfolding keys_distinct_def
  proof (intro allI impI)
    fix a b
    assume ab: "a < length (es[i := fill k (es ! i)])" "b < length (es[i := fill k (es ! i)])"
      "used (es[i := fill k (es ! i)] ! a)" "used (es[i := fill k (es ! i)] ! b)"
      "key (es[i := fill k (es ! i)] ! a) = key (es[i := fill k (es ! i)] ! b)"
    show "a = b"
    proof (cases "a = i \<or> b = i")
      case True
      then show ?thesis
        using ab new other [of a] other [of b] by (cases "a = b") (auto simp: nth_list_update)
    next
      case False
      then show ?thesis using ab assms(2) by (simp add: keys_distinct_def)
    qed
  qed
qed

text \<open>A key that was just entered is found where it was entered.\<close>

lemma lookup_filled:
  assumes "scan_table used (\<lambda>e. key e = k) es 0 None = FirstFree i"
    and "keys_distinct used key es" "okk k" "\<forall>e\<in>set es. oke e"
  shows "scan_table used (\<lambda>e. key e = k) (es[i := fill k (es ! i)]) 0 None = Found i"
proof (rule lookup_used)
  note free = scan_table_FirstFree [OF assms(1)]
  show "keys_distinct used key (es[i := fill k (es ! i)])"
    using assms by (rule fill_distinct)
  show "i < length (es[i := fill k (es ! i)])" using free(1) by simp
  show "used (es[i := fill k (es ! i)] ! i)" using free(1) used_fill by simp
  show "key (es[i := fill k (es ! i)] ! i) = k" using free(1) assms(3,4) key_fill by simp
qed

text \<open>Entering a key leaves every other lookup as it was.\<close>

lemma lookup_stable:
  assumes "scan_table used (\<lambda>e. key e = k) es 0 None = FirstFree i"
    and "keys_distinct used key es" "okk k" "\<forall>e\<in>set es. oke e"
    and "scan_table used (\<lambda>e. key e = k') es 0 None = Found j"
  shows "scan_table used (\<lambda>e. key e = k') (es[i := fill k (es ! i)]) 0 None = Found j"
proof (rule lookup_used)
  note free = scan_table_FirstFree [OF assms(1)] and found = scan_table_Found [OF assms(5)]
  have "i \<noteq> j" using free found by auto
  show "keys_distinct used key (es[i := fill k (es ! i)])"
    using assms(1-4) by (rule fill_distinct)
  show "j < length (es[i := fill k (es ! i)])" using found by simp
  show "used (es[i := fill k (es ! i)] ! j)" using found \<open>i \<noteq> j\<close> by simp
  show "key (es[i := fill k (es ! i)] ! j) = k'" using found \<open>i \<noteq> j\<close> by simp
qed

lemma fill_oke:
  assumes "\<forall>e\<in>set es. oke e" "okk k"
  shows "\<forall>e\<in>set (es[i := fill k (es ! i)]). oke e"
proof (cases "i < length es")
  case True
  then show ?thesis
    using assms oke_fill by (auto dest!: set_update_subset_insert [THEN subsetD])
qed (use assms in \<open>simp add: list_update_beyond\<close>)

lemma fill_count:
  assumes "scan_table used (\<lambda>e. key e = k) es 0 None = FirstFree i"
  shows "count_if used (es[i := fill k (es ! i)]) = Suc (count_if used es)"
  using scan_table_FirstFree [OF assms] by (simp add: count_if_update_gain used_fill)

end

subsection \<open>The context table implements the contract\<close>

type_synonym context_key = "u8 \<times> u64 list"

definition ce_key :: "rd_context_entry \<Rightarrow> context_key" where
  "ce_key e = (ce_depth e, take (unat (ce_depth e)) (ce_ips e))"

definition key_of :: "rd_callchain_key \<Rightarrow> context_key" where
  "key_of key = (key_depth key, take (unat (key_depth key)) (key_ips key))"

definition ctx_fill :: "context_key \<Rightarrow> rd_context_entry \<Rightarrow> rd_context_entry" where
  "ctx_fill k e = e\<lparr>ce_used := True, ce_depth := fst k,
     ce_ips := snd k @ drop (unat (fst k)) (ce_ips e)\<rparr>"

definition ctx_key_ok :: "context_key \<Rightarrow> bool" where
  "ctx_key_ok k \<longleftrightarrow> length (snd k) = unat (fst k) \<and> unat (fst k) \<le> RD_WPCTL_MAX_CALLCHAIN_DEPTH"

definition ctx_entry_ok :: "rd_context_entry \<Rightarrow> bool" where
  "ctx_entry_ok e \<longleftrightarrow> length (ce_ips e) = RD_WPCTL_MAX_CALLCHAIN_DEPTH"

interpretation ctx: keyed_table ce_used ce_key ctx_fill ctx_key_ok ctx_entry_ok
  by unfold_locales (auto simp: ctx_fill_def ce_key_def ctx_key_ok_def ctx_entry_ok_def)

lemma context_hit_eq: "context_hit key = (\<lambda>e. ce_key e = key_of key)"
  by (auto simp: context_hit_def ce_key_def key_of_def fun_eq_iff)

lemma context_fill_eq: "context_fill key = ctx_fill (key_of key)"
  by (simp add: context_fill_def ctx_fill_def key_of_def fun_eq_iff)

definition callchain_key_ok :: "rd_callchain_key \<Rightarrow> bool" where
  "callchain_key_ok key \<longleftrightarrow> length (key_ips key) = RD_WPCTL_MAX_CALLCHAIN_DEPTH \<and>
     unat (key_depth key) \<le> RD_WPCTL_MAX_CALLCHAIN_DEPTH"

lemma key_of_ok [simp]: "callchain_key_ok key \<Longrightarrow> ctx_key_ok (key_of key)"
  by (simp add: callchain_key_ok_def ctx_key_ok_def key_of_def)

lemma zero_key_ok [simp]: "callchain_key_ok zero_key"
  by (simp add: callchain_key_ok_def zero_key_def uapi_consts)

lemma rd_capture_callchain_key_ok:
  "callchain_key_ok (snd (rd_capture_callchain env thread regs))"
proof (cases "\<exists>r. regs = Some r \<and> user_mode env r \<and> regs_pc r \<noteq> 0")
  case False
  then show ?thesis by (auto simp: rd_capture_callchain_def split: option.split)
next
  case True
  then obtain r where r: "regs = Some r" "user_mode env r" "regs_pc r \<noteq> 0" by blast
  let ?u = "rd_unwind (rd_read_frame env) [regs_pc r] (gregs r 29)"
  have "chain_ok [regs_pc r]" using r by (simp add: chain_ok_def uapi_consts)
  from rd_unwind_chain_ok [OF this] have "length (fst ?u) \<le> 8"
    by (simp add: chain_ok_def uapi_consts)
  then show ?thesis
    using r by (auto simp: rd_capture_callchain_def callchain_key_ok_def uapi_consts unat_of_nat
        split: prod.split)
qed

text \<open>The invariant of the context table.\<close>

definition contexts_ok :: "rd_thread_ctx \<Rightarrow> bool" where
  "contexts_ok t \<longleftrightarrow> (\<exists>cs. contexts t = Some cs \<and> length cs = RD_WPCTL_MAX_CONTEXTS \<and>
     (\<forall>e\<in>set cs. ctx_entry_ok e) \<and> keys_distinct ce_used ce_key cs \<and>
     unat (context_used t) = count_if ce_used cs)"

lemma contexts_ok_cong:
  "contexts t' = contexts t \<Longrightarrow> context_used t' = context_used t \<Longrightarrow> contexts_ok t' = contexts_ok t"
  by (simp add: contexts_ok_def)

lemma rd_get_context_id_cases:
  assumes "contexts_ok t" "callchain_key_ok key" "key_depth key \<noteq> 0"
  obtains (found) cs i where "contexts t = Some cs" "i < length cs" "ce_used (cs ! i)"
      "ce_key (cs ! i) = key_of key" "rd_get_context_id_locked t key = (t, of_nat (i + 1))"
  | (full) cs where "contexts t = Some cs" "\<forall>e\<in>set cs. ce_used e \<and> ce_key e \<noteq> key_of key"
      "rd_get_context_id_locked t key = (t\<lparr>context_dropped := context_dropped t + 1\<rparr>, 0)"
  | (new) cs i where "contexts t = Some cs"
      "scan_table ce_used (\<lambda>e. ce_key e = key_of key) cs 0 None = FirstFree i"
      "rd_get_context_id_locked t key =
         (t\<lparr>contexts := Some (cs[i := ctx_fill (key_of key) (cs ! i)]),
            context_used := context_used t + 1\<rparr>, of_nat (i + 1))"
proof -
  from assms(1) obtain cs where cs: "contexts t = Some cs" by (auto simp: contexts_ok_def)
  show thesis
  proof (cases "scan_table ce_used (\<lambda>e. ce_key e = key_of key) cs 0 None")
    case (Found i)
    with cs assms(3) scan_table_Found [OF Found] show ?thesis
      by (intro found [of cs i]) (auto simp: rd_get_context_id_locked_def context_hit_eq)
  next
    case TableFull
    with cs assms(3) scan_table_TableFull [OF TableFull] show ?thesis
      by (intro full [of cs]) (auto simp: rd_get_context_id_locked_def context_hit_eq)
  next
    case (FirstFree i)
    with cs assms(3) show ?thesis
      by (intro new [of cs i])
         (auto simp: rd_get_context_id_locked_def context_hit_eq context_fill_eq)
  qed
qed

lemma rd_get_context_id_ok:
  assumes "contexts_ok t" "callchain_key_ok key"
  shows "contexts_ok (fst (rd_get_context_id_locked t key))"
proof (cases "key_depth key = 0")
  case True
  with assms(1) show ?thesis
    by (auto simp: rd_get_context_id_locked_def contexts_ok_def)
next
  case False
  from assms this show ?thesis
  proof (cases rule: rd_get_context_id_cases)
    case (new cs i)
    from assms(1) new(1) have inv: "length cs = RD_WPCTL_MAX_CONTEXTS" "\<forall>e\<in>set cs. ctx_entry_ok e"
      "keys_distinct ce_used ce_key cs" "unat (context_used t) = count_if ce_used cs"
      by (auto simp: contexts_ok_def)
    have "Suc (count_if ce_used cs) \<le> RD_WPCTL_MAX_CONTEXTS"
      using ctx.fill_count [OF new(2)] count_if_le_length [of ce_used "cs[i := ctx_fill (key_of key) (cs ! i)]"]
        inv(1) by simp
    then have "unat (context_used t + 1) = Suc (count_if ce_used cs)"
      using inv(4) by (simp add: uapi_consts unat_word_ariths)
    then show ?thesis
      using new inv assms(2) ctx.fill_distinct [OF new(2) inv(3)]
        ctx.fill_oke [OF inv(2) key_of_ok [OF assms(2)], of i] ctx.fill_count [OF new(2)]
      by (auto simp: contexts_ok_def)
  qed (use assms(1) in \<open>simp_all add: contexts_ok_def\<close>)
qed

text \<open>
  What an id stands for: the entry it names holds the chain, and entering the chain again
  finds the same entry.
\<close>

lemma rd_get_context_id_entry:
  assumes "contexts_ok t" "callchain_key_ok key" "rd_get_context_id_locked t key = (t', cid)" "cid \<noteq> 0"
  obtains cs i where "contexts t' = Some cs" "i < length cs" "cid = of_nat (i + 1)" "ce_used (cs ! i)"
    "ce_key (cs ! i) = key_of key" "rd_get_context_id_locked t' key = (t', cid)"
proof -
  have d: "key_depth key \<noteq> 0"
    using assms(3,4) by (auto simp: rd_get_context_id_locked_def split: option.splits)
  have ok: "contexts_ok t'" using rd_get_context_id_ok [OF assms(1,2)] assms(3) by simp
  have again: "rd_get_context_id_locked t' key = (t', of_nat (i + 1))"
    if "contexts t' = Some cs" "i < length cs" "ce_used (cs ! i)" "ce_key (cs ! i) = key_of key" for cs i
    using ctx.lookup_used [of cs i "key_of key"] that ok d
    by (simp add: rd_get_context_id_locked_def context_hit_eq contexts_ok_def)
  from assms(1,2) d show thesis
  proof (cases rule: rd_get_context_id_cases)
    case (found cs i)
    with assms(3) again [of cs i] show thesis by (intro that [of cs i]) simp_all
  next
    case (full cs)
    with assms(3,4) show thesis by simp
  next
    case (new cs i)
    note free = scan_table_FirstFree [OF new(2)]
    have e: "ctx_entry_ok (cs ! i)" using assms(1) new(1) free(1) by (simp add: contexts_ok_def)
    have "ce_key (ctx_fill (key_of key) (cs ! i)) = key_of key"
      using ctx.key_fill [OF key_of_ok [OF assms(2)] e] .
    moreover have "ce_used (ctx_fill (key_of key) (cs ! i))" by (rule ctx.used_fill)
    ultimately show thesis
      using new assms(3) free(1) again [of "cs[i := ctx_fill (key_of key) (cs ! i)]" i]
      by (intro that [of "cs[i := ctx_fill (key_of key) (cs ! i)]" i]) auto
  qed
qed

text \<open>Only the table and its two counters change.\<close>

lemma rd_get_context_id_frame:
  "fst (rd_get_context_id_locked t key) =
     t\<lparr>contexts := contexts (fst (rd_get_context_id_locked t key)),
       context_used := context_used (fst (rd_get_context_id_locked t key)),
       context_dropped := context_dropped (fst (rd_get_context_id_locked t key))\<rparr>"
  by (cases t) (simp add: rd_get_context_id_locked_def split: option.split scan_result.split)

subsection \<open>The pair table implements the contract\<close>

type_synonym pair_key = "u64 \<times> u32 \<times> u64 \<times> u32"

definition ph_key :: "rd_pair_hist_entry \<Rightarrow> pair_key" where
  "ph_key e = (ph_seed_pc_offset e, ph_seed_context_id e, ph_reuse_pc e, ph_reuse_context_id e)"

definition pair_fill_key :: "nat \<Rightarrow> pair_key \<Rightarrow> rd_pair_hist_entry \<Rightarrow> rd_pair_hist_entry" where
  "pair_fill_key b k e = (case k of (sp, sc, rp, rc) \<Rightarrow> pair_fill sp sc rp rc b e)"

definition pair_entry_ok :: "rd_pair_hist_entry \<Rightarrow> bool" where
  "pair_entry_ok e \<longleftrightarrow> length (ph_buckets e) = RD_WPCTL_LOG2_BUCKETS"

interpretation pair: keyed_table ph_used ph_key "pair_fill_key b" "\<lambda>_. True" pair_entry_ok for b
  by unfold_locales (auto simp: pair_fill_key_def pair_fill_def ph_key_def pair_entry_ok_def)

lemma pair_hit_eq: "pair_hit sp sc rp rc = (\<lambda>e. ph_key e = (sp, sc, rp, rc))"
  by (auto simp: pair_hit_def ph_key_def fun_eq_iff)

lemma pair_bump_simps [simp]:
  "ph_used (pair_bump b e) = ph_used e" "ph_key (pair_bump b e) = ph_key e"
  "pair_entry_ok (pair_bump b e) = pair_entry_ok e"
  by (simp_all add: pair_bump_def ph_key_def pair_entry_ok_def)

text \<open>The sum of all counts of a pair table.\<close>

definition pair_total :: "rd_pair_hist_entry list \<Rightarrow> u64" where
  "pair_total ps = sum_list (map (\<lambda>e. sum_list (ph_buckets e)) ps)"

lemma pair_total_update:
  "i < length ps \<Longrightarrow> pair_total (ps[i := e]) =
     pair_total ps - sum_list (ph_buckets (ps ! i)) + sum_list (ph_buckets e)"
  by (simp add: pair_total_def map_update sum_list_update_word)

definition pairs_ok :: "rd_thread_ctx \<Rightarrow> bool" where
  "pairs_ok t \<longleftrightarrow> (\<exists>ps. pair_hist t = Some ps \<and> length ps = RD_WPCTL_MAX_PAIR_HISTS \<and>
     (\<forall>e\<in>set ps. pair_entry_ok e \<and> (\<not> ph_used e \<longrightarrow> set (ph_buckets e) \<subseteq> {0})) \<and>
     keys_distinct ph_used ph_key ps \<and> unat (pair_hist_used t) = count_if ph_used ps)"

lemma sum_list_zero_set: "set xs \<subseteq> {0::'a::len word} \<Longrightarrow> sum_list xs = 0"
  by (induction xs) auto

lemma nth_zero_set: "set xs \<subseteq> {c} \<Longrightarrow> i < length xs \<Longrightarrow> xs ! i = c"
  using nth_mem by blast

lemma keys_distinct_bump:
  assumes "keys_distinct ph_used ph_key ps"
  shows "keys_distinct ph_used ph_key (ps[i := pair_bump b (ps ! i)])"
proof -
  have "ph_used (ps[i := pair_bump b (ps ! i)] ! j) = ph_used (ps ! j)"
    "ph_key (ps[i := pair_bump b (ps ! i)] ! j) = ph_key (ps ! j)" if "j < length ps" for j
    using that by (cases "j = i"; simp)+
  with assms show ?thesis by (simp add: keys_distinct_def)
qed

lemma rd_add_pair_hist_cases:
  assumes "pairs_ok t" "unat bucket < RD_WPCTL_LOG2_BUCKETS"
  obtains (drop) "rd_add_pair_hist_locked t sp sc rp rc bucket =
      t\<lparr>pair_hist_dropped := pair_hist_dropped t + 1\<rparr>"
  | (bump) ps i where "pair_hist t = Some ps" "i < length ps" "ph_used (ps ! i)"
      "ph_key (ps ! i) = (sp, sc, rp, rc)"
      "rd_add_pair_hist_locked t sp sc rp rc bucket =
        t\<lparr>pair_hist := Some (ps[i := pair_bump (unat bucket) (ps ! i)])\<rparr>"
  | (new) ps i where "pair_hist t = Some ps"
      "scan_table ph_used (\<lambda>e. ph_key e = (sp, sc, rp, rc)) ps 0 None = FirstFree i"
      "rd_add_pair_hist_locked t sp sc rp rc bucket =
        t\<lparr>pair_hist := Some (ps[i := pair_fill_key (unat bucket) (sp, sc, rp, rc) (ps ! i)]),
          pair_hist_used := pair_hist_used t + 1\<rparr>"
proof -
  from assms(1) obtain ps where ps: "pair_hist t = Some ps" by (auto simp: pairs_ok_def)
  show thesis
  proof (cases "rp = 0")
    case True
    with ps show ?thesis by (intro drop) (simp add: rd_add_pair_hist_locked_def)
  next
    case False
    note def = rd_add_pair_hist_locked_def pair_hit_eq pair_fill_key_def
    show ?thesis
    proof (cases "scan_table ph_used (\<lambda>e. ph_key e = (sp, sc, rp, rc)) ps 0 None")
      case (Found i)
      with ps False assms(2) scan_table_Found [OF Found] show ?thesis
        by (intro bump [of ps i]) (simp_all add: def not_le)
    next
      case (FirstFree i)
      with ps False assms(2) show ?thesis
        by (intro new [of ps i]) (simp_all add: def not_le)
    next
      case TableFull
      with ps False assms(2) show ?thesis by (intro drop) (simp add: def not_le)
    qed
  qed
qed

lemma rd_add_pair_hist_ok:
  assumes "pairs_ok t" "unat bucket < RD_WPCTL_LOG2_BUCKETS"
  shows "pairs_ok (rd_add_pair_hist_locked t sp sc rp rc bucket)"
  using assms
proof (cases rule: rd_add_pair_hist_cases [of t bucket sp sc rp rc])
  case drop
  with assms(1) show ?thesis by (simp add: pairs_ok_def)
next
  case (bump ps i)
  with assms(1) show ?thesis
    by (auto simp: pairs_ok_def keys_distinct_bump count_if_update_same
        dest!: set_update_subset_insert [THEN subsetD])
next
  case (new ps i)
  let ?e = "pair_fill_key (unat bucket) (sp, sc, rp, rc) (ps ! i)"
  from assms(1) new(1) have inv: "length ps = RD_WPCTL_MAX_PAIR_HISTS" "\<forall>e\<in>set ps. pair_entry_ok e"
    "\<forall>e\<in>set ps. \<not> ph_used e \<longrightarrow> set (ph_buckets e) \<subseteq> {0}"
    "keys_distinct ph_used ph_key ps" "unat (pair_hist_used t) = count_if ph_used ps"
    by (auto simp: pairs_ok_def)
  have "Suc (count_if ph_used ps) \<le> RD_WPCTL_MAX_PAIR_HISTS"
    using pair.fill_count [OF new(2), of "unat bucket"]
      count_if_le_length [of ph_used "ps[i := ?e]"] inv(1) by simp
  then have used: "unat (pair_hist_used t + 1) = Suc (count_if ph_used ps)"
    using inv(5) by (simp add: uapi_consts unat_word_ariths)
  have zero: "\<forall>e\<in>set (ps[i := ?e]). \<not> ph_used e \<longrightarrow> set (ph_buckets e) \<subseteq> {0}"
    using inv(3) pair.used_fill by (auto dest!: set_update_subset_insert [THEN subsetD])
  show ?thesis
    using new(3) inv(1) used zero pair.fill_distinct [OF new(2) inv(4) TrueI inv(2)]
      pair.fill_oke [OF inv(2) TrueI, of i "unat bucket" "(sp, sc, rp, rc)"]
      pair.fill_count [OF new(2), of "unat bucket"]
    by (auto simp: pairs_ok_def)
qed

text \<open>Every call adds exactly one: to the counts of the table or to the dropped counter.\<close>

lemma rd_add_pair_hist_total:
  assumes "pairs_ok t" "unat bucket < RD_WPCTL_LOG2_BUCKETS"
  shows "pair_total (the (pair_hist (rd_add_pair_hist_locked t sp sc rp rc bucket))) +
         pair_hist_dropped (rd_add_pair_hist_locked t sp sc rp rc bucket) =
         pair_total (the (pair_hist t)) + pair_hist_dropped t + 1"
  using assms
proof (cases rule: rd_add_pair_hist_cases [of t bucket sp sc rp rc])
  case (bump ps i)
  with assms have "length (ph_buckets (ps ! i)) = RD_WPCTL_LOG2_BUCKETS"
    by (auto simp: pairs_ok_def pair_entry_ok_def)
  with bump assms(2) show ?thesis
    by (simp add: pair_total_update pair_bump_def sum_list_incr_word)
next
  case (new ps i)
  note free = scan_table_FirstFree [OF new(2)]
  with assms(1) new(1) have b: "length (ph_buckets (ps ! i)) = RD_WPCTL_LOG2_BUCKETS"
    "set (ph_buckets (ps ! i)) \<subseteq> {0}"
    by (auto simp: pairs_ok_def pair_entry_ok_def)
  then have "sum_list (ph_buckets (ps ! i)) = 0" "ph_buckets (ps ! i) ! unat bucket = 0"
    using assms(2) by (auto simp: sum_list_zero_set nth_zero_set)
  with new b free assms(2) show ?thesis
    by (simp add: pair_total_update pair_fill_key_def pair_fill_def sum_list_update_word)
qed simp

lemma rd_add_pair_hist_frame:
  "rd_add_pair_hist_locked t sp sc rp rc b =
     t\<lparr>pair_hist := pair_hist (rd_add_pair_hist_locked t sp sc rp rc b),
       pair_hist_used := pair_hist_used (rd_add_pair_hist_locked t sp sc rp rc b),
       pair_hist_dropped := pair_hist_dropped (rd_add_pair_hist_locked t sp sc rp rc b)\<rparr>"
  by (cases t) (simp add: rd_add_pair_hist_locked_def split: option.split scan_result.split)

end
