(* ===== verification/Slots.thy ===== *)
theory Slots
  imports Tables
begin

text \<open>
  The watchpoint slots of a thread (\<^verbatim>\<open>kernel/rd_wpctl.c\<close>): enabling and disabling a thread's
  events, re-pointing a slot's hardware watchpoint, clearing a slot, resetting a thread, and
  the choice of the slot that receives a new candidate.  An operation that dereferences an
  array is partial: \<open>None\<close> is an invalid memory access.
\<close>

subsection \<open>Events\<close>

definition rd_read_mem_access :: "kenv \<Rightarrow> rd_thread_ctx \<Rightarrow> errno + u64" where
  "rd_read_mem_access env thread =
     (case mem_event thread of
        None \<Rightarrow> Inl EINVAL
      | Some ev \<Rightarrow> Inr (perf_event_read_value env ev))"

text \<open>Apply an operation to every event of the first \<open>n\<close> places of an event array.\<close>

definition events_apply ::
  "(perf_event \<Rightarrow> perf_event) \<Rightarrow> nat \<Rightarrow> perf_event option list option \<Rightarrow> perf_event option list option option" where
  "events_apply f n a =
     (if n = 0 then Some a
      else case a of None \<Rightarrow> None
           | Some evs \<Rightarrow> if n \<le> length evs
                          then Some (Some (map (map_option f) (take n evs) @ drop n evs))
                          else None)"

definition rd_enable_thread_events :: "kenv \<Rightarrow> rd_session \<Rightarrow> rd_thread_ctx \<Rightarrow> rd_thread_ctx option" where
  "rd_enable_thread_events env session thread =
     do {
       let t1 = thread\<lparr>mem_event := map_option (perf_event_enable env) (mem_event thread)\<rparr>;
       bps \<leftarrow> events_apply (perf_event_enable env) (unat (target_count session)) (bp_events t1);
       wps \<leftarrow> events_apply (perf_event_enable env) (unat (wp_capacity session)) (wp_events t1);
       Some (t1\<lparr>bp_events := bps, wp_events := wps\<rparr>)
     }"

definition rd_disable_thread_events :: "kenv \<Rightarrow> rd_session \<Rightarrow> rd_thread_ctx \<Rightarrow> rd_thread_ctx option" where
  "rd_disable_thread_events env session thread =
     do {
       wps \<leftarrow> events_apply (perf_event_disable env) (unat (wp_capacity session)) (wp_events thread);
       bps \<leftarrow> events_apply (perf_event_disable env) (unat (target_count session)) (bp_events thread);
       Some (thread\<lparr>wp_events := wps, bp_events := bps,
                    mem_event := map_option (perf_event_disable env) (mem_event thread)\<rparr>)
     }"

definition rd_modify_slot ::
  "kenv \<Rightarrow> rd_session \<Rightarrow> rd_thread_ctx \<Rightarrow> nat \<Rightarrow> u64 \<Rightarrow> u32 \<Rightarrow> (kret \<times> rd_thread_ctx) option" where
  "rd_modify_slot env session thread slot_index addr len =
     (if wp_events thread = None \<or> slot_index \<ge> unat (wp_capacity session)
      then Some (RetErr EINVAL, thread)
      else do {
        ev \<leftarrow> arr_get (wp_events thread) slot_index;
        case ev of
          None \<Rightarrow> Some (RetErr EINVAL, thread)
        | Some e \<Rightarrow>
            let attr0 = rd_init_wp_attr env addr len;
                attr = (if running session \<and> active thread then attr0\<lparr>attr_disabled := False\<rparr> else attr0);
                (ret, e') = modify_user_hw_breakpoint env e attr
            in do {
                 evs \<leftarrow> arr_set (wp_events thread) slot_index (Some e');
                 Some (ret, thread\<lparr>wp_events := evs\<rparr>)
               }
      })"

subsection \<open>Clearing and resetting\<close>

definition cleared_slot :: "rd_wp_slot \<Rightarrow> rd_wp_slot" where
  "cleared_slot sl = sl\<lparr>wp_state := RD_WP_IDLE, wp_seed_va := 0, wp_seed_access := 0,
     wp_seed_pc_offset := 0, wp_seed_context_id := 0, wp_access_size := 0, wp_target_index := 0,
     wp_skip_first_hit := 0, wp_samples := 1\<rparr>"

definition rd_clear_slot_metadata ::
  "rd_session \<Rightarrow> rd_thread_ctx \<Rightarrow> nat \<Rightarrow> rd_thread_ctx option" where
  "rd_clear_slot_metadata session thread slot_index =
     (if slot_index \<ge> unat (wp_capacity session) then Some thread
      else do {
        sl \<leftarrow> arr_get (wp_slots thread) slot_index;
        slots \<leftarrow> arr_set (wp_slots thread) slot_index (cleared_slot sl);
        let t1 = thread\<lparr>wp_slots := slots\<rparr>;
        if wp_seed_dwarf_snapshots t1 = None then Some t1
        else do {
          snaps \<leftarrow> arr_set (wp_seed_dwarf_snapshots t1) slot_index zero_snapshot;
          Some (t1\<lparr>wp_seed_dwarf_snapshots := snaps\<rparr>)
        }
      })"

text \<open>The first loop of \<^verbatim>\<open>rd_reset_thread_locked\<close>: park the slots \<open>i, i + 1, \<dots>\<close> (\<open>n\<close> of them).\<close>

fun rd_park_slots ::
  "kenv \<Rightarrow> rd_session \<Rightarrow> rd_thread_ctx \<Rightarrow> nat \<Rightarrow> nat \<Rightarrow> kret \<Rightarrow> (kret \<times> rd_thread_ctx) option" where
  "rd_park_slots env session thread i 0 ret = Some (ret, thread)"
| "rd_park_slots env session thread i (Suc n) ret =
     do {
       sl \<leftarrow> arr_get (wp_slots thread) i;
       (mod_ret, thread') \<leftarrow> rd_modify_slot env session thread i (wp_idle_addr sl) RD_IDLE_WP_LEN;
       rd_park_slots env session thread' (Suc i) n (first_err ret mod_ret)
     }"

text \<open>The last loop: clear slot \<open>i\<close> and set its generation to 0.\<close>

fun rd_clear_slots :: "rd_session \<Rightarrow> rd_thread_ctx \<Rightarrow> nat \<Rightarrow> nat \<Rightarrow> rd_thread_ctx option" where
  "rd_clear_slots session thread i 0 = Some thread"
| "rd_clear_slots session thread i (Suc n) =
     do {
       thread' \<leftarrow> rd_clear_slot_metadata session thread i;
       sl \<leftarrow> arr_get (wp_slots thread') i;
       slots \<leftarrow> arr_set (wp_slots thread') i (sl\<lparr>wp_generation := 0\<rparr>);
       rd_clear_slots session (thread'\<lparr>wp_slots := slots\<rparr>) (Suc i) n
     }"

text \<open>\<^verbatim>\<open>memset(array, 0, n * sizeof(*array))\<close>: a fault if the array is shorter than \<open>n\<close>.\<close>

definition arr_zero :: "'a \<Rightarrow> nat \<Rightarrow> 'a list option \<Rightarrow> 'a list option option" where
  "arr_zero z n a =
     (case a of None \<Rightarrow> Some None
      | Some xs \<Rightarrow> if n \<le> length xs then Some (Some (replicate n z @ drop n xs)) else None)"

definition rd_zero_counters :: "rd_thread_ctx \<Rightarrow> rd_thread_ctx" where
  "rd_zero_counters t = t\<lparr>candidate_samples := 0, reservoir_seen := 0, reservoir_accepted := 0,
     reservoir_rejected := 0, hits := 0, evictions := 0, dropped := 0, pair_hist_used := 0,
     pair_hist_dropped := 0, context_used := 0, context_dropped := 0, callchain_failed := 0,
     callchain_truncated := 0, dwarf_event_used := 0, dwarf_event_dropped := 0,
     dwarf_stack_copy_failed := 0, rng := rd_rng_seed (tid t)\<rparr>"

definition rd_zero_arrays :: "rd_session \<Rightarrow> rd_thread_ctx \<Rightarrow> rd_thread_ctx option" where
  "rd_zero_arrays session t =
     do {
       hist \<leftarrow> arr_zero 0 (unat (target_count session) * RD_WPCTL_LOG2_BUCKETS) (log2_hist t);
       pairs \<leftarrow> arr_zero zero_pair_entry RD_WPCTL_MAX_PAIR_HISTS (pair_hist t);
       ctxs \<leftarrow> arr_zero zero_context_entry RD_WPCTL_MAX_CONTEXTS (contexts t);
       devs \<leftarrow> arr_zero zero_dwarf_event (unat (dwarf_event_capacity session)) (dwarf_events t);
       seeds \<leftarrow> arr_zero zero_snapshot (unat (wp_capacity session)) (wp_seed_dwarf_snapshots t);
       reuses \<leftarrow> arr_zero zero_snapshot (unat (wp_capacity session)) (wp_reuse_dwarf_snapshots t);
       Some (t\<lparr>log2_hist := hist, pair_hist := pairs, contexts := ctxs, dwarf_events := devs,
               wp_seed_dwarf_snapshots := seeds, wp_reuse_dwarf_snapshots := reuses\<rparr>)
     }"

definition rd_reset_thread_locked ::
  "kenv \<Rightarrow> rd_session \<Rightarrow> rd_thread_ctx \<Rightarrow> (kret \<times> rd_thread_ctx) option" where
  "rd_reset_thread_locked env session thread =
     do {
       (ret, t1) \<leftarrow>
         (if active thread \<and> wp_events thread \<noteq> None \<and> wp_slots thread \<noteq> None
          then rd_park_slots env session thread 0 (unat (wp_capacity session)) RetOk
          else Some (RetOk, thread));
       t2 \<leftarrow> rd_zero_arrays session (rd_zero_counters t1);
       t3 \<leftarrow> (if wp_slots t2 = None then Some t2
              else rd_clear_slots session t2 0 (unat (wp_capacity session)));
       Some (ret, t3)
     }"

subsection \<open>Choosing a slot\<close>

text \<open>The replacement loop: the slots from \<open>i\<close> on, the random state, the first slot that wins.\<close>

fun rd_pick_replace :: "rd_wp_slot list \<Rightarrow> nat \<Rightarrow> u64 \<Rightarrow> rd_wp_slot list \<times> u64 \<times> nat option" where
  "rd_pick_replace [] i r = ([], r, None)"
| "rd_pick_replace (sl # sls) i r =
     (let samples = (if wp_samples sl \<noteq> 0 then wp_samples sl else 1);
          (v, r') = rd_next_random r;
          sl' = (if wp_samples sl \<noteq> - 1 then sl\<lparr>wp_samples := wp_samples sl + 1\<rparr> else sl)
      in if v mod samples = 0 then (sl' # sls, r', Some i)
         else let (sls', r'', res) = rd_pick_replace sls (Suc i) r' in (sl' # sls', r'', res))"

text \<open>\<open>Some (slot, is_replacement)\<close> when the candidate is accepted.\<close>

definition rd_pick_wp_slot ::
  "rd_session \<Rightarrow> rd_thread_ctx \<Rightarrow> (rd_thread_ctx \<times> (nat \<times> bool) option) option" where
  "rd_pick_wp_slot session thread =
     (let t1 = thread\<lparr>reservoir_seen := reservoir_seen thread + 1\<rparr>;
          capacity = unat (wp_capacity session)
      in if capacity = 0 then Some (t1, None)
         else do {
           slots \<leftarrow> wp_slots t1;
           if length slots < capacity then None
           else case find_index (\<lambda>sl. wp_state sl = RD_WP_IDLE) (take capacity slots) of
               Some i \<Rightarrow> Some (t1\<lparr>reservoir_accepted := reservoir_accepted t1 + 1\<rparr>, Some (i, False))
             | None \<Rightarrow>
                 let (slots', r, res) = rd_pick_replace (take capacity slots) 0 (rng t1);
                     t2 = t1\<lparr>wp_slots := Some (slots' @ drop capacity slots), rng := r\<rparr>
                 in (case res of
                       Some i \<Rightarrow> Some (t2\<lparr>reservoir_accepted := reservoir_accepted t2 + 1\<rparr>, Some (i, True))
                     | None \<Rightarrow> Some (t2\<lparr>reservoir_rejected := reservoir_rejected t2 + 1\<rparr>, None))
         })"

subsection \<open>Well-formed threads\<close>

text \<open>The arrays of a thread whose resources are live.\<close>

definition live_ok :: "rd_session \<Rightarrow> rd_thread_ctx \<Rightarrow> bool" where
  "live_ok s t \<longleftrightarrow>
     (\<exists>slots. wp_slots t = Some slots \<and> length slots = unat (wp_capacity s)) \<and>
     (\<exists>evs. wp_events t = Some evs \<and> length evs = unat (wp_capacity s) \<and> None \<notin> set evs) \<and>
     (\<exists>evs. bp_events t = Some evs \<and> length evs = unat (target_count s) \<and> None \<notin> set evs) \<and>
     mem_event t \<noteq> None \<and>
     (\<forall>snaps. wp_seed_dwarf_snapshots t = Some snaps \<longrightarrow> length snaps = unat (wp_capacity s)) \<and>
     (\<forall>snaps. wp_reuse_dwarf_snapshots t = Some snaps \<longrightarrow> length snaps = unat (wp_capacity s)) \<and>
     (callchain_mode s = RD_CALLCHAIN_DWARF \<longrightarrow>
        wp_seed_dwarf_snapshots t \<noteq> None \<and> wp_reuse_dwarf_snapshots t \<noteq> None)"

lemma live_okD:
  assumes "live_ok s t"
  obtains slots evs where "wp_slots t = Some slots" "length slots = unat (wp_capacity s)"
    "wp_events t = Some evs" "length evs = unat (wp_capacity s)" "None \<notin> set evs"
  using assms by (auto simp: live_ok_def)

lemma live_ok_cong:
  assumes "wp_slots t' = Some slots" "length slots = unat (wp_capacity s)"
    and "wp_events t' = Some evs" "length evs = unat (wp_capacity s)" "None \<notin> set evs"
    and "bp_events t' = bp_events t" "mem_event t' = mem_event t"
    and "map_option length (wp_seed_dwarf_snapshots t') = map_option length (wp_seed_dwarf_snapshots t)"
    and "map_option length (wp_reuse_dwarf_snapshots t') = map_option length (wp_reuse_dwarf_snapshots t)"
    and "live_ok s t"
  shows "live_ok s t'"
  using assms unfolding live_ok_def
  by (cases "wp_seed_dwarf_snapshots t"; cases "wp_seed_dwarf_snapshots t'";
      cases "wp_reuse_dwarf_snapshots t"; cases "wp_reuse_dwarf_snapshots t'") auto

subsection \<open>Facts about the slot operations\<close>

lemma rd_modify_slot_live:
  assumes "wp_events t = Some evs" "length evs = unat (wp_capacity s)" "None \<notin> set evs"
    and "i < unat (wp_capacity s)"
  obtains e where "evs ! i = Some e"
    "rd_modify_slot env s t i addr len =
      (let attr = (rd_init_wp_attr env addr len)\<lparr>attr_disabled := \<not> (running s \<and> active t)\<rparr>;
           (ret, e') = modify_user_hw_breakpoint env e attr
       in Some (ret, t\<lparr>wp_events := Some (evs[i := Some e'])\<rparr>))"
proof -
  have "evs ! i \<noteq> None" using assms nth_mem [of i evs] by metis
  then obtain e where e: "evs ! i = Some e" by auto
  have disabled: "(rd_init_wp_attr env addr len)\<lparr>attr_disabled := True\<rparr> = rd_init_wp_attr env addr len"
    by (simp add: rd_init_wp_attr_def)
  show thesis
  proof (rule that [OF e])
    show "rd_modify_slot env s t i addr len =
      (let attr = (rd_init_wp_attr env addr len)\<lparr>attr_disabled := \<not> (running s \<and> active t)\<rparr>;
           (ret, e') = modify_user_hw_breakpoint env e attr
       in Some (ret, t\<lparr>wp_events := Some (evs[i := Some e'])\<rparr>))"
      using assms e disabled
      by (cases "running s \<and> active t") (auto simp: rd_modify_slot_def Let_def split: prod.split)
  qed
qed

lemma not_None_update: "None \<notin> set evs \<Longrightarrow> None \<notin> set (evs[i := Some e])"
  by (auto dest!: set_update_subset_insert [THEN subsetD])

text \<open>Re-pointing a slot only replaces its event.\<close>

lemma rd_modify_slot_frame:
  assumes "live_ok s t" "i < unat (wp_capacity s)"
  obtains ret evs where "rd_modify_slot env s t i addr len = Some (ret, t\<lparr>wp_events := Some evs\<rparr>)"
    "length evs = unat (wp_capacity s)" "None \<notin> set evs"
proof -
  from assms(1) obtain slots evs where ev: "wp_events t = Some evs"
    "length evs = unat (wp_capacity s)" "None \<notin> set evs" by (auto elim: live_okD)
  obtain e where "evs ! i = Some e" and e: "rd_modify_slot env s t i addr len =
      (let attr = (rd_init_wp_attr env addr len)\<lparr>attr_disabled := \<not> (running s \<and> active t)\<rparr>;
           (ret, e') = modify_user_hw_breakpoint env e attr
       in Some (ret, t\<lparr>wp_events := Some (evs[i := Some e'])\<rparr>))"
    by (rule rd_modify_slot_live [OF ev assms(2)])
  obtain ret e' where "modify_user_hw_breakpoint env e
      ((rd_init_wp_attr env addr len)\<lparr>attr_disabled := \<not> (running s \<and> active t)\<rparr>) = (ret, e')"
    by fastforce
  with e that [of ret "evs[i := Some e']"] ev show thesis
    by (simp add: not_None_update)
qed

lemma rd_clear_slot_metadata_live:
  assumes "live_ok s t" "i < unat (wp_capacity s)" "wp_slots t = Some slots"
  obtains snaps where "rd_clear_slot_metadata s t i =
      Some (t\<lparr>wp_slots := Some (slots[i := cleared_slot (slots ! i)]), wp_seed_dwarf_snapshots := snaps\<rparr>)"
    "map_option length snaps = map_option length (wp_seed_dwarf_snapshots t)"
proof (cases "wp_seed_dwarf_snapshots t")
  case None
  with assms that [of None] show thesis
    by (cases t) (auto simp: rd_clear_slot_metadata_def live_ok_def)
next
  case (Some snaps)
  with assms that [of "Some (snaps[i := zero_snapshot])"] show thesis
    by (auto simp: rd_clear_slot_metadata_def live_ok_def)
qed

subsection \<open>Facts about the choice of a slot\<close>

lemma rd_pick_replace_length: "length (fst (rd_pick_replace sls i r)) = length sls"
proof (induction sls arbitrary: i r)
  case (Cons sl sls)
  obtain v r' where "rd_next_random r = (v, r')" by fastforce
  with Cons.IH [of "Suc i" r'] show ?case
    by (auto simp: Let_def split: prod.splits)
qed simp

text \<open>A slot whose sample count is 1 always wins: every number is 0 modulo 1.\<close>

lemma rd_pick_replace_first:
  "wp_samples sl = 1 \<Longrightarrow>
   rd_pick_replace (sl # sls) i r = (sl\<lparr>wp_samples := 2\<rparr> # sls, snd (rd_next_random r), Some i)"
  by (auto simp: Let_def split: prod.splits)

lemma rd_pick_wp_slot_cases:
  assumes "wp_slots t = Some slots" "length slots = unat (wp_capacity s)" "wp_capacity s \<noteq> 0"
    and samples: "\<forall>sl\<in>set slots. wp_samples sl = 1"
  obtains (idle) i where "i < length slots" "wp_state (slots ! i) = RD_WP_IDLE"
      "\<forall>j<i. wp_state (slots ! j) = RD_WP_ARMED"
      "rd_pick_wp_slot s t = Some (t\<lparr>reservoir_seen := reservoir_seen t + 1,
         reservoir_accepted := reservoir_accepted t + 1\<rparr>, Some (i, False))"
  | (full) "\<forall>sl\<in>set slots. wp_state sl = RD_WP_ARMED" "0 < length slots"
      "rd_pick_wp_slot s t = Some (t\<lparr>reservoir_seen := reservoir_seen t + 1,
         reservoir_accepted := reservoir_accepted t + 1,
         wp_slots := Some (slots[0 := (slots ! 0)\<lparr>wp_samples := 2\<rparr>]),
         rng := snd (rd_next_random (rng t))\<rparr>, Some (0, True))"
proof -
  have cap: "unat (wp_capacity s) \<noteq> 0" using assms(3) by (simp add: unat_eq_zero)
  have armed: "wp_state sl \<noteq> RD_WP_IDLE \<Longrightarrow> wp_state sl = RD_WP_ARMED" for sl
    by (cases "wp_state sl") auto
  show thesis
  proof (cases "find_index (\<lambda>sl. wp_state sl = RD_WP_IDLE) slots")
    case (Some i)
    show thesis
      using Some find_index_SomeD [OF Some] cap assms(1,2) armed
      by (intro idle [of i]) (auto simp: rd_pick_wp_slot_def Let_def)
  next
    case None
    from cap obtain sl sls where sl: "slots = sl # sls" using assms(2) by (cases slots) auto
    have all: "\<forall>sl\<in>set slots. wp_state sl = RD_WP_ARMED"
      using None armed by (auto simp: find_index_None_iff)
    show thesis
      using None cap assms(1,2) samples sl all
      by (intro full) (auto simp: rd_pick_wp_slot_def Let_def simp del: rd_pick_replace.simps
          simp: rd_pick_replace_first)
  qed
qed

end
