(* ===== verification/Hits.thy ===== *)
theory Hits
  imports Slots
begin

text \<open>
  The two handlers of the kernel module (\<^verbatim>\<open>rd_handle_bp_hit\<close>, \<^verbatim>\<open>rd_handle_wp_hit\<close> of
  \<^verbatim>\<open>kernel/rd_wpctl.c\<close>), cut at the points where the code takes and drops the thread lock:
  one definition per critical section, composed by the handler.  The handlers return the
  thread and the debug tokens left; \<open>None\<close> is an invalid memory access or an undefined
  shift.
\<close>

subsection \<open>Breakpoint hits\<close>

definition armed_slot ::
  "rd_target \<Rightarrow> u32 \<Rightarrow> u64 \<Rightarrow> u64 \<Rightarrow> u32 \<Rightarrow> rd_wp_slot \<Rightarrow> rd_wp_slot" where
  "armed_slot target target_index seed_va seed_access seed_context_id sl =
     sl\<lparr>wp_state := RD_WP_ARMED, wp_seed_va := seed_va, wp_seed_access := seed_access,
        wp_seed_pc_offset := tg_pc_offset target, wp_seed_context_id := seed_context_id,
        wp_access_size := access_size (tg_decode target), wp_target_index := target_index,
        wp_generation := (if wp_generation sl + 1 = 0 then 1 else wp_generation sl + 1),
        wp_skip_first_hit := 1, wp_samples := 1\<rparr>"

text \<open>The rest of the critical section after a slot was chosen; also returns the idle address.\<close>

definition rd_bp_arm ::
  "rd_session \<Rightarrow> rd_thread_ctx \<Rightarrow> rd_callchain_key \<Rightarrow> rd_target \<Rightarrow> u32 \<Rightarrow> nat \<Rightarrow> bool \<Rightarrow>
   u64 \<Rightarrow> u64 \<Rightarrow> (rd_thread_ctx \<times> u64) option" where
  "rd_bp_arm session thread key target target_index slot_index is_replacement seed_va seed_access =
     (let (t1, seed_context_id) =
            (if callchain_mode session = RD_CALLCHAIN_FP \<and> key_depth key \<noteq> 0
             then rd_get_context_id_locked thread key else (thread, 0))
      in do {
        sl \<leftarrow> arr_get (wp_slots t1) slot_index;
        let t2 = (if is_replacement \<and> wp_state sl = RD_WP_ARMED
                  then t1\<lparr>evictions := evictions t1 + 1\<rparr> else t1);
        slots \<leftarrow> arr_set (wp_slots t2) slot_index
                   (armed_slot target target_index seed_va seed_access seed_context_id sl);
        Some (t2\<lparr>wp_slots := slots\<rparr>, wp_idle_addr sl)
      })"

definition rd_bp_snapshot ::
  "kenv \<Rightarrow> rd_session \<Rightarrow> rd_thread_ctx \<Rightarrow> pt_regs option \<Rightarrow> nat \<Rightarrow> rd_thread_ctx option" where
  "rd_bp_snapshot env session thread regs slot_index =
     (if callchain_mode session = RD_CALLCHAIN_DWARF \<and> wp_seed_dwarf_snapshots thread \<noteq> None
      then let (t1, snap) = rd_capture_dwarf_snapshot env session thread regs
           in do {
                snaps \<leftarrow> arr_set (wp_seed_dwarf_snapshots t1) slot_index snap;
                Some (t1\<lparr>wp_seed_dwarf_snapshots := snaps\<rparr>)
              }
      else Some thread)"

definition rd_bp_install ::
  "kenv \<Rightarrow> rd_session \<Rightarrow> rd_thread_ctx \<Rightarrow> nat \<Rightarrow> u64 \<Rightarrow> u32 \<Rightarrow> u64 \<Rightarrow> rd_thread_ctx option" where
  "rd_bp_install env session thread slot_index seed_va len idle_addr =
     do {
       (mod_ret, t1) \<leftarrow> rd_modify_slot env session thread slot_index seed_va len;
       if mod_ret = RetOk then Some t1
       else do {
         t2 \<leftarrow> rd_clear_slot_metadata session (t1\<lparr>dropped := dropped t1 + 1\<rparr>) slot_index;
         (_, t3) \<leftarrow> rd_modify_slot env session t2 slot_index idle_addr RD_IDLE_WP_LEN;
         Some t3
       }
     }"

definition rd_handle_bp_hit ::
  "kenv \<Rightarrow> rd_session \<Rightarrow> rd_thread_ctx \<Rightarrow> u32 \<Rightarrow> pt_regs option \<Rightarrow> int \<Rightarrow> (rd_thread_ctx \<times> int) option" where
  "rd_handle_bp_hit env session thread target_index regs tok =
     (case regs of
        None \<Rightarrow> Some (thread, tok)
      | Some r \<Rightarrow>
          if \<not> active thread \<or> \<not> running session \<or> target_index \<ge> target_count session
          then Some (thread, tok)
          else do {
            target \<leftarrow> arr_get (targets session) (unat target_index);
            seed_va \<leftarrow> rd_compute_effective_address (tg_decode target) r;
            case rd_read_mem_access env thread of
              Inl _ \<Rightarrow> Some (thread, tok)
            | Inr seed_access \<Rightarrow>
                let (t1, key) = (if callchain_mode session = RD_CALLCHAIN_FP
                                 then rd_capture_callchain env thread regs else (thread, zero_key))
                in do {
                  (t2, pick) \<leftarrow> rd_pick_wp_slot session
                                  (t1\<lparr>candidate_samples := candidate_samples t1 + 1\<rparr>);
                  case pick of
                    None \<Rightarrow> Some (t2, tok)
                  | Some (slot_index, is_replacement) \<Rightarrow>
                      if slot_index \<ge> unat (wp_capacity session)
                      then Some (t2\<lparr>reservoir_rejected := reservoir_rejected t2 + 1\<rparr>, tok)
                      else do {
                        (t3, idle_addr) \<leftarrow> rd_bp_arm session t2 key target target_index slot_index
                                             is_replacement seed_va seed_access;
                        t4 \<leftarrow> rd_bp_snapshot env session t3 regs slot_index;
                        let tok' = snd (rd_debug_take_token tok);
                        t5 \<leftarrow> rd_bp_install env session t4 slot_index seed_va
                                (access_size (tg_decode target)) idle_addr;
                        Some (t5, tok')
                      }
                }
          })"

subsection \<open>Watchpoint hits\<close>

definition rd_wp_snapshot ::
  "kenv \<Rightarrow> rd_session \<Rightarrow> rd_thread_ctx \<Rightarrow> pt_regs option \<Rightarrow> nat \<Rightarrow> rd_thread_ctx option" where
  "rd_wp_snapshot env session thread regs slot_index =
     (if callchain_mode session = RD_CALLCHAIN_DWARF \<and> wp_reuse_dwarf_snapshots thread \<noteq> None
      then let (t1, snap) = rd_capture_dwarf_snapshot env session thread regs
           in do {
                snaps \<leftarrow> arr_set (wp_reuse_dwarf_snapshots t1) slot_index snap;
                Some (t1\<lparr>wp_reuse_dwarf_snapshots := snaps\<rparr>)
              }
      else Some thread)"

text \<open>The guarded increment of the per-target histogram.\<close>

definition rd_bump_hist :: "rd_session \<Rightarrow> rd_thread_ctx \<Rightarrow> u32 \<Rightarrow> nat \<Rightarrow> rd_thread_ctx option" where
  "rd_bump_hist session thread target_index hist_index =
     (if log2_hist thread \<noteq> None \<and> target_index < target_count session \<and>
         hist_index < unat (target_count session) * RD_WPCTL_LOG2_BUCKETS
      then do {
        c \<leftarrow> arr_get (log2_hist thread) hist_index;
        hist \<leftarrow> arr_set (log2_hist thread) hist_index (c + 1);
        Some (thread\<lparr>log2_hist := hist\<rparr>)
      }
      else Some thread)"

definition rd_store_dwarf_event ::
  "rd_thread_ctx \<Rightarrow> u32 \<Rightarrow> nat \<Rightarrow> rd_wp_slot \<Rightarrow> u64 \<Rightarrow> u64 \<Rightarrow> u64 \<Rightarrow> u32 \<Rightarrow> rd_thread_ctx option" where
  "rd_store_dwarf_event thread event_index slot_index sl reuse_pc hit_access delta bucket =
     do {
       seed \<leftarrow> (if wp_seed_dwarf_snapshots thread = None then Some None
                else map_option Some (arr_get (wp_seed_dwarf_snapshots thread) slot_index));
       reuse \<leftarrow> (if wp_reuse_dwarf_snapshots thread = None then Some None
                 else map_option Some (arr_get (wp_reuse_dwarf_snapshots thread) slot_index));
       events \<leftarrow> arr_set (dwarf_events thread) (unat event_index)
         (zero_dwarf_event\<lparr>de_event_index := event_index, de_bucket := ucast bucket,
            de_tid := tid thread, de_target_index := wp_target_index sl,
            de_seed_pc_offset := wp_seed_pc_offset sl,
            de_seed_pc := (case seed of None \<Rightarrow> 0 | Some sn \<Rightarrow> snap_pc sn),
            de_reuse_pc := reuse_pc, de_seed_access := wp_seed_access sl,
            de_hit_access := hit_access, de_delta := delta,
            de_seed := (case seed of None \<Rightarrow> zero_snapshot | Some sn \<Rightarrow> sn),
            de_reuse := (case reuse of None \<Rightarrow> zero_snapshot | Some sn \<Rightarrow> sn),
            de_used := 1\<rparr>);
       Some (thread\<lparr>dwarf_events := events\<rparr>)
     }"

text \<open>
  Reading the counter and recording the reuse: histogram, pair histogram, DWARF event.
  \<open>sl\<close> holds the slot fields that the first critical section copied.
\<close>

definition rd_wp_account ::
  "kenv \<Rightarrow> rd_session \<Rightarrow> rd_thread_ctx \<Rightarrow> rd_wp_slot \<Rightarrow> nat \<Rightarrow> rd_callchain_key \<Rightarrow> u64 \<Rightarrow> int \<Rightarrow>
   (rd_thread_ctx \<times> int) option" where
  "rd_wp_account env session thread sl slot_index key reuse_pc tok =
     (case rd_read_mem_access env thread of
        Inl _ \<Rightarrow> Some (thread\<lparr>dropped := dropped thread + 1\<rparr>, tok)
      | Inr hit_access \<Rightarrow>
          let delta = rd_delta (wp_seed_access sl) hit_access;
              bucket = rd_log2_bucket delta;
              hist_index = unat (wp_target_index sl) * RD_WPCTL_LOG2_BUCKETS + unat bucket;
              tok' = snd (rd_debug_take_token tok);
              (t1, reuse_context_id) =
                (if callchain_mode session = RD_CALLCHAIN_FP \<and> key_depth key \<noteq> 0
                 then rd_get_context_id_locked thread key else (thread, 0))
          in do {
            t2 \<leftarrow> rd_bump_hist session t1 (wp_target_index sl) hist_index;
            let t3 = rd_add_pair_hist_locked t2 (wp_seed_pc_offset sl) (wp_seed_context_id sl)
                       reuse_pc reuse_context_id bucket;
            let (t4, reserved) = (if callchain_mode session = RD_CALLCHAIN_DWARF
                                  then rd_reserve_dwarf_event_locked session t3 else (t3, None));
            let t5 = t4\<lparr>hits := hits t4 + 1\<rparr>;
            t6 \<leftarrow> (case reserved of
                     None \<Rightarrow> Some t5
                   | Some event_index \<Rightarrow>
                       rd_store_dwarf_event t5 event_index slot_index sl reuse_pc hit_access delta bucket);
            Some (t6, tok')
          })"

text \<open>The last critical section and the re-parking of the slot.\<close>

definition rd_wp_retire ::
  "kenv \<Rightarrow> rd_session \<Rightarrow> rd_thread_ctx \<Rightarrow> nat \<Rightarrow> u64 \<Rightarrow> rd_thread_ctx option" where
  "rd_wp_retire env session thread slot_index idle_addr =
     do {
       t1 \<leftarrow> (if slot_index < unat (wp_capacity session) then
                do {
                  sl \<leftarrow> arr_get (wp_slots thread) slot_index;
                  if wp_state sl = RD_WP_ARMED
                  then rd_clear_slot_metadata session thread slot_index else Some thread
                }
              else Some thread);
       (_, t2) \<leftarrow> rd_modify_slot env session t1 slot_index idle_addr RD_IDLE_WP_LEN;
       Some t2
     }"

definition rd_handle_wp_hit ::
  "kenv \<Rightarrow> rd_session \<Rightarrow> rd_thread_ctx \<Rightarrow> nat \<Rightarrow> pt_regs option \<Rightarrow> int \<Rightarrow> (rd_thread_ctx \<times> int) option" where
  "rd_handle_wp_hit env session thread slot_index regs tok =
     (if \<not> active thread \<or> \<not> running session \<or> slot_index \<ge> unat (wp_capacity session)
      then Some (thread, tok)
      else do {
        sl \<leftarrow> arr_get (wp_slots thread) slot_index;
        if wp_state sl \<noteq> RD_WP_ARMED then Some (thread, tok)
        else if wp_skip_first_hit sl \<noteq> 0 then
          do {
            slots \<leftarrow> arr_set (wp_slots thread) slot_index (sl\<lparr>wp_skip_first_hit := 0\<rparr>);
            Some (thread\<lparr>wp_slots := slots\<rparr>, snd (rd_debug_take_token tok))
          }
        else if wp_target_index sl \<ge> target_count session then
          do {
            t1 \<leftarrow> rd_clear_slot_metadata session (thread\<lparr>dropped := dropped thread + 1\<rparr>) slot_index;
            (_, t2) \<leftarrow> rd_modify_slot env session t1 slot_index (wp_idle_addr sl) RD_IDLE_WP_LEN;
            Some (t2, tok)
          }
        else
          let reuse_pc = (case regs of None \<Rightarrow> 0 | Some r \<Rightarrow> regs_pc r);
              (t1, key) = (if callchain_mode session = RD_CALLCHAIN_FP
                           then rd_capture_callchain env thread regs else (thread, zero_key))
          in do {
            t2 \<leftarrow> rd_wp_snapshot env session t1 regs slot_index;
            (t3, tok') \<leftarrow> rd_wp_account env session t2 sl slot_index key reuse_pc tok;
            t4 \<leftarrow> rd_wp_retire env session t3 slot_index (wp_idle_addr sl);
            Some (t4, tok')
          }
      })"

subsection \<open>The invariant of a thread\<close>

definition armed_count :: "rd_thread_ctx \<Rightarrow> nat" where
  "armed_count t = (case wp_slots t of None \<Rightarrow> 0
                    | Some slots \<Rightarrow> count_if (\<lambda>sl. wp_state sl = RD_WP_ARMED) slots)"

definition results_ok :: "rd_session \<Rightarrow> rd_thread_ctx \<Rightarrow> bool" where
  "results_ok s t \<longleftrightarrow>
     (\<exists>h. log2_hist t = Some h \<and> length h = unat (target_count s) * RD_WPCTL_LOG2_BUCKETS) \<and>
     contexts_ok t \<and> pairs_ok t \<and>
     (\<forall>d. dwarf_events t = Some d \<longrightarrow> length d = unat (dwarf_event_capacity s)) \<and>
     (callchain_mode s = RD_CALLCHAIN_DWARF \<longrightarrow> dwarf_events t \<noteq> None)"

definition slots_ok :: "rd_session \<Rightarrow> rd_thread_ctx \<Rightarrow> bool" where
  "slots_ok s t \<longleftrightarrow> (\<forall>slots. wp_slots t = Some slots \<longrightarrow>
     (\<forall>sl\<in>set slots. wp_samples sl = 1 \<and>
        (wp_state sl = RD_WP_ARMED \<longrightarrow> wp_target_index sl < target_count s)))"

text \<open>
  The accounts of a thread.  Every candidate was seen; every candidate seen was accepted;
  an accepted seed is still armed, or ended as a hit, an eviction or a drop (\<open>pend\<close> counts a
  seed whose end is already booked but whose slot is not yet cleared); every hit is in the
  histogram, and in the pair table or among the dropped pairs.
\<close>

definition accounts_ok :: "u64 \<Rightarrow> rd_thread_ctx \<Rightarrow> bool" where
  "accounts_ok pend t \<longleftrightarrow>
     candidate_samples t = reservoir_seen t \<and>
     reservoir_seen t = reservoir_accepted t \<and> reservoir_rejected t = 0 \<and>
     reservoir_accepted t + pend = hits t + evictions t + dropped t + of_nat (armed_count t) \<and>
     sum_list (the (log2_hist t)) = hits t \<and>
     pair_total (the (pair_hist t)) + pair_hist_dropped t = hits t"

text \<open>A detached thread holds no live resource.\<close>

definition dead_ok :: "rd_thread_ctx \<Rightarrow> bool" where
  "dead_ok t \<longleftrightarrow> wp_slots t = None \<and> wp_seed_dwarf_snapshots t = None \<and>
     wp_reuse_dwarf_snapshots t = None \<and> mem_event t = None \<and> bp_events t = None \<and> wp_events t = None"

definition thread_inv :: "rd_session \<Rightarrow> u64 \<Rightarrow> rd_thread_ctx \<Rightarrow> bool" where
  "thread_inv s pend t \<longleftrightarrow>
     (if active t then live_ok s t else dead_ok t) \<and> (live_detached t \<longleftrightarrow> \<not> active t) \<and>
     results_ok s t \<and> slots_ok s t \<and> accounts_ok pend t"

lemmas thread_inv_defs =
  thread_inv_def live_ok_def dead_ok_def results_ok_def slots_ok_def accounts_ok_def armed_count_def
  contexts_ok_def pairs_ok_def

end
