(* ===== verification/Hit_Safety.thy ===== *)
theory Hit_Safety
  imports Hits
begin

text \<open>
  The handlers keep the thread invariant and never fault: stage lemmas for the critical
  sections, then the two handlers.
\<close>

subsection \<open>Fields the invariant does not read\<close>

lemma thread_inv_frame [simp]:
  "thread_inv s p (t\<lparr>callchain_failed := a\<rparr>) = thread_inv s p t"
  "thread_inv s p (t\<lparr>callchain_truncated := a\<rparr>) = thread_inv s p t"
  "thread_inv s p (t\<lparr>context_dropped := a\<rparr>) = thread_inv s p t"
  "thread_inv s p (t\<lparr>dwarf_stack_copy_failed := a\<rparr>) = thread_inv s p t"
  "thread_inv s p (t\<lparr>dwarf_event_dropped := a\<rparr>) = thread_inv s p t"
  "thread_inv s p (t\<lparr>dwarf_event_used := b\<rparr>) = thread_inv s p t"
  by (simp_all add: thread_inv_defs)

lemma capture_callchain_inv [simp]:
  "thread_inv s p (fst (rd_capture_callchain env t regs)) = thread_inv s p t"
  by (auto simp: rd_capture_callchain_def Let_def split: option.split prod.split)

lemma capture_callchain_fields [simp]:
  "active (fst (rd_capture_callchain env t regs)) = active t"
  "wp_slots (fst (rd_capture_callchain env t regs)) = wp_slots t"
  "mem_event (fst (rd_capture_callchain env t regs)) = mem_event t"
  "evictions (fst (rd_capture_callchain env t regs)) = evictions t"
  "wp_events (fst (rd_capture_callchain env t regs)) = wp_events t"
  by (auto simp: rd_capture_callchain_def Let_def split: option.split prod.split)

lemma capture_snapshot_frame:
  obtains a where "fst (rd_capture_dwarf_snapshot env s t regs) = t\<lparr>dwarf_stack_copy_failed := a\<rparr>"
proof -
  have "fst (rd_capture_dwarf_snapshot env s t regs) =
    t\<lparr>dwarf_stack_copy_failed := dwarf_stack_copy_failed (fst (rd_capture_dwarf_snapshot env s t regs))\<rparr>"
    by (cases t) (simp add: rd_capture_dwarf_snapshot_def rd_copy_user_stack_snapshot_def Let_def
        split: option.split prod.split)
  then show thesis by (rule that)
qed

text \<open>Interning a context keeps the invariant and the fields the handlers read next.\<close>

lemma get_context_id_inv:
  assumes "thread_inv s p t" "callchain_key_ok key"
  shows "thread_inv s p (fst (rd_get_context_id_locked t key))"
proof -
  have "contexts_ok (fst (rd_get_context_id_locked t key))"
    using assms by (intro rd_get_context_id_ok) (auto simp: thread_inv_def results_ok_def)
  moreover obtain cs u d where eq: "fst (rd_get_context_id_locked t key) =
      t\<lparr>contexts := cs, context_used := u, context_dropped := d\<rparr>" (is "_ = ?t")
    using rd_get_context_id_frame by blast
  moreover have "live_ok s ?t = live_ok s t" by (simp add: live_ok_def)
  moreover have "dead_ok ?t = dead_ok t" by (simp add: dead_ok_def)
  moreover have "slots_ok s ?t = slots_ok s t" by (simp add: slots_ok_def)
  moreover have "accounts_ok p ?t = accounts_ok p t" by (simp add: accounts_ok_def armed_count_def)
  ultimately show ?thesis
    using assms(1) by (simp add: thread_inv_def results_ok_def pairs_ok_def)
qed

lemma get_context_id_fields [simp]:
  "active (fst (rd_get_context_id_locked t key)) = active t"
  "wp_slots (fst (rd_get_context_id_locked t key)) = wp_slots t"
  "wp_events (fst (rd_get_context_id_locked t key)) = wp_events t"
  "evictions (fst (rd_get_context_id_locked t key)) = evictions t"
  "wp_seed_dwarf_snapshots (fst (rd_get_context_id_locked t key)) = wp_seed_dwarf_snapshots t"
  by (subst rd_get_context_id_frame, simp)+

subsection \<open>Stages\<close>

lemma modify_slot_inv:
  assumes "thread_inv s p t" "active t" "i < unat (wp_capacity s)"
  obtains ret t' where "rd_modify_slot env s t i addr len = Some (ret, t')" "thread_inv s p t'"
    "active t'" "wp_slots t' = wp_slots t" "dropped t' = dropped t"
proof -
  from assms have "live_ok s t" by (simp add: thread_inv_def)
  from rd_modify_slot_frame [OF this assms(3)] obtain ret evs where m:
    "rd_modify_slot env s t i addr len = Some (ret, t\<lparr>wp_events := Some evs\<rparr>)"
    "length evs = unat (wp_capacity s)" "None \<notin> set evs" by metis
  moreover have "thread_inv s p (t\<lparr>wp_events := Some evs\<rparr>)"
    using assms m(2,3) by (simp add: thread_inv_defs)
  ultimately show thesis using that assms(2) by fastforce
qed

text \<open>Clearing an armed slot settles one pending seed.\<close>

lemma clear_armed_slot_inv:
  assumes "thread_inv s p t" "active t" "i < unat (wp_capacity s)"
    and slots: "wp_slots t = Some slots" "wp_state (slots ! i) = RD_WP_ARMED"
  obtains t' where "rd_clear_slot_metadata s t i = Some t'" "thread_inv s (p - 1) t'" "active t'"
    "wp_slots t' = Some (slots[i := cleared_slot (slots ! i)])" "evictions t' = evictions t"
proof -
  from assms have live: "live_ok s t" by (simp add: thread_inv_def)
  from rd_clear_slot_metadata_live [OF this assms(3) slots(1)] obtain snaps where c:
    "rd_clear_slot_metadata s t i = Some (t\<lparr>wp_slots := Some (slots[i := cleared_slot (slots ! i)]),
       wp_seed_dwarf_snapshots := snaps\<rparr>)" (is "_ = Some ?t")
    "map_option length snaps = map_option length (wp_seed_dwarf_snapshots t)" by metis
  have len: "length slots = unat (wp_capacity s)" using live slots(1) by (simp add: live_ok_def)
  have "live_ok s ?t"
    by (rule live_okD [OF live]) (rule live_ok_cong [of _ "slots[i := cleared_slot (slots ! i)]" _ _ t],
        use live len c in auto)
  moreover have "Suc (count_if (\<lambda>sl. wp_state sl = RD_WP_ARMED) (slots[i := cleared_slot (slots ! i)]))
      = count_if (\<lambda>sl. wp_state sl = RD_WP_ARMED) slots"
    using len assms(3) slots(2) by (intro count_if_update_lose) (simp_all add: cleared_slot_def)
  then have "of_nat (armed_count t) = (of_nat (armed_count ?t) + 1 :: u64)"
    using slots(1) by (simp add: armed_count_def) (metis of_nat_Suc add.commute)
  then have "accounts_ok (p - 1) ?t"
    using assms(1) by (simp add: thread_inv_def accounts_ok_def algebra_simps)
  moreover have "slots_ok s ?t"
    using assms(1) slots(1) by (auto simp: thread_inv_def slots_ok_def cleared_slot_def
        dest!: set_update_subset_insert [THEN subsetD])
  moreover have "results_ok s ?t"
    using assms(1) by (simp add: thread_inv_def results_ok_def contexts_ok_def pairs_ok_def)
  ultimately have "thread_inv s (p - 1) ?t" using assms(1,2) by (simp add: thread_inv_def)
  then show thesis by (intro that [OF c(1)]) (use assms(2) in simp_all)
qed

lemma slots_lengthD:
  "thread_inv s p t \<Longrightarrow> active t \<Longrightarrow> wp_slots t = Some slots \<Longrightarrow> length slots = unat (wp_capacity s)"
  by (auto simp: thread_inv_def live_ok_def)

lemma slotsE:
  assumes "thread_inv s p t" "active t"
  obtains slots where "wp_slots t = Some slots" "length slots = unat (wp_capacity s)"
    "\<forall>sl\<in>set slots. wp_samples sl = 1"
  using assms by (auto simp: thread_inv_def live_ok_def slots_ok_def)

subsection \<open>The stages of a breakpoint hit\<close>

text \<open>Accepting a candidate owes one outcome: the pending count falls to minus one.\<close>

lemma accept_inv:
  assumes "thread_inv s p t"
  shows "thread_inv s (p - 1) (t\<lparr>candidate_samples := candidate_samples t + 1,
     reservoir_seen := reservoir_seen t + 1, reservoir_accepted := reservoir_accepted t + 1, rng := r\<rparr>)"
  using assms by (cases "active t") (simp_all add: thread_inv_defs)

lemma set_slot_inv:
  assumes "thread_inv s p t" "active t" "wp_slots t = Some slots" "i < length slots"
    and "wp_samples sl = 1" "wp_state sl = RD_WP_ARMED" "wp_target_index sl < target_count s"
    and "e = (if wp_state (slots ! i) = RD_WP_ARMED then 1 else 0)"
  shows "thread_inv s (p + 1) (t\<lparr>evictions := evictions t + e, wp_slots := Some (slots[i := sl])\<rparr>)"
    (is "thread_inv s _ ?t")
proof -
  let ?armed = "\<lambda>sl. wp_state sl = RD_WP_ARMED"
  have "of_nat (count_if ?armed (slots[i := sl])) + e = (of_nat (count_if ?armed slots) + 1 :: u64)"
  proof (cases "?armed (slots ! i)")
    case True
    with assms show ?thesis by (simp add: count_if_update_same)
  next
    case False
    with assms show ?thesis by (simp add: count_if_update_gain)
  qed
  then have "accounts_ok (p + 1) ?t"
    using assms(1,3) by (simp add: thread_inv_def accounts_ok_def armed_count_def algebra_simps)
  moreover have "slots_ok s ?t"
    using assms by (auto simp: thread_inv_def slots_ok_def dest!: set_update_subset_insert [THEN subsetD])
  moreover have "live_ok s ?t" "results_ok s ?t"
    using assms(1-3) by (simp_all add: thread_inv_defs)
  ultimately show ?thesis using assms(1,2) by (simp add: thread_inv_def)
qed

lemma get_context_id_slots:
  "rd_get_context_id_locked (t\<lparr>wp_slots := x\<rparr>) key =
     (fst (rd_get_context_id_locked t key)\<lparr>wp_slots := x\<rparr>, snd (rd_get_context_id_locked t key))"
  by (simp add: rd_get_context_id_locked_def split: option.split scan_result.split)

lemma armed_slot_simps [simp]:
  "armed_slot tg ti va acc c (sl\<lparr>wp_samples := n\<rparr>) = armed_slot tg ti va acc c sl"
  "wp_samples (armed_slot tg ti va acc c sl) = 1" "wp_state (armed_slot tg ti va acc c sl) = RD_WP_ARMED"
  "wp_target_index (armed_slot tg ti va acc c sl) = ti"
  by (simp_all add: armed_slot_def)

lemma bp_arm_inv:
  assumes "thread_inv s p t" "active t" "i < unat (wp_capacity s)" "wp_slots t = Some slots"
    and "callchain_key_ok key" "ti < target_count s" "wp_state (slots ! i) = RD_WP_ARMED \<Longrightarrow> repl"
    and slots': "slots' = slots \<or> slots' = slots[i := (slots ! i)\<lparr>wp_samples := n\<rparr>]"
  obtains t' c where
    "rd_bp_arm s (t\<lparr>wp_slots := Some slots'\<rparr>) key tg ti i repl va acc = Some (t', wp_idle_addr (slots ! i))"
    "thread_inv s (p + 1) t'" "active t'" "wp_slots t' = Some (slots[i := armed_slot tg ti va acc c (slots ! i)])"
    "evictions t' = evictions t + (if wp_state (slots ! i) = RD_WP_ARMED then 1 else 0)"
    "wp_events t' = wp_events t"
proof -
  have len: "length slots = unat (wp_capacity s)" using slots_lengthD [OF assms(1,2,4)] .
  define t1 c where "t1 = (if callchain_mode s = RD_CALLCHAIN_FP \<and> key_depth key \<noteq> 0
      then fst (rd_get_context_id_locked t key) else t)"
    and "c = (if callchain_mode s = RD_CALLCHAIN_FP \<and> key_depth key \<noteq> 0
      then snd (rd_get_context_id_locked t key) else 0)"
  let ?sl = "armed_slot tg ti va acc c (slots ! i)"
  have t1: "thread_inv s p t1" "active t1" "wp_slots t1 = Some slots"
    using assms(1,2,4,5) by (simp_all add: t1_def get_context_id_inv)
  let ?t = "t1\<lparr>evictions := evictions t1 + (if wp_state (slots ! i) = RD_WP_ARMED then 1 else 0),
                wp_slots := Some (slots[i := ?sl])\<rparr>"
  have "rd_bp_arm s (t\<lparr>wp_slots := Some slots'\<rparr>) key tg ti i repl va acc = Some (?t, wp_idle_addr (slots ! i))"
    using slots' assms(3,7) len
    by (auto simp: rd_bp_arm_def t1_def c_def get_context_id_slots split_beta)
  moreover have "thread_inv s (p + 1) ?t"
    using t1 assms(3,6) len by (intro set_slot_inv) simp_all
  moreover have "evictions t1 = evictions t" "wp_events t1 = wp_events t" by (simp_all add: t1_def)
  ultimately show thesis using t1 by (intro that [of ?t c]) simp_all
qed

lemma bp_snapshot_inv:
  assumes "thread_inv s p t" "active t" "i < unat (wp_capacity s)"
  obtains t' where "rd_bp_snapshot env s t regs i = Some t'" "thread_inv s p t'" "active t'"
    "wp_slots t' = wp_slots t" "evictions t' = evictions t" "wp_events t' = wp_events t"
proof (cases "callchain_mode s = RD_CALLCHAIN_DWARF \<and> wp_seed_dwarf_snapshots t \<noteq> None")
  case False
  with assms show thesis by (intro that [of t]) (auto simp: rd_bp_snapshot_def)
next
  case True
  then obtain snaps where snaps: "wp_seed_dwarf_snapshots t = Some snaps" by auto
  moreover have "length snaps = unat (wp_capacity s)"
    using assms(1,2) snaps by (simp add: thread_inv_def live_ok_def)
  moreover obtain a where a: "fst (rd_capture_dwarf_snapshot env s t regs) = t\<lparr>dwarf_stack_copy_failed := a\<rparr>"
    by (rule capture_snapshot_frame)
  let ?t = "t\<lparr>dwarf_stack_copy_failed := a, wp_seed_dwarf_snapshots :=
      Some (snaps[i := snd (rd_capture_dwarf_snapshot env s t regs)])\<rparr>"
  have "thread_inv s p ?t"
    using assms(1,2) snaps by (simp add: thread_inv_defs)
  ultimately show thesis
    using True assms a by (intro that [of ?t]) (simp_all add: rd_bp_snapshot_def split_beta Let_def)
qed

lemma drop_inv: "thread_inv s p t \<Longrightarrow> thread_inv s (p + 1) (t\<lparr>dropped := dropped t + 1\<rparr>)"
  by (cases "active t") (simp_all add: thread_inv_defs)

text \<open>
  Whether the hardware takes a watchpoint: what re-pointing the event of slot \<open>i\<close> returns in
  an open window.
\<close>

definition wp_installs :: "kenv \<Rightarrow> rd_thread_ctx \<Rightarrow> nat \<Rightarrow> u64 \<Rightarrow> u32 \<Rightarrow> bool" where
  "wp_installs env t i addr len \<longleftrightarrow> fst (modify_user_hw_breakpoint env (the (the (wp_events t) ! i))
     ((rd_init_wp_attr env addr len)\<lparr>attr_disabled := False\<rparr>)) = RetOk"

lemma modify_slot_ret:
  assumes "thread_inv s p t" "active t" "running s" "i < unat (wp_capacity s)"
    and "rd_modify_slot env s t i addr len = Some (ret, t')"
  shows "ret = RetOk \<longleftrightarrow> wp_installs env t i addr len" "evictions t' = evictions t"
proof -
  from assms(1,2) obtain evs where ev: "wp_events t = Some evs" "length evs = unat (wp_capacity s)"
    "None \<notin> set evs" by (auto simp: thread_inv_def live_ok_def)
  let ?attr = "(rd_init_wp_attr env addr len)\<lparr>attr_disabled := False\<rparr>"
  obtain e where e: "evs ! i = Some e" "rd_modify_slot env s t i addr len =
      (let attr = (rd_init_wp_attr env addr len)\<lparr>attr_disabled := \<not> (running s \<and> active t)\<rparr>;
           (ret, e') = modify_user_hw_breakpoint env e attr
       in Some (ret, t\<lparr>wp_events := Some (evs[i := Some e'])\<rparr>))"
    by (rule rd_modify_slot_live [OF ev assms(4)])
  obtain r' e' where m: "modify_user_hw_breakpoint env e ?attr = (r', e')" by fastforce
  have "ret = r'" "t' = t\<lparr>wp_events := Some (evs[i := Some e'])\<rparr>" using assms(2,3,5) e(2) m by simp_all
  then show "ret = RetOk \<longleftrightarrow> wp_installs env t i addr len" "evictions t' = evictions t"
    using m e(1) ev(1) by (simp_all add: wp_installs_def)
qed

lemma bp_install_inv:
  assumes "thread_inv s 0 t" "active t" "running s" "i < unat (wp_capacity s)"
    and "wp_slots t = Some slots" "wp_state (slots ! i) = RD_WP_ARMED"
  obtains t' where "rd_bp_install env s t i va len idle = Some t'" "thread_inv s 0 t'" "active t'"
    "wp_slots t' = Some (if wp_installs env t i va len then slots else slots[i := cleared_slot (slots ! i)])"
    "evictions t' = evictions t"
proof -
  obtain ret t1 where m: "rd_modify_slot env s t i va len = Some (ret, t1)" "thread_inv s 0 t1"
    "active t1" "wp_slots t1 = wp_slots t" "dropped t1 = dropped t"
    by (rule modify_slot_inv [OF assms(1,2,4)])
  note ret = modify_slot_ret [OF assms(1-4) m(1)]
  show thesis
  proof (cases "ret = RetOk")
    case True
    with m ret assms(5) show ?thesis by (intro that [of t1]) (simp_all add: rd_bp_install_def)
  next
    case False
    let ?t1 = "t1\<lparr>dropped := dropped t1 + 1\<rparr>"
    have "thread_inv s 1 ?t1" using drop_inv [OF m(2)] by simp
    then obtain t2 where c: "rd_clear_slot_metadata s ?t1 i = Some t2" "thread_inv s (1 - 1) t2" "active t2"
      "wp_slots t2 = Some (slots[i := cleared_slot (slots ! i)])" "evictions t2 = evictions ?t1"
      by (rule clear_armed_slot_inv [OF _ _ assms(4)]) (use m(3,4) assms(5,6) in simp_all)
    obtain ret' t3 where t3: "rd_modify_slot env s t2 i idle RD_IDLE_WP_LEN = Some (ret', t3)"
      "thread_inv s (1 - 1) t3" "active t3" "wp_slots t3 = wp_slots t2" by (rule modify_slot_inv [OF c(2,3) assms(4)])
    from m(1) c t3 False ret modify_slot_ret(2) [OF c(2,3) assms(3,4) t3(1)] show ?thesis
      by (intro that [of t3]) (simp_all add: rd_bp_install_def)
  qed
qed

subsection \<open>The breakpoint handler\<close>

text \<open>A session as configuring it and loading its targets leave it.\<close>

definition session_ok :: "rd_session \<Rightarrow> bool" where
  "session_ok s \<longleftrightarrow> wp_capacity s \<noteq> 0 \<and>
     (\<exists>tgs. targets s = Some tgs \<and> length tgs = unat (target_count s))"

text \<open>Every decode template shifts its index by less than the width of an address.\<close>

definition shifts_ok :: "rd_session \<Rightarrow> bool" where
  "shifts_ok s \<longleftrightarrow> (\<forall>tg\<in>set (case targets s of None \<Rightarrow> [] | Some tgs \<Rightarrow> tgs).
     unat (shift (tg_decode tg)) < 64)"

lemma target_address:
  assumes "session_ok s" "shifts_ok s" "ti < target_count s"
  obtains tg va where "arr_get (targets s) (unat ti) = Some tg"
    "rd_compute_effective_address (tg_decode tg) r = Some va"
proof -
  from assms obtain tgs where tgs: "targets s = Some tgs" "length tgs = unat (target_count s)"
    by (auto simp: session_ok_def)
  have ti: "unat ti < length tgs" using assms(3) tgs(2) by (simp add: word_less_nat_alt)
  then have "unat (shift (tg_decode (tgs ! unat ti))) < 64"
    using assms(2) tgs(1) by (simp add: shifts_ok_def)
  from rd_effective_address_defined [OF this, of r] obtain va where
    "rd_compute_effective_address (tg_decode (tgs ! unat ti)) r = Some va" by blast
  with tgs(1) ti show thesis by (intro that) simp_all
qed

text \<open>From the choice of a slot to the installed watchpoint.\<close>

text \<open>The slot a candidate goes to: the first idle one, or slot 0 when none is idle.\<close>

definition chosen_slot :: "rd_wp_slot list \<Rightarrow> nat \<Rightarrow> bool" where
  "chosen_slot slots i \<longleftrightarrow> i < length slots \<and>
     ((wp_state (slots ! i) = RD_WP_IDLE \<and> (\<forall>j<i. wp_state (slots ! j) = RD_WP_ARMED)) \<or>
      (i = 0 \<and> (\<forall>sl\<in>set slots. wp_state sl = RD_WP_ARMED)))"

lemma bp_pick_arm_inv:
  assumes "thread_inv s 0 t" "active t" "wp_capacity s \<noteq> 0" "callchain_key_ok key" "ti < target_count s"
    and slots: "wp_slots t = Some slots"
  obtains t2 i repl t3 c where
    "rd_pick_wp_slot s (t\<lparr>candidate_samples := candidate_samples t + 1\<rparr>) = Some (t2, Some (i, repl))"
    "chosen_slot slots i"
    "rd_bp_arm s t2 key tg ti i repl va acc = Some (t3, wp_idle_addr (slots ! i))" "thread_inv s 0 t3" "active t3"
    "wp_slots t3 = Some (slots[i := armed_slot tg ti va acc c (slots ! i)])"
    "evictions t3 = evictions t + (if wp_state (slots ! i) = RD_WP_ARMED then 1 else 0)"
    "wp_events t3 = wp_events t"
proof -
  let ?t = "t\<lparr>candidate_samples := candidate_samples t + 1\<rparr>"
  have len: "length slots = unat (wp_capacity s)" "\<forall>sl\<in>set slots. wp_samples sl = 1"
    using assms(1,2) slots by (auto simp: thread_inv_def live_ok_def slots_ok_def)
  let ?a = "\<lambda>r. t\<lparr>candidate_samples := candidate_samples t + 1, reservoir_seen := reservoir_seen t + 1,
      reservoir_accepted := reservoir_accepted t + 1, rng := r\<rparr>"
  have acc: "thread_inv s (-1) (?a r)" for r using accept_inv [OF assms(1), of r] by simp
  have "wp_slots ?t = Some slots" using slots by simp
  from this len(1) assms(3) len(2) show thesis
  proof (cases rule: rd_pick_wp_slot_cases)
    case (idle i)
    obtain t' c where t': "rd_bp_arm s (?a (rng t)\<lparr>wp_slots := Some slots\<rparr>) key tg ti i False va acc =
        Some (t', wp_idle_addr (slots ! i))" "thread_inv s (-1 + 1) t'" "active t'"
        "wp_slots t' = Some (slots[i := armed_slot tg ti va acc c (slots ! i)])"
        "evictions t' = evictions (?a (rng t)) + (if wp_state (slots ! i) = RD_WP_ARMED then 1 else 0)"
        "wp_events t' = wp_events (?a (rng t))"
      by (rule bp_arm_inv [OF acc, of "rng t" i slots key ti False slots]) (use idle slots len assms in auto)
    have eq: "?a (rng t)\<lparr>wp_slots := Some slots\<rparr> = ?t\<lparr>reservoir_seen := reservoir_seen ?t + 1,
        reservoir_accepted := reservoir_accepted ?t + 1\<rparr>" using slots by (cases t) simp
    show thesis
      using t' idle unfolding eq
      by (intro that [of _ i False t' c]) (simp_all add: chosen_slot_def)
  next
    case full
    let ?r = "snd (rd_next_random (rng t))"
    let ?s = "slots[0 := (slots ! 0)\<lparr>wp_samples := 2\<rparr>]"
    obtain t' c where t': "rd_bp_arm s (?a ?r\<lparr>wp_slots := Some ?s\<rparr>) key tg ti 0 True va acc =
        Some (t', wp_idle_addr (slots ! 0))" "thread_inv s (-1 + 1) t'" "active t'"
        "wp_slots t' = Some (slots[0 := armed_slot tg ti va acc c (slots ! 0)])"
        "evictions t' = evictions (?a ?r) + (if wp_state (slots ! 0) = RD_WP_ARMED then 1 else 0)"
        "wp_events t' = wp_events (?a ?r)"
      by (rule bp_arm_inv [OF acc, of ?r 0 slots key ti True ?s 2]) (use full slots len assms in auto)
    have eq: "?a ?r\<lparr>wp_slots := Some ?s\<rparr> = ?t\<lparr>reservoir_seen := reservoir_seen ?t + 1,
        reservoir_accepted := reservoir_accepted ?t + 1, wp_slots := Some ?s,
        rng := snd (rd_next_random (rng ?t))\<rparr>" by (cases t) simp
    show thesis
      using t' full unfolding eq
      by (intro that [of _ 0 True t' c]) (simp_all add: chosen_slot_def)
  qed
qed

text \<open>A candidate that passes the guards: what the handler computes and where it puts it.\<close>

lemma bp_hit_spec:
  assumes "thread_inv s 0 t" "session_ok s" "shifts_ok s" "active t" "running s" "ti < target_count s"
    and slots: "wp_slots t = Some slots" and ev: "mem_event t = Some ev"
  obtains tg va c i t' tok' where
    "arr_get (targets s) (unat ti) = Some tg" "rd_compute_effective_address (tg_decode tg) r = Some va"
    "chosen_slot slots i" "rd_handle_bp_hit env s t ti (Some r) tok = Some (t', tok')"
    "thread_inv s 0 t'" "active t'"
    "wp_slots t' = Some (slots[i :=
       (if wp_installs env t i va (access_size (tg_decode tg))
        then armed_slot tg ti va (perf_event_read_value env ev) c (slots ! i)
        else cleared_slot (armed_slot tg ti va (perf_event_read_value env ev) c (slots ! i)))])"
    "evictions t' = evictions t + (if wp_state (slots ! i) = RD_WP_ARMED then 1 else 0)"
proof -
  obtain tg va where tg: "arr_get (targets s) (unat ti) = Some tg"
    "rd_compute_effective_address (tg_decode tg) r = Some va" by (rule target_address [OF assms(2,3,6)])
  define t1 key where "t1 = (if callchain_mode s = RD_CALLCHAIN_FP then fst (rd_capture_callchain env t (Some r)) else t)"
    and "key = (if callchain_mode s = RD_CALLCHAIN_FP then snd (rd_capture_callchain env t (Some r)) else zero_key)"
  have t1: "thread_inv s 0 t1" "active t1" "callchain_key_ok key" "wp_slots t1 = Some slots"
    "evictions t1 = evictions t" "wp_events t1 = wp_events t"
    using assms(1,4) slots rd_capture_callchain_key_ok by (simp_all add: t1_def key_def)
  define acc len where "acc = perf_event_read_value env ev" and "len = access_size (tg_decode tg)"
  have cap: "wp_capacity s \<noteq> 0" using assms(2) by (simp add: session_ok_def)
  obtain t2 i repl t3 c where st:
    "rd_pick_wp_slot s (t1\<lparr>candidate_samples := candidate_samples t1 + 1\<rparr>) = Some (t2, Some (i, repl))"
    "chosen_slot slots i" "rd_bp_arm s t2 key tg ti i repl va acc = Some (t3, wp_idle_addr (slots ! i))"
    "thread_inv s 0 t3" "active t3" "wp_slots t3 = Some (slots[i := armed_slot tg ti va acc c (slots ! i)])"
    "evictions t3 = evictions t1 + (if wp_state (slots ! i) = RD_WP_ARMED then 1 else 0)"
    "wp_events t3 = wp_events t1"
    by (rule bp_pick_arm_inv [OF t1(1,2) cap t1(3) assms(6) t1(4)])
  have i: "i < unat (wp_capacity s)" "i < length slots"
    using st(2) slots_lengthD [OF assms(1,4) slots] by (simp_all add: chosen_slot_def)
  obtain t4 where t4: "rd_bp_snapshot env s t3 (Some r) i = Some t4" "thread_inv s 0 t4" "active t4"
    "wp_slots t4 = wp_slots t3" "evictions t4 = evictions t3" "wp_events t4 = wp_events t3"
    by (rule bp_snapshot_inv [OF st(4,5) i(1)])
  let ?sl = "armed_slot tg ti va acc c (slots ! i)"
  obtain t5 where t5: "rd_bp_install env s t4 i va len (wp_idle_addr (slots ! i)) = Some t5"
    "thread_inv s 0 t5" "active t5"
    "wp_slots t5 = Some (if wp_installs env t4 i va len then slots[i := ?sl]
       else (slots[i := ?sl])[i := cleared_slot (slots[i := ?sl] ! i)])" "evictions t5 = evictions t4"
    by (rule bp_install_inv [OF t4(2,3) assms(5) i(1), where slots = "slots[i := ?sl]"])
       (use t4(4) st(6) i in simp_all)
  have inst: "wp_installs env t4 i va len = wp_installs env t i va len"
    using t4(6) st(8) t1(6) by (simp add: wp_installs_def)
  have "rd_handle_bp_hit env s t ti (Some r) tok = Some (t5, snd (rd_debug_take_token tok))"
    using assms(4-6) tg ev st(1,3) i(1) t4(1) t5(1) unfolding rd_handle_bp_hit_def
    by (simp add: rd_read_mem_access_def t1_def key_def acc_def len_def split_beta not_le [symmetric] split: if_splits)
  then show thesis using tg st(2,7) t4(5) t1(5) t5 i(2) inst
    by (intro that [of tg va i t5 _ c]) (auto simp: acc_def len_def)
qed

lemma bp_hit_inv:
  assumes "thread_inv s 0 t" "session_ok s" "shifts_ok s"
  obtains t' tok' where "rd_handle_bp_hit env s t ti regs tok = Some (t', tok')" "thread_inv s 0 t'"
    "active t' = active t"
proof (cases "regs = None \<or> \<not> active t \<or> \<not> running s \<or> ti \<ge> target_count s")
  case True
  with assms that show thesis by (cases regs) (auto simp: rd_handle_bp_hit_def)
next
  case False
  then obtain r where r: "regs = Some r" "active t" "running s" "ti < target_count s"
    by (auto simp: not_le)
  from assms(1) r(2) obtain slots ev where "wp_slots t = Some slots" "mem_event t = Some ev"
    by (auto simp: thread_inv_def live_ok_def)
  from bp_hit_spec [OF assms r(2-4) this, of r env tok] that r(1,2) show thesis by metis
qed

subsection \<open>The watchpoint handler\<close>

lemma wp_snapshot_inv:
  assumes "thread_inv s p t" "active t" "i < unat (wp_capacity s)"
  obtains t' where "rd_wp_snapshot env s t regs i = Some t'" "thread_inv s p t'" "active t'"
    "wp_slots t' = wp_slots t"
proof (cases "callchain_mode s = RD_CALLCHAIN_DWARF \<and> wp_reuse_dwarf_snapshots t \<noteq> None")
  case False
  with assms show thesis by (intro that [of t]) (auto simp: rd_wp_snapshot_def)
next
  case True
  then obtain snaps where snaps: "wp_reuse_dwarf_snapshots t = Some snaps" by auto
  moreover have "length snaps = unat (wp_capacity s)"
    using assms(1,2) snaps by (simp add: thread_inv_def live_ok_def)
  moreover obtain a where a: "fst (rd_capture_dwarf_snapshot env s t regs) = t\<lparr>dwarf_stack_copy_failed := a\<rparr>"
    by (rule capture_snapshot_frame)
  let ?t = "t\<lparr>dwarf_stack_copy_failed := a, wp_reuse_dwarf_snapshots :=
      Some (snaps[i := snd (rd_capture_dwarf_snapshot env s t regs)])\<rparr>"
  have "thread_inv s p ?t"
    using assms(1,2) snaps by (simp add: thread_inv_defs)
  ultimately show thesis
    using True assms a by (intro that [of ?t]) (simp_all add: rd_wp_snapshot_def split_beta Let_def)
qed

lemma hist_index_less:
  assumes "ti < target_count s"
  shows "unat ti * RD_WPCTL_LOG2_BUCKETS + unat (rd_log2_bucket d) < unat (target_count s) * RD_WPCTL_LOG2_BUCKETS"
proof -
  have "unat ti + 1 \<le> unat (target_count s)" using assms by (simp add: word_less_nat_alt)
  then have "(unat ti + 1) * RD_WPCTL_LOG2_BUCKETS \<le> unat (target_count s) * RD_WPCTL_LOG2_BUCKETS"
    by (rule mult_le_mono1)
  then show ?thesis using rd_log2_bucket_less [of d] by simp
qed

text \<open>The three bookkeeping steps of a hit, with the invariant that holds after them.\<close>

lemma book_hit_inv:
  fixes s t ti d sp sc rp rc
  defines "b \<equiv> rd_log2_bucket d"
  assumes "thread_inv s p t" "active t" "ti < target_count s"
  obtains t2 where "rd_bump_hist s t ti (unat ti * RD_WPCTL_LOG2_BUCKETS + unat b) = Some t2"
    "thread_inv s (p + 1) (rd_add_pair_hist_locked t2 sp sc rp rc b
       \<lparr>hits := hits (rd_add_pair_hist_locked t2 sp sc rp rc b) + 1\<rparr>)"
    "active t2" "wp_slots t2 = wp_slots t"
proof -
  let ?i = "unat ti * RD_WPCTL_LOG2_BUCKETS + unat b"
  from assms(2) obtain h where h: "log2_hist t = Some h"
    "length h = unat (target_count s) * RD_WPCTL_LOG2_BUCKETS"
    by (auto simp: thread_inv_def results_ok_def)
  have i: "?i < length h" using hist_index_less [OF assms(4), of d] h(2) by (simp add: b_def)
  let ?t2 = "t\<lparr>log2_hist := Some (h[?i := h ! ?i + 1])\<rparr>"
  have bump: "rd_bump_hist s t ti ?i = Some ?t2"
    using h i assms(4) by (simp add: rd_bump_hist_def)
  have pairs: "pairs_ok ?t2" using assms(2) by (simp add: thread_inv_def results_ok_def pairs_ok_def)
  have b: "unat b < RD_WPCTL_LOG2_BUCKETS" by (simp add: b_def rd_log2_bucket_less)
  let ?t3 = "rd_add_pair_hist_locked ?t2 sp sc rp rc b"
  obtain ps u d where eq: "?t3 = ?t2\<lparr>pair_hist := ps, pair_hist_used := u, pair_hist_dropped := d\<rparr>"
    using rd_add_pair_hist_frame by blast
  have "pairs_ok ?t3" by (rule rd_add_pair_hist_ok [OF pairs b])
  moreover have "pair_total (the (pair_hist ?t3)) + pair_hist_dropped ?t3 =
      pair_total (the (pair_hist t)) + pair_hist_dropped t + 1"
    using rd_add_pair_hist_total [OF pairs b, of sp sc rp rc] by simp
  moreover have "sum_list (h[?i := h ! ?i + 1]) = sum_list h + 1" using i by (simp add: sum_list_incr_word)
  ultimately have "thread_inv s (p + 1) (?t3\<lparr>hits := hits ?t3 + 1\<rparr>)"
    using assms(2,3) h unfolding eq by (simp add: thread_inv_defs)
  then show thesis using bump assms(3) by (intro that [of ?t2]) simp_all
qed

lemma pair_hist_fields [simp]:
  "active (rd_add_pair_hist_locked t sp sc rp rc b) = active t"
  "wp_slots (rd_add_pair_hist_locked t sp sc rp rc b) = wp_slots t"
  by (subst rd_add_pair_hist_frame, simp)+

lemma store_dwarf_event_inv:
  assumes "thread_inv s p t" "active t" "i < unat (wp_capacity s)" "dwarf_events t \<noteq> None"
    "e < dwarf_event_capacity s"
  obtains t' where "rd_store_dwarf_event t e i sl rp ha d b = Some t'" "thread_inv s p t'"
    "active t'" "wp_slots t' = wp_slots t"
proof -
  from assms(1,4) obtain ds where ds: "dwarf_events t = Some ds" "length ds = unat (dwarf_event_capacity s)"
    by (auto simp: thread_inv_def results_ok_def)
  have e: "unat e < length ds" using ds(2) assms(5) by (simp add: word_less_nat_alt)
  have snaps: "i < length xs"
    if "wp_seed_dwarf_snapshots t = Some xs \<or> wp_reuse_dwarf_snapshots t = Some xs" for xs
    using that assms(1-3) by (auto simp: thread_inv_def live_ok_def)
  have "\<exists>sn. (if a = None then Some None else map_option Some (arr_get a i)) = Some sn"
    if "\<And>xs. a = Some xs \<Longrightarrow> i < length xs" for a :: "rd_wpctl_dwarf_snapshot list option"
    using that by (cases a) simp_all
  from this [of "wp_seed_dwarf_snapshots t"] this [of "wp_reuse_dwarf_snapshots t"] snaps
  obtain seed reuse where
    "(if wp_seed_dwarf_snapshots t = None then Some None
      else map_option Some (arr_get (wp_seed_dwarf_snapshots t) i)) = Some seed"
    "(if wp_reuse_dwarf_snapshots t = None then Some None
      else map_option Some (arr_get (wp_reuse_dwarf_snapshots t) i)) = Some reuse" by blast
  then have "\<exists>v. rd_store_dwarf_event t e i sl rp ha d b = Some (t\<lparr>dwarf_events := Some (ds[unat e := v])\<rparr>)"
    unfolding rd_store_dwarf_event_def ds(1) by (simp only: Option.bind_lunit arr_set_Some [OF e]) (rule exI, rule refl)
  then obtain v where "rd_store_dwarf_event t e i sl rp ha d b = Some (t\<lparr>dwarf_events := Some (ds[unat e := v])\<rparr>)"
    by blast
  moreover have "thread_inv s p (t\<lparr>dwarf_events := Some (ds[unat e := v])\<rparr>)"
    using assms(1,2) ds by (simp add: thread_inv_defs)
  ultimately show thesis using that assms(2) by simp
qed

lemma thread_inv_hits_frame:
  "thread_inv s p (t\<lparr>dwarf_event_dropped := a, hits := h\<rparr>) = thread_inv s p (t\<lparr>hits := h\<rparr>)"
  "thread_inv s p (t\<lparr>dwarf_event_used := b, hits := h\<rparr>) = thread_inv s p (t\<lparr>hits := h\<rparr>)"
  by (simp_all add: thread_inv_defs)

lemma reserve_dwarf_event_inv:
  assumes "rd_reserve_dwarf_event_locked s t = (t', res)"
  shows "thread_inv s p (t'\<lparr>hits := hits t' + 1\<rparr>) = thread_inv s p (t\<lparr>hits := hits t + 1\<rparr>)"
    "active t' = active t" "wp_slots t' = wp_slots t" "dwarf_events t' = dwarf_events t"
    "\<And>e. res = Some e \<Longrightarrow> dwarf_events t \<noteq> None \<and> e < dwarf_event_capacity s"
  using assms
  by (auto simp: rd_reserve_dwarf_event_locked_def thread_inv_hits_frame not_le split: if_splits)

lemma wp_account_inv:
  assumes "thread_inv s 0 t" "active t" "i < unat (wp_capacity s)" "wp_target_index sl < target_count s"
    and "callchain_key_ok key"
  obtains t' tok' where "rd_wp_account env s t sl i key rp tok = Some (t', tok')" "thread_inv s 1 t'"
    "active t'" "wp_slots t' = wp_slots t"
proof -
  from assms(1,2) obtain ev where ev: "mem_event t = Some ev" by (auto simp: thread_inv_def live_ok_def)
  define ha where "ha = perf_event_read_value env ev"
  define d where "d = rd_delta (wp_seed_access sl) ha"
  define t1 c where "t1 = (if callchain_mode s = RD_CALLCHAIN_FP \<and> key_depth key \<noteq> 0
      then fst (rd_get_context_id_locked t key) else t)"
    and "c = (if callchain_mode s = RD_CALLCHAIN_FP \<and> key_depth key \<noteq> 0
      then snd (rd_get_context_id_locked t key) else 0)"
  have t1: "thread_inv s 0 t1" "active t1" "wp_slots t1 = wp_slots t"
    using assms by (simp_all add: t1_def get_context_id_inv)
  obtain t2 where t2: "rd_bump_hist s t1 (wp_target_index sl)
      (unat (wp_target_index sl) * RD_WPCTL_LOG2_BUCKETS + unat (rd_log2_bucket d)) = Some t2"
    "thread_inv s (0 + 1) (rd_add_pair_hist_locked t2 (wp_seed_pc_offset sl) (wp_seed_context_id sl) rp c
       (rd_log2_bucket d)\<lparr>hits := hits (rd_add_pair_hist_locked t2 (wp_seed_pc_offset sl)
       (wp_seed_context_id sl) rp c (rd_log2_bucket d)) + 1\<rparr>)"
    "active t2" "wp_slots t2 = wp_slots t1" by (rule book_hit_inv [OF t1(1,2) assms(4)])
  define t3 where "t3 = rd_add_pair_hist_locked t2 (wp_seed_pc_offset sl) (wp_seed_context_id sl) rp c (rd_log2_bucket d)"
  define t4 res where "t4 = (if callchain_mode s = RD_CALLCHAIN_DWARF then fst (rd_reserve_dwarf_event_locked s t3) else t3)"
    and "res = (if callchain_mode s = RD_CALLCHAIN_DWARF then snd (rd_reserve_dwarf_event_locked s t3) else None)"
  note reserve = reserve_dwarf_event_inv [of s t3 "fst (rd_reserve_dwarf_event_locked s t3)"
      "snd (rd_reserve_dwarf_event_locked s t3)", OF surjective_pairing]
  let ?t5 = "t4\<lparr>hits := hits t4 + 1\<rparr>"
  have t5: "thread_inv s 1 ?t5" "active ?t5" "wp_slots ?t5 = wp_slots t"
    using t2 t1 reserve(1-3) by (simp_all add: t4_def t3_def)
  have "\<exists>t6. (case res of None \<Rightarrow> Some ?t5 | Some e \<Rightarrow>
        rd_store_dwarf_event ?t5 e i sl rp ha d (rd_log2_bucket d)) = Some t6 \<and>
      thread_inv s 1 t6 \<and> active t6 \<and> wp_slots t6 = wp_slots t"
  proof (cases res)
    case (Some e)
    then have "dwarf_events ?t5 \<noteq> None" "e < dwarf_event_capacity s"
      using reserve(4,5) by (auto simp: t4_def res_def split: if_splits)
    from store_dwarf_event_inv [OF t5(1,2) assms(3) this] obtain t6 where
      "rd_store_dwarf_event ?t5 e i sl rp ha d (rd_log2_bucket d) = Some t6" "thread_inv s 1 t6"
      "active t6" "wp_slots t6 = wp_slots ?t5" by blast
    with Some t5(3) show ?thesis by (intro exI [of _ t6]) simp
  qed (use t5 in simp)
  then obtain t6 where t6: "(case res of None \<Rightarrow> Some ?t5 | Some e \<Rightarrow>
      rd_store_dwarf_event ?t5 e i sl rp ha d (rd_log2_bucket d)) = Some t6"
    "thread_inv s 1 t6" "active t6" "wp_slots t6 = wp_slots t" by blast
  have "(if callchain_mode s = RD_CALLCHAIN_FP \<and> key_depth key \<noteq> 0
         then rd_get_context_id_locked t key else (t, 0)) = (t1, c)"
    "(if callchain_mode s = RD_CALLCHAIN_DWARF then rd_reserve_dwarf_event_locked s t3
      else (t3, None)) = (t4, res)"
    by (simp_all add: t1_def c_def t4_def res_def)
  then have "rd_wp_account env s t sl i key rp tok = Some (t6, snd (rd_debug_take_token tok))"
    using ev t2(1) t6(1) unfolding rd_wp_account_def
    by (simp only: rd_read_mem_access_def Let_def option.simps sum.simps prod.case
        ha_def [symmetric] d_def [symmetric] t3_def [symmetric] Option.bind_lunit)
  with t6 that show thesis by blast
qed

lemma wp_retire_inv:
  assumes "thread_inv s 1 t" "active t" "i < unat (wp_capacity s)"
    and "wp_slots t = Some slots" "wp_state (slots ! i) = RD_WP_ARMED"
  obtains t' where "rd_wp_retire env s t i idle = Some t'" "thread_inv s 0 t'" "active t'"
    "wp_slots t' = Some (slots[i := cleared_slot (slots ! i)])"
proof -
  have len: "i < length slots" using slots_lengthD [OF assms(1,2,4)] assms(3) by simp
  obtain t1 where t1: "rd_clear_slot_metadata s t i = Some t1" "thread_inv s (1 - 1) t1" "active t1"
    "wp_slots t1 = Some (slots[i := cleared_slot (slots ! i)])" by (rule clear_armed_slot_inv [OF assms])
  obtain ret t2 where "rd_modify_slot env s t1 i idle RD_IDLE_WP_LEN = Some (ret, t2)"
    "thread_inv s (1 - 1) t2" "active t2" "wp_slots t2 = wp_slots t1" by (rule modify_slot_inv [OF t1(2,3) assms(3)])
  with t1(1,4) assms len show thesis by (intro that [of t2]) (simp_all add: rd_wp_retire_def)
qed

text \<open>The first hit after arming only clears the skip flag.\<close>

lemma skip_first_hit_inv:
  assumes "thread_inv s p t" "active t" "wp_slots t = Some slots" "i < length slots"
  shows "thread_inv s p (t\<lparr>wp_slots := Some (slots[i := (slots ! i)\<lparr>wp_skip_first_hit := 0\<rparr>])\<rparr>)"
proof -
  have "slots ! i \<in> set slots" using assms(4) by simp
  then have "\<forall>sl\<in>set (slots[i := (slots ! i)\<lparr>wp_skip_first_hit := 0\<rparr>]). wp_samples sl = 1 \<and>
      (wp_state sl = RD_WP_ARMED \<longrightarrow> wp_target_index sl < target_count s)"
    using assms(1,3) by (auto simp: thread_inv_def slots_ok_def
        dest!: set_update_subset_insert [THEN subsetD])
  with assms show ?thesis by (simp add: thread_inv_defs count_if_update_same)
qed

text \<open>A hit that counts as a reuse, stage by stage.\<close>

lemma wp_hit_reuse:
  assumes "thread_inv s 0 t" "active t" "running s" "i < unat (wp_capacity s)"
    and slots: "wp_slots t = Some slots"
    and armed: "wp_state (slots ! i) = RD_WP_ARMED" "wp_skip_first_hit (slots ! i) = 0"
  obtains t1 t2 t3 t4 key tok' where
    "t1 = (if callchain_mode s = RD_CALLCHAIN_FP then fst (rd_capture_callchain env t regs) else t)"
    "rd_wp_snapshot env s t1 regs i = Some t2"
    "rd_wp_account env s t2 (slots ! i) i key (case regs of None \<Rightarrow> 0 | Some r \<Rightarrow> regs_pc r) tok = Some (t3, tok')"
    "rd_wp_retire env s t3 i (wp_idle_addr (slots ! i)) = Some t4"
    "rd_handle_wp_hit env s t i regs tok = Some (t4, tok')" "thread_inv s 0 t4" "active t4"
    "wp_slots t4 = Some (slots[i := cleared_slot (slots ! i)])" "thread_inv s 0 t2"
    "wp_target_index (slots ! i) < target_count s"
proof -
  have len: "i < length slots" using slots_lengthD [OF assms(1,2) slots] assms(4) by simp
  then have ti: "wp_target_index (slots ! i) < target_count s"
    using assms(1) slots armed(1) by (simp add: thread_inv_def slots_ok_def)
  define rp where "rp = (case regs of None \<Rightarrow> 0 | Some r \<Rightarrow> regs_pc r)"
  define t1 key where "t1 = (if callchain_mode s = RD_CALLCHAIN_FP then fst (rd_capture_callchain env t regs) else t)"
    and "key = (if callchain_mode s = RD_CALLCHAIN_FP then snd (rd_capture_callchain env t regs) else zero_key)"
  have t1: "thread_inv s 0 t1" "active t1" "wp_slots t1 = Some slots" "callchain_key_ok key"
    using assms(1,2) slots rd_capture_callchain_key_ok by (simp_all add: t1_def key_def)
  obtain t2 where t2: "rd_wp_snapshot env s t1 regs i = Some t2" "thread_inv s 0 t2" "active t2"
    "wp_slots t2 = wp_slots t1" by (rule wp_snapshot_inv [OF t1(1,2) assms(4)])
  obtain t3 tok' where t3: "rd_wp_account env s t2 (slots ! i) i key rp tok = Some (t3, tok')"
    "thread_inv s 1 t3" "active t3" "wp_slots t3 = wp_slots t2"
    by (rule wp_account_inv [OF t2(2,3) assms(4) ti t1(4)])
  obtain t4 where t4: "rd_wp_retire env s t3 i (wp_idle_addr (slots ! i)) = Some t4" "thread_inv s 0 t4" "active t4"
    "wp_slots t4 = Some (slots[i := cleared_slot (slots ! i)])"
    by (rule wp_retire_inv [OF t3(2,3) assms(4)]) (use t1 t2 t3 armed in simp_all)
  have "rd_handle_wp_hit env s t i regs tok = Some (t4, tok')"
    using assms(2-4) slots len armed ti t2(1) t3(1) t4(1)
    unfolding rd_handle_wp_hit_def t1_def key_def rp_def
    by (simp add: Let_def split_beta not_le [symmetric] split: if_splits)
  with that t1_def t2(1,2) t3(1) t4 ti show thesis unfolding rp_def by blast
qed

lemma wp_hit_inv:
  assumes "thread_inv s 0 t"
  obtains t' tok' where "rd_handle_wp_hit env s t i regs tok = Some (t', tok')" "thread_inv s 0 t'"
    "active t' = active t"
proof (cases "\<not> active t \<or> \<not> running s \<or> i \<ge> unat (wp_capacity s)")
  case True
  with assms that show thesis by (auto simp: rd_handle_wp_hit_def)
next
  case False
  then have act: "active t" "running s" and i: "i < unat (wp_capacity s)" by auto
  obtain slots where slots: "wp_slots t = Some slots" "length slots = unat (wp_capacity s)"
    by (rule slotsE [OF assms act(1)])
  then have len: "i < length slots" using i by simp
  consider (idle) "wp_state (slots ! i) \<noteq> RD_WP_ARMED"
    | (skip) "wp_state (slots ! i) = RD_WP_ARMED" "wp_skip_first_hit (slots ! i) \<noteq> 0"
    | (reuse) "wp_state (slots ! i) = RD_WP_ARMED" "wp_skip_first_hit (slots ! i) = 0" by blast
  then show thesis
  proof cases
    case idle
    with assms that act slots i len show thesis by (auto simp: rd_handle_wp_hit_def)
  next
    case skip
    with that skip_first_hit_inv [OF assms act(1) slots(1) len] act slots(1) i len show thesis
      by (simp add: rd_handle_wp_hit_def)
  next
    case reuse
    from wp_hit_reuse [OF assms act i slots(1) reuse] that act(1) show thesis by metis
  qed
qed

end
