(* ===== verification/Views.thy ===== *)
theory Views
  imports Hit_Safety
begin

text \<open>
  Views of a thread: functions of the context that an operation leaves unchanged.  A view is
  given by the fields it does not read; what the operations of the hit path keep of it is
  proved once, in the two locales, and obtained by interpretation for each view the
  properties need.
\<close>

subsection \<open>Views of the bookkeeping\<close>

text \<open>A view that reads neither the slots nor the call-context and snapshot state.\<close>

locale thread_view =
  fixes v :: "rd_thread_ctx \<Rightarrow> 'v"
  assumes v_callchain: "v (t\<lparr>callchain_failed := a\<rparr>) = v t" "v (t\<lparr>callchain_truncated := a\<rparr>) = v t"
    and v_contexts: "v (t\<lparr>context_dropped := a\<rparr>) = v t" "v (t\<lparr>context_used := u\<rparr>) = v t"
      "v (t\<lparr>contexts := cs\<rparr>) = v t"
    and v_slots: "v (t\<lparr>wp_events := evs\<rparr>) = v t" "v (t\<lparr>wp_slots := slots\<rparr>) = v t"
    and v_snapshots: "v (t\<lparr>wp_seed_dwarf_snapshots := sn\<rparr>) = v t"
      "v (t\<lparr>wp_reuse_dwarf_snapshots := sn\<rparr>) = v t" "v (t\<lparr>dwarf_stack_copy_failed := a\<rparr>) = v t"
    and v_dwarf: "v (t\<lparr>dwarf_events := ds\<rparr>) = v t" "v (t\<lparr>dwarf_event_used := u\<rparr>) = v t"
      "v (t\<lparr>dwarf_event_dropped := a\<rparr>) = v t"
begin

lemmas v_frame [simp] = v_callchain v_contexts v_slots v_snapshots v_dwarf

lemma v_capture [simp]:
  "v (fst (rd_capture_callchain env t regs)) = v t"
  "v (fst (rd_capture_dwarf_snapshot env s t regs)) = v t"
  "v (fst (rd_get_context_id_locked t key)) = v t"
  "v (fst (rd_reserve_dwarf_event_locked s t)) = v t"
proof -
  show "v (fst (rd_capture_callchain env t regs)) = v t"
    by (auto simp: rd_capture_callchain_def Let_def split: option.split prod.split)
  obtain a where "fst (rd_capture_dwarf_snapshot env s t regs) = t\<lparr>dwarf_stack_copy_failed := a\<rparr>"
    by (rule capture_snapshot_frame)
  then show "v (fst (rd_capture_dwarf_snapshot env s t regs)) = v t" by simp
  show "v (fst (rd_get_context_id_locked t key)) = v t"
    by (subst rd_get_context_id_frame) simp
  show "v (fst (rd_reserve_dwarf_event_locked s t)) = v t"
    by (simp add: rd_reserve_dwarf_event_locked_def)
qed

text \<open>Each operation as a rule: whatever it returns has the view of its argument.\<close>

lemma v_modify: "(\<And>r t'. v t' = v t \<Longrightarrow> P (r, t')) \<Longrightarrow> post (rd_modify_slot env s t i a l) P"
  by (auto simp: rd_modify_slot_def Let_def intro!: post_intros split: option.split prod.split)

lemma v_clear: "(\<And>t'. v t' = v t \<Longrightarrow> Q t') \<Longrightarrow> post (rd_clear_slot_metadata s t i) Q"
  by (auto simp: rd_clear_slot_metadata_def Let_def intro!: post_intros split: option.split prod.split)

lemma v_store: "(\<And>t'. v t' = v t \<Longrightarrow> Q t') \<Longrightarrow> post (rd_store_dwarf_event t e i sl rp ha d b) Q"
  by (auto simp: rd_store_dwarf_event_def intro!: post_intros)

lemma v_snapshot:
  "(\<And>t'. v t' = v t \<Longrightarrow> Q t') \<Longrightarrow> post (rd_bp_snapshot env s t regs i) Q"
  "(\<And>t'. v t' = v t \<Longrightarrow> Q t') \<Longrightarrow> post (rd_wp_snapshot env s t regs i) Q"
  by (auto simp: rd_bp_snapshot_def rd_wp_snapshot_def Let_def split_beta intro!: post_intros)

lemma v_retire: "(\<And>t'. v t' = v t \<Longrightarrow> Q t') \<Longrightarrow> post (rd_wp_retire env s t i idle) Q"
  by (auto simp: rd_wp_retire_def intro!: post_intros v_modify v_clear)

lemmas v_ops = v_modify v_clear v_store v_snapshot v_retire

end

subsection \<open>Views of the identity\<close>

text \<open>A view that reads none of the fields the hit path writes.\<close>

locale thread_identity = thread_view +
  assumes v_counters: "v (t\<lparr>dropped := a\<rparr>) = v t" "v (t\<lparr>evictions := a\<rparr>) = v t" "v (t\<lparr>hits := a\<rparr>) = v t"
      "v (t\<lparr>candidate_samples := a\<rparr>) = v t" "v (t\<lparr>reservoir_seen := a\<rparr>) = v t"
      "v (t\<lparr>reservoir_accepted := a\<rparr>) = v t" "v (t\<lparr>reservoir_rejected := a\<rparr>) = v t" "v (t\<lparr>rng := a\<rparr>) = v t"
    and v_hists: "v (t\<lparr>log2_hist := h\<rparr>) = v t" "v (t\<lparr>pair_hist := ps\<rparr>) = v t"
      "v (t\<lparr>pair_hist_used := u\<rparr>) = v t" "v (t\<lparr>pair_hist_dropped := a\<rparr>) = v t"
begin

lemmas v_identity [simp] = v_counters v_hists

lemma v_pair [simp]: "v (rd_add_pair_hist_locked t sp sc rp rc b) = v t"
  by (subst rd_add_pair_hist_frame) simp

lemma v_bump: "(\<And>t'. v t' = v t \<Longrightarrow> Q t') \<Longrightarrow> post (rd_bump_hist s t ti hi) Q"
  by (auto simp: rd_bump_hist_def intro!: post_intros)

lemma v_pick: "(\<And>t' res. v t' = v t \<Longrightarrow> P (t', res)) \<Longrightarrow> post (rd_pick_wp_slot s t) P"
  by (cases "wp_slots t") (simp_all add: rd_pick_wp_slot_def Let_def split_beta split: option.split)

lemma v_arm: "(\<And>t' idle. v t' = v t \<Longrightarrow> P (t', idle)) \<Longrightarrow> post (rd_bp_arm s t key tg ti i repl va acc) P"
  by (auto simp: rd_bp_arm_def Let_def split_beta intro!: post_intros)

lemma v_install: "(\<And>t'. v t' = v t \<Longrightarrow> Q t') \<Longrightarrow> post (rd_bp_install env s t i va len idle) Q"
  by (auto simp: rd_bp_install_def intro!: v_ops)

lemma v_account: "(\<And>t' tok'. v t' = v t \<Longrightarrow> P (t', tok')) \<Longrightarrow> post (rd_wp_account env s t sl i key rp tok) P"
  by (auto simp: rd_wp_account_def Let_def split_beta intro!: v_ops v_bump split: option.split sum.split)

lemma bp_hit_view: "post (rd_handle_bp_hit env s t ti regs tok) (\<lambda>r. v (fst r) = v t)"
  by (auto simp: rd_handle_bp_hit_def Let_def split_beta post_def [of "rd_compute_effective_address _ _"]
      intro!: post_intros v_ops v_pick v_arm v_install split: option.split sum.split)

lemma wp_hit_view: "post (rd_handle_wp_hit env s t i regs tok) (\<lambda>r. v (fst r) = v t)"
  by (auto simp: rd_handle_wp_hit_def Let_def split_beta
      intro!: post_intros v_ops v_account split: option.split)

end

end
