(* ===== verification/Session.thy ===== *)
theory Session
  imports Views
begin

text \<open>
  The control plane of the kernel module (\<^verbatim>\<open>kernel/rd_wpctl.c\<close>): the life of a thread's
  resources (setup, detach, destroy), registration, configuration, target loading, the
  window, the reset and the queries.  Operations that release events return the list of the
  events they release.  \<open>None\<close> is an invalid memory access, or a wait that never ends.
\<close>

subsection \<open>Setting up a thread's events\<close>

definition kcalloc :: "kenv \<Rightarrow> nat \<Rightarrow> 'a \<Rightarrow> nat \<Rightarrow> 'a list option" where
  "kcalloc env k z n = (if alloc_ok env k then Some (replicate n z) else None)"

text \<open>The eleven slot arrays are allocations 8 to 18; they exist together or the setup fails.\<close>

definition rd_alloc_arrays :: "kenv \<Rightarrow> rd_session \<Rightarrow> rd_thread_ctx \<Rightarrow> rd_thread_ctx" where
  "rd_alloc_arrays env session thread =
     (let tc = unat (target_count session); wc = unat (wp_capacity session);
          dwarf = (callchain_mode session = RD_CALLCHAIN_DWARF);
          t1 = thread\<lparr>bp_events := kcalloc env 0 None tc, wp_events := kcalloc env 1 None wc,
                 log2_hist := kcalloc env 2 0 (tc * RD_WPCTL_LOG2_BUCKETS),
                 pair_hist := kcalloc env 3 zero_pair_entry RD_WPCTL_MAX_PAIR_HISTS,
                 contexts := kcalloc env 4 zero_context_entry RD_WPCTL_MAX_CONTEXTS\<rparr>;
          t2 = (if dwarf then
                  t1\<lparr>dwarf_events := kcalloc env 5 zero_dwarf_event (unat (dwarf_event_capacity session)),
                     wp_seed_dwarf_snapshots := kcalloc env 6 zero_snapshot wc,
                     wp_reuse_dwarf_snapshots := kcalloc env 7 zero_snapshot wc\<rparr>
                else t1)
      in t2\<lparr>wp_slots := (if list_all (alloc_ok env) [8..<19] then Some (replicate wc zero_slot) else None)\<rparr>)"

definition rd_alloc_failed :: "rd_session \<Rightarrow> rd_thread_ctx \<Rightarrow> bool" where
  "rd_alloc_failed session t \<longleftrightarrow>
     bp_events t = None \<or> wp_events t = None \<or> log2_hist t = None \<or> pair_hist t = None \<or>
     contexts t = None \<or>
     (callchain_mode session = RD_CALLCHAIN_DWARF \<and>
        (dwarf_events t = None \<or> wp_seed_dwarf_snapshots t = None \<or> wp_reuse_dwarf_snapshots t = None)) \<or>
     wp_slots t = None"

text \<open>The two registration loops, from index \<open>i\<close>, \<open>n\<close> events to go.\<close>

fun rd_register_bps :: "kenv \<Rightarrow> rd_session \<Rightarrow> rd_thread_ctx \<Rightarrow> nat \<Rightarrow> nat \<Rightarrow> (kret \<times> rd_thread_ctx) option" where
  "rd_register_bps env session thread i 0 = Some (RetOk, thread)"
| "rd_register_bps env session thread i (Suc n) =
     do {
       tg \<leftarrow> arr_get (targets session) i;
       case register_bp env i (rd_init_bp_attr env (tg_abs_pc tg) (bp_sample_period session)) of
         Inl e \<Rightarrow> do { evs \<leftarrow> arr_set (bp_events thread) i None;
                     Some (RetErr e, thread\<lparr>bp_events := evs\<rparr>) }
       | Inr ev \<Rightarrow> do { evs \<leftarrow> arr_set (bp_events thread) i (Some ev);
                      rd_register_bps env session (thread\<lparr>bp_events := evs\<rparr>) (Suc i) n }
     }"

fun rd_register_wps :: "kenv \<Rightarrow> rd_thread_ctx \<Rightarrow> nat \<Rightarrow> nat \<Rightarrow> (kret \<times> rd_thread_ctx) option" where
  "rd_register_wps env thread i 0 = Some (RetOk, thread)"
| "rd_register_wps env thread i (Suc n) =
     do {
       sl \<leftarrow> arr_get (wp_slots thread) i;
       let idle = scratch_base thread + of_nat i * scratch_stride thread;
       slots \<leftarrow> arr_set (wp_slots thread) i (sl\<lparr>wp_idle_addr := idle\<rparr>);
       case register_wp env i (rd_init_wp_attr env idle RD_IDLE_WP_LEN) of
         Inl e \<Rightarrow> do { evs \<leftarrow> arr_set (wp_events thread) i None;
                     Some (RetErr e, thread\<lparr>wp_slots := slots, wp_events := evs\<rparr>) }
       | Inr ev \<Rightarrow> do {
           evs \<leftarrow> arr_set (wp_events thread) i (Some ev);
           slots' \<leftarrow> arr_set slots i (sl\<lparr>wp_idle_addr := idle, wp_state := RD_WP_IDLE, wp_samples := 1\<rparr>);
           rd_register_wps env (thread\<lparr>wp_slots := slots', wp_events := evs\<rparr>) (Suc i) n
         }
     }"

definition rd_thread_setup_events ::
  "kenv \<Rightarrow> rd_session \<Rightarrow> rd_thread_ctx \<Rightarrow> (kret \<times> rd_thread_ctx) option" where
  "rd_thread_setup_events env session thread =
     (case perf_event_create_kernel_counter env (rd_init_mem_attr env) (cpu thread) of
        Inl e \<Rightarrow> Some (RetErr e, thread\<lparr>mem_event := None\<rparr>)
      | Inr ev \<Rightarrow>
          let t1 = rd_alloc_arrays env session (thread\<lparr>mem_event := Some ev\<rparr>)
          in if rd_alloc_failed session t1 then Some (RetErr ENOMEM, t1)
             else do {
               (ret, t2) \<leftarrow> rd_register_bps env session t1 0 (unat (target_count session));
               if ret \<noteq> RetOk then Some (ret, t2)
               else rd_register_wps env t2 0 (unat (wp_capacity session))
             })"

subsection \<open>Releasing a thread's resources\<close>

definition present :: "'a option list \<Rightarrow> 'a list" where
  "present xs = map the (filter (\<lambda>x. x \<noteq> None) xs)"

definition release_events ::
  "kenv \<Rightarrow> nat \<Rightarrow> perf_event option list option \<Rightarrow> perf_event list option" where
  "release_events env n a =
     (case a of None \<Rightarrow> Some []
      | Some evs \<Rightarrow> if n \<le> length evs then Some (map (perf_event_disable env) (present (take n evs))) else None)"

definition rd_thread_free_live ::
  "kenv \<Rightarrow> rd_session \<Rightarrow> rd_thread_ctx \<Rightarrow> (perf_event list \<times> rd_thread_ctx) option" where
  "rd_thread_free_live env session thread =
     do {
       let mems = (case mem_event thread of None \<Rightarrow> [] | Some ev \<Rightarrow> [perf_event_disable env ev]);
       bps \<leftarrow> release_events env (unat (target_count session)) (bp_events thread);
       wps \<leftarrow> release_events env (unat (wp_capacity session)) (wp_events thread);
       Some (mems @ bps @ wps,
             thread\<lparr>mem_event := None, bp_events := None, wp_events := None, wp_slots := None,
                    wp_seed_dwarf_snapshots := None, wp_reuse_dwarf_snapshots := None, task := None\<rparr>)
     }"

text \<open>
  The references that keep a thread's resources: \<^verbatim>\<open>rd_thread_live_get_rcu\<close> and
  \<^verbatim>\<open>rd_thread_live_put\<close>.  A put on a count that is already 0 saturates the counter
  and completes nothing.
\<close>

definition rd_thread_live_put :: "rd_thread_ctx \<Rightarrow> rd_thread_ctx" where
  "rd_thread_live_put thread =
     (if live_refs thread = 0 then thread
      else thread\<lparr>live_refs := live_refs thread - 1,
                  live_refs_zero := live_refs_zero thread \<or> live_refs thread = 1\<rparr>)"

definition rd_thread_live_get_rcu :: "rd_thread_ctx \<Rightarrow> bool \<times> rd_thread_ctx" where
  "rd_thread_live_get_rcu thread =
     (if \<not> active thread \<or> live_detached thread then (False, thread)
      else if live_refs thread = 0 then (False, thread)
      else let t1 = thread\<lparr>live_refs := live_refs thread + 1\<rparr>
           in if \<not> active t1 \<or> live_detached t1 then (False, rd_thread_live_put t1) else (True, t1))"

text \<open>Counting the armed slots as dropped.\<close>

definition rd_count_armed :: "rd_session \<Rightarrow> rd_thread_ctx \<Rightarrow> rd_thread_ctx option" where
  "rd_count_armed session thread =
     (case wp_slots thread of
        None \<Rightarrow> Some thread
      | Some slots \<Rightarrow>
          if unat (wp_capacity session) \<le> length slots
          then Some (thread\<lparr>dropped := dropped thread + of_nat (count_if (\<lambda>sl. wp_state sl = RD_WP_ARMED)
                       (take (unat (wp_capacity session)) slots))\<rparr>)
          else None)"

definition rd_thread_detach_live ::
  "kenv \<Rightarrow> rd_session \<Rightarrow> rd_thread_ctx \<Rightarrow> (perf_event list \<times> rd_thread_ctx) option" where
  "rd_thread_detach_live env session thread =
     (if live_detached thread then Some ([], thread)
      else let t1 = rd_thread_live_put (thread\<lparr>active := False, live_detached := True\<rparr>)
           in if \<not> live_refs_zero t1 then None
              else do {
                t2 \<leftarrow> rd_count_armed session t1;
                rd_thread_free_live env session t2
              })"

text \<open>The object is freed with its result tables: only the events it still held remain to tell.\<close>

definition rd_thread_destroy :: "kenv \<Rightarrow> rd_session \<Rightarrow> rd_thread_ctx \<Rightarrow> perf_event list option" where
  "rd_thread_destroy env session thread = map_option fst (rd_thread_free_live env session thread)"

subsection \<open>Registration\<close>

definition rd_find_active_thread_by_tid :: "rd_session \<Rightarrow> int \<Rightarrow> nat option" where
  "rd_find_active_thread_by_tid session t = find_index (\<lambda>th. tid th = t \<and> active th) (threads session)"

definition rd_find_thread_by_index :: "rd_session \<Rightarrow> u32 \<Rightarrow> rd_thread_ctx option" where
  "rd_find_thread_by_index session index =
     (if unat index < length (threads session) then Some (threads session ! unat index) else None)"

definition rd_check_thread_affinity :: "kenv \<Rightarrow> task_struct \<Rightarrow> int \<Rightarrow> kret" where
  "rd_check_thread_affinity env tsk c =
     (if c < 0 \<or> c \<ge> nr_cpu_ids env then RetErr EINVAL
      else if nat c \<notin> set (task_cpus tsk) then RetErr EINVAL
      else if length (remdups (task_cpus tsk)) \<noteq> 1 then RetErr EINVAL
      else RetOk)"

definition rd_new_thread :: "task_struct \<Rightarrow> rd_wpctl_thread_register \<Rightarrow> rd_thread_ctx" where
  "rd_new_thread tsk arg =
     \<lparr>task = Some tsk, tid = reg_tid arg, cpu = reg_cpu arg, active = True, live_detached = False,
      scratch_base = reg_scratch_base arg, scratch_stride = reg_scratch_stride arg,
      live_refs = 1, live_refs_zero = False, mem_event = None, bp_events = None, wp_events = None,
      log2_hist = None, pair_hist = None, contexts = None, dwarf_events = None,
      wp_seed_dwarf_snapshots = None, wp_reuse_dwarf_snapshots = None, wp_slots = None,
      candidate_samples = 0, reservoir_seen = 0, reservoir_accepted = 0, reservoir_rejected = 0,
      hits = 0, evictions = 0, dropped = 0, pair_hist_used = 0, pair_hist_dropped = 0,
      context_used = 0, context_dropped = 0, callchain_failed = 0, callchain_truncated = 0,
      dwarf_event_used = 0, dwarf_event_dropped = 0, dwarf_stack_copy_failed = 0,
      rng = rd_rng_seed (reg_tid arg)\<rparr>"

text \<open>
  Registration returns the code, the events it released again, and the session; the new
  thread is the last of the list.  Allocation 19 is the thread object.
\<close>

definition rd_register_thread_locked ::
  "kenv \<Rightarrow> rd_session \<Rightarrow> rd_wpctl_thread_register \<Rightarrow> (kret \<times> perf_event list \<times> rd_session) option" where
  "rd_register_thread_locked env session arg =
     (if \<not> configured session \<or> \<not> targets_loaded session then Some (RetErr EINVAL, [], session)
      else if rd_find_active_thread_by_tid session (reg_tid arg) \<noteq> None
        then Some (RetErr EEXIST, [], session)
      else if reg_scratch_base arg = 0 \<or> reg_scratch_stride arg = 0 then Some (RetErr EINVAL, [], session)
      else case find_task env (reg_tid arg) of
          None \<Rightarrow> Some (RetErr ESRCH, [], session)
        | Some tsk \<Rightarrow>
            if task_tgid tsk \<noteq> owner_tgid session then Some (RetErr EPERM, [], session)
            else if rd_check_thread_affinity env tsk (reg_cpu arg) \<noteq> RetOk
              then Some (rd_check_thread_affinity env tsk (reg_cpu arg), [], session)
            else if \<not> alloc_ok env 19 then Some (RetErr ENOMEM, [], session)
            else do {
              (ret, t1) \<leftarrow> rd_thread_setup_events env session (rd_new_thread tsk arg);
              if ret \<noteq> RetOk then
                do { evs \<leftarrow> rd_thread_destroy env session t1; Some (ret, evs, session) }
              else do {
                t2 \<leftarrow> (if running session then rd_enable_thread_events env session t1 else Some t1);
                Some (RetOk, [], session\<lparr>threads := threads session @ [t2]\<rparr>)
              }
            })"

definition rd_unregister_thread_locked ::
  "kenv \<Rightarrow> rd_session \<Rightarrow> int \<Rightarrow> (kret \<times> perf_event list \<times> rd_session) option" where
  "rd_unregister_thread_locked env session t =
     (case rd_find_active_thread_by_tid session t of
        None \<Rightarrow> Some (RetErr ENOENT, [], session)
      | Some i \<Rightarrow>
          if \<not> active (threads session ! i) then Some (RetOk, [], session)
          else do {
            (evs, t') \<leftarrow> rd_thread_detach_live env session (threads session ! i);
            Some (RetOk, evs, session\<lparr>threads := (threads session)[i := t']\<rparr>)
          })"

subsection \<open>Configuration and targets\<close>

definition rd_session_config_locked :: "rd_session \<Rightarrow> rd_wpctl_session_cfg \<Rightarrow> kret \<times> rd_session" where
  "rd_session_config_locked session cfg =
     (if configured session \<or> targets_loaded session then (RetErr EBUSY, session)
      else if cfg_wp_capacity cfg = 0 \<or> cfg_bp_sample_period cfg = 0 then (RetErr EINVAL, session)
      else if cfg_callchain_mode cfg \<noteq> RD_CALLCHAIN_OFF \<and> cfg_callchain_mode cfg \<noteq> RD_CALLCHAIN_FP \<and>
              cfg_callchain_mode cfg \<noteq> RD_CALLCHAIN_DWARF then (RetErr EINVAL, session)
      else if unat (cfg_dwarf_stack_bytes cfg) > RD_WPCTL_MAX_DWARF_STACK_BYTES then (RetErr EINVAL, session)
      else if cfg_callchain_mode cfg = RD_CALLCHAIN_DWARF \<and>
              (cfg_dwarf_stack_bytes cfg = 0 \<or> cfg_dwarf_event_capacity cfg = 0) then (RetErr EINVAL, session)
      else (RetOk, session\<lparr>wp_capacity := cfg_wp_capacity cfg, callchain_mode := cfg_callchain_mode cfg,
              dwarf_stack_bytes := cfg_dwarf_stack_bytes cfg,
              dwarf_event_capacity := cfg_dwarf_event_capacity cfg,
              bp_sample_period := cfg_bp_sample_period cfg, configured := True\<rparr>))"

definition rd_copy_target :: "rd_wpctl_target \<Rightarrow> rd_target" where
  "rd_copy_target u = \<lparr>tg_pc_offset = ut_pc_offset u, tg_abs_pc = ut_abs_pc u,
     tg_aggregated_samples = ut_aggregated_samples u, tg_decode = ut_decode u\<rparr>"

definition rd_load_targets_locked ::
  "kenv \<Rightarrow> rd_session \<Rightarrow> rd_wpctl_target_batch \<Rightarrow> kret \<times> rd_session" where
  "rd_load_targets_locked env session batch =
     (if \<not> configured session \<or> targets_loaded session then (RetErr EINVAL, session)
      else if targets_ptr batch = 0 \<or> batch_count batch = 0 then (RetErr EINVAL, session)
      else case memdup_user env (targets_ptr batch) (batch_count batch) of
          Inl e \<Rightarrow> (RetErr e, session)
        | Inr user_targets \<Rightarrow>
            if \<not> alloc_ok env 0 then (RetErr ENOMEM, session)
            else if list_all (\<lambda>u. rd_validate_target u = RetOk) user_targets
              then (RetOk, session\<lparr>targets := Some (map rd_copy_target user_targets),
                      target_count := batch_count batch, targets_loaded := True\<rparr>)
              else (RetErr EINVAL, session))"

end
