(* ===== verification/Lifecycle.thy ===== *)
theory Lifecycle
  imports Session
begin

text \<open>
  What setting up, detaching and destroying a thread do to its events and its invariant:
  a successful setup gives a thread that satisfies the invariant, and every event that was
  created is either held by the thread or released again.
\<close>

subsection \<open>The registration loops\<close>

text \<open>The events that calls \<open>f i, f (i + 1), \<dots>\<close> create until the first failure, and its code.\<close>

fun created :: "(nat \<Rightarrow> errno + perf_event) \<Rightarrow> nat \<Rightarrow> nat \<Rightarrow> perf_event list" where
  "created f i 0 = []"
| "created f i (Suc n) = (case f i of Inl _ \<Rightarrow> [] | Inr e \<Rightarrow> e # created f (Suc i) n)"

fun created_ret :: "(nat \<Rightarrow> errno + perf_event) \<Rightarrow> nat \<Rightarrow> nat \<Rightarrow> kret" where
  "created_ret f i 0 = RetOk"
| "created_ret f i (Suc n) = (case f i of Inl e \<Rightarrow> RetErr e | Inr _ \<Rightarrow> created_ret f (Suc i) n)"

lemma length_created_le: "length (created f i n) \<le> n"
  by (induction n arbitrary: i) (auto split: sum.split)

lemma created_ret_ok_iff: "created_ret f i n = RetOk \<longleftrightarrow> length (created f i n) = n"
  by (induction n arbitrary: i) (auto split: sum.split)

definition filled :: "perf_event list \<Rightarrow> nat \<Rightarrow> perf_event option list" where
  "filled es n = map Some es @ replicate (n - length es) None"

lemma length_filled [simp]: "length es \<le> n \<Longrightarrow> length (filled es n) = n"
  by (simp add: filled_def)

lemma present_filled [simp]: "present (filled es n) = es"
  by (induction es) (simp_all add: filled_def present_def)

lemma None_notin_filled: "length es = n \<Longrightarrow> None \<notin> set (filled es n)"
  by (auto simp: filled_def)

definition bp_call :: "kenv \<Rightarrow> rd_session \<Rightarrow> nat \<Rightarrow> errno + perf_event" where
  "bp_call env s i = register_bp env i
     (rd_init_bp_attr env (tg_abs_pc (the (targets s) ! i)) (bp_sample_period s))"

definition idle_address :: "rd_thread_ctx \<Rightarrow> nat \<Rightarrow> u64" where
  "idle_address t i = scratch_base t + of_nat i * scratch_stride t"

definition wp_call :: "kenv \<Rightarrow> rd_thread_ctx \<Rightarrow> nat \<Rightarrow> errno + perf_event" where
  "wp_call env t i = register_wp env i (rd_init_wp_attr env (idle_address t i) RD_IDLE_WP_LEN)"

definition idle_slot :: "rd_thread_ctx \<Rightarrow> nat \<Rightarrow> rd_wp_slot" where
  "idle_slot t i = zero_slot\<lparr>wp_idle_addr := idle_address t i, wp_samples := 1\<rparr>"

lemma register_bps_spec:
  assumes "targets s = Some tgs" "length es + n \<le> length tgs"
    and "bp_events t = Some (map Some es @ replicate n None)"
  shows "rd_register_bps env s t (length es) n =
    Some (created_ret (bp_call env s) (length es) n,
      t\<lparr>bp_events := Some (filled (es @ created (bp_call env s) (length es) n) (length es + n))\<rparr>)"
  using assms(2,3)
proof (induction n arbitrary: es t)
  case 0
  then show ?case by (cases t) (simp add: filled_def)
next
  case (Suc n)
  let ?call = "bp_call env s (length es)"
  have tg: "arr_get (targets s) (length es) = Some (tgs ! length es)" using assms(1) Suc.prems(1) by simp
  have upd: "arr_set (bp_events t) (length es) x = Some (Some (map Some es @ x # replicate n None))" for x
    using Suc.prems(2) by (simp add: list_update_append)
  show ?case
  proof (cases ?call)
    case (Inl e)
    then show ?thesis
      using tg upd [of None] assms(1) by (simp add: bp_call_def filled_def)
  next
    case (Inr ev)
    let ?t = "t\<lparr>bp_events := Some (map Some (es @ [ev]) @ replicate n None)\<rparr>"
    have "rd_register_bps env s t (length es) (Suc n) = rd_register_bps env s ?t (length (es @ [ev])) n"
      using Inr tg upd [of "Some ev"] assms(1) by (simp add: bp_call_def)
    also have "\<dots> = Some (created_ret (bp_call env s) (length (es @ [ev])) n, ?t\<lparr>bp_events :=
        Some (filled ((es @ [ev]) @ created (bp_call env s) (length (es @ [ev])) n) (length (es @ [ev]) + n))\<rparr>)"
      using Suc.prems by (intro Suc.IH) simp_all
    finally show ?thesis using Inr by simp
  qed
qed

lemma zero_slot_idle [simp]:
  "zero_slot\<lparr>wp_idle_addr := a, wp_state := RD_WP_IDLE, wp_samples := 1\<rparr> = zero_slot\<lparr>wp_idle_addr := a, wp_samples := 1\<rparr>"
  by (simp add: zero_slot_def)

lemma idle_slot_simps [simp]:
  "wp_samples (idle_slot t i) = 1" "wp_state (idle_slot t i) = RD_WP_IDLE"
  "wp_idle_addr (idle_slot t i) = idle_address t i"
  by (simp_all add: idle_slot_def zero_slot_def)

lemma register_wps_spec:
  assumes "wp_events t = Some (map Some es @ replicate n None)"
    and "wp_slots t = Some (map (idle_slot t) [0..<length es] @ replicate n zero_slot)"
  obtains slots where "rd_register_wps env t (length es) n =
      Some (created_ret (wp_call env t) (length es) n, t\<lparr>wp_slots := Some slots,
        wp_events := Some (filled (es @ created (wp_call env t) (length es) n) (length es + n))\<rparr>)"
    "created_ret (wp_call env t) (length es) n = RetOk \<Longrightarrow> slots = map (idle_slot t) [0..<length es + n]"
  using assms
proof (induction n arbitrary: es t thesis)
  case 0
  then show ?case by (cases t) (simp add: filled_def)
next
  case (Suc n)
  let ?i = "length es"
  let ?idle = "scratch_base t + of_nat ?i * scratch_stride t"
  have get: "arr_get (wp_slots t) ?i = Some zero_slot"
    using Suc.prems(3) by (simp add: nth_append)
  have upd: "arr_set (wp_slots t) ?i x = Some (Some (map (idle_slot t) [0..<?i] @ x # replicate n zero_slot))"
    "arr_set (Some (map (idle_slot t) [0..<?i] @ x # replicate n zero_slot)) ?i y =
      Some (Some (map (idle_slot t) [0..<?i] @ y # replicate n zero_slot))" for x y
    using Suc.prems(3) by (simp_all add: list_update_append)
  have evs: "arr_set (wp_events t) ?i x = Some (Some (map Some es @ x # replicate n None))" for x
    using Suc.prems(2) by (simp add: list_update_append)
  show ?case
  proof (cases "wp_call env t ?i")
    case (Inl e)
    then show ?thesis
      using get upd evs [of None]
      by (intro Suc.prems(1)) (simp_all add: wp_call_def idle_address_def filled_def)
  next
    case (Inr ev)
    let ?t = "t\<lparr>wp_slots := Some (map (idle_slot t) [0..<?i] @ zero_slot\<lparr>wp_idle_addr := ?idle, wp_samples := 1\<rparr>
        # replicate n zero_slot), wp_events := Some (map Some es @ Some ev # replicate n None)\<rparr>"
    have same: "wp_call env ?t = wp_call env t" "idle_slot ?t = idle_slot t"
      by (simp_all add: wp_call_def idle_slot_def idle_address_def fun_eq_iff)
    have step: "rd_register_wps env t ?i (Suc n) = rd_register_wps env ?t (length (es @ [ev])) n"
      using Inr get upd evs [of "Some ev"] by (simp add: wp_call_def idle_address_def Let_def)
    have t: "wp_events ?t = Some (map Some (es @ [ev]) @ replicate n None)"
      "wp_slots ?t = Some (map (idle_slot ?t) [0..<length (es @ [ev])] @ replicate n zero_slot)"
      unfolding same by (simp_all add: idle_slot_def idle_address_def)
    obtain slots where "rd_register_wps env ?t (length (es @ [ev])) n =
        Some (created_ret (wp_call env ?t) (length (es @ [ev])) n, ?t\<lparr>wp_slots := Some slots, wp_events :=
          Some (filled ((es @ [ev]) @ created (wp_call env ?t) (length (es @ [ev])) n) (length (es @ [ev]) + n))\<rparr>)"
      "created_ret (wp_call env ?t) (length (es @ [ev])) n = RetOk \<Longrightarrow>
         slots = map (idle_slot ?t) [0..<length (es @ [ev]) + n]"
      using Suc.IH [OF _ t] by blast
    then show ?thesis
      using Inr unfolding same
      by (intro Suc.prems(1) [of slots]) (simp_all add: step del: rd_register_wps.simps(2))
  qed
qed

subsection \<open>Setup\<close>

definition thread_fields_ok :: "rd_session \<Rightarrow> rd_thread_ctx \<Rightarrow> bool" where
  "thread_fields_ok s t \<longleftrightarrow>
     bp_events t = Some (replicate (unat (target_count s)) None) \<and>
     wp_events t = Some (replicate (unat (wp_capacity s)) None) \<and>
     wp_slots t = Some (replicate (unat (wp_capacity s)) zero_slot)"

lemma alloc_arrays_ok:
  assumes "\<not> rd_alloc_failed s (rd_alloc_arrays env s t)"
  shows "thread_fields_ok s (rd_alloc_arrays env s t)"
  using assms
  by (auto simp: rd_alloc_failed_def rd_alloc_arrays_def thread_fields_ok_def Let_def kcalloc_def
      split: if_splits)

text \<open>The events a thread holds.\<close>

definition held_events :: "rd_thread_ctx \<Rightarrow> perf_event list" where
  "held_events t = (case mem_event t of None \<Rightarrow> [] | Some e \<Rightarrow> [e]) @
     (case bp_events t of None \<Rightarrow> [] | Some evs \<Rightarrow> present evs) @
     (case wp_events t of None \<Rightarrow> [] | Some evs \<Rightarrow> present evs)"

definition event_arrays_ok :: "rd_session \<Rightarrow> rd_thread_ctx \<Rightarrow> bool" where
  "event_arrays_ok s t \<longleftrightarrow>
     (\<forall>evs. bp_events t = Some evs \<longrightarrow> length evs = unat (target_count s)) \<and>
     (\<forall>evs. wp_events t = Some evs \<longrightarrow> length evs = unat (wp_capacity s))"

lemma free_live_releases:
  assumes "event_arrays_ok s t"
  shows "rd_thread_free_live env s t = Some (map (perf_event_disable env) (held_events t),
    t\<lparr>mem_event := None, bp_events := None, wp_events := None, wp_slots := None,
      wp_seed_dwarf_snapshots := None, wp_reuse_dwarf_snapshots := None, task := None\<rparr>)"
  using assms
  by (auto simp: rd_thread_free_live_def release_events_def held_events_def event_arrays_ok_def
      split: option.split)

text \<open>The events that a setup creates, in order, as the kernel interfaces return them.\<close>

definition setup_created :: "kenv \<Rightarrow> rd_session \<Rightarrow> rd_thread_ctx \<Rightarrow> perf_event list" where
  "setup_created env s t =
     (case perf_event_create_kernel_counter env (rd_init_mem_attr env) (cpu t) of
        Inl _ \<Rightarrow> []
      | Inr ev \<Rightarrow> ev #
          (if rd_alloc_failed s (rd_alloc_arrays env s (t\<lparr>mem_event := Some ev\<rparr>)) then []
           else let bps = created (bp_call env s) 0 (unat (target_count s)) in bps @
             (if length bps = unat (target_count s) then created (wp_call env t) 0 (unat (wp_capacity s))
              else [])))"

lemma alloc_arrays_fields [simp]:
  "scratch_base (rd_alloc_arrays env s t) = scratch_base t"
  "scratch_stride (rd_alloc_arrays env s t) = scratch_stride t"
  "mem_event (rd_alloc_arrays env s t) = mem_event t"
  by (simp_all add: rd_alloc_arrays_def Let_def)

lemma present_replicate_None [simp]: "present (replicate n None) = []"
  by (simp add: present_def)

lemma setup_mem_failed:
  assumes "perf_event_create_kernel_counter env (rd_init_mem_attr env) (cpu t) = Inl e"
  shows "rd_thread_setup_events env s t = Some (RetErr e, t\<lparr>mem_event := None\<rparr>)"
    "setup_created env s t = []"
  using assms by (simp_all add: rd_thread_setup_events_def setup_created_def)

lemma setup_alloc_failed:
  assumes "perf_event_create_kernel_counter env (rd_init_mem_attr env) (cpu t) = Inr ev"
    and "rd_alloc_failed s (rd_alloc_arrays env s (t\<lparr>mem_event := Some ev\<rparr>))"
  shows "rd_thread_setup_events env s t =
      Some (RetErr ENOMEM, rd_alloc_arrays env s (t\<lparr>mem_event := Some ev\<rparr>))"
    "setup_created env s t = [ev]"
  using assms by (simp_all add: rd_thread_setup_events_def setup_created_def)

text \<open>What the setup does once the arrays exist.\<close>

lemma setup_spec:
  fixes env s t ev
  defines "a \<equiv> rd_alloc_arrays env s (t\<lparr>mem_event := Some ev\<rparr>)"
    and "bps \<equiv> created (bp_call env s) 0 (unat (target_count s))"
    and "wps \<equiv> created (wp_call env t) 0 (unat (wp_capacity s))"
  assumes "session_ok s"
    and "perf_event_create_kernel_counter env (rd_init_mem_attr env) (cpu t) = Inr ev"
    and "\<not> rd_alloc_failed s a"
  obtains (bp_failed) "length bps \<noteq> unat (target_count s)"
      "rd_thread_setup_events env s t = Some (created_ret (bp_call env s) 0 (unat (target_count s)),
         a\<lparr>bp_events := Some (filled bps (unat (target_count s)))\<rparr>)"
  | (bp_ok) slots where "length bps = unat (target_count s)"
      "rd_thread_setup_events env s t = Some (created_ret (wp_call env t) 0 (unat (wp_capacity s)),
         a\<lparr>bp_events := Some (filled bps (unat (target_count s))), wp_slots := Some slots,
           wp_events := Some (filled wps (unat (wp_capacity s)))\<rparr>)"
      "created_ret (wp_call env t) 0 (unat (wp_capacity s)) = RetOk \<Longrightarrow>
         slots = map (idle_slot t) [0..<unat (wp_capacity s)]"
proof -
  from alloc_arrays_ok assms(6) have fields: "thread_fields_ok s a" unfolding a_def by blast
  from assms(4) obtain tgs where tgs: "targets s = Some tgs" "length tgs = unat (target_count s)"
    by (auto simp: session_ok_def)
  let ?b = "a\<lparr>bp_events := Some (filled bps (unat (target_count s)))\<rparr>"
  have reg: "rd_register_bps env s a 0 (unat (target_count s)) =
      Some (created_ret (bp_call env s) 0 (unat (target_count s)), ?b)"
    using register_bps_spec [OF tgs(1), of "[]" "unat (target_count s)" a env] fields tgs(2)
    by (simp add: thread_fields_ok_def bps_def)
  have eq: "rd_thread_setup_events env s t =
      (if length bps \<noteq> unat (target_count s)
       then Some (created_ret (bp_call env s) 0 (unat (target_count s)), ?b)
       else rd_register_wps env ?b 0 (unat (wp_capacity s)))"
    using assms(5,6) reg created_ret_ok_iff [of "bp_call env s" 0 "unat (target_count s)"]
    by (simp add: rd_thread_setup_events_def a_def bps_def Let_def)
  show thesis
  proof (cases "length bps = unat (target_count s)")
    case False
    with eq bp_failed show ?thesis by simp
  next
    case True
    have same: "wp_call env ?b = wp_call env t" "idle_slot ?b = idle_slot t"
      by (simp_all add: wp_call_def idle_slot_def idle_address_def a_def fun_eq_iff)
    from fields have "wp_events ?b = Some (map Some [] @ replicate (unat (wp_capacity s)) None)"
      "wp_slots ?b = Some (map (idle_slot ?b) [0..<length []] @ replicate (unat (wp_capacity s)) zero_slot)"
      by (simp_all add: thread_fields_ok_def)
    from register_wps_spec [OF this, of env] eq True bp_ok show ?thesis
      unfolding same by (auto simp: wps_def)
  qed
qed

text \<open>A setup always returns, and the thread holds exactly the events that were created.\<close>

lemma setup_holds_created:
  assumes "session_ok s" "mem_event t = None" "bp_events t = None" "wp_events t = None"
  obtains ret t' where "rd_thread_setup_events env s t = Some (ret, t')" "event_arrays_ok s t'"
    "held_events t' = setup_created env s t"
proof (cases "perf_event_create_kernel_counter env (rd_init_mem_attr env) (cpu t)")
  case (Inl e)
  from setup_mem_failed [OF this] assms that show thesis
    by (simp add: event_arrays_ok_def held_events_def)
next
  case (Inr ev)
  let ?a = "rd_alloc_arrays env s (t\<lparr>mem_event := Some ev\<rparr>)"
  show thesis
  proof (cases "rd_alloc_failed s ?a")
    case True
    have "event_arrays_ok s ?a" "held_events ?a = [ev]"
      by (simp_all add: event_arrays_ok_def held_events_def rd_alloc_arrays_def Let_def kcalloc_def)
    with setup_alloc_failed [OF Inr True] that show thesis by simp
  next
    case False
    from alloc_arrays_ok [OF False] have a: "thread_fields_ok s ?a" .
    note le = length_created_le [of "bp_call env s" 0 "unat (target_count s)"]
      length_created_le [of "wp_call env t" 0 "unat (wp_capacity s)"]
    from assms(1) Inr False show thesis
    proof (cases rule: setup_spec)
      case bp_failed
      with Inr False a le show thesis
        by (intro that) (auto simp: thread_fields_ok_def event_arrays_ok_def held_events_def
            setup_created_def Let_def)
    next
      case (bp_ok slots)
      with Inr False a le show thesis
        by (intro that) (auto simp: thread_fields_ok_def event_arrays_ok_def held_events_def
            setup_created_def Let_def)
    qed
  qed
qed

lemma zero_tables_ok:
  "contexts t = Some (replicate RD_WPCTL_MAX_CONTEXTS zero_context_entry) \<Longrightarrow> context_used t = 0 \<Longrightarrow>
    contexts_ok t"
  "pair_hist t = Some (replicate RD_WPCTL_MAX_PAIR_HISTS zero_pair_entry) \<Longrightarrow> pair_hist_used t = 0 \<Longrightarrow>
    pairs_ok t"
  by (auto simp: contexts_ok_def pairs_ok_def keys_distinct_def count_if_replicate zero_context_entry_def
      zero_pair_entry_def ctx_entry_ok_def pair_entry_ok_def)

lemma pair_total_zero [simp]: "pair_total (replicate n zero_pair_entry) = 0"
  by (simp add: pair_total_def zero_pair_entry_def map_replicate)

text \<open>The fields that identify a thread and that only its life cycle changes.\<close>

definition ident :: "rd_thread_ctx \<Rightarrow> (task_struct option \<times> int \<times> int \<times> bool \<times> bool) \<times> (u64 \<times> u64) \<times> nat \<times> bool" where
  "ident t = ((task t, tid t, cpu t, active t, live_detached t), (scratch_base t, scratch_stride t),
     live_refs t, live_refs_zero t)"

lemma alloc_arrays_ok_results:
  assumes "\<not> rd_alloc_failed s (rd_alloc_arrays env s t)"
  shows "log2_hist (rd_alloc_arrays env s t) = Some (replicate (unat (target_count s) * RD_WPCTL_LOG2_BUCKETS) 0)"
    "pair_hist (rd_alloc_arrays env s t) = Some (replicate RD_WPCTL_MAX_PAIR_HISTS zero_pair_entry)"
    "contexts (rd_alloc_arrays env s t) = Some (replicate RD_WPCTL_MAX_CONTEXTS zero_context_entry)"
  using assms
  by (auto simp: rd_alloc_failed_def rd_alloc_arrays_def Let_def kcalloc_def split: if_splits)

lemma alloc_arrays_ok_dwarf:
  assumes "\<not> rd_alloc_failed s (rd_alloc_arrays env s t)" "dwarf_events t = None"
    "wp_seed_dwarf_snapshots t = None" "wp_reuse_dwarf_snapshots t = None"
  defines "a \<equiv> rd_alloc_arrays env s t" and "dw \<equiv> callchain_mode s = RD_CALLCHAIN_DWARF"
  shows "dwarf_events a = (if dw then Some (replicate (unat (dwarf_event_capacity s)) zero_dwarf_event) else None)"
    "wp_seed_dwarf_snapshots a = (if dw then Some (replicate (unat (wp_capacity s)) zero_snapshot) else None)"
    "wp_reuse_dwarf_snapshots a = (if dw then Some (replicate (unat (wp_capacity s)) zero_snapshot) else None)"
  using assms
  by (auto simp: rd_alloc_failed_def rd_alloc_arrays_def Let_def kcalloc_def split: if_splits)

lemma alloc_arrays_counters [simp]:
  "candidate_samples (rd_alloc_arrays env s t) = candidate_samples t"
  "reservoir_seen (rd_alloc_arrays env s t) = reservoir_seen t"
  "reservoir_accepted (rd_alloc_arrays env s t) = reservoir_accepted t"
  "reservoir_rejected (rd_alloc_arrays env s t) = reservoir_rejected t"
  "hits (rd_alloc_arrays env s t) = hits t" "evictions (rd_alloc_arrays env s t) = evictions t"
  "dropped (rd_alloc_arrays env s t) = dropped t"
  "pair_hist_used (rd_alloc_arrays env s t) = pair_hist_used t"
  "pair_hist_dropped (rd_alloc_arrays env s t) = pair_hist_dropped t"
  "context_used (rd_alloc_arrays env s t) = context_used t"
  "ident (rd_alloc_arrays env s t) = ident t"
  by (simp_all add: rd_alloc_arrays_def Let_def ident_def)

lemma new_thread_fields [simp]:
  "mem_event (rd_new_thread tsk arg) = None" "bp_events (rd_new_thread tsk arg) = None"
  "wp_events (rd_new_thread tsk arg) = None" "dwarf_events (rd_new_thread tsk arg) = None"
  "wp_seed_dwarf_snapshots (rd_new_thread tsk arg) = None"
  "wp_reuse_dwarf_snapshots (rd_new_thread tsk arg) = None"
  "candidate_samples (rd_new_thread tsk arg) = 0" "reservoir_seen (rd_new_thread tsk arg) = 0"
  "reservoir_accepted (rd_new_thread tsk arg) = 0" "reservoir_rejected (rd_new_thread tsk arg) = 0"
  "hits (rd_new_thread tsk arg) = 0" "evictions (rd_new_thread tsk arg) = 0"
  "dropped (rd_new_thread tsk arg) = 0" "pair_hist_used (rd_new_thread tsk arg) = 0"
  "pair_hist_dropped (rd_new_thread tsk arg) = 0" "context_used (rd_new_thread tsk arg) = 0"
  "active (rd_new_thread tsk arg)" "\<not> live_detached (rd_new_thread tsk arg)"
  by (simp_all add: rd_new_thread_def)

interpretation ident_view: thread_identity ident
  by unfold_locales (simp_all add: ident_def)

lemma ident_cong_events [simp]: "ident (t\<lparr>mem_event := m\<rparr>) = ident t" "ident (t\<lparr>bp_events := b\<rparr>) = ident t"
  by (simp_all add: ident_def)

lemma ident_active: "ident t' = ident t \<Longrightarrow> active t' = active t \<and> live_detached t' = live_detached t"
  by (simp add: ident_def)

lemma setup_ok_inv:
  assumes "session_ok s" "rd_thread_setup_events env s (rd_new_thread tsk arg) = Some (RetOk, t')"
  shows "thread_inv s 0 t'" "ident t' = ident (rd_new_thread tsk arg)"
    "wp_slots t' = Some (map (idle_slot (rd_new_thread tsk arg)) [0..<unat (wp_capacity s)])"
proof -
  let ?t = "rd_new_thread tsk arg"
  obtain ev where ev: "perf_event_create_kernel_counter env (rd_init_mem_attr env) (cpu ?t) = Inr ev"
    using assms(2) setup_mem_failed(1) [of env ?t _ s]
    by (cases "perf_event_create_kernel_counter env (rd_init_mem_attr env) (cpu ?t)") auto
  define a where "a = rd_alloc_arrays env s (?t\<lparr>mem_event := Some ev\<rparr>)"
  have ok: "\<not> rd_alloc_failed s a"
    using assms(2) setup_alloc_failed(1) [OF ev, of s] by (auto simp: a_def)
  note results = alloc_arrays_ok_results [OF ok [unfolded a_def], folded a_def]
  note dwarf = alloc_arrays_ok_dwarf [OF ok [unfolded a_def], folded a_def, simplified]
  have slots: "count_if (\<lambda>sl. wp_state sl = RD_WP_ARMED) (map (idle_slot ?t) xs) = 0" for xs
    by (induction xs) simp_all
  from assms(1) ev ok [unfolded a_def]
  have "thread_inv s 0 t' \<and> ident t' = ident ?t \<and>
    wp_slots t' = Some (map (idle_slot ?t) [0..<unat (wp_capacity s)])"
  proof (cases rule: setup_spec)
    case bp_failed
    with assms(2) show ?thesis by (simp add: created_ret_ok_iff)
  next
    case (bp_ok slots')
    define b where "b = filled (created (bp_call env s) 0 (unat (target_count s))) (unat (target_count s))"
    define w where "w = filled (created (wp_call env ?t) 0 (unat (wp_capacity s))) (unat (wp_capacity s))"
    have "created_ret (wp_call env ?t) 0 (unat (wp_capacity s)) = RetOk" using bp_ok(2) assms(2) by simp
    then have w: "length w = unat (wp_capacity s)" "None \<notin> set w"
      and sl: "slots' = map (idle_slot ?t) [0..<unat (wp_capacity s)]"
      using bp_ok(3) by (auto simp: w_def created_ret_ok_iff None_notin_filled)
    have b: "length b = unat (target_count s)" "None \<notin> set b"
      using bp_ok(1) by (auto simp: b_def None_notin_filled)
    have t': "t' = a\<lparr>bp_events := Some b, wp_slots := Some slots', wp_events := Some w\<rparr>"
      using bp_ok(2) assms(2) by (simp add: a_def b_def w_def)
    have id: "ident a = ident ?t" "mem_event a = Some ev" by (simp_all add: a_def)
    have "live_ok s t'" using b w sl dwarf id by (simp add: t' live_ok_def)
    moreover have "results_ok s t'"
      using results dwarf by (simp add: t' results_ok_def zero_tables_ok a_def)
    moreover have "slots_ok s t'" by (auto simp: t' slots_ok_def sl)
    moreover have "accounts_ok 0 t'"
      using results by (simp add: t' accounts_ok_def armed_count_def sl slots a_def)
    moreover have "ident t' = ident ?t" using id by (simp add: t')
    ultimately show ?thesis using ident_active [of t' ?t] by (simp add: thread_inv_def t' sl)
  qed
  then show "thread_inv s 0 t'" "ident t' = ident ?t"
    "wp_slots t' = Some (map (idle_slot ?t) [0..<unat (wp_capacity s)])" by simp_all
qed

subsection \<open>Enabling, disabling, detaching\<close>

lemma events_apply_full:
  "length evs = n \<Longrightarrow> events_apply f n (Some evs) = Some (Some (map (map_option f) evs))"
  by (auto simp: events_apply_def)

lemma None_notin_map_option [simp]: "None \<in> set (map (map_option f) evs) \<longleftrightarrow> None \<in> set evs"
  by force

lemma enable_inv:
  assumes "thread_inv s p t" "active t"
  obtains t' where "rd_enable_thread_events env s t = Some t'" "thread_inv s p t'" "ident t' = ident t"
proof -
  from assms obtain bps wps where ev: "bp_events t = Some bps" "length bps = unat (target_count s)"
    "None \<notin> set bps" "wp_events t = Some wps" "length wps = unat (wp_capacity s)" "None \<notin> set wps"
    by (auto simp: thread_inv_def live_ok_def)
  let ?f = "perf_event_enable env"
  let ?t = "t\<lparr>mem_event := map_option ?f (mem_event t), bp_events := Some (map (map_option ?f) bps),
      wp_events := Some (map (map_option ?f) wps)\<rparr>"
  have "rd_enable_thread_events env s t = Some ?t"
    using ev by (simp add: rd_enable_thread_events_def events_apply_full)
  moreover have "thread_inv s p ?t" using assms ev by (simp add: thread_inv_defs image_iff)
  ultimately show thesis using that by simp
qed

lemma disable_inv:
  assumes "thread_inv s p t" "active t"
  obtains t' where "rd_disable_thread_events env s t = Some t'" "thread_inv s p t'" "ident t' = ident t"
proof -
  from assms obtain bps wps where ev: "bp_events t = Some bps" "length bps = unat (target_count s)"
    "None \<notin> set bps" "wp_events t = Some wps" "length wps = unat (wp_capacity s)" "None \<notin> set wps"
    by (auto simp: thread_inv_def live_ok_def)
  let ?f = "perf_event_disable env"
  let ?t = "t\<lparr>wp_events := Some (map (map_option ?f) wps), bp_events := Some (map (map_option ?f) bps),
      mem_event := map_option ?f (mem_event t)\<rparr>"
  have "rd_disable_thread_events env s t = Some ?t"
    using ev by (simp add: rd_disable_thread_events_def events_apply_full)
  moreover have "thread_inv s p ?t" using assms ev by (simp add: thread_inv_defs image_iff)
  ultimately show thesis using that by simp
qed

text \<open>The reference count of a thread between operations.\<close>

definition refs_ok :: "rd_thread_ctx \<Rightarrow> bool" where
  "refs_ok t \<longleftrightarrow> live_refs t = (if active t then 1 else 0) \<and> live_refs_zero t = (\<not> active t) \<and>
     (task t \<noteq> None \<longleftrightarrow> active t)"

lemma refs_ok_ident: "ident t' = ident t \<Longrightarrow> refs_ok t' = refs_ok t"
  by (simp add: refs_ok_def ident_def)

lemma thread_inv_event_arrays: "thread_inv s p t \<Longrightarrow> active t \<Longrightarrow> event_arrays_ok s t"
  by (auto simp: thread_inv_def live_ok_def event_arrays_ok_def)

lemma detach_inv:
  assumes "thread_inv s 0 t" "refs_ok t" "active t"
  obtains t' where "rd_thread_detach_live env s t = Some (map (perf_event_disable env) (held_events t), t')"
    "thread_inv s 0 t'" "refs_ok t'" "\<not> active t'" "tid t' = tid t"
    "dropped t' = dropped t + of_nat (armed_count t)" "held_events t' = []" "hits t' = hits t"
proof -
  obtain slots where slots: "wp_slots t = Some slots" "length slots = unat (wp_capacity s)"
    by (rule slotsE [OF assms(1,3)])
  let ?t1 = "t\<lparr>active := False, live_detached := True, live_refs := 0, live_refs_zero := True\<rparr>"
  let ?t2 = "?t1\<lparr>dropped := dropped t + of_nat (armed_count t)\<rparr>"
  let ?t3 = "?t2\<lparr>mem_event := None, bp_events := None, wp_events := None, wp_slots := None,
      wp_seed_dwarf_snapshots := None, wp_reuse_dwarf_snapshots := None, task := None\<rparr>"
  have put: "rd_thread_live_put (t\<lparr>active := False, live_detached := True\<rparr>) = ?t1"
    using assms(2,3) by (simp add: rd_thread_live_put_def refs_ok_def)
  have arm: "rd_count_armed s ?t1 = Some ?t2"
    using slots by (simp add: rd_count_armed_def armed_count_def)
  have "event_arrays_ok s ?t2"
    using thread_inv_event_arrays [OF assms(1,3)] by (simp add: event_arrays_ok_def)
  from free_live_releases [OF this, of env]
  have free: "rd_thread_free_live env s ?t2 = Some (map (perf_event_disable env) (held_events t), ?t3)"
    by (simp add: held_events_def)
  have "\<not> live_detached t" using assms(1,3) by (simp add: thread_inv_def)
  with put arm free have "rd_thread_detach_live env s t =
      Some (map (perf_event_disable env) (held_events t), ?t3)"
    by (simp add: rd_thread_detach_live_def Let_def)
  moreover have "thread_inv s 0 ?t3" using assms(1,3) slots by (simp add: thread_inv_defs)
  ultimately show thesis using that by (simp add: refs_ok_def held_events_def)
qed

subsection \<open>Reset\<close>

lemma park_slots_inv:
  assumes "thread_inv s p t" "active t" "i + n \<le> unat (wp_capacity s)"
  obtains ret evs where "rd_park_slots env s t i n r = Some (ret, t\<lparr>wp_events := Some evs\<rparr>)"
    "length evs = unat (wp_capacity s)" "None \<notin> set evs"
  using assms
proof (induction n arbitrary: t i r thesis)
  case 0
  then obtain evs where "wp_events t = Some evs" "length evs = unat (wp_capacity s)" "None \<notin> set evs"
    by (auto simp: thread_inv_def live_ok_def)
  with 0(1) show ?case by (cases t) simp
next
  case (Suc n)
  have live: "live_ok s t" using Suc.prems(2,3) by (simp add: thread_inv_def)
  obtain slots where slots: "wp_slots t = Some slots" "length slots = unat (wp_capacity s)"
    by (rule slotsE [OF Suc.prems(2,3)])
  have i: "i < unat (wp_capacity s)" using Suc.prems(4) by simp
  from rd_modify_slot_frame [OF live i] obtain mr evs where m:
    "rd_modify_slot env s t i (wp_idle_addr (slots ! i)) RD_IDLE_WP_LEN = Some (mr, t\<lparr>wp_events := Some evs\<rparr>)"
    "length evs = unat (wp_capacity s)" "None \<notin> set evs" by metis
  let ?t = "t\<lparr>wp_events := Some evs\<rparr>"
  have "thread_inv s p ?t" using Suc.prems(2,3) m by (simp add: thread_inv_defs)
  then obtain ret evs' where "rd_park_slots env s ?t (Suc i) n (first_err r mr) = Some (ret, ?t\<lparr>wp_events := Some evs'\<rparr>)"
    "length evs' = unat (wp_capacity s)" "None \<notin> set evs'"
    using Suc.IH [of ?t "Suc i" "first_err r mr"] Suc.prems(3,4) by auto
  then show ?case using m i slots by (intro Suc.prems(1) [of ret evs']) simp_all
qed

definition reset_slot :: "rd_wp_slot \<Rightarrow> rd_wp_slot" where
  "reset_slot sl = (cleared_slot sl)\<lparr>wp_generation := 0\<rparr>"

lemma snapshots_slots_commute:
  "t\<lparr>wp_seed_dwarf_snapshots := b, wp_slots := a\<rparr> = t\<lparr>wp_slots := a, wp_seed_dwarf_snapshots := b\<rparr>"
  by (cases t) simp

lemma clear_slots_spec:
  assumes "live_ok s t" "wp_slots t = Some (map reset_slot pre @ rest)"
  obtains snaps where "rd_clear_slots s t (length pre) (length rest) =
      Some (t\<lparr>wp_slots := Some (map reset_slot (pre @ rest)), wp_seed_dwarf_snapshots := snaps\<rparr>)"
    "map_option length snaps = map_option length (wp_seed_dwarf_snapshots t)"
  using assms
proof (induction rest arbitrary: pre t thesis)
  case Nil
  then show ?case by (cases t) simp
next
  case (Cons sl rest)
  let ?i = "length pre"
  have len: "length pre + Suc (length rest) = unat (wp_capacity s)"
    using Cons.prems(2,3) by (auto simp: live_ok_def)
  then have i: "?i < unat (wp_capacity s)" by simp
  from rd_clear_slot_metadata_live [OF Cons.prems(2) i Cons.prems(3)] obtain snaps where c:
    "rd_clear_slot_metadata s t ?i =
      Some (t\<lparr>wp_slots := Some (map reset_slot pre @ cleared_slot sl # rest), wp_seed_dwarf_snapshots := snaps\<rparr>)"
    "map_option length snaps = map_option length (wp_seed_dwarf_snapshots t)"
    by (auto simp: list_update_append nth_append)
  let ?t = "t\<lparr>wp_slots := Some (map reset_slot (pre @ [sl]) @ rest), wp_seed_dwarf_snapshots := snaps\<rparr>"
  have step: "rd_clear_slots s t ?i (length (sl # rest)) = rd_clear_slots s ?t (length (pre @ [sl])) (length rest)"
    using c by (simp add: nth_append list_update_append reset_slot_def snapshots_slots_commute)
  have "live_ok s ?t"
    by (rule live_okD [OF Cons.prems(2)])
       (rule live_ok_cong [of _ "map reset_slot (pre @ [sl]) @ rest" _ _ t],
        use Cons.prems(2) len c in auto)
  moreover have "wp_slots ?t = Some (map reset_slot (pre @ [sl]) @ rest)" by simp
  ultimately obtain snaps' where "rd_clear_slots s ?t (length (pre @ [sl])) (length rest) =
      Some (?t\<lparr>wp_slots := Some (map reset_slot ((pre @ [sl]) @ rest)), wp_seed_dwarf_snapshots := snaps'\<rparr>)"
    "map_option length snaps' = map_option length snaps"
    using Cons.IH [of ?t "pre @ [sl]"] by auto
  then show ?case
    using step c(2) by (intro Cons.prems(1) [of snaps']) (simp_all del: rd_clear_slots.simps)
qed

lemma arr_zero_simps:
  "arr_zero z n None = Some None"
  "length xs = n \<Longrightarrow> arr_zero z n (Some xs) = Some (Some (replicate n z))"
  by (simp_all add: arr_zero_def)

lemma arr_zero_length:
  assumes "\<And>xs. a = Some xs \<Longrightarrow> length xs = n"
  obtains b where "arr_zero z n a = Some b" "map_option length b = map_option length a"
  using assms by (cases a) (simp_all add: arr_zero_simps)

lemma zero_arrays_spec:
  assumes "results_ok s t" "if active t then live_ok s t else dead_ok t"
  obtains devs seeds reuses where "rd_zero_arrays s (rd_zero_counters t) = Some ((rd_zero_counters t)\<lparr>
      log2_hist := Some (replicate (unat (target_count s) * RD_WPCTL_LOG2_BUCKETS) 0),
      pair_hist := Some (replicate RD_WPCTL_MAX_PAIR_HISTS zero_pair_entry),
      contexts := Some (replicate RD_WPCTL_MAX_CONTEXTS zero_context_entry), dwarf_events := devs,
      wp_seed_dwarf_snapshots := seeds, wp_reuse_dwarf_snapshots := reuses\<rparr>)"
    "map_option length devs = map_option length (dwarf_events t)"
    "map_option length seeds = map_option length (wp_seed_dwarf_snapshots t)"
    "map_option length reuses = map_option length (wp_reuse_dwarf_snapshots t)"
proof -
  from assms(1) have r: "\<And>xs. dwarf_events t = Some xs \<Longrightarrow> length xs = unat (dwarf_event_capacity s)"
    by (simp add: results_ok_def)
  have w: "\<And>xs. wp_seed_dwarf_snapshots t = Some xs \<Longrightarrow> length xs = unat (wp_capacity s)"
    "\<And>xs. wp_reuse_dwarf_snapshots t = Some xs \<Longrightarrow> length xs = unat (wp_capacity s)"
    using assms(2) by (auto simp: live_ok_def dead_ok_def split: if_splits)
  obtain devs where "arr_zero zero_dwarf_event (unat (dwarf_event_capacity s)) (dwarf_events t) = Some devs"
    "map_option length devs = map_option length (dwarf_events t)" by (rule arr_zero_length [OF r])
  moreover obtain seeds where
    "arr_zero zero_snapshot (unat (wp_capacity s)) (wp_seed_dwarf_snapshots t) = Some seeds"
    "map_option length seeds = map_option length (wp_seed_dwarf_snapshots t)" by (rule arr_zero_length [OF w(1)])
  moreover obtain reuses where
    "arr_zero zero_snapshot (unat (wp_capacity s)) (wp_reuse_dwarf_snapshots t) = Some reuses"
    "map_option length reuses = map_option length (wp_reuse_dwarf_snapshots t)" by (rule arr_zero_length [OF w(2)])
  moreover obtain h ps cs where "log2_hist t = Some h" "length h = unat (target_count s) * RD_WPCTL_LOG2_BUCKETS"
    "pair_hist t = Some ps" "length ps = RD_WPCTL_MAX_PAIR_HISTS"
    "contexts t = Some cs" "length cs = RD_WPCTL_MAX_CONTEXTS"
    using assms(1) by (auto simp: results_ok_def contexts_ok_def pairs_ok_def)
  ultimately show thesis
    by (intro that [where devs = devs and seeds = seeds and reuses = reuses])
       (simp_all add: rd_zero_arrays_def rd_zero_counters_def arr_zero_simps)
qed

lemma reset_counts: "count_if (\<lambda>sl. wp_state sl = RD_WP_ARMED) (map reset_slot xs) = 0"
  by (induction xs) (simp_all add: reset_slot_def cleared_slot_def)

text \<open>
  A reset keeps the invariant, empties the accounts, and leaves every slot of a live thread
  idle with its parking address unchanged.
\<close>

definition after_reset :: "rd_session \<Rightarrow> rd_thread_ctx \<Rightarrow> rd_thread_ctx \<Rightarrow> bool" where
  "after_reset s t t' \<longleftrightarrow>
     ident t' = ident t \<and> hits t' = 0 \<and> evictions t' = 0 \<and> dropped t' = 0 \<and> candidate_samples t' = 0 \<and>
     rng t' = rd_rng_seed (tid t) \<and>
     log2_hist t' = Some (replicate (unat (target_count s) * RD_WPCTL_LOG2_BUCKETS) 0) \<and>
     pair_hist t' = Some (replicate RD_WPCTL_MAX_PAIR_HISTS zero_pair_entry) \<and>
     contexts t' = Some (replicate RD_WPCTL_MAX_CONTEXTS zero_context_entry) \<and>
     wp_slots t' = map_option (map reset_slot) (wp_slots t)"

text \<open>The middle of a reset: counters and tables cleared, slots not yet.\<close>

lemma reset_tables:
  assumes "thread_inv s p t"
  obtains t' where "rd_zero_arrays s (rd_zero_counters t) = Some t'" "wp_slots t' = wp_slots t"
    "after_reset s t (t'\<lparr>wp_slots := map_option (map reset_slot) (wp_slots t)\<rparr>)"
    "if active t then live_ok s t' else dead_ok t'" "results_ok s t'"
    "accounts_ok 0 (t'\<lparr>wp_slots := map_option (map reset_slot) (wp_slots t)\<rparr>)"
proof -
  from assms have r: "results_ok s t" "if active t then live_ok s t else dead_ok t"
    by (simp_all add: thread_inv_def)
  from zero_arrays_spec [OF this] obtain devs seeds reuses where z:
    "rd_zero_arrays s (rd_zero_counters t) = Some ((rd_zero_counters t)\<lparr>
      log2_hist := Some (replicate (unat (target_count s) * RD_WPCTL_LOG2_BUCKETS) 0),
      pair_hist := Some (replicate RD_WPCTL_MAX_PAIR_HISTS zero_pair_entry),
      contexts := Some (replicate RD_WPCTL_MAX_CONTEXTS zero_context_entry), dwarf_events := devs,
      wp_seed_dwarf_snapshots := seeds, wp_reuse_dwarf_snapshots := reuses\<rparr>)" (is "_ = Some ?t")
    and len: "map_option length devs = map_option length (dwarf_events t)"
    "map_option length seeds = map_option length (wp_seed_dwarf_snapshots t)"
    "map_option length reuses = map_option length (wp_reuse_dwarf_snapshots t)" by blast
  have dv: "devs = None \<longleftrightarrow> dwarf_events t = None"
    "\<And>d. devs = Some d \<Longrightarrow> \<exists>d'. dwarf_events t = Some d' \<and> length d' = length d"
    using len(1) by (cases devs; cases "dwarf_events t"; simp)+
  have "results_ok s ?t"
    using r(1) dv by (auto simp: results_ok_def zero_tables_ok rd_zero_counters_def)
  moreover have "if active t then live_ok s ?t else dead_ok ?t"
  proof (cases "active t")
    case True
    with r(2) have live: "live_ok s t" by simp
    have "live_ok s ?t"
      by (rule live_okD [OF live]) (rule live_ok_cong [of _ _ _ _ t], use live len in
          \<open>simp_all add: rd_zero_counters_def\<close>)
    with True show ?thesis by simp
  next
    case False
    with r(2) len show ?thesis by (simp add: dead_ok_def rd_zero_counters_def)
  qed
  moreover have "accounts_ok 0 (?t\<lparr>wp_slots := map_option (map reset_slot) (wp_slots t)\<rparr>)"
    by (cases "wp_slots t") (simp_all add: accounts_ok_def armed_count_def rd_zero_counters_def reset_counts)
  ultimately show thesis using z
    by (intro that [of ?t]) (simp_all add: after_reset_def rd_zero_counters_def ident_def)
qed

lemma reset_inv:
  assumes "thread_inv s p t"
  obtains ret t' where "rd_reset_thread_locked env s t = Some (ret, t')" "thread_inv s 0 t'" "after_reset s t t'"
proof (cases "active t")
  case False
  with assms have dead: "dead_ok t" "live_detached t" by (simp_all add: thread_inv_def)
  obtain t' where t': "rd_zero_arrays s (rd_zero_counters t) = Some t'" "wp_slots t' = wp_slots t"
    "after_reset s t (t'\<lparr>wp_slots := map_option (map reset_slot) (wp_slots t)\<rparr>)"
    "if active t then live_ok s t' else dead_ok t'" "results_ok s t'"
    "accounts_ok 0 (t'\<lparr>wp_slots := map_option (map reset_slot) (wp_slots t)\<rparr>)" by (rule reset_tables [OF assms])
  have eq: "t'\<lparr>wp_slots := map_option (map reset_slot) (wp_slots t)\<rparr> = t'"
    using t'(2) dead(1) by (cases t') (simp add: dead_ok_def)
  have "ident t' = ident t" using t'(3) by (simp add: after_reset_def eq)
  moreover have "accounts_ok 0 t'" "after_reset s t t'" using t'(6,3) unfolding eq .
  ultimately show thesis
    using t' False dead ident_active [of t' t]
    by (intro that [of RetOk t'])
       (simp_all add: rd_reset_thread_locked_def thread_inv_def slots_ok_def dead_ok_def)
next
  case True
  obtain slots where slots: "wp_slots t = Some slots" "length slots = unat (wp_capacity s)"
    by (rule slotsE [OF assms True])
  obtain ret evs where park: "rd_park_slots env s t 0 (unat (wp_capacity s)) RetOk = Some (ret, t\<lparr>wp_events := Some evs\<rparr>)"
    "length evs = unat (wp_capacity s)" "None \<notin> set evs"
    by (rule park_slots_inv [OF assms True, of 0 "unat (wp_capacity s)" env RetOk]) simp_all
  let ?t = "t\<lparr>wp_events := Some evs\<rparr>"
  have inv: "thread_inv s p ?t" using assms True park(2,3) by (simp add: thread_inv_defs)
  obtain t' where t': "rd_zero_arrays s (rd_zero_counters ?t) = Some t'" "wp_slots t' = wp_slots ?t"
    "after_reset s ?t (t'\<lparr>wp_slots := map_option (map reset_slot) (wp_slots ?t)\<rparr>)"
    "if active ?t then live_ok s t' else dead_ok t'" "results_ok s t'"
    "accounts_ok 0 (t'\<lparr>wp_slots := map_option (map reset_slot) (wp_slots ?t)\<rparr>)" by (rule reset_tables [OF inv])
  have live: "live_ok s t'" "wp_slots t' = Some (map reset_slot [] @ slots)"
    using t'(2,4) True slots(1) by simp_all
  obtain snaps where c: "rd_clear_slots s t' 0 (length slots) =
      Some (t'\<lparr>wp_slots := Some (map reset_slot slots), wp_seed_dwarf_snapshots := snaps\<rparr>)" (is "_ = Some ?u")
    "map_option length snaps = map_option length (wp_seed_dwarf_snapshots t')"
    using clear_slots_spec [OF live] by auto
  have id: "ident ?u = ident t" using t'(3) by (simp add: after_reset_def ident_def)
  have "live_ok s ?u"
    by (rule live_okD [OF live(1)]) (rule live_ok_cong [of _ "map reset_slot slots" _ _ t'],
        use live slots c in auto)
  moreover have "results_ok s ?u" using t'(5) by (simp add: results_ok_def contexts_ok_def pairs_ok_def)
  moreover have "slots_ok s ?u" by (auto simp: slots_ok_def reset_slot_def cleared_slot_def)
  moreover have "accounts_ok 0 ?u" using t'(6) slots(1) by (simp add: accounts_ok_def armed_count_def)
  ultimately have "thread_inv s 0 ?u"
    using ident_active [OF id] True assms by (simp add: thread_inv_def)
  moreover have "after_reset s t ?u" using t'(3) slots(1) by (simp add: after_reset_def ident_def)
  moreover have "wp_events t \<noteq> None" using True assms by (auto simp: thread_inv_def live_ok_def)
  then have "rd_reset_thread_locked env s t = Some (ret, ?u)"
    using True park slots t'(1,2) c by (simp add: rd_reset_thread_locked_def)
  ultimately show thesis using that by blast
qed

end
