(* ===== verification/Device.thy ===== *)
theory Device
  imports Lifecycle
begin

text \<open>
  The device and the probes of the kernel module (\<^verbatim>\<open>kernel/rd_wpctl.c\<close>): the queries, the
  ioctl dispatcher, open and release, the two kprobe handlers with their lookup in the
  global list of live threads, and module initialisation.  A session is named by the file
  it was opened through, a thread by its file and its place in the session's list.
\<close>

subsection \<open>Queries\<close>

datatype rd_reply = NoReply | LayoutReply rd_wpctl_layout | StatsReply rd_wpctl_thread_stats
  | HistReply rd_wpctl_hist_req | PairReply rd_wpctl_pair_hist_req
  | ContextReply rd_wpctl_context_req | DwarfReply rd_wpctl_dwarf_event_req

text \<open>The last step of every query: the reply reaches the user, or the copy fails.\<close>

definition rd_reply_user :: "kenv \<Rightarrow> rd_reply \<Rightarrow> kret \<times> rd_reply" where
  "rd_reply_user env r = (if copy_to_user_ok env then (RetOk, r) else (RetErr EFAULT, NoReply))"

definition rd_get_layout_locked :: "kenv \<Rightarrow> rd_session \<Rightarrow> kret \<times> rd_reply" where
  "rd_get_layout_locked env session = rd_reply_user env (LayoutReply
     \<lparr>lay_target_count = target_count session, lay_thread_count = of_nat (length (threads session)),
      lay_bucket_count = of_nat RD_WPCTL_LOG2_BUCKETS\<rparr>)"

definition rd_get_thread_stats_locked :: "kenv \<Rightarrow> rd_session \<Rightarrow> u32 option \<Rightarrow> kret \<times> rd_reply" where
  "rd_get_thread_stats_locked env session uarg =
     (case uarg of None \<Rightarrow> (RetErr EFAULT, NoReply)
      | Some index \<Rightarrow> (case rd_find_thread_by_index session index of
          None \<Rightarrow> (RetErr ENOENT, NoReply)
        | Some t \<Rightarrow> rd_reply_user env (StatsReply
            \<lparr>st_index = index, st_tid = tid t, st_cpu = cpu t, st_active = (if active t then 1 else 0),
             st_candidate_samples = candidate_samples t, st_reservoir_seen = reservoir_seen t,
             st_reservoir_accepted = reservoir_accepted t, st_reservoir_rejected = reservoir_rejected t,
             st_hits = hits t, st_evictions = evictions t, st_dropped = dropped t,
             st_pair_hist_used = pair_hist_used t, st_pair_hist_dropped = pair_hist_dropped t,
             st_context_used = context_used t, st_context_dropped = context_dropped t,
             st_callchain_failed = callchain_failed t, st_callchain_truncated = callchain_truncated t,
             st_dwarf_event_used = dwarf_event_used t, st_dwarf_event_dropped = dwarf_event_dropped t,
             st_dwarf_stack_copy_failed = dwarf_stack_copy_failed t,
             st_dwarf_stack_bytes = ucast (dwarf_stack_bytes session)\<rparr>)))"

text \<open>\<^verbatim>\<open>memcpy\<close> of \<open>n\<close> elements from place \<open>i\<close>: a fault beyond the end.\<close>

definition arr_slice :: "'a list \<Rightarrow> nat \<Rightarrow> nat \<Rightarrow> 'a list option" where
  "arr_slice xs i n = (if i + n \<le> length xs then Some (take n (drop i xs)) else None)"

definition rd_get_hist_locked ::
  "kenv \<Rightarrow> rd_session \<Rightarrow> (u32 \<times> u32) option \<Rightarrow> (kret \<times> rd_reply) option" where
  "rd_get_hist_locked env session uarg =
     (case uarg of None \<Rightarrow> Some (RetErr EFAULT, NoReply)
      | Some (ti, target_index) \<Rightarrow> (case rd_find_thread_by_index session ti of
          None \<Rightarrow> Some (RetErr ENOENT, NoReply)
        | Some t \<Rightarrow>
            if target_index \<ge> target_count session then Some (RetErr EINVAL, NoReply)
            else do {
              buckets \<leftarrow> (case log2_hist t of
                            None \<Rightarrow> Some (replicate RD_WPCTL_LOG2_BUCKETS 0)
                          | Some h \<Rightarrow> arr_slice h (unat target_index * RD_WPCTL_LOG2_BUCKETS) RD_WPCTL_LOG2_BUCKETS);
              Some (rd_reply_user env (HistReply
                \<lparr>hr_thread_index = ti, hr_target_index = target_index, hr_buckets = buckets\<rparr>))
            }))"

definition rd_get_pair_hist_locked ::
  "kenv \<Rightarrow> rd_session \<Rightarrow> (u32 \<times> u32) option \<Rightarrow> (kret \<times> rd_reply) option" where
  "rd_get_pair_hist_locked env session uarg =
     (case uarg of None \<Rightarrow> Some (RetErr EFAULT, NoReply)
      | Some (ti, entry_index) \<Rightarrow> (case rd_find_thread_by_index session ti of
          None \<Rightarrow> Some (RetErr ENOENT, NoReply)
        | Some t \<Rightarrow>
            if unat entry_index \<ge> RD_WPCTL_MAX_PAIR_HISTS then Some (RetErr EINVAL, NoReply)
            else do {
              let req = \<lparr>pr_thread_index = ti, pr_entry_index = entry_index, pr_used = 0,
                         pr_seed_context_id = 0, pr_reuse_context_id = 0, pr_seed_pc_offset = 0,
                         pr_reuse_pc = 0, pr_buckets = replicate RD_WPCTL_LOG2_BUCKETS 0\<rparr>;
              req' \<leftarrow> (if pair_hist t = None then Some req
                       else do {
                         e \<leftarrow> arr_get (pair_hist t) (unat entry_index);
                         Some (if ph_used e
                               then req\<lparr>pr_used := 1, pr_seed_context_id := ph_seed_context_id e,
                                        pr_reuse_context_id := ph_reuse_context_id e,
                                        pr_seed_pc_offset := ph_seed_pc_offset e,
                                        pr_reuse_pc := ph_reuse_pc e, pr_buckets := ph_buckets e\<rparr>
                               else req)
                       });
              Some (rd_reply_user env (PairReply req'))
            }))"

definition rd_get_context_locked ::
  "kenv \<Rightarrow> rd_session \<Rightarrow> (u32 \<times> u32) option \<Rightarrow> (kret \<times> rd_reply) option" where
  "rd_get_context_locked env session uarg =
     (case uarg of None \<Rightarrow> Some (RetErr EFAULT, NoReply)
      | Some (ti, context_id) \<Rightarrow> (case rd_find_thread_by_index session ti of
          None \<Rightarrow> Some (RetErr ENOENT, NoReply)
        | Some t \<Rightarrow>
            if context_id = 0 \<or> unat context_id > RD_WPCTL_MAX_CONTEXTS then Some (RetErr EINVAL, NoReply)
            else do {
              let req = \<lparr>cr_thread_index = ti, cr_context_id = context_id, cr_used = 0, cr_depth = 0,
                         cr_ips = replicate RD_WPCTL_MAX_CALLCHAIN_DEPTH 0\<rparr>;
              req' \<leftarrow> (if contexts t = None then Some req
                       else do {
                         e \<leftarrow> arr_get (contexts t) (unat (context_id - 1));
                         Some (if ce_used e
                               then req\<lparr>cr_used := 1, cr_depth := ce_depth e, cr_ips := ce_ips e\<rparr> else req)
                       });
              Some (rd_reply_user env (ContextReply req'))
            }))"

definition rd_get_dwarf_event_locked ::
  "kenv \<Rightarrow> rd_session \<Rightarrow> (u32 \<times> u32) option \<Rightarrow> (kret \<times> rd_reply) option" where
  "rd_get_dwarf_event_locked env session uarg =
     (case uarg of None \<Rightarrow> Some (RetErr EFAULT, NoReply)
      | Some (ti, event_index) \<Rightarrow> (case rd_find_thread_by_index session ti of
          None \<Rightarrow> Some (RetErr ENOENT, NoReply)
        | Some t \<Rightarrow>
            if event_index \<ge> dwarf_event_capacity session then Some (RetErr EINVAL, NoReply)
            else if \<not> alloc_ok env 0 then Some (RetErr ENOMEM, NoReply)
            else do {
              let req = zero_dwarf_event\<lparr>de_thread_index := ti, de_event_index := event_index\<rparr>;
              req' \<leftarrow> (if dwarf_events t = None then Some req
                       else do {
                         e \<leftarrow> arr_get (dwarf_events t) (unat event_index);
                         Some (if de_used e \<noteq> 0
                               then e\<lparr>de_thread_index := ti, de_event_index := event_index\<rparr> else req)
                       });
              Some (rd_reply_user env (DwarfReply req'))
            }))"

subsection \<open>The window and the reset\<close>

definition rd_start_window :: "kenv \<Rightarrow> rd_session \<Rightarrow> rd_session option" where
  "rd_start_window env session =
     do {
       let s1 = session\<lparr>running := True\<rparr>;
       ts \<leftarrow> those (map (\<lambda>t. if active t then rd_enable_thread_events env s1 t else Some t) (threads s1));
       Some (s1\<lparr>threads := ts\<rparr>)
     }"

definition rd_stop_window :: "kenv \<Rightarrow> rd_session \<Rightarrow> rd_session option" where
  "rd_stop_window env session =
     do {
       let s1 = session\<lparr>running := False\<rparr>;
       ts \<leftarrow> those (map (\<lambda>t. if active t then rd_disable_thread_events env s1 t else Some t) (threads s1));
       Some (s1\<lparr>threads := ts\<rparr>)
     }"

fun rd_reset_threads ::
  "kenv \<Rightarrow> rd_session \<Rightarrow> kret \<Rightarrow> rd_thread_ctx list \<Rightarrow> (kret \<times> rd_thread_ctx list) option" where
  "rd_reset_threads env session ret [] = Some (ret, [])"
| "rd_reset_threads env session ret (t # ts) =
     do {
       (thread_ret, t') \<leftarrow> rd_reset_thread_locked env session t;
       (ret', ts') \<leftarrow> rd_reset_threads env session (first_err ret thread_ret) ts;
       Some (ret', t' # ts')
     }"

definition rd_reset_session_locked :: "kenv \<Rightarrow> rd_session \<Rightarrow> (kret \<times> rd_session) option" where
  "rd_reset_session_locked env session =
     (if running session then Some (RetErr EBUSY, session)
      else do {
        (ret, ts) \<leftarrow> rd_reset_threads env session RetOk (threads session);
        Some (ret, session\<lparr>threads := ts\<rparr>)
      })"

subsection \<open>The dispatcher\<close>

text \<open>A command with its argument; \<open>None\<close> is an argument that cannot be copied from the user.\<close>

datatype rd_cmd =
    RDKIOC_CONFIG_SESSION "rd_wpctl_session_cfg option"
  | RDKIOC_LOAD_TARGETS "rd_wpctl_target_batch option"
  | RDKIOC_REGISTER_THREAD "rd_wpctl_thread_register option"
  | RDKIOC_UNREGISTER_THREAD "int option"
  | RDKIOC_START_WINDOW | RDKIOC_STOP_WINDOW | RDKIOC_RESET_SESSION
  | RDKIOC_GET_LAYOUT
  | RDKIOC_GET_THREAD_STATS "u32 option"
  | RDKIOC_GET_LOG2_HIST "(u32 \<times> u32) option"
  | RDKIOC_GET_PAIR_HIST_ENTRY "(u32 \<times> u32) option"
  | RDKIOC_GET_CONTEXT_ENTRY "(u32 \<times> u32) option"
  | RDKIOC_GET_DWARF_EVENT "(u32 \<times> u32) option"
  | RDKIOC_OTHER

type_synonym rd_result = "kret \<times> rd_reply \<times> perf_event list \<times> rd_session"

definition rd_ioctl_session :: "kenv \<Rightarrow> rd_session \<Rightarrow> rd_cmd \<Rightarrow> rd_result option" where
  "rd_ioctl_session env session cmd =
     (let fault = Some (RetErr EFAULT, NoReply, [], session);
          query = map_option (\<lambda>(ret, r). (ret, r, [], session))
      in case cmd of
        RDKIOC_CONFIG_SESSION None \<Rightarrow> fault
      | RDKIOC_CONFIG_SESSION (Some cfg) \<Rightarrow>
          (let (ret, s) = rd_session_config_locked session cfg in Some (ret, NoReply, [], s))
      | RDKIOC_LOAD_TARGETS None \<Rightarrow> fault
      | RDKIOC_LOAD_TARGETS (Some batch) \<Rightarrow>
          (let (ret, s) = rd_load_targets_locked env session batch in Some (ret, NoReply, [], s))
      | RDKIOC_REGISTER_THREAD None \<Rightarrow> fault
      | RDKIOC_REGISTER_THREAD (Some reg) \<Rightarrow>
          map_option (\<lambda>(ret, evs, s). (ret, NoReply, evs, s)) (rd_register_thread_locked env session reg)
      | RDKIOC_UNREGISTER_THREAD None \<Rightarrow> fault
      | RDKIOC_UNREGISTER_THREAD (Some t) \<Rightarrow>
          map_option (\<lambda>(ret, evs, s). (ret, NoReply, evs, s)) (rd_unregister_thread_locked env session t)
      | RDKIOC_START_WINDOW \<Rightarrow> map_option (\<lambda>s. (RetOk, NoReply, [], s)) (rd_start_window env session)
      | RDKIOC_STOP_WINDOW \<Rightarrow> map_option (\<lambda>s. (RetOk, NoReply, [], s)) (rd_stop_window env session)
      | RDKIOC_RESET_SESSION \<Rightarrow>
          map_option (\<lambda>(ret, s). (ret, NoReply, [], s)) (rd_reset_session_locked env session)
      | RDKIOC_GET_LAYOUT \<Rightarrow> query (Some (rd_get_layout_locked env session))
      | RDKIOC_GET_THREAD_STATS a \<Rightarrow> query (Some (rd_get_thread_stats_locked env session a))
      | RDKIOC_GET_LOG2_HIST a \<Rightarrow> query (rd_get_hist_locked env session a)
      | RDKIOC_GET_PAIR_HIST_ENTRY a \<Rightarrow> query (rd_get_pair_hist_locked env session a)
      | RDKIOC_GET_CONTEXT_ENTRY a \<Rightarrow> query (rd_get_context_locked env session a)
      | RDKIOC_GET_DWARF_EVENT a \<Rightarrow> query (rd_get_dwarf_event_locked env session a)
      | RDKIOC_OTHER \<Rightarrow> Some (RetErr ENOTTY, NoReply, [], session))"

record rd_module =
  files :: "nat \<Rightarrow> rd_session option"
  rd_live_threads :: "(nat \<times> nat) list"
  rd_debug_tokens :: int

text \<open>
  The effect of a command on the global list: registration adds the new thread at the
  head (\<^verbatim>\<open>rd_add_live_thread\<close>), detaching removes its thread (\<^verbatim>\<open>rd_remove_live_thread\<close>).
\<close>

definition rd_update_live ::
  "nat \<Rightarrow> rd_session \<Rightarrow> rd_cmd \<Rightarrow> kret \<Rightarrow> (nat \<times> nat) list \<Rightarrow> (nat \<times> nat) list" where
  "rd_update_live f session cmd ret live =
     (case cmd of
        RDKIOC_REGISTER_THREAD (Some reg) \<Rightarrow>
          if ret = RetOk then (f, length (threads session)) # live else live
      | RDKIOC_UNREGISTER_THREAD (Some t) \<Rightarrow>
          (case rd_find_active_thread_by_tid session t of None \<Rightarrow> live | Some i \<Rightarrow> remove1 (f, i) live)
      | _ \<Rightarrow> live)"

definition rd_wpctl_ioctl ::
  "kenv \<Rightarrow> rd_module \<Rightarrow> nat \<Rightarrow> rd_cmd \<Rightarrow> (kret \<times> rd_reply \<times> perf_event list \<times> rd_module) option" where
  "rd_wpctl_ioctl env m f cmd =
     (case files m f of
        None \<Rightarrow> Some (RetErr EINVAL, NoReply, [], m)
      | Some session \<Rightarrow> do {
          (ret, r, evs, session') \<leftarrow> rd_ioctl_session env session cmd;
          Some (ret, r, evs, m\<lparr>files := (files m)(f \<mapsto> session'),
            rd_live_threads := rd_update_live f session cmd ret (rd_live_threads m)\<rparr>)
        })"

subsection \<open>Open and release\<close>

definition zero_session :: rd_session where
  "zero_session = \<lparr>threads = [], owner_tgid = 0, running = False, configured = False,
     targets_loaded = False, wp_capacity = 0, callchain_mode = 0, dwarf_stack_bytes = 0,
     dwarf_event_capacity = 0, bp_sample_period = 0, target_count = 0, targets = None\<rparr>"

definition rd_wpctl_open :: "kenv \<Rightarrow> rd_module \<Rightarrow> nat \<Rightarrow> kret \<times> rd_module" where
  "rd_wpctl_open env m f =
     (if \<not> alloc_ok env 0 then (RetErr ENOMEM, m)
      else (RetOk, m\<lparr>files := (files m)(f \<mapsto> zero_session\<lparr>owner_tgid := current_tgid env\<rparr>)\<rparr>))"

fun rd_release_threads :: "kenv \<Rightarrow> rd_session \<Rightarrow> rd_thread_ctx list \<Rightarrow> perf_event list option" where
  "rd_release_threads env session [] = Some []"
| "rd_release_threads env session (t # ts) =
     do {
       (evs1, t') \<leftarrow> (if active t then rd_thread_detach_live env session t else Some ([], t));
       evs2 \<leftarrow> rd_thread_destroy env session t';
       rest \<leftarrow> rd_release_threads env session ts;
       Some (evs1 @ evs2 @ rest)
     }"

definition rd_wpctl_release :: "kenv \<Rightarrow> rd_module \<Rightarrow> nat \<Rightarrow> (perf_event list \<times> rd_module) option" where
  "rd_wpctl_release env m f =
     (case files m f of
        None \<Rightarrow> Some ([], m)
      | Some session \<Rightarrow> do {
          evs \<leftarrow> rd_release_threads env session (threads session);
          Some (evs, m\<lparr>files := (files m)(f := None),
            rd_live_threads := filter (\<lambda>(g, i). \<not> (g = f \<and> i < length (threads session) \<and>
              active (threads session ! i))) (rd_live_threads m)\<rparr>)
        })"

subsection \<open>The probes\<close>

definition rd_is_execute_bp_event :: "perf_event option \<Rightarrow> bool" where
  "rd_is_execute_bp_event event =
     (case event of None \<Rightarrow> False
      | Some e \<Rightarrow> attr_type (pe_attr e) = PERF_TYPE_BREAKPOINT \<and> attr_bp_type (pe_attr e) = HW_BREAKPOINT_X)"

definition get_thread :: "rd_module \<Rightarrow> nat \<times> nat \<Rightarrow> (rd_session \<times> rd_thread_ctx) option" where
  "get_thread m r =
     (case files m (fst r) of None \<Rightarrow> None
      | Some s \<Rightarrow> if snd r < length (threads s) then Some (s, threads s ! snd r) else None)"

definition put_thread :: "rd_module \<Rightarrow> nat \<times> nat \<Rightarrow> rd_thread_ctx \<Rightarrow> rd_module" where
  "put_thread m r t =
     (case files m (fst r) of None \<Rightarrow> m
      | Some s \<Rightarrow> m\<lparr>files := (files m)(fst r \<mapsto> s\<lparr>threads := (threads s)[snd r := t]\<rparr>)\<rparr>)"

text \<open>The place of an event, compared by pointer, among the first \<open>n\<close> of an event array.\<close>

definition event_place :: "perf_event \<Rightarrow> nat \<Rightarrow> perf_event option list \<Rightarrow> nat option option" where
  "event_place event n evs =
     (if n \<le> length evs
      then Some (find_index (\<lambda>e. map_option pe_id e = Some (pe_id event)) (take n evs)) else None)"

fun rd_lookup_bp_site_rcu ::
  "rd_module \<Rightarrow> perf_event \<Rightarrow> (nat \<times> nat) list \<Rightarrow> (rd_module \<times> ((nat \<times> nat) \<times> u32) option) option" where
  "rd_lookup_bp_site_rcu m event [] = Some (m, None)"
| "rd_lookup_bp_site_rcu m event (r # rs) =
     do {
       (s, t) \<leftarrow> get_thread m r;
       case bp_events t of
         None \<Rightarrow> rd_lookup_bp_site_rcu m event rs
       | Some evs \<Rightarrow>
           if \<not> active t then rd_lookup_bp_site_rcu m event rs
           else do {
             place \<leftarrow> event_place event (unat (target_count s)) evs;
             case place of
               None \<Rightarrow> rd_lookup_bp_site_rcu m event rs
             | Some i \<Rightarrow>
                 let (ok, t') = rd_thread_live_get_rcu t
                 in if ok then Some (put_thread m r t', Some (r, of_nat i))
                    else rd_lookup_bp_site_rcu (put_thread m r t') event rs
           }
     }"

fun rd_lookup_wp_slot_rcu ::
  "rd_module \<Rightarrow> perf_event \<Rightarrow> (nat \<times> nat) list \<Rightarrow> (rd_module \<times> ((nat \<times> nat) \<times> u32) option) option" where
  "rd_lookup_wp_slot_rcu m event [] = Some (m, None)"
| "rd_lookup_wp_slot_rcu m event (r # rs) =
     do {
       (s, t) \<leftarrow> get_thread m r;
       case wp_events t of
         None \<Rightarrow> rd_lookup_wp_slot_rcu m event rs
       | Some evs \<Rightarrow>
           if \<not> active t then rd_lookup_wp_slot_rcu m event rs
           else do {
             place \<leftarrow> event_place event (unat (wp_capacity s)) evs;
             case place of
               None \<Rightarrow> rd_lookup_wp_slot_rcu m event rs
             | Some i \<Rightarrow>
                 let (ok, t') = rd_thread_live_get_rcu t
                 in if ok then Some (put_thread m r t', Some (r, of_nat i))
                    else rd_lookup_wp_slot_rcu (put_thread m r t') event rs
           }
     }"

text \<open>Dropping the reference a lookup took.\<close>

definition rd_put_live :: "rd_module \<Rightarrow> nat \<times> nat \<Rightarrow> rd_module option" where
  "rd_put_live m r = do { (s, t) \<leftarrow> get_thread m r; Some (put_thread m r (rd_thread_live_put t)) }"

definition rd_perf_event_overflow_pre ::
  "kenv \<Rightarrow> rd_module \<Rightarrow> perf_event option \<Rightarrow> pt_regs option \<Rightarrow> rd_module option" where
  "rd_perf_event_overflow_pre env m event user_regs =
     (case (event, user_regs) of
        (Some e, Some _) \<Rightarrow>
          if \<not> rd_is_execute_bp_event event then Some m
          else do {
            (m1, found) \<leftarrow> rd_lookup_bp_site_rcu m e (rd_live_threads m);
            case found of
              None \<Rightarrow> Some m1
            | Some (r, target_index) \<Rightarrow> do {
                (s, t) \<leftarrow> get_thread m1 r;
                if target_index = RD_INVALID_INDEX \<or> current_pid env \<noteq> tid t then rd_put_live m1 r
                else do {
                  (t', tok) \<leftarrow> rd_handle_bp_hit env s t target_index user_regs (rd_debug_tokens m1);
                  rd_put_live (put_thread m1 r t'\<lparr>rd_debug_tokens := tok\<rparr>) r
                }
              }
          }
      | _ \<Rightarrow> Some m)"

definition rd_watchpoint_report_pre ::
  "kenv \<Rightarrow> rd_module \<Rightarrow> perf_event option \<Rightarrow> pt_regs option \<Rightarrow> rd_module option" where
  "rd_watchpoint_report_pre env m event user_regs =
     (case (event, user_regs) of
        (Some e, Some regs) \<Rightarrow>
          if \<not> user_mode env regs then Some m
          else do {
            (m1, found) \<leftarrow> rd_lookup_wp_slot_rcu m e (rd_live_threads m);
            case found of
              None \<Rightarrow> Some m1
            | Some (r, slot_index) \<Rightarrow> do {
                (s, t) \<leftarrow> get_thread m1 r;
                if slot_index = RD_INVALID_INDEX then rd_put_live m1 r
                else do {
                  (t', tok) \<leftarrow> rd_handle_wp_hit env s t (unat slot_index) user_regs (rd_debug_tokens m1);
                  rd_put_live (put_thread m1 r t'\<lparr>rd_debug_tokens := tok\<rparr>) r
                }
              }
          }
      | _ \<Rightarrow> Some m)"

subsection \<open>Module initialisation\<close>

datatype rd_hook = Overflow_kprobe | Watchpoint_kprobe | Miscdev

text \<open>The return code and what is registered afterwards, given what each registration returns.\<close>

definition rd_wpctl_init :: "kret \<Rightarrow> kret \<Rightarrow> kret \<Rightarrow> kret \<times> rd_hook list" where
  "rd_wpctl_init overflow_ret watchpoint_ret misc_ret =
     (if overflow_ret \<noteq> RetOk then (overflow_ret, [])
      else if watchpoint_ret \<noteq> RetOk then (watchpoint_ret, remove1 Overflow_kprobe [Overflow_kprobe])
      else if misc_ret \<noteq> RetOk
        then (misc_ret, remove1 Overflow_kprobe (remove1 Watchpoint_kprobe [Overflow_kprobe, Watchpoint_kprobe]))
      else (misc_ret, [Overflow_kprobe, Watchpoint_kprobe, Miscdev]))"

definition rd_wpctl_exit :: "rd_hook list \<Rightarrow> rd_hook list" where
  "rd_wpctl_exit hooks = remove1 Overflow_kprobe (remove1 Watchpoint_kprobe (remove1 Miscdev hooks))"

end
