(* ===== verification/Device_Safety.thy ===== *)
theory Device_Safety
  imports Device
begin

text \<open>
  The invariant of sessions and of the module, kept by every ioctl, by open and release and
  by both probes; in a state that satisfies it no operation faults or blocks.
\<close>

subsection \<open>The invariant of a session\<close>

definition cfg_ok :: "rd_session \<Rightarrow> bool" where
  "cfg_ok s \<longleftrightarrow> wp_capacity s \<noteq> 0 \<and> bp_sample_period s \<noteq> 0 \<and>
     callchain_mode s \<in> {RD_CALLCHAIN_OFF, RD_CALLCHAIN_FP, RD_CALLCHAIN_DWARF} \<and>
     unat (dwarf_stack_bytes s) \<le> RD_WPCTL_MAX_DWARF_STACK_BYTES \<and>
     (callchain_mode s = RD_CALLCHAIN_DWARF \<longrightarrow> dwarf_stack_bytes s \<noteq> 0 \<and> dwarf_event_capacity s \<noteq> 0)"

definition loaded_ok :: "rd_session \<Rightarrow> bool" where
  "loaded_ok s \<longleftrightarrow> configured s \<and> session_ok s \<and> shifts_ok s \<and> target_count s \<noteq> 0"

text \<open>At most one live thread per thread id.\<close>

definition tids_ok :: "rd_thread_ctx list \<Rightarrow> bool" where
  "tids_ok ts \<longleftrightarrow> (\<forall>i<length ts. \<forall>j<length ts. active (ts ! i) \<longrightarrow> active (ts ! j) \<longrightarrow>
     tid (ts ! i) = tid (ts ! j) \<longrightarrow> i = j)"

definition session_inv :: "rd_session \<Rightarrow> bool" where
  "session_inv s \<longleftrightarrow> (configured s \<longrightarrow> cfg_ok s) \<and> (targets_loaded s \<longrightarrow> loaded_ok s) \<and>
     (\<not> targets_loaded s \<longrightarrow> threads s = []) \<and>
     (\<forall>t\<in>set (threads s). thread_inv s 0 t \<and> refs_ok t) \<and> tids_ok (threads s)"

text \<open>What user space must deliver: as many targets as announced, and shifts below 64.\<close>

definition user_targets_ok :: "kenv \<Rightarrow> bool" where
  "user_targets_ok env \<longleftrightarrow> (\<forall>p n us. memdup_user env p n = Inr us \<longrightarrow>
     length us = unat n \<and> (\<forall>u\<in>set us. unat (shift (ut_decode u)) < 64))"

lemma thread_inv_session_cong:
  assumes "wp_capacity s' = wp_capacity s" "target_count s' = target_count s"
    "callchain_mode s' = callchain_mode s" "dwarf_event_capacity s' = dwarf_event_capacity s"
  shows "thread_inv s' p t = thread_inv s p t"
proof -
  have "live_ok s' t = live_ok s t" "results_ok s' t = results_ok s t" "slots_ok s' t = slots_ok s t"
    unfolding live_ok_def results_ok_def slots_ok_def assms by (rule refl)+
  then show ?thesis unfolding thread_inv_def by (simp only:)
qed

lemma thread_inv_session_simps [simp]:
  "thread_inv (s\<lparr>threads := ts\<rparr>) p t = thread_inv s p t"
  "thread_inv (s\<lparr>running := b\<rparr>) p t = thread_inv s p t"
  by (rule thread_inv_session_cong; simp)+

lemma session_ok_simps [simp]:
  "loaded_ok (s\<lparr>threads := ts\<rparr>) = loaded_ok s" "loaded_ok (s\<lparr>running := b\<rparr>) = loaded_ok s"
  "cfg_ok (s\<lparr>threads := ts\<rparr>) = cfg_ok s" "cfg_ok (s\<lparr>running := b\<rparr>) = cfg_ok s"
  by (simp_all add: loaded_ok_def cfg_ok_def session_ok_def shifts_ok_def)

lemma session_invD:
  assumes "session_inv s" "i < length (threads s)"
  shows "thread_inv s 0 (threads s ! i)" "refs_ok (threads s ! i)" "session_ok s" "shifts_ok s"
proof -
  have "threads s \<noteq> []" using assms(2) by auto
  then have "loaded_ok s" using assms(1) by (auto simp: session_inv_def)
  then show "session_ok s" "shifts_ok s" by (simp_all add: loaded_ok_def)
  show "thread_inv s 0 (threads s ! i)" "refs_ok (threads s ! i)"
    using assms by (simp_all add: session_inv_def)
qed

text \<open>Replacing threads by threads that satisfy the invariant, none of them newly live.\<close>

lemma session_inv_threads:
  assumes "session_inv s" "length ts = length (threads s)"
    and "\<And>i. i < length ts \<Longrightarrow> thread_inv s 0 (ts ! i) \<and> refs_ok (ts ! i) \<and>
          tid (ts ! i) = tid (threads s ! i) \<and> (active (ts ! i) \<longrightarrow> active (threads s ! i))"
  shows "session_inv (s\<lparr>threads := ts\<rparr>)"
proof -
  have "threads s = [] \<Longrightarrow> ts = []" using assms(2) by simp
  moreover have "tids_ok ts"
    using assms by (simp add: session_inv_def tids_ok_def)
  moreover have "\<forall>t\<in>set ts. thread_inv s 0 t \<and> refs_ok t"
    using assms(3) by (auto simp: in_set_conv_nth)
  ultimately show ?thesis using assms(1) by (auto simp: session_inv_def)
qed

lemma session_inv_thread:
  assumes "session_inv s" "i < length (threads s)" "thread_inv s 0 t'" "refs_ok t'"
    and "tid t' = tid (threads s ! i)" "active t' \<Longrightarrow> active (threads s ! i)"
  shows "session_inv (s\<lparr>threads := (threads s)[i := t']\<rparr>)"
  by (rule session_inv_threads)
     (use assms session_invD [OF assms(1)] in \<open>auto simp: nth_list_update\<close>)

lemma ident_refs:
  "ident t' = ident t \<Longrightarrow> refs_ok t' = refs_ok t \<and> tid t' = tid t \<and> active t' = active t"
  by (simp add: ident_def refs_ok_def)

text \<open>Which threads of a session are live.\<close>

definition activity :: "rd_session \<Rightarrow> bool list" where
  "activity s = map active (threads s)"

lemma session_inv_ident:
  assumes "session_inv s" "length ts = length (threads s)"
    and "\<And>i. i < length (threads s) \<Longrightarrow> thread_inv s 0 (ts ! i) \<and> ident (ts ! i) = ident (threads s ! i)"
  shows "session_inv (s\<lparr>threads := ts\<rparr>)" "activity (s\<lparr>threads := ts\<rparr>) = activity s"
proof -
  have same: "refs_ok (ts ! i) = refs_ok (threads s ! i) \<and> tid (ts ! i) = tid (threads s ! i) \<and>
      active (ts ! i) = active (threads s ! i)" if "i < length (threads s)" for i
    by (rule ident_refs) (use assms(3) that in simp)
  show "session_inv (s\<lparr>threads := ts\<rparr>)"
    by (rule session_inv_threads [OF assms(1,2)])
       (use same session_invD(2) [OF assms(1)] assms(2,3) in simp)
  show "activity (s\<lparr>threads := ts\<rparr>) = activity s"
    using same assms(2) by (simp add: activity_def list_eq_iff_nth_eq)
qed

subsection \<open>Commands keep the session invariant\<close>

lemma config_inv:
  assumes "session_inv s" "rd_session_config_locked s cfg = (ret, s')"
  shows "session_inv s'" "activity s' = activity s"
proof -
  have "threads s = []" if "\<not> targets_loaded s" using assms(1) that by (simp add: session_inv_def)
  with assms show "session_inv s'" "activity s' = activity s"
    by (auto simp: rd_session_config_locked_def session_inv_def cfg_ok_def activity_def tids_ok_def
        not_less split: if_splits)
qed

lemma load_targets_inv:
  assumes "session_inv s" "user_targets_ok env" "rd_load_targets_locked env s batch = (ret, s')"
  shows "session_inv s'" "activity s' = activity s"
proof -
  have "session_inv s' \<and> activity s' = activity s"
  proof (cases "s' = s")
    case False
    with assms(3) obtain us where us: "configured s" "\<not> targets_loaded s" "batch_count batch \<noteq> 0"
      "memdup_user env (targets_ptr batch) (batch_count batch) = Inr us"
      "s' = s\<lparr>targets := Some (map rd_copy_target us), target_count := batch_count batch, targets_loaded := True\<rparr>"
      by (auto simp: rd_load_targets_locked_def split: if_splits sum.splits)
    then have "threads s = []" "cfg_ok s" using assms(1) by (auto simp: session_inv_def)
    moreover have "length us = unat (batch_count batch)" "\<forall>u\<in>set us. unat (shift (ut_decode u)) < 64"
      using assms(2) us(4) by (auto simp: user_targets_ok_def)
    ultimately show ?thesis
      using us by (auto simp: session_inv_def loaded_ok_def session_ok_def shifts_ok_def cfg_ok_def
          activity_def tids_ok_def rd_copy_target_def)
  qed (use assms(1) in simp)
  then show "session_inv s'" "activity s' = activity s" by simp_all
qed

lemma those_map_inv:
  assumes "\<And>i. i < length ts \<Longrightarrow> \<exists>t'. g (ts ! i) = Some t' \<and> P i t'"
  obtains ts' where "those (map g ts) = Some ts'" "length ts' = length ts" "\<And>i. i < length ts \<Longrightarrow> P i (ts' ! i)"
  using assms
proof (induction ts arbitrary: P thesis)
  case (Cons t ts)
  from Cons.prems(2) [of 0] obtain t' where t': "g t = Some t'" "P 0 t'" by auto
  obtain ts' where ts': "those (map g ts) = Some ts'" "length ts' = length ts"
    "\<And>i. i < length ts \<Longrightarrow> P (Suc i) (ts' ! i)"
    using Cons.IH [of "\<lambda>i. P (Suc i)"] Cons.prems(2) [of "Suc _"] by auto
  show ?case
  proof (rule Cons.prems(1) [of "t' # ts'"])
    show "P i ((t' # ts') ! i)" if "i < length (t # ts)" for i
      using that t'(2) ts'(3) by (cases i) simp_all
  qed (use t' ts' in simp_all)
qed simp

text \<open>The two window commands, as one lemma on what happens to each live thread.\<close>

lemma window_inv:
  assumes "session_inv s"
    and "\<And>t. thread_inv s 0 t \<Longrightarrow> active t \<Longrightarrow> \<exists>t'. g t = Some t' \<and> thread_inv s 0 t' \<and> ident t' = ident t"
  obtains ts where "those (map (\<lambda>t. if active t then g t else Some t) (threads s)) = Some ts"
    "session_inv (s\<lparr>running := b, threads := ts\<rparr>)" "activity (s\<lparr>running := b, threads := ts\<rparr>) = activity s"
proof -
  let ?P = "\<lambda>i t'. thread_inv s 0 t' \<and> ident t' = ident (threads s ! i)"
  have "\<exists>t'. (if active (threads s ! i) then g (threads s ! i) else Some (threads s ! i)) = Some t' \<and> ?P i t'"
    if "i < length (threads s)" for i
    using assms(2) session_invD(1) [OF assms(1) that] by (cases "active (threads s ! i)") auto
  then obtain ts where ts: "those (map (\<lambda>t. if active t then g t else Some t) (threads s)) = Some ts"
    "length ts = length (threads s)" "\<And>i. i < length (threads s) \<Longrightarrow> ?P i (ts ! i)"
    using those_map_inv [of "threads s" "\<lambda>t. if active t then g t else Some t" ?P] by blast
  have run: "session_inv (s\<lparr>running := b\<rparr>)" "activity (s\<lparr>running := b\<rparr>) = activity s"
    using assms(1) by (simp_all add: session_inv_def activity_def)
  have "session_inv (s\<lparr>running := b\<rparr>\<lparr>threads := ts\<rparr>)" "activity (s\<lparr>running := b\<rparr>\<lparr>threads := ts\<rparr>) = activity s"
    using session_inv_ident [OF run(1), of ts] ts(2,3) run(2) by simp_all
  then show thesis using that ts(1) by simp
qed

lemma start_window_inv:
  assumes "session_inv s"
  obtains s' where "rd_start_window env s = Some s'" "session_inv s'" "activity s' = activity s" "running s'"
proof -
  have "\<exists>t'. rd_enable_thread_events env (s\<lparr>running := True\<rparr>) t = Some t' \<and> thread_inv s 0 t' \<and> ident t' = ident t"
    if "thread_inv s 0 t" "active t" for t
    using enable_inv [of "s\<lparr>running := True\<rparr>" 0 t env] that by auto
  then obtain ts where "those (map (\<lambda>t. if active t then rd_enable_thread_events env (s\<lparr>running := True\<rparr>) t
      else Some t) (threads s)) = Some ts" "session_inv (s\<lparr>running := True, threads := ts\<rparr>)"
    "activity (s\<lparr>running := True, threads := ts\<rparr>) = activity s"
    by (rule window_inv [OF assms]) blast
  then show thesis by (intro that [of "s\<lparr>running := True, threads := ts\<rparr>"]) (simp_all add: rd_start_window_def)
qed

lemma stop_window_inv:
  assumes "session_inv s"
  obtains s' where "rd_stop_window env s = Some s'" "session_inv s'" "activity s' = activity s" "\<not> running s'"
proof -
  have "\<exists>t'. rd_disable_thread_events env (s\<lparr>running := False\<rparr>) t = Some t' \<and> thread_inv s 0 t' \<and> ident t' = ident t"
    if "thread_inv s 0 t" "active t" for t
    using disable_inv [of "s\<lparr>running := False\<rparr>" 0 t env] that by auto
  then obtain ts where "those (map (\<lambda>t. if active t then rd_disable_thread_events env (s\<lparr>running := False\<rparr>) t
      else Some t) (threads s)) = Some ts" "session_inv (s\<lparr>running := False, threads := ts\<rparr>)"
    "activity (s\<lparr>running := False, threads := ts\<rparr>) = activity s"
    by (rule window_inv [OF assms]) blast
  then show thesis by (intro that [of "s\<lparr>running := False, threads := ts\<rparr>"]) (simp_all add: rd_stop_window_def)
qed

lemma reset_threads_inv:
  assumes "\<And>t. t \<in> set ts \<Longrightarrow> thread_inv s 0 t"
  obtains ret' ts' where "rd_reset_threads env s ret ts = Some (ret', ts')" "length ts' = length ts"
    "\<And>i. i < length ts \<Longrightarrow> thread_inv s 0 (ts' ! i) \<and> after_reset s (ts ! i) (ts' ! i)"
  using assms
proof (induction ts arbitrary: ret thesis)
  case (Cons t ts)
  obtain r t' where t': "rd_reset_thread_locked env s t = Some (r, t')" "thread_inv s 0 t'" "after_reset s t t'"
    by (rule reset_inv [OF Cons.prems(2) [of t]]) simp_all
  obtain ret' ts' where ts': "rd_reset_threads env s (first_err ret r) ts = Some (ret', ts')"
    "length ts' = length ts" "\<And>i. i < length ts \<Longrightarrow> thread_inv s 0 (ts' ! i) \<and> after_reset s (ts ! i) (ts' ! i)"
    using Cons.IH [of "first_err ret r"] Cons.prems(2) by auto
  show ?case
  proof (rule Cons.prems(1) [of ret' "t' # ts'"])
    show "thread_inv s 0 ((t' # ts') ! i) \<and> after_reset s ((t # ts) ! i) ((t' # ts') ! i)"
      if "i < length (t # ts)" for i using that t' ts'(3) by (cases i) simp_all
  qed (use t' ts' in simp_all)
qed simp

lemma reset_session_inv:
  assumes "session_inv s"
  obtains ret s' where "rd_reset_session_locked env s = Some (ret, s')" "session_inv s'" "activity s' = activity s"
proof (cases "running s")
  case True
  with assms that show thesis by (simp add: rd_reset_session_locked_def)
next
  case False
  have "thread_inv s 0 t" if "t \<in> set (threads s)" for t using assms that by (simp add: session_inv_def)
  from reset_threads_inv [OF this] obtain ret ts where ts:
    "rd_reset_threads env s RetOk (threads s) = Some (ret, ts)" "length ts = length (threads s)"
    "\<And>i. i < length (threads s) \<Longrightarrow> thread_inv s 0 (ts ! i) \<and> after_reset s (threads s ! i) (ts ! i)" by blast
  then have "session_inv (s\<lparr>threads := ts\<rparr>)" "activity (s\<lparr>threads := ts\<rparr>) = activity s"
    using session_inv_ident [OF assms ts(2)] by (simp_all add: after_reset_def)
  then show thesis using that ts(1) False by (simp add: rd_reset_session_locked_def)
qed

subsection \<open>Registration\<close>

lemma find_active_None:
  "rd_find_active_thread_by_tid s t = None \<longleftrightarrow> (\<forall>th\<in>set (threads s). tid th = t \<longrightarrow> \<not> active th)"
  by (auto simp: rd_find_active_thread_by_tid_def find_index_None_iff)

lemma new_thread_ident:
  "refs_ok (rd_new_thread tsk arg)" "tid (rd_new_thread tsk arg) = reg_tid arg"
  by (simp_all add: refs_ok_def rd_new_thread_def)

text \<open>The guards of a registration, and what remains when all of them are passed.\<close>

definition register_ready :: "kenv \<Rightarrow> rd_session \<Rightarrow> rd_wpctl_thread_register \<Rightarrow> task_struct \<Rightarrow> bool" where
  "register_ready env s arg tsk \<longleftrightarrow> configured s \<and> targets_loaded s \<and>
     rd_find_active_thread_by_tid s (reg_tid arg) = None \<and>
     reg_scratch_base arg \<noteq> 0 \<and> reg_scratch_stride arg \<noteq> 0 \<and>
     find_task env (reg_tid arg) = Some tsk \<and> task_tgid tsk = owner_tgid s \<and>
     rd_check_thread_affinity env tsk (reg_cpu arg) = RetOk \<and> alloc_ok env 19"

lemma register_not_ready:
  assumes "\<And>tsk. \<not> register_ready env s arg tsk"
  obtains ret where "rd_register_thread_locked env s arg = Some (ret, [], s)" "ret \<noteq> RetOk"
proof (cases "configured s \<and> targets_loaded s \<and> rd_find_active_thread_by_tid s (reg_tid arg) = None \<and>
    reg_scratch_base arg \<noteq> 0 \<and> reg_scratch_stride arg \<noteq> 0")
  case False
  consider "\<not> configured s \<or> \<not> targets_loaded s" | "configured s" "targets_loaded s"
      "rd_find_active_thread_by_tid s (reg_tid arg) \<noteq> None"
    | "configured s" "targets_loaded s" "rd_find_active_thread_by_tid s (reg_tid arg) = None"
      "reg_scratch_base arg = 0 \<or> reg_scratch_stride arg = 0"
    using False by (cases "rd_find_active_thread_by_tid s (reg_tid arg) = None") auto
  then show thesis
    by cases (rule that [of "RetErr EINVAL"] that [of "RetErr EEXIST"],
        auto simp: rd_register_thread_locked_def)+
next
  case True
  show thesis
  proof (cases "find_task env (reg_tid arg)")
    case None
    with True show thesis by (intro that [of "RetErr ESRCH"]) (simp_all add: rd_register_thread_locked_def)
  next
    case (Some tsk)
    consider "task_tgid tsk \<noteq> owner_tgid s"
      | "task_tgid tsk = owner_tgid s" "rd_check_thread_affinity env tsk (reg_cpu arg) \<noteq> RetOk"
      | "task_tgid tsk = owner_tgid s" "rd_check_thread_affinity env tsk (reg_cpu arg) = RetOk" "\<not> alloc_ok env 19"
      using assms [of tsk] True Some by (auto simp: register_ready_def)
    then show thesis
    proof cases
      case 1
      with True Some show thesis by (intro that [of "RetErr EPERM"]) (simp_all add: rd_register_thread_locked_def)
    next
      case 2
      with True Some show thesis by (intro that) (simp_all add: rd_register_thread_locked_def)
    next
      case 3
      with True Some show thesis by (intro that [of "RetErr ENOMEM"]) (simp_all add: rd_register_thread_locked_def)
    qed
  qed
qed

lemma register_ready_eq:
  assumes "register_ready env s arg tsk"
  shows "rd_register_thread_locked env s arg = do {
    (ret, t1) \<leftarrow> rd_thread_setup_events env s (rd_new_thread tsk arg);
    if ret \<noteq> RetOk then do { evs \<leftarrow> rd_thread_destroy env s t1; Some (ret, evs, s) }
    else do { t2 \<leftarrow> (if running s then rd_enable_thread_events env s t1 else Some t1);
              Some (RetOk, [], s\<lparr>threads := threads s @ [t2]\<rparr>) } }"
  using assms by (simp add: register_ready_def rd_register_thread_locked_def)

text \<open>
  Registration: it always returns; a failure leaves the session alone and releases every
  event that was created; a success appends a live thread.
\<close>

lemma register_inv:
  assumes "session_inv s"
  obtains (failed) ret evs where "rd_register_thread_locked env s arg = Some (ret, evs, s)" "ret \<noteq> RetOk"
      "\<And>tsk. register_ready env s arg tsk \<Longrightarrow>
         evs = map (perf_event_disable env) (setup_created env s (rd_new_thread tsk arg))"
  | (registered) t where "rd_register_thread_locked env s arg = Some (RetOk, [], s\<lparr>threads := threads s @ [t]\<rparr>)"
      "session_inv (s\<lparr>threads := threads s @ [t]\<rparr>)" "active t" "tid t = reg_tid arg"
      "\<exists>tsk. register_ready env s arg tsk"
proof -
  show thesis
  proof (cases "\<exists>tsk. register_ready env s arg tsk")
    case False
    then obtain ret where "rd_register_thread_locked env s arg = Some (ret, [], s)" "ret \<noteq> RetOk"
      using register_not_ready [of env s arg] by blast
    with False show thesis by (intro failed [of ret "[]"]) simp_all
  next
    case True
    then obtain tsk where ready: "register_ready env s arg tsk" by blast
    then have go: "targets_loaded s" "rd_find_active_thread_by_tid s (reg_tid arg) = None"
      "find_task env (reg_tid arg) = Some tsk" by (simp_all add: register_ready_def)
    note eq = register_ready_eq [OF ready]
    have ok: "session_ok s" using assms go(1) by (simp add: session_inv_def loaded_ok_def)
    let ?n = "rd_new_thread tsk arg"
    obtain ret t1 where t1: "rd_thread_setup_events env s ?n = Some (ret, t1)" "event_arrays_ok s t1"
      "held_events t1 = setup_created env s ?n" by (rule setup_holds_created [OF ok, of ?n env]) simp_all
    show thesis
    proof (cases "ret = RetOk")
      case False
      have "rd_thread_destroy env s t1 = Some (map (perf_event_disable env) (setup_created env s ?n))"
        using free_live_releases [OF t1(2), of env] t1(3) by (simp add: rd_thread_destroy_def)
      moreover have "tsk' = tsk" if "register_ready env s arg tsk'" for tsk'
        using that go(3) by (simp add: register_ready_def)
      ultimately show thesis using eq t1(1) False
        by (intro failed [of ret "map (perf_event_disable env) (setup_created env s ?n)"]) auto
    next
      case True
      from setup_ok_inv [OF ok] t1(1) True have s1: "thread_inv s 0 t1" "ident t1 = ident ?n" by blast+
      have act: "active t1" using ident_active [OF s1(2)] by simp
      obtain te where "rd_enable_thread_events env s t1 = Some te" "thread_inv s 0 te" "ident te = ident t1"
        by (rule enable_inv [OF s1(1) act])
      with s1(1) obtain t2 where t2:
        "(if running s then rd_enable_thread_events env s t1 else Some t1) = Some t2"
        "thread_inv s 0 t2" "ident t2 = ident t1" by (cases "running s") auto
      have id: "refs_ok t2 = refs_ok ?n \<and> tid t2 = tid ?n \<and> active t2 = active ?n"
        by (rule ident_refs) (simp add: t2(3) s1(2))
      have "tids_ok (threads s @ [t2])"
        using assms go(2) id new_thread_ident
        by (auto simp: session_inv_def tids_ok_def find_active_None nth_append less_Suc_eq)
      moreover have "\<forall>t\<in>set (threads s @ [t2]). thread_inv s 0 t \<and> refs_ok t"
        using assms t2(2) id new_thread_ident by (auto simp: session_inv_def)
      ultimately have "session_inv (s\<lparr>threads := threads s @ [t2]\<rparr>)"
        using assms go(1) by (simp add: session_inv_def)
      then show thesis using eq t1(1) True t2(1) id new_thread_ident ready
        by (intro registered [of t2]) auto
    qed
  qed
qed

lemma find_active_Some:
  assumes "rd_find_active_thread_by_tid s t = Some i"
  shows "i < length (threads s)" "tid (threads s ! i) = t" "active (threads s ! i)"
  using find_index_SomeD [OF assms [unfolded rd_find_active_thread_by_tid_def]] by simp_all

lemma unregister_inv:
  assumes "session_inv s"
  obtains (absent) "rd_find_active_thread_by_tid s t = None"
      "rd_unregister_thread_locked env s t = Some (RetErr ENOENT, [], s)"
  | (detached) i t' where "rd_find_active_thread_by_tid s t = Some i"
      "rd_unregister_thread_locked env s t = Some (RetOk,
         map (perf_event_disable env) (held_events (threads s ! i)), s\<lparr>threads := (threads s)[i := t']\<rparr>)"
      "session_inv (s\<lparr>threads := (threads s)[i := t']\<rparr>)" "\<not> active t'" "held_events t' = []"
      "dropped t' = dropped (threads s ! i) + of_nat (armed_count (threads s ! i))"
proof (cases "rd_find_active_thread_by_tid s t")
  case None
  then show thesis by (intro absent) (simp_all add: rd_unregister_thread_locked_def)
next
  case (Some i)
  note i = find_active_Some [OF Some]
  note inv = session_invD(1,2) [OF assms i(1)]
  obtain t' where t': "rd_thread_detach_live env s (threads s ! i) =
      Some (map (perf_event_disable env) (held_events (threads s ! i)), t')"
    "thread_inv s 0 t'" "refs_ok t'" "\<not> active t'" "tid t' = tid (threads s ! i)"
    "dropped t' = dropped (threads s ! i) + of_nat (armed_count (threads s ! i))" "held_events t' = []"
    by (rule detach_inv [OF inv i(3)])
  have "session_inv (s\<lparr>threads := (threads s)[i := t']\<rparr>)"
    by (rule session_inv_thread [OF assms i(1) t'(2,3,5)]) (use t'(4) in simp)
  then show thesis using Some i(3) t'
    by (intro detached [of i t']) (simp_all add: rd_unregister_thread_locked_def)
qed

subsection \<open>Queries\<close>

lemma session_inv_results:
  assumes "session_inv s" "rd_find_thread_by_index s i = Some t"
  shows "results_ok s t"
  using assms session_invD(1) [OF assms(1)]
  by (auto simp: rd_find_thread_by_index_def thread_inv_def split: if_splits)

lemma hist_slice:
  assumes "results_ok s t" "ti < target_count s"
  obtains h where "log2_hist t = Some h"
    "arr_slice h (unat ti * RD_WPCTL_LOG2_BUCKETS) RD_WPCTL_LOG2_BUCKETS =
     Some (take RD_WPCTL_LOG2_BUCKETS (drop (unat ti * RD_WPCTL_LOG2_BUCKETS) h))"
proof -
  obtain h where h: "log2_hist t = Some h" "length h = unat (target_count s) * RD_WPCTL_LOG2_BUCKETS"
    using assms(1) by (auto simp: results_ok_def)
  have "Suc (unat ti) \<le> unat (target_count s)" using assms(2) by (simp add: word_less_nat_alt)
  then have "Suc (unat ti) * RD_WPCTL_LOG2_BUCKETS \<le> length h" unfolding h(2) by (rule mult_le_mono1)
  with h(1) that show thesis by (simp add: arr_slice_def add.commute)
qed

lemma queries_return:
  assumes "session_inv s"
  shows "\<exists>r. rd_get_hist_locked env s a = Some r" "\<exists>r. rd_get_pair_hist_locked env s a = Some r"
    "\<exists>r. rd_get_context_locked env s a = Some r" "\<exists>r. rd_get_dwarf_event_locked env s a = Some r"
proof -
  note defs = rd_get_hist_locked_def rd_get_pair_hist_locked_def rd_get_context_locked_def
    rd_get_dwarf_event_locked_def
  have "(\<exists>r. rd_get_hist_locked env s a = Some r) \<and> (\<exists>r. rd_get_pair_hist_locked env s a = Some r) \<and>
    (\<exists>r. rd_get_context_locked env s a = Some r) \<and> (\<exists>r. rd_get_dwarf_event_locked env s a = Some r)"
  proof (cases "\<exists>ti x t. a = Some (ti, x) \<and> rd_find_thread_by_index s ti = Some t")
    case False
    then show ?thesis
      by (cases a) (auto simp: defs split: option.split)
  next
    case True
    then obtain ti x t where a: "a = Some (ti, x)" "rd_find_thread_by_index s ti = Some t" by blast
    have res: "results_ok s t" using session_inv_results [OF assms a(2)] .
    then obtain ps cs where ps: "pair_hist t = Some ps" "length ps = RD_WPCTL_MAX_PAIR_HISTS"
      and cs: "contexts t = Some cs" "length cs = RD_WPCTL_MAX_CONTEXTS"
      by (auto simp: results_ok_def pairs_ok_def contexts_ok_def)
    have dw: "unat x < length ds" if "dwarf_events t = Some ds" "\<not> dwarf_event_capacity s \<le> x" for ds
      using res that by (simp add: results_ok_def not_le word_less_nat_alt)
    have cx: "unat (x - 1) < length cs" if "x \<noteq> 0" "\<not> RD_WPCTL_MAX_CONTEXTS < unat x"
      using that cs(2) unat_minus_one [of x] unat_eq_zero [of x] by (simp add: uapi_consts)
    have "\<exists>r. rd_get_hist_locked env s a = Some r"
    proof (cases "x < target_count s")
      case True
      from hist_slice [OF res True] show ?thesis by (rule, simp add: rd_get_hist_locked_def a)
    qed (simp add: rd_get_hist_locked_def a not_less)
    moreover have "\<exists>r. rd_get_pair_hist_locked env s a = Some r"
      using ps by (simp add: rd_get_pair_hist_locked_def a not_le Let_def)
    moreover have "\<exists>r. rd_get_context_locked env s a = Some r"
      using cs cx by (simp add: rd_get_context_locked_def a Let_def)
    moreover have "\<exists>r. rd_get_dwarf_event_locked env s a = Some r"
      using dw by (cases "dwarf_events t") (simp_all add: rd_get_dwarf_event_locked_def a Let_def)
    ultimately show ?thesis by blast
  qed
  then show "\<exists>r. rd_get_hist_locked env s a = Some r" "\<exists>r. rd_get_pair_hist_locked env s a = Some r"
    "\<exists>r. rd_get_context_locked env s a = Some r" "\<exists>r. rd_get_dwarf_event_locked env s a = Some r"
    by blast+
qed

text \<open>Every command returns and keeps the session invariant.\<close>

text \<open>What a command of a session does: it returns, keeps the invariant, and changes the active threads as it should.\<close>

definition session_ioctl_ok :: "kenv \<Rightarrow> rd_session \<Rightarrow> rd_cmd \<Rightarrow> bool" where
  "session_ioctl_ok env s cmd \<longleftrightarrow> (\<exists>ret r evs s'. rd_ioctl_session env s cmd = Some (ret, r, evs, s') \<and> session_inv s' \<and>
     (\<forall>reg. cmd = RDKIOC_REGISTER_THREAD (Some reg) \<longrightarrow> activity s' = (if ret = RetOk then activity s @ [True] else activity s)) \<and>
     (\<forall>t. cmd = RDKIOC_UNREGISTER_THREAD (Some t) \<longrightarrow> activity s' = (case rd_find_active_thread_by_tid s t of None \<Rightarrow> activity s
        | Some i \<Rightarrow> (activity s)[i := False])) \<and>
     ((\<forall>reg. cmd \<noteq> RDKIOC_REGISTER_THREAD (Some reg)) \<and> (\<forall>t. cmd \<noteq> RDKIOC_UNREGISTER_THREAD (Some t)) \<longrightarrow> activity s' = activity s))"

lemma session_ioctl_okI:
  assumes "rd_ioctl_session env s cmd = Some (ret, r, evs, s')" "session_inv s'" "activity s' = activity s"
    and "(\<forall>reg. cmd \<noteq> RDKIOC_REGISTER_THREAD (Some reg)) \<and> (\<forall>t. cmd \<noteq> RDKIOC_UNREGISTER_THREAD (Some t))"
  shows "session_ioctl_ok env s cmd"
  unfolding session_ioctl_ok_def using assms by blast

lemma session_ioctl_fault:
  assumes "session_inv s"
  shows "session_ioctl_ok env s (RDKIOC_CONFIG_SESSION None)" "session_ioctl_ok env s (RDKIOC_LOAD_TARGETS None)"
    "session_ioctl_ok env s (RDKIOC_REGISTER_THREAD None)" "session_ioctl_ok env s (RDKIOC_UNREGISTER_THREAD None)"
  by (rule session_ioctl_okI [of _ _ _ "RetErr EFAULT" NoReply "[]" s]; use assms in \<open>simp add: rd_ioctl_session_def\<close>)+

lemma session_ioctl_setup:
  assumes "session_inv s" "user_targets_ok env"
  shows "session_ioctl_ok env s (RDKIOC_CONFIG_SESSION (Some cfg))" "session_ioctl_ok env s (RDKIOC_LOAD_TARGETS (Some batch))"
proof -
  obtain ret s' where "rd_session_config_locked s cfg = (ret, s')" by fastforce
  with config_inv [OF assms(1)] show "session_ioctl_ok env s (RDKIOC_CONFIG_SESSION (Some cfg))"
    by (intro session_ioctl_okI [of _ _ _ ret NoReply "[]" s']) (simp_all add: rd_ioctl_session_def)
next
  obtain ret s' where "rd_load_targets_locked env s batch = (ret, s')" by fastforce
  with load_targets_inv [OF assms] show "session_ioctl_ok env s (RDKIOC_LOAD_TARGETS (Some batch))"
    by (intro session_ioctl_okI [of _ _ _ ret NoReply "[]" s']) (simp_all add: rd_ioctl_session_def)
qed

lemma session_ioctl_register:
  assumes "session_inv s"
  shows "session_ioctl_ok env s (RDKIOC_REGISTER_THREAD (Some reg))"
  using assms
proof (cases rule: register_inv [where env = env and arg = reg])
  case (failed ret evs)
  then show ?thesis using assms unfolding session_ioctl_ok_def
    by (intro exI [of _ ret] exI [of _ NoReply] exI [of _ evs] exI [of _ s]) (simp add: rd_ioctl_session_def)
next
  case (registered t)
  then show ?thesis unfolding session_ioctl_ok_def
    by (intro exI [of _ RetOk] exI [of _ NoReply] exI [of _ "[]"] exI [of _ "s\<lparr>threads := threads s @ [t]\<rparr>"])
       (simp add: rd_ioctl_session_def activity_def)
qed

lemma session_ioctl_unregister:
  assumes "session_inv s"
  shows "session_ioctl_ok env s (RDKIOC_UNREGISTER_THREAD (Some t))"
  using assms
proof (cases rule: unregister_inv [where env = env and t = t])
  case absent
  then show ?thesis using assms unfolding session_ioctl_ok_def
    by (intro exI [of _ "RetErr ENOENT"] exI [of _ NoReply] exI [of _ "[]"] exI [of _ s]) (simp add: rd_ioctl_session_def)
next
  case (detached i t')
  then show ?thesis unfolding session_ioctl_ok_def
    by (intro exI [of _ RetOk] exI [of _ NoReply] exI [of _ "map (perf_event_disable env) (held_events (threads s ! i))"]
          exI [of _ "s\<lparr>threads := (threads s)[i := t']\<rparr>"])
       (simp add: rd_ioctl_session_def activity_def map_update)
qed

lemma session_ioctl_window:
  assumes "session_inv s"
  shows "session_ioctl_ok env s RDKIOC_START_WINDOW" "session_ioctl_ok env s RDKIOC_STOP_WINDOW" "session_ioctl_ok env s RDKIOC_RESET_SESSION"
proof -
  from start_window_inv [OF assms] obtain s' where "rd_start_window env s = Some s'" "session_inv s'" "activity s' = activity s" by blast
  then show "session_ioctl_ok env s RDKIOC_START_WINDOW"
    by (intro session_ioctl_okI [of _ _ _ RetOk NoReply "[]" s']) (simp_all add: rd_ioctl_session_def)
next
  from stop_window_inv [OF assms] obtain s' where "rd_stop_window env s = Some s'" "session_inv s'" "activity s' = activity s" by blast
  then show "session_ioctl_ok env s RDKIOC_STOP_WINDOW"
    by (intro session_ioctl_okI [of _ _ _ RetOk NoReply "[]" s']) (simp_all add: rd_ioctl_session_def)
next
  from reset_session_inv [OF assms] obtain ret s' where "rd_reset_session_locked env s = Some (ret, s')" "session_inv s'" "activity s' = activity s" by blast
  then show "session_ioctl_ok env s RDKIOC_RESET_SESSION"
    by (intro session_ioctl_okI [of _ _ _ ret NoReply "[]" s']) (simp_all add: rd_ioctl_session_def)
qed

text \<open>A query leaves the session as it is.\<close>

lemma session_ioctl_query:
  assumes "session_inv s" "cmd \<in> {RDKIOC_GET_LAYOUT, RDKIOC_GET_THREAD_STATS a, RDKIOC_GET_LOG2_HIST b, RDKIOC_GET_PAIR_HIST_ENTRY c,
    RDKIOC_GET_CONTEXT_ENTRY d, RDKIOC_GET_DWARF_EVENT e, RDKIOC_OTHER}"
  shows "session_ioctl_ok env s cmd"
proof -
  have "\<exists>ret r. rd_ioctl_session env s cmd = Some (ret, r, [], s)"
    using assms(2) queries_return [OF assms(1), of env] by (auto simp: rd_ioctl_session_def split_beta)
  then show ?thesis using assms by (auto intro: session_ioctl_okI)
qed

lemma session_ioctl_inv: "session_inv s \<Longrightarrow> user_targets_ok env \<Longrightarrow> session_ioctl_ok env s cmd"
proof (cases cmd)
  case (RDKIOC_CONFIG_SESSION a)
  then show "session_inv s \<Longrightarrow> user_targets_ok env \<Longrightarrow> ?thesis" using session_ioctl_fault session_ioctl_setup by (cases a) simp_all
next
  case (RDKIOC_LOAD_TARGETS a)
  then show "session_inv s \<Longrightarrow> user_targets_ok env \<Longrightarrow> ?thesis" using session_ioctl_fault session_ioctl_setup by (cases a) simp_all
next
  case (RDKIOC_REGISTER_THREAD a)
  then show "session_inv s \<Longrightarrow> user_targets_ok env \<Longrightarrow> ?thesis" using session_ioctl_fault session_ioctl_register by (cases a) simp_all
next
  case (RDKIOC_UNREGISTER_THREAD a)
  then show "session_inv s \<Longrightarrow> user_targets_ok env \<Longrightarrow> ?thesis" using session_ioctl_fault session_ioctl_unregister by (cases a) simp_all
qed (simp_all add: session_ioctl_window session_ioctl_query)

lemma ioctl_session_inv:
  assumes "session_inv s" "user_targets_ok env"
  obtains (that') ret r evs s' where "rd_ioctl_session env s cmd = Some (ret, r, evs, s')" "session_inv s'"
    "\<forall>reg. cmd = RDKIOC_REGISTER_THREAD (Some reg) \<longrightarrow>
       activity s' = (if ret = RetOk then activity s @ [True] else activity s)"
    "\<forall>t. cmd = RDKIOC_UNREGISTER_THREAD (Some t) \<longrightarrow>
       activity s' = (case rd_find_active_thread_by_tid s t of None \<Rightarrow> activity s
                      | Some i \<Rightarrow> (activity s)[i := False])"
    "(\<forall>reg. cmd \<noteq> RDKIOC_REGISTER_THREAD (Some reg)) \<and> (\<forall>t. cmd \<noteq> RDKIOC_UNREGISTER_THREAD (Some t)) \<Longrightarrow>
       activity s' = activity s"
  using session_ioctl_inv [OF assms, of cmd] unfolding session_ioctl_ok_def by blast

end
