(* ===== verification/Module_Safety.thy ===== *)
theory Module_Safety
  imports Device_Safety
begin

text \<open>
  The module as a whole: every open file holds a session that satisfies its invariant, and
  the global list of live threads holds exactly the live threads of all sessions, each once.
  All operations, in any order, keep this and never fault or block.
\<close>

subsection \<open>The invariant of the module\<close>

definition live_of :: "(nat \<Rightarrow> rd_session option) \<Rightarrow> (nat \<times> nat) set" where
  "live_of fs = {(f, i). \<exists>s. fs f = Some s \<and> i < length (activity s) \<and> activity s ! i}"

definition module_inv :: "rd_module \<Rightarrow> bool" where
  "module_inv m \<longleftrightarrow> (\<forall>f s. files m f = Some s \<longrightarrow> session_inv s) \<and>
     distinct (rd_live_threads m) \<and> set (rd_live_threads m) = live_of (files m)"

lemma module_inv_session: "module_inv m \<Longrightarrow> files m f = Some s \<Longrightarrow> session_inv s"
  by (simp add: module_inv_def)

lemma length_activity [simp]: "length (activity s) = length (threads s)"
  by (simp add: activity_def)

lemma activity_nth [simp]: "i < length (threads s) \<Longrightarrow> activity s ! i = active (threads s ! i)"
  by (simp add: activity_def)

text \<open>Replacing one session: how the set of live threads changes.\<close>

definition live_in :: "nat \<Rightarrow> rd_session \<Rightarrow> (nat \<times> nat) set" where
  "live_in f s = {(g, i). g = f \<and> i < length (activity s) \<and> activity s ! i}"

lemma live_of_update: "live_of (fs(f \<mapsto> s)) = {r \<in> live_of fs. fst r \<noteq> f} \<union> live_in f s"
  by (auto simp: live_of_def live_in_def split: if_splits)

lemma live_of_split: "fs f = Some s \<Longrightarrow> live_of fs = {r \<in> live_of fs. fst r \<noteq> f} \<union> live_in f s"
  using live_of_update [of fs f s] by (simp add: fun_upd_idem)

lemma live_of_same_activity:
  assumes "fs f = Some s" "activity s' = activity s"
  shows "live_of (fs(f \<mapsto> s')) = live_of fs"
proof -
  have "live_in f s' = live_in f s" by (simp add: live_in_def assms(2))
  then show ?thesis unfolding live_of_update using live_of_split [of fs, OF assms(1)] by simp
qed

text \<open>The list update of a command matches the change of activity.\<close>

lemma update_live_inv:
  assumes "module_inv m" "files m f = Some s" "activity s' = activity s @ [True]"
  shows "distinct ((f, length (threads s)) # rd_live_threads m)"
    "set ((f, length (threads s)) # rd_live_threads m) = live_of ((files m)(f \<mapsto> s'))"
proof -
  have live: "set (rd_live_threads m) = live_of (files m)" "distinct (rd_live_threads m)"
    using assms(1) by (simp_all add: module_inv_def)
  have "(f, length (threads s)) \<notin> live_of (files m)" using assms(2) by (auto simp: live_of_def)
  with live show "distinct ((f, length (threads s)) # rd_live_threads m)" by simp
  have "live_in f s' = insert (f, length (threads s)) (live_in f s)"
    unfolding live_in_def assms(3) by (auto simp: nth_append less_Suc_eq)
  then show "set ((f, length (threads s)) # rd_live_threads m) =
      live_of ((files m)(f \<mapsto> s'))"
    unfolding live_of_update using live_of_split [of "files m", OF assms(2)] live(1) by auto
qed

lemma remove_live_inv:
  assumes "module_inv m" "files m f = Some s" "activity s' = (activity s)[i := False]" "i < length (threads s)"
  shows "distinct (remove1 (f, i) (rd_live_threads m))"
    "set (remove1 (f, i) (rd_live_threads m)) = live_of ((files m)(f \<mapsto> s'))"
proof -
  have live: "set (rd_live_threads m) = live_of (files m)" "distinct (rd_live_threads m)"
    using assms(1) by (simp_all add: module_inv_def)
  then show "distinct (remove1 (f, i) (rd_live_threads m))" by simp
  have "live_in f s' = live_in f s - {(f, i)}"
    unfolding live_in_def assms(3) using assms(4) by (auto simp: nth_list_update split: if_splits)
  then show "set (remove1 (f, i) (rd_live_threads m)) =
      live_of ((files m)(f \<mapsto> s'))"
    unfolding live_of_update using live_of_split [of "files m", OF assms(2)] live by auto
qed

lemma module_invI:
  assumes "module_inv m" "session_inv s'" "distinct l"
    and "set l = live_of ((files m)(f \<mapsto> s'))"
  shows "module_inv (m\<lparr>files := (files m)(f \<mapsto> s'), rd_live_threads := l\<rparr>)"
  using assms by (simp add: module_inv_def)

lemma ioctl_inv:
  assumes "module_inv m" "user_targets_ok env"
  obtains ret r evs m' where "rd_wpctl_ioctl env m f cmd = Some (ret, r, evs, m')" "module_inv m'"
proof (cases "files m f")
  case None
  with assms(1) that show thesis by (simp add: rd_wpctl_ioctl_def)
next
  case (Some s)
  have s: "session_inv s" by (rule module_inv_session [OF assms(1) Some])
  from ioctl_session_inv [OF s assms(2), of cmd] obtain ret r evs s' where s':
    "rd_ioctl_session env s cmd = Some (ret, r, evs, s')" "session_inv s'"
    and reg: "\<forall>reg. cmd = RDKIOC_REGISTER_THREAD (Some reg) \<longrightarrow>
       activity s' = (if ret = RetOk then activity s @ [True] else activity s)"
    and unreg: "\<forall>t. cmd = RDKIOC_UNREGISTER_THREAD (Some t) \<longrightarrow>
       activity s' = (case rd_find_active_thread_by_tid s t of None \<Rightarrow> activity s
                      | Some i \<Rightarrow> (activity s)[i := False])"
    and other: "(\<forall>reg. cmd \<noteq> RDKIOC_REGISTER_THREAD (Some reg)) \<and> (\<forall>t. cmd \<noteq> RDKIOC_UNREGISTER_THREAD (Some t))
       \<Longrightarrow> activity s' = activity s" by metis
  let ?l = "rd_update_live f s cmd ret (rd_live_threads m)"
  have keep: "distinct l \<and> set l = live_of ((files m)(f \<mapsto> s'))"
    if "activity s' = activity s" "l = rd_live_threads m" for l
    using live_of_same_activity [of "files m", OF Some that(1)] assms(1) that(2) by (simp add: module_inv_def)
  have "distinct ?l \<and> set ?l = live_of ((files m)(f \<mapsto> s'))"
  proof (cases "(\<exists>g. cmd = RDKIOC_REGISTER_THREAD (Some g)) \<or> (\<exists>t. cmd = RDKIOC_UNREGISTER_THREAD (Some t))")
    case False
    then show ?thesis
      by (intro keep other) (auto simp: rd_update_live_def split: rd_cmd.split option.split)
  next
    case True
    then show ?thesis
    proof
      assume "\<exists>g. cmd = RDKIOC_REGISTER_THREAD (Some g)"
      then obtain g where g: "cmd = RDKIOC_REGISTER_THREAD (Some g)" by blast
      show ?thesis
      proof (cases "ret = RetOk")
        case True
        have "activity s' = activity s @ [True]" using reg g True by simp
        from update_live_inv [OF assms(1) Some this] g True show ?thesis by (simp add: rd_update_live_def)
      next
        case False
        with reg g show ?thesis by (intro keep) (simp_all add: rd_update_live_def)
      qed
    next
      assume "\<exists>t. cmd = RDKIOC_UNREGISTER_THREAD (Some t)"
      then obtain t where t: "cmd = RDKIOC_UNREGISTER_THREAD (Some t)" by blast
      show ?thesis
      proof (cases "rd_find_active_thread_by_tid s t")
        case None
        with unreg t show ?thesis by (intro keep) (simp_all add: rd_update_live_def)
      next
        case i: (Some i)
        have "activity s' = (activity s)[i := False]" using unreg t i by simp
        from remove_live_inv [OF assms(1) Some this find_active_Some(1) [OF i]] t i
        show ?thesis by (simp add: rd_update_live_def)
      qed
    qed
  qed
  with module_invI [OF assms(1) s'(2)] s'(1) Some that show thesis by (simp add: rd_wpctl_ioctl_def)
qed

subsection \<open>Open and release\<close>

lemma zero_session_inv: "session_inv (zero_session\<lparr>owner_tgid := g\<rparr>)" "activity (zero_session\<lparr>owner_tgid := g\<rparr>) = []"
  by (simp_all add: session_inv_def zero_session_def tids_ok_def activity_def)

lemma open_inv:
  assumes "module_inv m" "files m f = None"
  shows "module_inv (snd (rd_wpctl_open env m f))"
proof (cases "alloc_ok env 0")
  case True
  have "{r \<in> live_of (files m). fst r \<noteq> f} = live_of (files m)"
    using assms(2) by (auto simp: live_of_def)
  then have "live_of ((files m)(f \<mapsto> zero_session\<lparr>owner_tgid := g\<rparr>)) = live_of (files m)" for g
    unfolding live_of_update by (simp add: live_in_def zero_session_inv)
  with True assms(1) show ?thesis by (simp add: rd_wpctl_open_def module_inv_def zero_session_inv)
qed (use assms(1) in \<open>simp add: rd_wpctl_open_def\<close>)

text \<open>Releasing a session releases every event its threads hold.\<close>

lemma release_threads_spec:
  assumes "\<And>t. t \<in> set ts \<Longrightarrow> thread_inv s 0 t \<and> refs_ok t"
  shows "rd_release_threads env s ts =
    Some (map (perf_event_disable env) (concat (map held_events (filter active ts))))"
  using assms
proof (induction ts)
  case (Cons t ts)
  have t: "thread_inv s 0 t" "refs_ok t" using Cons.prems by simp_all
  have rest: "rd_release_threads env s ts =
      Some (map (perf_event_disable env) (concat (map held_events (filter active ts))))"
    using Cons by simp
  have dead: "rd_thread_destroy env s t' = Some []" if "thread_inv s 0 t'" "\<not> active t'" for t'
    using that free_live_releases [of s t' env]
    by (simp add: rd_thread_destroy_def thread_inv_def dead_ok_def event_arrays_ok_def held_events_def)
  show ?case
  proof (cases "active t")
    case True
    obtain t' where "rd_thread_detach_live env s t = Some (map (perf_event_disable env) (held_events t), t')"
      "thread_inv s 0 t'" "\<not> active t'" by (rule detach_inv [OF t True])
    with True rest dead show ?thesis by simp
  next
    case False
    with rest dead [OF t(1)] show ?thesis by simp
  qed
qed simp

lemma release_inv:
  assumes "module_inv m"
  obtains evs m' where "rd_wpctl_release env m f = Some (evs, m')" "module_inv m'" "files m' f = None"
    "files m f = Some s \<longrightarrow> evs = map (perf_event_disable env) (concat (map held_events (filter active (threads s))))"
proof (cases "files m f")
  case None
  with assms that show thesis by (simp add: rd_wpctl_release_def)
next
  case (Some s')
  have "session_inv s'" by (rule module_inv_session [OF assms Some])
  then have rel: "rd_release_threads env s' (threads s') =
      Some (map (perf_event_disable env) (concat (map held_events (filter active (threads s')))))"
    by (intro release_threads_spec) (simp add: session_inv_def)
  let ?l = "filter (\<lambda>(g, i). \<not> (g = f \<and> i < length (threads s') \<and> active (threads s' ! i))) (rd_live_threads m)"
  let ?m = "m\<lparr>files := (files m)(f := None), rd_live_threads := ?l\<rparr>"
  have "set ?l = live_of ((files m)(f := None))"
    using assms Some by (auto simp: module_inv_def live_of_def split: if_splits)
  then have "module_inv ?m" using assms by (simp add: module_inv_def)
  with rel Some show thesis by (intro that [of _ ?m]) (auto simp: rd_wpctl_release_def)
qed

subsection \<open>The probes\<close>

lemma live_get:
  assumes "thread_inv s p t" "refs_ok t" "active t"
  shows "rd_thread_live_get_rcu t = (True, t\<lparr>live_refs := 2\<rparr>)"
  using assms by (simp add: rd_thread_live_get_rcu_def refs_ok_def thread_inv_def)

lemma get_thread_live:
  assumes "module_inv m" "(f, i) \<in> live_of (files m)"
  obtains s t where "files m f = Some s" "i < length (threads s)" "t = threads s ! i" "get_thread m (f, i) = Some (s, t)"
    "session_inv s" "thread_inv s 0 t" "refs_ok t" "active t"
proof -
  from assms(2) obtain s where s: "files m f = Some s" "i < length (threads s)" "active (threads s ! i)"
    by (auto simp: live_of_def)
  have "session_inv s" by (rule module_inv_session [OF assms(1) s(1)])
  from that [OF s(1,2) refl _ this session_invD(1,2) [OF this s(2)] s(3)] s show thesis
    by (simp add: get_thread_def)
qed

lemma event_place_some:
  assumes "length evs = n"
  shows "\<exists>p. event_place e n evs = Some p \<and> (\<forall>i. p = Some i \<longrightarrow> i < n)"
  using assms by (auto simp: event_place_def dest: find_index_SomeD)

text \<open>
  The two lookups share one contract: \<open>sel\<close> is the event array they search, \<open>cnt\<close> its
  length for a session, \<open>look\<close> the search itself.
\<close>

locale event_lookup =
  fixes sel :: "rd_thread_ctx \<Rightarrow> perf_event option list option"
    and cnt :: "rd_session \<Rightarrow> u32"
    and look :: "rd_module \<Rightarrow> perf_event \<Rightarrow> (nat \<times> nat) list \<Rightarrow> (rd_module \<times> ((nat \<times> nat) \<times> u32) option) option"
  assumes look_Nil: "look m e [] = Some (m, None)"
    and look_skip: "\<lbrakk>get_thread m r = Some (s, t); active t; sel t = Some evs;
      event_place e (unat (cnt s)) evs = Some None\<rbrakk> \<Longrightarrow> look m e (r # rs) = look m e rs"
    and look_hit: "\<lbrakk>get_thread m r = Some (s, t); active t; sel t = Some evs;
      event_place e (unat (cnt s)) evs = Some (Some i); rd_thread_live_get_rcu t = (True, t')\<rbrakk>
      \<Longrightarrow> look m e (r # rs) = Some (put_thread m r t', Some (r, of_nat i))"
    and sel_sized: "thread_inv s p t \<Longrightarrow> active t \<Longrightarrow> \<exists>evs. sel t = Some evs \<and> length evs = unat (cnt s)"
begin

text \<open>A lookup returns; if it finds the event, it has pinned a live thread that holds it.\<close>

lemma lookup_cases:
  assumes "module_inv m" "set rs \<subseteq> live_of (files m)"
  shows "look m e rs = Some (m, None) \<or>
    (\<exists>r s t evs i. r \<in> set rs \<and> get_thread m r = Some (s, t) \<and> sel t = Some evs \<and> i < unat (cnt s) \<and>
       i < length evs \<and> map_option pe_id (evs ! i) = Some (pe_id e) \<and>
       look m e rs = Some (put_thread m r (t\<lparr>live_refs := 2\<rparr>), Some (r, of_nat i)))"
  using assms(2)
proof (induction rs)
  case Nil
  then show ?case by (simp add: look_Nil)
next
  case (Cons r rs)
  obtain f j where r: "r = (f, j)" by fastforce
  with Cons.prems have "(f, j) \<in> live_of (files m)" by simp
  from get_thread_live [OF assms(1) this] obtain s t where t: "get_thread m r = Some (s, t)"
    "thread_inv s 0 t" "refs_ok t" "active t" unfolding r by metis
  obtain evs where evs: "sel t = Some evs" "length evs = unat (cnt s)" using sel_sized [OF t(2,4)] by blast
  let ?p = "find_index (\<lambda>x. map_option pe_id x = Some (pe_id e)) evs"
  have place: "event_place e (unat (cnt s)) evs = Some ?p" using evs(2) by (simp add: event_place_def)
  show ?case
  proof (cases ?p)
    case None
    have "look m e (r # rs) = look m e rs" by (rule look_skip [OF t(1,4) evs(1)]) (simp only: place None)
    with Cons show ?thesis by (metis insert_iff insert_subset list.set(2))
  next
    case (Some i)
    note i = find_index_SomeD [OF Some]
    have "look m e (r # rs) = Some (put_thread m r (t\<lparr>live_refs := 2\<rparr>), Some (r, of_nat i))"
      by (rule look_hit [OF t(1,4) evs(1)]) (simp_all only: place Some live_get [OF t(2-4)])
    with t(1) evs i show ?thesis
      by (intro disjI2 exI [of _ r] exI [of _ s] exI [of _ t] exI [of _ evs] exI [of _ i]) simp
  qed
qed

end

interpretation bp: event_lookup bp_events target_count rd_lookup_bp_site_rcu
  by unfold_locales (auto simp: thread_inv_def live_ok_def)

interpretation wp: event_lookup wp_events wp_capacity rd_lookup_wp_slot_rcu
  by unfold_locales (auto simp: thread_inv_def live_ok_def)

lemma put_get_thread:
  assumes "get_thread m r = Some (s, t)"
  shows "get_thread (put_thread m r t') r = Some (s\<lparr>threads := (threads s)[snd r := t']\<rparr>, t')"
    "put_thread (put_thread m r t') r t'' = put_thread m r t''"
    "rd_debug_tokens (put_thread m r t') = rd_debug_tokens m"
  using assms by (auto simp: get_thread_def put_thread_def split: option.splits if_splits)

text \<open>Putting back a thread with the identity it had keeps the module invariant.\<close>

lemma put_thread_inv:
  assumes "module_inv m" "get_thread m r = Some (s, t)" "thread_inv s 0 t'" "ident t' = ident t"
  shows "module_inv (put_thread m r t'\<lparr>rd_debug_tokens := tok\<rparr>)"
proof -
  obtain f i where r: "r = (f, i)" by fastforce
  have s: "files m f = Some s" "i < length (threads s)" "t = threads s ! i"
    using assms(2) by (auto simp: get_thread_def r split: option.splits if_splits)
  let ?s = "s\<lparr>threads := (threads s)[i := t']\<rparr>"
  have inv: "session_inv s" by (rule module_inv_session [OF assms(1) s(1)])
  have th: "thread_inv s 0 ((threads s)[i := t'] ! j) \<and> ident ((threads s)[i := t'] ! j) = ident (threads s ! j)"
    if "j < length (threads s)" for j
    using assms(3,4) s session_invD(1) [OF inv that] that by (simp add: nth_list_update)
  have "session_inv ?s" "activity ?s = activity s"
    using session_inv_ident [OF inv _ th] by simp_all
  with live_of_same_activity [of "files m", OF s(1) this(2)] assms(1) s(1) show ?thesis
    by (simp add: put_thread_def r module_inv_def)
qed

text \<open>A probe changes neither the sessions' settings nor the identity of their threads.\<close>

definition kept :: "rd_module \<Rightarrow> rd_module \<Rightarrow> bool" where
  "kept m m' \<longleftrightarrow> (\<forall>f. rel_option (\<lambda>s s'. s' = s\<lparr>threads := threads s'\<rparr> \<and>
     map ident (threads s') = map ident (threads s)) (files m f) (files m' f))"

lemma kept_refl [simp]: "kept m m"
  by (simp add: kept_def rel_option_iff split: option.split)

lemma put_thread_kept:
  assumes "get_thread m r = Some (s, t)" "ident t' = ident t"
  shows "kept m (put_thread m r t'\<lparr>rd_debug_tokens := tok\<rparr>)"
proof -
  have s: "files m (fst r) = Some s" "snd r < length (threads s)" "t = threads s ! snd r"
    using assms(1) by (auto simp: get_thread_def split: option.splits if_splits)
  have "map ident ((threads s)[snd r := t']) = map ident (threads s)"
    using s(2,3) assms(2) by (simp add: map_update list_update_same_conv)
  with s(1) show ?thesis by (simp add: kept_def put_thread_def rel_option_iff split: option.split)
qed

lemma pinned_thread:
  "thread_inv s p (t\<lparr>live_refs := n\<rparr>) = thread_inv s p t"
  "active (t\<lparr>live_refs := n\<rparr>) = active t" "tid (t\<lparr>live_refs := n\<rparr>) = tid t"
  by (simp_all add: thread_inv_defs)

lemma live_put_ident:
  assumes "refs_ok t" "active t" "ident t' = ident (t\<lparr>live_refs := 2\<rparr>)"
  shows "ident (rd_thread_live_put t') = ident t" "thread_inv s p (rd_thread_live_put t') = thread_inv s p t'"
  using assms by (simp_all add: ident_def refs_ok_def rd_thread_live_put_def thread_inv_defs)

text \<open>The common end of both probes: the handler's result goes back and the pin is dropped.\<close>

lemma finish_probe_inv:
  assumes "module_inv m" "get_thread m r = Some (s, t)" "refs_ok t" "active t"
    and "thread_inv s 0 t'" "ident t' = ident (t\<lparr>live_refs := 2\<rparr>)"
  obtains m' where "rd_put_live (put_thread (put_thread m r u) r t'\<lparr>rd_debug_tokens := tok\<rparr>) r = Some m'"
    "module_inv m'" "kept m m'"
proof -
  let ?m = "put_thread m r t'"
  note pg = put_get_thread [OF assms(2)]
  have get: "get_thread (?m\<lparr>rd_debug_tokens := tok\<rparr>) r = Some (s\<lparr>threads := (threads s)[snd r := t']\<rparr>, t')"
    using pg(1) [of t'] by (simp add: get_thread_def)
  have "put_thread (?m\<lparr>rd_debug_tokens := tok\<rparr>) r (rd_thread_live_put t') =
      put_thread m r (rd_thread_live_put t')\<lparr>rd_debug_tokens := tok\<rparr>"
    using assms(2) by (auto simp: put_thread_def get_thread_def split: option.splits if_splits)
  moreover have "module_inv (put_thread m r (rd_thread_live_put t')\<lparr>rd_debug_tokens := tok\<rparr>)"
    by (rule put_thread_inv [OF assms(1,2)]) (simp_all add: live_put_ident [OF assms(3,4,6)] assms(5))
  moreover have "kept m (put_thread m r (rd_thread_live_put t')\<lparr>rd_debug_tokens := tok\<rparr>)"
    by (rule put_thread_kept [OF assms(2)]) (simp add: live_put_ident [OF assms(3,4,6)])
  ultimately show thesis using get by (intro that) (simp_all add: rd_put_live_def pg(2))
qed

lemma get_thread_inv:
  assumes "module_inv m" "r \<in> set (rd_live_threads m)" "get_thread m r = Some (s, t)"
  shows "session_inv s" "session_ok s" "shifts_ok s" "thread_inv s 0 t" "refs_ok t" "active t"
proof -
  obtain f i where r: "r = (f, i)" by fastforce
  from assms(1,2) have "(f, i) \<in> live_of (files m)" by (simp add: module_inv_def r)
  from get_thread_live [OF assms(1) this] assms(3) have *: "session_inv s" "thread_inv s 0 t" "refs_ok t"
    "active t" "i < length (threads s)" unfolding r by (metis Pair_inject option.inject)+
  then show "session_inv s" "thread_inv s 0 t" "refs_ok t" "active t" by simp_all
  show "session_ok s" "shifts_ok s" using session_invD(3,4) [OF *(1,5)] .
qed

lemma session_ok_threads [simp]:
  "session_ok (s\<lparr>threads := ts\<rparr>) = session_ok s" "shifts_ok (s\<lparr>threads := ts\<rparr>) = shifts_ok s"
  by (simp_all add: session_ok_def shifts_ok_def)

lemma live_subset: "module_inv m \<Longrightarrow> set (rd_live_threads m) \<subseteq> live_of (files m)"
  by (simp add: module_inv_def)

lemma overflow_inv:
  assumes "module_inv m"
  obtains m' where "rd_perf_event_overflow_pre env m event regs = Some m'" "module_inv m'" "kept m m'"
proof (cases "rd_is_execute_bp_event event \<and> regs \<noteq> None")
  case False
  with assms that show thesis
    by (cases event; cases regs) (auto simp: rd_perf_event_overflow_pre_def rd_is_execute_bp_event_def)
next
  case True
  then obtain e u where eu: "event = Some e" "regs = Some u" "rd_is_execute_bp_event (Some e)"
    by (cases event) (auto simp: rd_is_execute_bp_event_def)
  note def = rd_perf_event_overflow_pre_def
  from bp.lookup_cases [OF assms live_subset [OF assms], of e]
  consider (none) "rd_lookup_bp_site_rcu m e (rd_live_threads m) = Some (m, None)"
    | (found) r s t i where "r \<in> set (rd_live_threads m)" "get_thread m r = Some (s, t)"
      "rd_lookup_bp_site_rcu m e (rd_live_threads m) = Some (put_thread m r (t\<lparr>live_refs := 2\<rparr>), Some (r, of_nat i))"
    by blast
  then show thesis
  proof cases
    case none
    with assms eu that show thesis by (simp add: def)
  next
    case found
    note inv = get_thread_inv [OF assms found(1,2)]
    let ?t = "t\<lparr>live_refs := 2\<rparr>" let ?m1 = "put_thread m r ?t"
    let ?s = "s\<lparr>threads := (threads s)[snd r := ?t]\<rparr>"
    note get = put_get_thread(1) [OF found(2), of ?t]
    have same: "put_thread ?m1 r ?t\<lparr>rd_debug_tokens := rd_debug_tokens m\<rparr> = ?m1"
      using put_get_thread(2,3) [OF found(2)] by simp
    show thesis
    proof (cases "of_nat i = RD_INVALID_INDEX \<or> current_pid env \<noteq> tid ?t")
      case True
      obtain m' where "rd_put_live (put_thread ?m1 r ?t\<lparr>rd_debug_tokens := rd_debug_tokens m\<rparr>) r = Some m'"
        "module_inv m'" "kept m m'"
        by (rule finish_probe_inv [OF assms found(2) inv(5,6), where t' = ?t and u = ?t and tok = "rd_debug_tokens m"])
           (simp_all add: pinned_thread inv)
      with that eu found(3) get True show thesis unfolding same by (simp add: def)
    next
      case False
      obtain t' tok' where h: "rd_handle_bp_hit env ?s ?t (of_nat i) regs (rd_debug_tokens ?m1) = Some (t', tok')"
        "thread_inv ?s 0 t'" "active t' = active ?t"
        by (rule bp_hit_inv [of ?s ?t env "of_nat i" regs "rd_debug_tokens ?m1"])
           (simp_all add: pinned_thread inv)
      have "ident t' = ident ?t" using postD [OF ident_view.bp_hit_view h(1)] by simp
      then obtain m' where "rd_put_live (put_thread ?m1 r t'\<lparr>rd_debug_tokens := tok'\<rparr>) r = Some m'" "module_inv m'" "kept m m'"
        using finish_probe_inv [OF assms found(2) inv(5,6), where t' = t' and u = ?t and tok = tok'] h(2) by auto
      with that eu found(3) get h(1) False show thesis by (simp add: def)
    qed
  qed
qed

lemma watchpoint_inv:
  assumes "module_inv m"
  obtains m' where "rd_watchpoint_report_pre env m event regs = Some m'" "module_inv m'" "kept m m'"
proof (cases "\<exists>e u. event = Some e \<and> regs = Some u \<and> user_mode env u")
  case False
  with assms that show thesis
    by (cases event; cases regs) (auto simp: rd_watchpoint_report_pre_def)
next
  case True
  then obtain e u where eu: "event = Some e" "regs = Some u" "user_mode env u" by blast
  note def = rd_watchpoint_report_pre_def
  from wp.lookup_cases [OF assms live_subset [OF assms], of e]
  consider (none) "rd_lookup_wp_slot_rcu m e (rd_live_threads m) = Some (m, None)"
    | (found) r s t i where "r \<in> set (rd_live_threads m)" "get_thread m r = Some (s, t)"
      "rd_lookup_wp_slot_rcu m e (rd_live_threads m) = Some (put_thread m r (t\<lparr>live_refs := 2\<rparr>), Some (r, of_nat i))"
    by blast
  then show thesis
  proof cases
    case none
    with assms eu that show thesis by (simp add: def)
  next
    case found
    note inv = get_thread_inv [OF assms found(1,2)]
    let ?t = "t\<lparr>live_refs := 2\<rparr>" let ?m1 = "put_thread m r ?t"
    let ?s = "s\<lparr>threads := (threads s)[snd r := ?t]\<rparr>"
    note get = put_get_thread(1) [OF found(2), of ?t]
    have same: "put_thread ?m1 r ?t\<lparr>rd_debug_tokens := rd_debug_tokens m\<rparr> = ?m1"
      using put_get_thread(2,3) [OF found(2)] by simp
    show thesis
    proof (cases "of_nat i = RD_INVALID_INDEX")
      case True
      obtain m' where "rd_put_live (put_thread ?m1 r ?t\<lparr>rd_debug_tokens := rd_debug_tokens m\<rparr>) r = Some m'"
        "module_inv m'" "kept m m'"
        by (rule finish_probe_inv [OF assms found(2) inv(5,6), where t' = ?t and u = ?t and tok = "rd_debug_tokens m"])
           (simp_all add: pinned_thread inv)
      with that eu found(3) get True show thesis unfolding same by (simp add: def)
    next
      case False
      obtain t' tok' where h: "rd_handle_wp_hit env ?s ?t (unat (of_nat i :: u32)) regs (rd_debug_tokens ?m1) =
          Some (t', tok')" "thread_inv ?s 0 t'" "active t' = active ?t"
        by (rule wp_hit_inv [of ?s ?t env "unat (of_nat i :: u32)" regs "rd_debug_tokens ?m1"])
           (simp_all add: pinned_thread inv)
      have "ident t' = ident ?t" using postD [OF ident_view.wp_hit_view h(1)] by simp
      then obtain m' where "rd_put_live (put_thread ?m1 r t'\<lparr>rd_debug_tokens := tok'\<rparr>) r = Some m'" "module_inv m'" "kept m m'"
        using finish_probe_inv [OF assms found(2) inv(5,6), where t' = t' and u = ?t and tok = tok'] h(2) by auto
      with that eu found(3) get h(1) False show thesis by (simp add: def)
    qed
  qed
qed

subsection \<open>Reachable states\<close>

text \<open>
  One step of the module: a file operation, an ioctl, or an event that reaches a probe.
  Each step runs in an environment of its own; user space is only assumed to deliver the
  number of targets it announces and shifts below 64.
\<close>

inductive rd_step :: "rd_module \<Rightarrow> rd_module \<Rightarrow> bool" where
  step_open: "files m f = None \<Longrightarrow> rd_step m (snd (rd_wpctl_open env m f))"
| step_ioctl: "user_targets_ok env \<Longrightarrow> rd_wpctl_ioctl env m f cmd = Some (ret, r, evs, m') \<Longrightarrow> rd_step m m'"
| step_release: "rd_wpctl_release env m f = Some (evs, m') \<Longrightarrow> rd_step m m'"
| step_overflow: "rd_perf_event_overflow_pre env m event regs = Some m' \<Longrightarrow> rd_step m m'"
| step_watchpoint: "rd_watchpoint_report_pre env m event regs = Some m' \<Longrightarrow> rd_step m m'"

definition rd_module_init :: "int \<Rightarrow> rd_module" where
  "rd_module_init budget = \<lparr>files = (\<lambda>_. None), rd_live_threads = [], rd_debug_tokens = budget\<rparr>"

inductive rd_reachable :: "rd_module \<Rightarrow> bool" where
  reach_init: "rd_reachable (rd_module_init budget)"
| reach_step: "rd_reachable m \<Longrightarrow> rd_step m m' \<Longrightarrow> rd_reachable m'"

inductive_cases rd_step_cases: "rd_step m m'"

lemma rd_step_inv: "rd_step m m' \<Longrightarrow> module_inv m \<Longrightarrow> module_inv m'"
proof (induction rule: rd_step.induct)
  case (step_open m f env)
  then show ?case by (intro open_inv)
next
  case (step_ioctl env m f cmd ret r evs m')
  then show ?case using ioctl_inv [of m env f cmd] by (metis Pair_inject option.inject)
next
  case (step_release env m f evs m')
  then show ?case using release_inv [of m env f] by (metis Pair_inject option.inject)
next
  case (step_overflow env m event regs m')
  then show ?case using overflow_inv [of m env event regs] by (metis option.inject)
next
  case (step_watchpoint env m event regs m')
  then show ?case using watchpoint_inv [of m env event regs] by (metis option.inject)
qed

lemma rd_reachable_inv: "rd_reachable m \<Longrightarrow> module_inv m"
proof (induction rule: rd_reachable.induct)
  case (reach_init budget)
  show ?case by (simp add: module_inv_def rd_module_init_def live_of_def)
next
  case (reach_step m m')
  show ?case by (rule rd_step_inv [OF reach_step.hyps(2) reach_step.IH])
qed

end
