(* ===== verification/Hit_Effects.thy ===== *)
theory Hit_Effects
  imports Views
begin

text \<open>
  What a watchpoint hit adds to the results of a thread.  The view \<open>tally\<close> holds the results;
  all stages of the handler but the bookkeeping leave it alone.
\<close>

definition tally :: "rd_thread_ctx \<Rightarrow> u64 list option \<times> u64 \<times> u64 \<times> perf_event option" where
  "tally t = (log2_hist t, hits t, dropped t, mem_event t)"

interpretation tally_view: thread_view tally
  by unfold_locales (simp_all add: tally_def)

lemma tally_simps:
  "tally t' = tally t \<Longrightarrow> log2_hist t' = log2_hist t \<and> hits t' = hits t \<and> dropped t' = dropped t \<and>
     mem_event t' = mem_event t"
  by (simp add: tally_def)

lemma tally_pair [simp]: "tally (rd_add_pair_hist_locked t sp sc rp rc b) = tally t"
  by (subst rd_add_pair_hist_frame) (simp add: tally_def)

text \<open>The histogram cell of a reuse: the seed's target and the bucket of the distance.\<close>

definition hist_cell :: "u32 \<Rightarrow> u64 \<Rightarrow> u64 \<Rightarrow> nat" where
  "hist_cell ti seed_access hit_access =
     unat ti * RD_WPCTL_LOG2_BUCKETS + unat (rd_log2_bucket (rd_delta seed_access hit_access))"

lemma account_books:
  fixes env :: kenv
  assumes "mem_event t = Some ev" "log2_hist t = Some h" "wp_target_index sl < target_count s"
    and "length h = unat (target_count s) * RD_WPCTL_LOG2_BUCKETS"
  defines "k \<equiv> hist_cell (wp_target_index sl) (wp_seed_access sl) (perf_event_read_value env ev)"
  shows "post (rd_wp_account env s t sl i key rp tok)
    (\<lambda>r. tally (fst r) = (Some (h[k := h ! k + 1]), hits t + 1, dropped t, mem_event t))"
proof -
  let ?ha = "perf_event_read_value env ev"
  define t1 c where "t1 = (if callchain_mode s = RD_CALLCHAIN_FP \<and> key_depth key \<noteq> 0
      then fst (rd_get_context_id_locked t key) else t)"
    and "c = (if callchain_mode s = RD_CALLCHAIN_FP \<and> key_depth key \<noteq> 0
      then snd (rd_get_context_id_locked t key) else 0)"
  have p1: "(if callchain_mode s = RD_CALLCHAIN_FP \<and> key_depth key \<noteq> 0
      then rd_get_context_id_locked t key else (t, 0)) = (t1, c)" by (simp add: t1_def c_def)
  have t1: "tally t1 = tally t" by (simp add: t1_def)
  have k: "k < length h" using hist_index_less [OF assms(3)] assms(4) by (simp add: k_def hist_cell_def)
  have bump: "rd_bump_hist s t1 (wp_target_index sl) k = Some (t1\<lparr>log2_hist := Some (h[k := h ! k + 1])\<rparr>)"
    using tally_simps [OF t1] assms(2-4) k by (simp add: rd_bump_hist_def)
  have tal: "tally (u\<lparr>hits := hits u + 1\<rparr>) = (Some (h[k := h ! k + 1]), hits t + 1, dropped t, mem_event t)"
    if "tally u = tally (t1\<lparr>log2_hist := Some (h[k := h ! k + 1])\<rparr>)" for u
    using that tally_simps [OF t1] by (simp add: tally_def)
  show ?thesis
    using bump assms(1) unfolding rd_wp_account_def k_def hist_cell_def
    by (auto simp: rd_read_mem_access_def Let_def p1 split_beta tal k_def hist_cell_def
        intro!: tally_view.v_store split: option.split)
qed

text \<open>A reuse moves exactly one count into the histogram and frees the slot.\<close>

lemma wp_hit_effect:
  fixes env :: kenv
  assumes "thread_inv s 0 t" "active t" "running s" "i < unat (wp_capacity s)"
    and "wp_slots t = Some slots" "wp_state (slots ! i) = RD_WP_ARMED" "wp_skip_first_hit (slots ! i) = 0"
    and "mem_event t = Some ev" "log2_hist t = Some h"
  defines "k \<equiv> hist_cell (wp_target_index (slots ! i)) (wp_seed_access (slots ! i)) (perf_event_read_value env ev)"
  obtains t' tok' where "rd_handle_wp_hit env s t i regs tok = Some (t', tok')" "k < length h"
    "log2_hist t' = Some (h[k := h ! k + 1])" "hits t' = hits t + 1" "dropped t' = dropped t"
    "wp_slots t' = Some (slots[i := cleared_slot (slots ! i)])"
proof -
  obtain t1 t2 t3 t4 key tok' where st:
    "t1 = (if callchain_mode s = RD_CALLCHAIN_FP then fst (rd_capture_callchain env t regs) else t)"
    "rd_wp_snapshot env s t1 regs i = Some t2"
    "rd_wp_account env s t2 (slots ! i) i key (case regs of None \<Rightarrow> 0 | Some r \<Rightarrow> regs_pc r) tok = Some (t3, tok')"
    "rd_wp_retire env s t3 i (wp_idle_addr (slots ! i)) = Some t4"
    "rd_handle_wp_hit env s t i regs tok = Some (t4, tok')" "thread_inv s 0 t4" "active t4"
    "wp_slots t4 = Some (slots[i := cleared_slot (slots ! i)])" "thread_inv s 0 t2"
    "wp_target_index (slots ! i) < target_count s" by (rule wp_hit_reuse [OF assms(1-7)])
  have "tally t2 = tally t1" using postD [OF tally_view.v_snapshot(2) [of t1 "\<lambda>t'. tally t' = tally t1"] st(2)] by simp
  then have t2: "tally t2 = tally t" by (simp add: st(1))
  note f2 = tally_simps [OF t2]
  have h: "length h = unat (target_count s) * RD_WPCTL_LOG2_BUCKETS"
    using assms(1,9) by (simp add: thread_inv_def results_ok_def)
  have "tally t3 = (Some (h[k := h ! k + 1]), hits t2 + 1, dropped t2, mem_event t2)"
    using postD [OF account_books [of t2 ev h "slots ! i" s] st(3)] f2 assms(8,9) st(10) h by (simp add: k_def)
  moreover have "tally t4 = tally t3"
    using postD [OF tally_view.v_retire [of t3 "\<lambda>t'. tally t' = tally t3"] st(4)] by simp
  ultimately have "log2_hist t4 = Some (h[k := h ! k + 1])" "hits t4 = hits t + 1" "dropped t4 = dropped t"
    using f2 by (simp_all add: tally_def)
  moreover have "k < length h" using hist_index_less [OF st(10)] h by (simp add: k_def hist_cell_def)
  ultimately show thesis using that st(5,8) by blast
qed

end
