(* ===== verification/Live_Refs.thy ===== *)
theory Live_Refs
  imports Prelude
begin

text \<open>
  The protocol by which handlers pin a thread's live resources while another context
  detaches them (\<^verbatim>\<open>rd_lookup_bp_site_rcu\<close>, \<^verbatim>\<open>rd_thread_live_get_rcu\<close>,
  \<^verbatim>\<open>rd_thread_live_put\<close>, \<^verbatim>\<open>rd_remove_live_thread\<close> and \<^verbatim>\<open>rd_thread_detach_live\<close> of
  \<^verbatim>\<open>kernel/rd_wpctl.c\<close>), at the granularity at which they interleave: any number of handlers,
  one detaching context, one atomic access per step.  What is assumed of RCU is its
  documented guarantee: \<^verbatim>\<open>synchronize_rcu\<close> returns only when every reader that was inside
  a read-side section at its call has left it.
\<close>

subsection \<open>States\<close>

text \<open>Where a handler is.  From \<open>Found\<close> to \<open>Pinned\<close> and in \<open>Leaving\<close> it is inside
  \<^verbatim>\<open>rcu_read_lock\<close>; it reads the event arrays in \<open>Found\<close>, and all live resources in \<open>Using\<close>.\<close>

datatype hpc = Outside | Found | Checked | Incremented | Pinned | Using | Leaving

text \<open>Where the detaching context is.\<close>

datatype dpc = Attached | Flagged | Unlinked | Synced | Put | Freed

record live_state =
  l_active :: bool
  l_detached :: bool
  l_linked :: bool
  l_refs :: nat
  l_completed :: nat
  l_freed :: bool
  l_grace :: "nat set"
  l_dpc :: dpc
  l_handlers :: "hpc list"

definition in_rcu :: "hpc \<Rightarrow> bool" where
  "in_rcu h \<longleftrightarrow> h \<in> {Found, Checked, Incremented, Pinned, Leaving}"

definition holds_ref :: "hpc \<Rightarrow> bool" where
  "holds_ref h \<longleftrightarrow> h \<in> {Incremented, Pinned, Using}"

text \<open>Whether the handler's next access reads a live resource.\<close>

definition reads_live :: "hpc \<Rightarrow> bool" where
  "reads_live h \<longleftrightarrow> h \<in> {Found, Using}"

definition set_h :: "live_state \<Rightarrow> nat \<Rightarrow> hpc \<Rightarrow> live_state" where
  "set_h s i h = s\<lparr>l_handlers := (l_handlers s)[i := h],
     l_grace := (if in_rcu h then l_grace s else l_grace s - {i})\<rparr>"

text \<open>\<^verbatim>\<open>refcount_dec_and_test\<close>, and \<^verbatim>\<open>complete\<close> when it reached 0.\<close>

definition drop_ref :: "live_state \<Rightarrow> live_state" where
  "drop_ref s = s\<lparr>l_refs := l_refs s - 1,
     l_completed := (if l_refs s = 1 then l_completed s + 1 else l_completed s)\<rparr>"

definition live_init :: "nat \<Rightarrow> live_state" where
  "live_init n = \<lparr>l_active = True, l_detached = False, l_linked = True, l_refs = 1, l_completed = 0,
     l_freed = False, l_grace = {}, l_dpc = Attached, l_handlers = replicate n Outside\<rparr>"

subsection \<open>Steps\<close>

inductive live_step :: "live_state \<Rightarrow> live_state \<Rightarrow> bool" where
  find: "\<lbrakk>i < length (l_handlers s); l_handlers s ! i = Outside; l_linked s\<rbrakk>
         \<Longrightarrow> live_step s (set_h s i Found)"
| check_ok: "\<lbrakk>i < length (l_handlers s); l_handlers s ! i = Found; l_active s; \<not> l_detached s\<rbrakk>
         \<Longrightarrow> live_step s (set_h s i Checked)"
| check_fail: "\<lbrakk>i < length (l_handlers s); l_handlers s ! i = Found; \<not> l_active s \<or> l_detached s\<rbrakk>
         \<Longrightarrow> live_step s (set_h s i Leaving)"
| not_found: "\<lbrakk>i < length (l_handlers s); l_handlers s ! i = Found\<rbrakk> \<Longrightarrow> live_step s (set_h s i Leaving)"
| inc_ok: "\<lbrakk>i < length (l_handlers s); l_handlers s ! i = Checked; l_refs s \<noteq> 0\<rbrakk>
         \<Longrightarrow> live_step s (set_h s i Incremented\<lparr>l_refs := l_refs s + 1\<rparr>)"
| inc_fail: "\<lbrakk>i < length (l_handlers s); l_handlers s ! i = Checked; l_refs s = 0\<rbrakk>
         \<Longrightarrow> live_step s (set_h s i Leaving)"
| recheck_ok: "\<lbrakk>i < length (l_handlers s); l_handlers s ! i = Incremented; l_active s; \<not> l_detached s\<rbrakk>
         \<Longrightarrow> live_step s (set_h s i Pinned)"
| recheck_fail: "\<lbrakk>i < length (l_handlers s); l_handlers s ! i = Incremented; \<not> l_active s \<or> l_detached s\<rbrakk>
         \<Longrightarrow> live_step s (drop_ref (set_h s i Leaving))"
| unlock: "\<lbrakk>i < length (l_handlers s); l_handlers s ! i = Leaving\<rbrakk> \<Longrightarrow> live_step s (set_h s i Outside)"
| unlock_pinned: "\<lbrakk>i < length (l_handlers s); l_handlers s ! i = Pinned\<rbrakk> \<Longrightarrow> live_step s (set_h s i Using)"
| unpin: "\<lbrakk>i < length (l_handlers s); l_handlers s ! i = Using\<rbrakk>
         \<Longrightarrow> live_step s (drop_ref (set_h s i Outside))"
| flag: "l_dpc s = Attached
         \<Longrightarrow> live_step s (s\<lparr>l_active := False, l_detached := True, l_dpc := Flagged\<rparr>)"
| unlink: "l_dpc s = Flagged
         \<Longrightarrow> live_step s (s\<lparr>l_linked := False, l_dpc := Unlinked,
               l_grace := {i. i < length (l_handlers s) \<and> in_rcu (l_handlers s ! i)}\<rparr>)"
| sync: "\<lbrakk>l_dpc s = Unlinked; l_grace s = {}\<rbrakk> \<Longrightarrow> live_step s (s\<lparr>l_dpc := Synced\<rparr>)"
| put_own: "l_dpc s = Synced \<Longrightarrow> live_step s (drop_ref (s\<lparr>l_dpc := Put\<rparr>))"
| free: "\<lbrakk>l_dpc s = Put; l_completed s \<noteq> 0\<rbrakk> \<Longrightarrow> live_step s (s\<lparr>l_freed := True, l_dpc := Freed\<rparr>)"

inductive live_reachable :: "nat \<Rightarrow> live_state \<Rightarrow> bool" for n where
  start: "live_reachable n (live_init n)"
| live: "live_reachable n s \<Longrightarrow> live_step s s' \<Longrightarrow> live_reachable n s'"

subsection \<open>The invariant\<close>

definition own_ref :: "live_state \<Rightarrow> nat" where
  "own_ref s = (if l_dpc s \<in> {Put, Freed} then 0 else 1)"

definition live_inv :: "live_state \<Rightarrow> bool" where
  "live_inv s \<longleftrightarrow>
     l_refs s = own_ref s + count_if holds_ref (l_handlers s) \<and>
     l_completed s = (if l_refs s = 0 then 1 else 0) \<and>
     (l_linked s \<longleftrightarrow> l_dpc s \<in> {Attached, Flagged}) \<and>
     (l_dpc s = Unlinked \<longrightarrow> l_grace s = {i. i < length (l_handlers s) \<and> in_rcu (l_handlers s ! i)}) \<and>
     (l_dpc s \<in> {Synced, Put, Freed} \<longrightarrow> (\<forall>h\<in>set (l_handlers s). \<not> in_rcu h)) \<and>
     (l_freed s \<longleftrightarrow> l_dpc s = Freed) \<and> (l_dpc s = Freed \<longrightarrow> l_refs s = 0)"

lemma live_inv_init: "live_inv (live_init n)"
  by (simp add: live_inv_def live_init_def own_ref_def count_if_replicate holds_ref_def)

lemma live_not_freed:
  assumes "live_inv s" "i < length (l_handlers s)" "l_handlers s ! i \<noteq> Outside"
  shows "l_dpc s \<noteq> Freed"
proof
  assume freed: "l_dpc s = Freed"
  with assms(1) have "count_if holds_ref (l_handlers s) = 0" by (simp add: live_inv_def)
  then have "\<forall>h\<in>set (l_handlers s). \<not> holds_ref h" by (simp add: count_if_def filter_empty_conv)
  moreover have "\<forall>h\<in>set (l_handlers s). \<not> in_rcu h" using assms(1) freed by (simp add: live_inv_def)
  ultimately have "\<not> holds_ref (l_handlers s ! i)" "\<not> in_rcu (l_handlers s ! i)" using assms(2) by simp_all
  then show False using assms(3) by (cases "l_handlers s ! i") (auto simp: holds_ref_def in_rcu_def)
qed

text \<open>A move of one handler, with the change of the reference count that goes with it.\<close>

lemma live_move:
  assumes "live_inv s" "i < length (l_handlers s)" "l_dpc s \<noteq> Freed"
    and rcu: "in_rcu h \<Longrightarrow> in_rcu (l_handlers s ! i) \<or> l_linked s"
    and refs: "r + (if holds_ref (l_handlers s ! i) then 1 else 0) = l_refs s + (if holds_ref h then 1 else 0)"
    and compl: "c = (if r = 0 then 1 else 0)"
  shows "live_inv (set_h s i h\<lparr>l_refs := r, l_completed := c\<rparr>)"
proof -
  let ?hs = "l_handlers s"
  have "count_if holds_ref (?hs[i := h]) + (if holds_ref (?hs ! i) then 1 else 0) =
      count_if holds_ref ?hs + (if holds_ref h then 1 else 0)"
    using count_if_update_gain [OF assms(2), of holds_ref h] count_if_update_lose [OF assms(2), of holds_ref h]
      count_if_update_same [OF assms(2), of holds_ref h]
    by (cases "holds_ref (?hs ! i)"; cases "holds_ref h") simp_all
  then have "r = own_ref s + count_if holds_ref (?hs[i := h])"
    using assms(1) refs by (simp add: live_inv_def split: if_splits)
  moreover have "(if in_rcu h then l_grace s else l_grace s - {i}) =
      {j. j < length ?hs \<and> in_rcu (?hs[i := h] ! j)}" if "l_dpc s = Unlinked"
    using assms(1,2) rcu that by (auto simp: live_inv_def nth_list_update split: if_splits)
  moreover have "l_dpc s \<in> {Synced, Put} \<Longrightarrow> \<forall>g\<in>set (?hs[i := h]). \<not> in_rcu g"
  proof -
    assume "l_dpc s \<in> {Synced, Put}"
    then have none: "\<forall>g\<in>set ?hs. \<not> in_rcu g" "\<not> l_linked s" using assms(1) by (auto simp: live_inv_def)
    then have "\<not> in_rcu h" using rcu assms(2) by auto
    with none(1) show ?thesis by (auto dest!: set_update_subset_insert [THEN subsetD])
  qed
  ultimately show ?thesis
    using assms(1,3) compl by (auto simp: live_inv_def set_h_def own_ref_def)
qed

lemma live_move_refs:
  assumes "live_inv s" "i < length (l_handlers s)" "l_handlers s ! i = g" "g \<noteq> Outside \<or> l_linked s"
    and "in_rcu h \<Longrightarrow> in_rcu g \<or> l_linked s" "holds_ref h = holds_ref g"
  shows "live_inv (set_h s i h)"
proof -
  have "l_dpc s \<noteq> Freed"
    using assms live_not_freed [OF assms(1,2)] by (auto simp: live_inv_def)
  then have "live_inv (set_h s i h\<lparr>l_refs := l_refs s, l_completed := l_completed s\<rparr>)"
    using assms by (intro live_move) (auto simp: live_inv_def)
  moreover have "set_h s i h\<lparr>l_refs := l_refs s, l_completed := l_completed s\<rparr> = set_h s i h"
    by (cases s) (simp add: set_h_def)
  ultimately show ?thesis by simp
qed

lemma live_drop:
  assumes "live_inv s" "i < length (l_handlers s)" "holds_ref (l_handlers s ! i)" "\<not> holds_ref h"
    and "in_rcu h \<Longrightarrow> in_rcu (l_handlers s ! i)"
  shows "live_inv (drop_ref (set_h s i h))"
proof -
  have nf: "l_dpc s \<noteq> Freed"
    using assms(3) by (intro live_not_freed [OF assms(1,2)]) (auto simp: holds_ref_def)
  have "0 < count_if holds_ref (l_handlers s)"
    using assms(2,3) by (auto simp: count_if_def filter_empty_conv)
  then have refs: "0 < l_refs s" "l_completed s = 0" using assms(1) by (simp_all add: live_inv_def)
  have "drop_ref (set_h s i h) = set_h s i h\<lparr>l_refs := l_refs s - 1,
      l_completed := (if l_refs s - 1 = 0 then 1 else 0)\<rparr>"
    using refs by (auto simp: drop_ref_def set_h_def)
  with assms refs(1) nf show ?thesis by (simp only:) (intro live_move, auto)
qed

lemma live_step_inv: "live_step s s' \<Longrightarrow> live_inv s \<Longrightarrow> live_inv s'"
proof (induction rule: live_step.induct)
  case (inc_ok i s)
  have "l_dpc s \<noteq> Freed" using live_not_freed [OF inc_ok(4,1)] inc_ok(2) by simp
  then have "live_inv (set_h s i Incremented\<lparr>l_refs := l_refs s + 1, l_completed := 0\<rparr>)"
    using inc_ok by (intro live_move) (auto simp: holds_ref_def in_rcu_def)
  moreover have "set_h s i Incremented\<lparr>l_refs := l_refs s + 1, l_completed := 0\<rparr> =
      set_h s i Incremented\<lparr>l_refs := l_refs s + 1\<rparr>"
    using inc_ok(3,4) by (cases s) (simp add: set_h_def live_inv_def)
  ultimately show ?case by simp
next
  case (recheck_fail i s)
  then show ?case by (intro live_drop) (auto simp: holds_ref_def in_rcu_def)
next
  case (unpin i s)
  then show ?case by (intro live_drop) (auto simp: holds_ref_def in_rcu_def)
next
  case (sync s)
  then show ?case by (auto simp: live_inv_def own_ref_def in_set_conv_nth)
next
  case (put_own s)
  then show ?case by (auto simp: live_inv_def own_ref_def drop_ref_def)
next
  case (free s)
  then show ?case by (auto simp: live_inv_def own_ref_def split: if_splits)
qed (auto intro!: live_move_refs simp: in_rcu_def holds_ref_def, auto simp: live_inv_def own_ref_def in_rcu_def)

lemma live_reachable_inv: "live_reachable n s \<Longrightarrow> live_inv s"
  by (induction rule: live_reachable.induct) (auto intro: live_inv_init live_step_inv)

subsection \<open>Progress\<close>

text \<open>A bound on the steps that remain once the thread is unlinked.\<close>

fun hpc_rank :: "hpc \<Rightarrow> nat" where
  "hpc_rank Outside = 0" | "hpc_rank Leaving = 1" | "hpc_rank Using = 2" | "hpc_rank Pinned = 3"
| "hpc_rank Incremented = 4" | "hpc_rank Checked = 5" | "hpc_rank Found = 6"

fun dpc_rank :: "dpc \<Rightarrow> nat" where
  "dpc_rank Freed = 0" | "dpc_rank Put = 1" | "dpc_rank Synced = 2" | "dpc_rank Unlinked = 3"
| "dpc_rank Flagged = 4" | "dpc_rank Attached = 5"

definition live_measure :: "live_state \<Rightarrow> nat" where
  "live_measure s = sum_list (map hpc_rank (l_handlers s)) + dpc_rank (l_dpc s)"

lemma sum_rank_update:
  "i < length hs \<Longrightarrow> hpc_rank h < hpc_rank (hs ! i) \<Longrightarrow>
   sum_list (map hpc_rank (hs[i := h])) < sum_list (map hpc_rank hs)"
proof (induction hs arbitrary: i)
  case (Cons g hs)
  then show ?case by (cases i) auto
qed simp

lemma measure_set_h:
  "i < length (l_handlers s) \<Longrightarrow> hpc_rank h < hpc_rank (l_handlers s ! i) \<Longrightarrow> live_measure (set_h s i h) < live_measure s"
  by (simp add: live_measure_def set_h_def sum_rank_update)

lemma measure_frame [simp]:
  "live_measure (drop_ref s) = live_measure s" "live_measure (s\<lparr>l_refs := r\<rparr>) = live_measure s"
  by (simp_all add: live_measure_def drop_ref_def)

lemma live_step_decreases:
  assumes "live_step s s'" "live_inv s" "l_dpc s \<notin> {Attached, Flagged}"
  shows "live_measure s' < live_measure s"
  using assms
proof (induction rule: live_step.induct)
  case (find i s)
  then show ?case by (auto simp: live_inv_def)
next
  case (sync s)
  then show ?case by (simp add: live_measure_def)
next
  case (put_own s)
  then show ?case by (simp add: live_measure_def drop_ref_def)
next
  case (free s)
  then show ?case by (simp add: live_measure_def)
qed (auto intro!: measure_set_h)

lemma live_step_exists:
  assumes "live_inv s" "l_dpc s \<noteq> Freed"
  shows "\<exists>s'. live_step s s'"
proof (cases "l_dpc s")
  case Unlinked
  show ?thesis
  proof (cases "l_grace s = {}")
    case True
    then show ?thesis using Unlinked live_step.sync by blast
  next
    case False
    then obtain i where i: "i < length (l_handlers s)" "in_rcu (l_handlers s ! i)"
      using Unlinked assms(1) by (auto simp: live_inv_def)
    then show ?thesis
      by (cases "l_handlers s ! i"; cases "l_refs s = 0"; cases "l_active s \<and> \<not> l_detached s")
         (auto simp: in_rcu_def intro: live_step.intros)
  qed
next
  case Put
  show ?thesis
  proof (cases "l_completed s = 0")
    case False
    then show ?thesis using Put live_step.free by blast
  next
    case True
    then have "count_if holds_ref (l_handlers s) \<noteq> 0"
      using Put assms(1) by (auto simp: live_inv_def own_ref_def split: if_splits)
    then obtain h where "h \<in> set (l_handlers s)" "holds_ref h" by (auto simp: count_if_def filter_empty_conv)
    moreover have "\<not> in_rcu h" using calculation(1) Put assms(1) by (auto simp: live_inv_def)
    ultimately obtain i where "i < length (l_handlers s)" "l_handlers s ! i = Using"
      by (auto simp: in_set_conv_nth holds_ref_def in_rcu_def)
    then show ?thesis using live_step.unpin by blast
  qed
next
  case Attached
  then show ?thesis using live_step.flag by blast
next
  case Flagged
  then show ?thesis using live_step.unlink by blast
next
  case Synced
  then show ?thesis using live_step.put_own by blast
qed (use assms(2) in simp)

end
