(* ===== verification/Kernel_Demo.thy ===== *)
theory Kernel_Demo
  imports Module_Safety Hit_Effects Live_Refs
begin

text \<open>
  One concrete environment and a run of the device up to a registered thread in an open
  window: the states on which the properties of the kernel module are exercised.
\<close>

definition demo_attr :: perf_event_attr where
  "demo_attr = \<lparr>attr_type = PERF_TYPE_BREAKPOINT, attr_config = 0, attr_bp_type = HW_BREAKPOINT_EMPTY,
     attr_bp_addr = 0, attr_bp_len = 0, attr_sample_period = 0, attr_pinned = False,
     attr_disabled = False, attr_exclude_kernel = False, attr_exclude_hv = False\<rparr>"

definition demo_event :: "nat \<Rightarrow> perf_event_attr \<Rightarrow> perf_event" where
  "demo_event i a = \<lparr>pe_id = i, pe_attr = a, pe_enabled = \<not> attr_disabled a\<rparr>"

text \<open>A load with a 64-bit base and an index register shifted by 3.\<close>

definition demo_decode :: rd_wpctl_decode where
  "demo_decode = \<lparr>access_size = 8, base_reg = 1, base_is_sp = 0, has_imm = 0, has_index = 1,
     index_is_32 = 0, index_is_zero = 0, dec_extend = RD_EXT_LSL, shift = 3, index_reg = 2, imm = 0\<rparr>"

definition demo_target :: rd_wpctl_target where
  "demo_target = \<lparr>ut_pc_offset = 0x40, ut_abs_pc = 0x1040, ut_aggregated_samples = 5, ut_decode = demo_decode\<rparr>"

definition demo_regs :: pt_regs where
  "demo_regs = \<lparr>gregs = (\<lambda>n. if n = 1 then 0x1000 else if n = 2 then 2 else 0), regs_sp = 0x8000,
     regs_pc = 0x1040, regs_pstate = 0\<rparr>"

definition demo_env :: kenv where
  "demo_env = \<lparr>hw_breakpoint_init = demo_attr, zero_attr = demo_attr\<lparr>attr_type := PERF_TYPE_OTHER\<rparr>,
     perf_event_create_kernel_counter = (\<lambda>a c. Inr (demo_event 0 a)),
     register_bp = (\<lambda>i a. Inr (demo_event (100 + i) a)), register_wp = (\<lambda>i a. Inr (demo_event (200 + i) a)),
     modify_user_hw_breakpoint = (\<lambda>e a. (RetOk, e\<lparr>pe_attr := a, pe_enabled := \<not> attr_disabled a\<rparr>)),
     perf_event_enable = (\<lambda>e. e\<lparr>pe_enabled := True\<rparr>), perf_event_disable = (\<lambda>e. e\<lparr>pe_enabled := False\<rparr>),
     perf_event_read_value = (\<lambda>e. 100), user_mode = (\<lambda>r. True), access_ok = (\<lambda>a n. True),
     read_frame_nofault = (\<lambda>fp. None), copy_from_user_nofault = (\<lambda>a n. (replicate n 0, True)),
     alloc_ok = (\<lambda>k. True), find_task = (\<lambda>t. Some \<lparr>task_tgid = 7, task_cpus = [2]\<rparr>), nr_cpu_ids = 4,
     memdup_user = (\<lambda>p n. Inr (replicate (unat n) demo_target)), copy_to_user_ok = True,
     current_pid = 8, current_tgid = 7\<rparr>"

lemma demo_env_targets: "user_targets_ok demo_env"
  by (simp add: user_targets_ok_def demo_env_def demo_target_def demo_decode_def)

text \<open>A sequence of commands through one file.\<close>

fun run_cmds :: "kenv \<Rightarrow> nat \<Rightarrow> rd_cmd list \<Rightarrow> rd_module \<Rightarrow> rd_module option" where
  "run_cmds env f [] m = Some m"
| "run_cmds env f (c # cs) m = do { (ret, r, evs, m') \<leftarrow> rd_wpctl_ioctl env m f c; run_cmds env f cs m' }"

lemma run_cmds_reachable:
  "rd_reachable m \<Longrightarrow> user_targets_ok env \<Longrightarrow> run_cmds env f cs m = Some m' \<Longrightarrow> rd_reachable m'"
proof (induction cs arbitrary: m)
  case (Cons c cs)
  from Cons.prems(3) obtain ret r evs m1 where "rd_wpctl_ioctl env m f c = Some (ret, r, evs, m1)"
    "run_cmds env f cs m1 = Some m'" by (auto simp: bind_eq_Some_conv)
  with Cons.IH Cons.prems(1,2) show ?case by (blast intro: rd_reachable.intros rd_step.step_ioctl)
qed simp

definition demo_cfg :: rd_wpctl_session_cfg where
  "demo_cfg = \<lparr>cfg_wp_capacity = 1, cfg_callchain_mode = RD_CALLCHAIN_OFF, cfg_bp_sample_period = 1000,
     cfg_dwarf_stack_bytes = 0, cfg_dwarf_event_capacity = 0\<rparr>"

definition demo_register :: rd_wpctl_thread_register where
  "demo_register = \<lparr>reg_tid = 8, reg_cpu = 2, reg_scratch_base = 0x10000, reg_scratch_stride = 64\<rparr>"

definition demo_cmds :: "rd_cmd list" where
  "demo_cmds = [RDKIOC_CONFIG_SESSION (Some demo_cfg),
     RDKIOC_LOAD_TARGETS (Some \<lparr>targets_ptr = 1, batch_count = 1\<rparr>),
     RDKIOC_START_WINDOW, RDKIOC_REGISTER_THREAD (Some demo_register)]"

definition demo_session0 :: rd_session where
  "demo_session0 = \<lparr>threads = [], owner_tgid = 7, running = True, configured = True, targets_loaded = True,
     wp_capacity = 1, callchain_mode = RD_CALLCHAIN_OFF, dwarf_stack_bytes = 0, dwarf_event_capacity = 0,
     bp_sample_period = 1000, target_count = 1, targets = Some [rd_copy_target demo_target]\<rparr>"

definition demo_thread :: rd_thread_ctx where
  "demo_thread = (rd_new_thread \<lparr>task_tgid = 7, task_cpus = [2]\<rparr> demo_register)
     \<lparr>mem_event := Some ((demo_event 0 (rd_init_mem_attr demo_env))\<lparr>pe_enabled := True\<rparr>),
      bp_events := Some [Some ((demo_event 100 (rd_init_bp_attr demo_env 0x1040 1000))\<lparr>pe_enabled := True\<rparr>)],
      wp_events := Some [Some ((demo_event 200 (rd_init_wp_attr demo_env 0x10000 8))\<lparr>pe_enabled := True\<rparr>)],
      log2_hist := Some (replicate RD_WPCTL_LOG2_BUCKETS 0),
      pair_hist := Some (replicate RD_WPCTL_MAX_PAIR_HISTS zero_pair_entry),
      contexts := Some (replicate RD_WPCTL_MAX_CONTEXTS zero_context_entry),
      wp_slots := Some [zero_slot\<lparr>wp_idle_addr := 0x10000, wp_samples := 1\<rparr>]\<rparr>"

definition demo_session :: rd_session where
  "demo_session = demo_session0\<lparr>threads := [demo_thread]\<rparr>"

definition demo_module :: rd_module where
  "demo_module = \<lparr>files = [0 \<mapsto> demo_session], rd_live_threads = [(0, 0)], rd_debug_tokens = 0\<rparr>"

lemma demo_setup:
  "rd_register_thread_locked demo_env demo_session0 demo_register = Some (RetOk, [], demo_session)"
  by (simp add: rd_register_thread_locked_def demo_session0_def demo_session_def demo_register_def
      demo_env_def rd_find_active_thread_by_tid_def rd_check_thread_affinity_def
      rd_thread_setup_events_def rd_new_thread_def rd_alloc_arrays_def kcalloc_def rd_alloc_failed_def
      callchain_modes rd_enable_thread_events_def events_apply_def demo_thread_def Let_def
      RD_IDLE_WP_LEN_def HW_BREAKPOINT_LEN_8_def rd_copy_target_def demo_target_def)

lemma demo_config:
  "rd_session_config_locked (zero_session\<lparr>owner_tgid := 7\<rparr>) demo_cfg =
     (RetOk, demo_session0\<lparr>running := False, targets_loaded := False, target_count := 0, targets := None\<rparr>)"
  by (simp add: rd_session_config_locked_def zero_session_def demo_cfg_def demo_session0_def callchain_modes uapi_consts)

lemma demo_load:
  "rd_load_targets_locked demo_env (demo_session0\<lparr>running := False, targets_loaded := False, target_count := 0,
       targets := None\<rparr>) \<lparr>targets_ptr = 1, batch_count = 1\<rparr> = (RetOk, demo_session0\<lparr>running := False\<rparr>)"
  by (simp add: rd_load_targets_locked_def demo_session0_def demo_env_def rd_validate_target_def demo_target_def
      demo_decode_def extend_kinds Let_def)

lemma demo_start: "rd_start_window demo_env (demo_session0\<lparr>running := False\<rparr>) = Some demo_session0"
  by (simp add: rd_start_window_def demo_session0_def)

text \<open>The demonstration state is reachable.\<close>

lemma demo_reachable: "rd_reachable demo_module"
proof -
  let ?m = "\<lambda>s l. \<lparr>files = [0 \<mapsto> s], rd_live_threads = l, rd_debug_tokens = 0\<rparr>"
  have "rd_reachable (snd (rd_wpctl_open demo_env (rd_module_init 0) 0))"
    by (rule rd_reachable.reach_step [OF rd_reachable.reach_init rd_step.step_open]) (simp add: rd_module_init_def)
  moreover have "snd (rd_wpctl_open demo_env (rd_module_init 0) 0) = ?m (zero_session\<lparr>owner_tgid := 7\<rparr>) []"
    by (simp add: rd_wpctl_open_def rd_module_init_def demo_env_def)
  moreover have "run_cmds demo_env 0 demo_cmds (?m (zero_session\<lparr>owner_tgid := 7\<rparr>) []) = Some demo_module"
    by (simp add: demo_cmds_def rd_wpctl_ioctl_def rd_ioctl_session_def demo_config demo_load demo_start
        demo_setup rd_update_live_def demo_module_def)
       (simp add: demo_session0_def)
  ultimately show ?thesis using run_cmds_reachable [OF _ demo_env_targets] by metis
qed

lemma demo_session_inv: "session_inv demo_session"
  using rd_reachable_inv [OF demo_reachable] by (simp add: module_inv_def demo_module_def)

lemma demo_thread_inv: "thread_inv demo_session 0 demo_thread" "session_ok demo_session" "shifts_ok demo_session"
  using session_invD [OF demo_session_inv, of 0] by (simp_all add: demo_session_def)

lemma demo_thread_fields:
  "active demo_thread" "running demo_session" "wp_capacity demo_session = 1" "target_count demo_session = 1"
  "wp_slots demo_thread = Some [zero_slot\<lparr>wp_idle_addr := 0x10000, wp_samples := 1\<rparr>]"
  "mem_event demo_thread = Some ((demo_event 0 (rd_init_mem_attr demo_env))\<lparr>pe_enabled := True\<rparr>)"
  "log2_hist demo_thread = Some (replicate RD_WPCTL_LOG2_BUCKETS 0)"
  by (simp_all add: demo_thread_def demo_session_def demo_session0_def rd_new_thread_def)

end
