(* ===== verification/Kernel_Properties.thy ===== *)
theory Kernel_Properties
  imports Kernel_Demo
begin

text \<open>
  The properties of the kernel module, stated over its definitions, each with a run on the
  demonstration state where it has hypotheses.
\<close>

subsection \<open>The module as a whole\<close>

text \<open>C1: in every state the module can reach, by any interleaving of file operations, ioctls and
  breakpoint and watchpoint events, every operation returns: no invalid memory access, no
  undefined shift, no wait that never ends.
  The one condition is on what user space loads: index shifts below 64, which the module does not
  check itself.\<close>

theorem kernel_never_faults:
  assumes "rd_reachable m" "user_targets_ok env"
  shows "rd_wpctl_ioctl env m f cmd \<noteq> None \<and> rd_wpctl_release env m f \<noteq> None \<and>
    rd_perf_event_overflow_pre env m event regs \<noteq> None \<and> rd_watchpoint_report_pre env m event regs \<noteq> None"
proof -
  have inv: "module_inv m" by (rule rd_reachable_inv [OF assms(1)])
  have "rd_wpctl_ioctl env m f cmd \<noteq> None" by (rule ioctl_inv [OF inv assms(2), of f cmd]) simp
  moreover have "rd_wpctl_release env m f \<noteq> None" by (rule release_inv [OF inv, of env f]) simp
  moreover have "rd_perf_event_overflow_pre env m event regs \<noteq> None"
    by (rule overflow_inv [OF inv, of env event regs]) simp
  moreover have "rd_watchpoint_report_pre env m event regs \<noteq> None"
    by (rule watchpoint_inv [OF inv, of env event regs]) simp
  ultimately show ?thesis by blast
qed

theorem kernel_never_faults_witness:
  "rd_perf_event_overflow_pre demo_env demo_module
     (Some (demo_event 100 (rd_init_bp_attr demo_env 0x1040 1000))) (Some demo_regs) \<noteq> None"
  using kernel_never_faults [OF demo_reachable demo_env_targets] by blast

text \<open>C6: the accounts of every thread balance in every reachable state (modulo 2^64, like the
  counters themselves): every candidate was seen and accepted; every accepted seed is still
  armed or ended as a hit, an eviction or a drop; the histogram holds exactly the hits, and
  so do the pair table and the count of dropped pairs together.\<close>

theorem kernel_accounts_balance:
  assumes "rd_reachable m" "files m f = Some s" "t \<in> set (threads s)"
  shows "candidate_samples t = reservoir_seen t \<and> reservoir_seen t = reservoir_accepted t \<and>
    reservoir_accepted t = hits t + evictions t + dropped t + of_nat (armed_count t) \<and>
    sum_list (the (log2_hist t)) = hits t \<and>
    pair_total (the (pair_hist t)) + pair_hist_dropped t = hits t"
proof -
  have "thread_inv s 0 t"
    using module_inv_session [OF rd_reachable_inv [OF assms(1)] assms(2)] assms(3) by (simp add: session_inv_def)
  then show ?thesis by (simp add: thread_inv_def accounts_ok_def)
qed

theorem kernel_accounts_balance_witness:
  "files demo_module 0 = Some demo_session \<and> demo_thread \<in> set (threads demo_session) \<and>
   sum_list (the (log2_hist demo_thread)) = hits demo_thread"
proof -
  have "files demo_module 0 = Some demo_session" "demo_thread \<in> set (threads demo_session)"
    by (simp_all add: demo_module_def demo_session_def)
  with kernel_accounts_balance [OF demo_reachable this] show ?thesis by blast
qed

text \<open>C10: in every reachable state the global list that the probes search holds exactly the live
  threads of the open sessions, each once, and a session has at most one live thread per
  thread id.\<close>

theorem kernel_live_list_exact:
  assumes "rd_reachable m"
  shows "distinct (rd_live_threads m) \<and>
    (\<forall>f i. (f, i) \<in> set (rd_live_threads m) \<longleftrightarrow>
       (\<exists>s. files m f = Some s \<and> i < length (threads s) \<and> active (threads s ! i))) \<and>
    (\<forall>f s. files m f = Some s \<longrightarrow> tids_ok (threads s))"
proof -
  have "module_inv m" by (rule rd_reachable_inv [OF assms])
  moreover have "(f, i) \<in> live_of (files m) \<longleftrightarrow>
      (\<exists>s. files m f = Some s \<and> i < length (threads s) \<and> active (threads s ! i))" for f i
    by (auto simp: live_of_def)
  ultimately show ?thesis by (auto simp: module_inv_def session_inv_def)
qed

theorem kernel_live_list_exact_witness: "(0, 0) \<in> set (rd_live_threads demo_module)"
proof -
  have "\<exists>s. files demo_module 0 = Some s \<and> 0 < length (threads s) \<and> active (threads s ! 0)"
    by (simp add: demo_module_def demo_session_def demo_thread_fields)
  with kernel_live_list_exact [OF demo_reachable] show ?thesis by blast
qed

subsection \<open>Hits\<close>

text \<open>C15: a watchpoint hit on an armed slot whose first hit has passed adds exactly one count, in the
  histogram of the seed's target and in the bucket of the distance between the two counter
  values, adds one to the hits, drops nothing, and leaves the slot cleared; the other slots
  keep their seeds.\<close>

theorem wp_hit_records_reuse:
  assumes "thread_inv s 0 t" "active t" "running s" "i < unat (wp_capacity s)"
    and "wp_slots t = Some slots" "wp_state (slots ! i) = RD_WP_ARMED" "wp_skip_first_hit (slots ! i) = 0"
    and "mem_event t = Some ev" "log2_hist t = Some h"
  shows "\<exists>t' tok' k. rd_handle_wp_hit env s t i regs tok = Some (t', tok') \<and>
    k = unat (wp_target_index (slots ! i)) * RD_WPCTL_LOG2_BUCKETS +
        unat (rd_log2_bucket (rd_delta (wp_seed_access (slots ! i)) (perf_event_read_value env ev))) \<and>
    k < length h \<and> log2_hist t' = Some (h[k := h ! k + 1]) \<and> hits t' = hits t + 1 \<and>
    dropped t' = dropped t \<and> wp_slots t' = Some (slots[i := cleared_slot (slots ! i)])"
  by (rule wp_hit_effect [OF assms, of env regs tok]) (auto simp: hist_cell_def)

definition demo_armed :: rd_thread_ctx where
  "demo_armed = demo_thread\<lparr>wp_slots := Some [zero_slot\<lparr>wp_idle_addr := 0x10000, wp_samples := 1,
     wp_state := RD_WP_ARMED, wp_seed_access := 90\<rparr>], candidate_samples := 1, reservoir_seen := 1,
     reservoir_accepted := 1\<rparr>"

lemma demo_armed_inv: "thread_inv demo_session 0 demo_armed"
proof -
  have "evictions demo_thread = 0" "hits demo_thread = 0" "dropped demo_thread = 0" "reservoir_rejected demo_thread = 0"
    by (simp_all add: demo_thread_def rd_new_thread_def)
  with demo_thread_inv(1) demo_thread_fields show ?thesis
    unfolding demo_armed_def by (simp add: thread_inv_defs zero_slot_def)
qed

theorem wp_hit_records_reuse_witness:
  "\<exists>t' tok'. rd_handle_wp_hit demo_env demo_session demo_armed 0 (Some demo_regs) 0 = Some (t', tok') \<and>
     hits t' = hits demo_armed + 1"
proof -
  let ?sl = "zero_slot\<lparr>wp_idle_addr := 0x10000, wp_samples := 1, wp_state := RD_WP_ARMED, wp_seed_access := 90\<rparr>"
  have f: "active demo_armed" "running demo_session" "0 < unat (wp_capacity demo_session)"
    "wp_slots demo_armed = Some [?sl]" "wp_state ([?sl] ! 0) = RD_WP_ARMED" "wp_skip_first_hit ([?sl] ! 0) = 0"
    using demo_thread_fields by (simp_all add: demo_armed_def zero_slot_def)
  obtain ev h where "mem_event demo_armed = Some ev" "log2_hist demo_armed = Some h"
    using demo_thread_fields by (simp add: demo_armed_def)
  from wp_hit_records_reuse [OF demo_armed_inv f this, of demo_env "Some demo_regs" 0] show ?thesis by blast
qed

text \<open>The first hit after a slot was armed is not a reuse: it only clears the mark, and no result
  of the thread changes.\<close>

theorem wp_first_hit_skipped:
  assumes "active t" "running s" "i < unat (wp_capacity s)" "wp_slots t = Some slots" "i < length slots"
    and "wp_state (slots ! i) = RD_WP_ARMED" "wp_skip_first_hit (slots ! i) \<noteq> 0"
  shows "rd_handle_wp_hit env s t i regs tok =
    Some (t\<lparr>wp_slots := Some (slots[i := (slots ! i)\<lparr>wp_skip_first_hit := 0\<rparr>])\<rparr>, snd (rd_debug_take_token tok))"
  using assms by (simp add: rd_handle_wp_hit_def)

theorem wp_first_hit_skipped_witness:
  "rd_handle_wp_hit demo_env demo_session
     (demo_thread\<lparr>wp_slots := Some [zero_slot\<lparr>wp_state := RD_WP_ARMED, wp_skip_first_hit := 1\<rparr>]\<rparr>) 0 None 0 =
   Some (demo_thread\<lparr>wp_slots := Some [zero_slot\<lparr>wp_state := RD_WP_ARMED\<rparr>]\<rparr>, 0)"
  using wp_first_hit_skipped [of "demo_thread\<lparr>wp_slots := Some [zero_slot\<lparr>wp_state := RD_WP_ARMED, wp_skip_first_hit := 1\<rparr>]\<rparr>"
      demo_session 0 "[zero_slot\<lparr>wp_state := RD_WP_ARMED, wp_skip_first_hit := 1\<rparr>]" demo_env None 0] demo_thread_fields
  by (simp add: zero_slot_def rd_debug_take_token_def)

text \<open>C16: a breakpoint hit puts its candidate into the first idle slot, or into slot 0 when none is
  idle: the slot then holds the effective address computed from the registers, the counter
  value and the target, unless the hardware refuses the watchpoint, in which case the slot
  is cleared again.  No other slot changes, and a slot that was armed counts as evicted.\<close>

theorem bp_hit_arms_slot:
  assumes "thread_inv s 0 t" "session_ok s" "shifts_ok s" "active t" "running s" "ti < target_count s"
    and "wp_slots t = Some slots" "mem_event t = Some ev"
  shows "\<exists>tg va c i t' tok'.
    arr_get (targets s) (unat ti) = Some tg \<and> rd_compute_effective_address (tg_decode tg) r = Some va \<and>
    chosen_slot slots i \<and> rd_handle_bp_hit env s t ti (Some r) tok = Some (t', tok') \<and>
    wp_slots t' = Some (slots[i :=
      (if wp_installs env t i va (access_size (tg_decode tg))
       then armed_slot tg ti va (perf_event_read_value env ev) c (slots ! i)
       else cleared_slot (armed_slot tg ti va (perf_event_read_value env ev) c (slots ! i)))]) \<and>
    evictions t' = evictions t + (if wp_state (slots ! i) = RD_WP_ARMED then 1 else 0)"
  by (rule bp_hit_spec [OF assms, of r env tok]) blast

theorem bp_hit_arms_slot_witness:
  "\<exists>t' tok'. rd_handle_bp_hit demo_env demo_session demo_thread 0 (Some demo_regs) 0 = Some (t', tok')"
proof -
  have "(0 :: u32) < target_count demo_session" using demo_thread_fields by simp
  from bp_hit_arms_slot [OF demo_thread_inv demo_thread_fields(1,2) this demo_thread_fields(5,6), of demo_regs demo_env 0]
  show ?thesis by blast
qed



subsection \<open>Addresses and distances\<close>

text \<open>C30: the address the module watches is the one the architecture defines for the sampled access:
  base plus sign-extended immediate plus extended, scaled index, over the integers and then
  reduced to 64 bits.\<close>

theorem effective_address_correct:
  assumes "dec_extend dec \<le> RD_EXT_SXTX" "unat (shift dec) < 64"
  shows "rd_compute_effective_address dec regs = Some (word_of_int (arch_address dec regs))"
  by (rule rd_effective_address_arch [OF assms])

theorem effective_address_correct_witness:
  "rd_compute_effective_address demo_decode demo_regs = Some 0x1010"
proof -
  have "arch_address demo_decode demo_regs = 0x1010"
    by (simp add: arch_address_def arch_index_def demo_decode_def demo_regs_def rd_read_perf_reg_def extend_kinds)
  with effective_address_correct [of demo_decode demo_regs] show ?thesis
    by (simp add: demo_decode_def extend_kinds)
qed

text \<open>The check of a target does not bound the shift of its index: there is a target that
  passes it and whose address computation shifts a 64-bit value by 64 or more, which C
  leaves undefined.\<close>

theorem validated_target_may_shift_out:
  "\<exists>u. rd_validate_target u = RetOk \<and> (\<forall>regs. rd_compute_effective_address (ut_decode u) regs = None)"
proof (intro exI [of _ "demo_target\<lparr>ut_decode := demo_decode\<lparr>shift := 64\<rparr>\<rparr>"] conjI allI)
  show "rd_validate_target (demo_target\<lparr>ut_decode := demo_decode\<lparr>shift := 64\<rparr>\<rparr>) = RetOk"
    by (simp add: rd_validate_target_def demo_target_def demo_decode_def extend_kinds Let_def)
  show "rd_compute_effective_address (ut_decode (demo_target\<lparr>ut_decode := demo_decode\<lparr>shift := 64\<rparr>\<rparr>)) regs = None" for regs
    by (simp add: rd_compute_effective_address_def rd_index_value_def demo_decode_def shl64_def extend_kinds Let_def)
qed

text \<open>C31: the bucket of a reuse distance is exact: bucket 0 holds the distance 0, bucket \<open>b\<close> the
  distances from \<open>2^(b-1)\<close> to \<open>2^b - 1\<close>, and the last bucket everything from \<open>2^62\<close>.\<close>

theorem log2_bucket_exact:
  "unat (rd_log2_bucket d) < RD_WPCTL_LOG2_BUCKETS \<and> (unat (rd_log2_bucket d) = 0 \<longleftrightarrow> d = 0) \<and>
   (\<forall>b. 0 < b \<and> b < 63 \<longrightarrow> (unat (rd_log2_bucket d) = b \<longleftrightarrow> 2 ^ (b - 1) \<le> unat d \<and> unat d < 2 ^ b)) \<and>
   (unat (rd_log2_bucket d) = 63 \<longleftrightarrow> 2 ^ 62 \<le> unat d)"
proof (intro conjI allI impI)
  show "unat (rd_log2_bucket d) < RD_WPCTL_LOG2_BUCKETS" by (rule rd_log2_bucket_less)
  show "unat (rd_log2_bucket d) = 0 \<longleftrightarrow> d = 0"
    using bitlen_less_iff [of "unat d" 0] by (auto simp: unat_rd_log2_bucket min_def unat_eq_zero simp del: bitlen_pos)
  show "unat (rd_log2_bucket d) = b \<longleftrightarrow> 2 ^ (b - 1) \<le> unat d \<and> unat d < 2 ^ b" if "0 < b \<and> b < 63" for b
    using that bitlen_less_iff [of "unat d" b] bitlen_less_iff [of "unat d" "b - 1"]
    by (auto simp: unat_rd_log2_bucket min_def simp del: bitlen_pos)
  show "unat (rd_log2_bucket d) = 63 \<longleftrightarrow> 2 ^ 62 \<le> unat d"
    using bitlen_less_iff [of "unat d" 62] by (auto simp: unat_rd_log2_bucket min_def simp del: bitlen_pos)
qed

theorem log2_bucket_exact_witness: "unat (rd_log2_bucket 5) = 3 \<and> unat (rd_log2_bucket 8) = 4"
  using log2_bucket_exact [of 5] log2_bucket_exact [of 8] by simp

subsection \<open>Call contexts and snapshots\<close>

text \<open>C32: a call chain that was entered can be read back: the id names an entry with exactly that
  chain, the query for the id returns it, and entering the chain again returns the same id
  and changes nothing.\<close>

theorem context_reads_back:
  assumes "contexts_ok t" "callchain_key_ok key" "rd_get_context_id_locked t key = (t', cid)" "cid \<noteq> 0"
    and "rd_find_thread_by_index s ti = Some t'" "copy_to_user_ok env"
  shows "rd_get_context_id_locked t' key = (t', cid) \<and>
    (\<exists>r. rd_get_context_locked env s (Some (ti, cid)) = Some (RetOk, ContextReply r) \<and> cr_used r = 1 \<and>
       cr_depth r = key_depth key \<and>
       take (unat (cr_depth r)) (cr_ips r) = take (unat (key_depth key)) (key_ips key))"
proof -
  obtain cs i where e: "contexts t' = Some cs" "i < length cs" "cid = of_nat (i + 1)" "ce_used (cs ! i)"
    "ce_key (cs ! i) = key_of key" "rd_get_context_id_locked t' key = (t', cid)"
    by (rule rd_get_context_id_entry [OF assms(1-4)])
  have "contexts_ok t'" using rd_get_context_id_ok [OF assms(1,2)] assms(3) by simp
  then have len: "length cs = RD_WPCTL_MAX_CONTEXTS" using e(1) by (simp add: contexts_ok_def)
  have u: "unat cid = i + 1" unfolding e(3) using e(2) len by (simp only: unat_of_nat) (simp add: uapi_consts)
  have u1: "unat (cid - 1) = i" using u assms(4) unat_minus_one [of cid] by simp
  have "rd_get_context_locked env s (Some (ti, cid)) = Some (RetOk, ContextReply
      \<lparr>cr_thread_index = ti, cr_context_id = cid, cr_used = 1, cr_depth = ce_depth (cs ! i), cr_ips = ce_ips (cs ! i)\<rparr>)"
    using assms(4-6) e(1,2,4) u u1 len by (simp add: rd_get_context_locked_def rd_reply_user_def Let_def)
  then show ?thesis using e(5,6) by (auto simp: ce_key_def key_of_def)
qed

definition demo_key :: rd_callchain_key where
  "demo_key = \<lparr>key_depth = 1, key_ips = 0x1040 # replicate 7 0\<rparr>"

definition demo_ctx_thread :: rd_thread_ctx where
  "demo_ctx_thread = fst (rd_get_context_id_locked demo_thread demo_key)"

lemma demo_ctx: "rd_get_context_id_locked demo_thread demo_key = (demo_ctx_thread, 1)"
proof -
  have z: "scan_table ce_used h (replicate n zero_context_entry) i (Some k) = FirstFree k" for h n i k
    by (induction n arbitrary: i) (simp_all add: zero_context_entry_def)
  have n: "replicate RD_WPCTL_MAX_CONTEXTS zero_context_entry =
      zero_context_entry # replicate (RD_WPCTL_MAX_CONTEXTS - 1) zero_context_entry"
    using replicate_Suc [of "RD_WPCTL_MAX_CONTEXTS - 1" zero_context_entry] by (simp add: uapi_consts)
  have "scan_table ce_used h (replicate RD_WPCTL_MAX_CONTEXTS zero_context_entry) 0 None = FirstFree 0" for h
    unfolding n by (simp add: z) (simp add: zero_context_entry_def)
  then show ?thesis
    by (simp add: demo_ctx_thread_def rd_get_context_id_locked_def demo_thread_def demo_key_def rd_new_thread_def)
qed

theorem context_reads_back_witness:
  "\<exists>r. rd_get_context_locked demo_env (demo_session\<lparr>threads := [demo_ctx_thread]\<rparr>) (Some (0, 1)) =
     Some (RetOk, ContextReply r) \<and> cr_depth r = 1"
proof -
  have "contexts_ok demo_thread" using demo_thread_inv(1) by (simp add: thread_inv_def results_ok_def)
  moreover have "callchain_key_ok demo_key" by (simp add: callchain_key_ok_def demo_key_def uapi_consts)
  moreover have "rd_find_thread_by_index (demo_session\<lparr>threads := [demo_ctx_thread]\<rparr>) 0 = Some demo_ctx_thread"
    by (simp add: rd_find_thread_by_index_def)
  moreover have "copy_to_user_ok demo_env" by (simp add: demo_env_def)
  ultimately show ?thesis
    using context_reads_back [OF _ _ demo_ctx, of "demo_session\<lparr>threads := [demo_ctx_thread]\<rparr>" 0 demo_env]
    by (auto simp: demo_key_def)
qed

end
