(* ===== verification/Text_Utils.thy ===== *)
theory Text_Utils
  imports Prelude
begin

text \<open>
  The text helpers of the user-space side (\<^verbatim>\<open>src/targeted_rd.cc\<close>) and what they use of the C and
  C++ libraries: character classes of the C locale, \<^verbatim>\<open>std::getline\<close>, \<^verbatim>\<open>operator>>\<close> on a string,
  \<^verbatim>\<open>std::string::find\<close> and \<^verbatim>\<open>rfind(prefix, 0)\<close>, the \<^verbatim>\<open>strtol\<close> family and the integer
  output of streams.  Strings hold no NUL character, so \<^verbatim>\<open>c_str()\<close> is the string itself.
\<close>

subsection \<open>Characters and pieces of text\<close>

definition isspace :: "char \<Rightarrow> bool" where
  "isspace c \<longleftrightarrow> c \<in> {CHR '' '', CHR 0x09, CHR 0x0A, CHR 0x0B, CHR 0x0C, CHR 0x0D}"

definition trim_ascii_space :: "string \<Rightarrow> string" where
  "trim_ascii_space s = rev (dropWhile isspace (rev (dropWhile isspace s)))"

text \<open>
  The loop \<^verbatim>\<open>while (std::getline(iss, cur, delim))\<close>: a delimiter at the very end of the text does not
  start another piece.
\<close>

function getline_all :: "char \<Rightarrow> string \<Rightarrow> string list" where
  "getline_all d s =
     (if s = [] then []
      else takeWhile (\<lambda>c. c \<noteq> d) s # getline_all d (drop 1 (dropWhile (\<lambda>c. c \<noteq> d) s)))"
  by pat_completeness auto
termination
proof (relation "measure (\<lambda>(d, s). length s)", goal_cases)
  case (2 d s)
  then show ?case using length_dropWhile_le [of "\<lambda>c. c \<noteq> d" s] by (cases s) auto
qed simp

declare getline_all.simps [simp del]

definition split_tab :: "string \<Rightarrow> string list" where
  "split_tab line = getline_all (CHR 0x09) line"

definition split_comma :: "string \<Rightarrow> string list" where
  "split_comma line = map trim_ascii_space (getline_all (CHR '','') line)"

definition lines_of :: "string \<Rightarrow> string list" where
  "lines_of text = getline_all (CHR 0x0A) text"

text \<open>\<^verbatim>\<open>iss >> tok\<close>: the next token and what is left, or failure.\<close>

definition read_token :: "string \<Rightarrow> (string \<times> string) option" where
  "read_token s =
     (let s' = dropWhile isspace s
      in if s' = [] then None
         else Some (takeWhile (\<lambda>c. \<not> isspace c) s', dropWhile (\<lambda>c. \<not> isspace c) s'))"

text \<open>\<^verbatim>\<open>s.find(c, from)\<close> and \<^verbatim>\<open>s.rfind(prefix, 0) == 0\<close>.\<close>

definition find_char :: "char \<Rightarrow> nat \<Rightarrow> string \<Rightarrow> nat option" where
  "find_char c from s = map_option (\<lambda>i. from + i) (find_index (\<lambda>x. x = c) (drop from s))"

definition starts_with :: "string \<Rightarrow> string \<Rightarrow> bool" where
  "starts_with pre s \<longleftrightarrow> take (length pre) s = pre"

definition substr :: "string \<Rightarrow> nat \<Rightarrow> nat \<Rightarrow> string" where
  "substr s pos len = take len (drop pos s)"

subsection \<open>Numbers\<close>

definition digit_val :: "char \<Rightarrow> nat option" where
  "digit_val c =
     (let n = of_char c :: nat
      in if 48 \<le> n \<and> n \<le> 57 then Some (n - 48)
         else if 97 \<le> n \<and> n \<le> 102 then Some (n - 87)
         else if 65 \<le> n \<and> n \<le> 70 then Some (n - 55)
         else None)"

definition is_digit :: "nat \<Rightarrow> char \<Rightarrow> bool" where
  "is_digit b c \<longleftrightarrow> (case digit_val c of None \<Rightarrow> False | Some v \<Rightarrow> v < b)"

fun digits :: "nat \<Rightarrow> nat \<Rightarrow> string \<Rightarrow> nat \<times> string" where
  "digits b acc [] = (acc, [])"
| "digits b acc (c # cs) =
     (if is_digit b c then digits b (acc * b + the (digit_val c)) cs else (acc, c # cs))"

text \<open>
  What the \<^verbatim>\<open>strtol\<close> family has in common, for bases up to 16: white space, a sign, the prefix of
  base 16, the choice of the base when it is 0, and the longest run of digits; \<open>None\<close> when there is
  no conversion.
\<close>

definition strip_sign :: "string \<Rightarrow> bool \<times> string" where
  "strip_sign s = (case s of c # cs \<Rightarrow> if c = CHR ''-'' then (True, cs) else if c = CHR ''+'' then (False, cs) else (False, s)
                   | [] \<Rightarrow> (False, s))"

definition hex_prefixed :: "string \<Rightarrow> bool" where
  "hex_prefixed s \<longleftrightarrow> length s \<ge> 3 \<and> s ! 0 = CHR ''0'' \<and> s ! 1 \<in> {CHR ''x'', CHR ''X''} \<and> is_digit 16 (s ! 2)"

definition strto :: "nat \<Rightarrow> string \<Rightarrow> (bool \<times> nat \<times> string) option" where
  "strto base s =
     (let (neg, s2) = strip_sign (dropWhile isspace s);
          (b, s3) = (if base \<in> {0, 16} \<and> hex_prefixed s2 then (16, drop 2 s2)
                     else if base = 0 then (if take 1 s2 = ''0'' then 8 else 10, s2)
                     else (base, s2))
      in if s3 = [] \<or> \<not> is_digit b (hd s3) then None
         else let (v, rest) = digits b 0 s3 in Some (neg, v, rest))"

text \<open>The value, and the text where the conversion stopped (\<^verbatim>\<open>endptr\<close>); out-of-range values saturate.\<close>

definition strtoll :: "nat \<Rightarrow> string \<Rightarrow> int \<times> string" where
  "strtoll base s =
     (case strto base s of
        None \<Rightarrow> (0, s)
      | Some (neg, v, rest) \<Rightarrow>
          (if neg then max (- (2 ^ 63)) (- int v) else min (2 ^ 63 - 1) (int v), rest))"

definition strtoull :: "nat \<Rightarrow> string \<Rightarrow> u64 \<times> string" where
  "strtoull base s =
     (case strto base s of
        None \<Rightarrow> (0, s)
      | Some (neg, v, rest) \<Rightarrow>
          (if int v \<ge> 2 ^ 64 then - 1 else if neg then - of_nat v else of_nat v, rest))"

text \<open>Integer output: decimal, and hexadecimal in lower case.\<close>

definition digit_char :: "nat \<Rightarrow> char" where
  "digit_char d = (if d < 10 then char_of (48 + d) else char_of (87 + d))"

function show_base :: "nat \<Rightarrow> nat \<Rightarrow> string" where
  "show_base b n = (if b < 2 \<or> n < b then [digit_char n] else show_base b (n div b) @ [digit_char (n mod b)])"
  by pat_completeness auto
termination
  by (relation "measure snd") auto

declare show_base.simps [simp del]

definition show_dec :: "nat \<Rightarrow> string" where
  "show_dec n = show_base 10 n"

definition hex_u64 :: "u64 \<Rightarrow> string" where
  "hex_u64 value = show_base 16 (unat value)"

subsection \<open>Quoting for the shell\<close>

fun shell_quote_body :: "string \<Rightarrow> string" where
  "shell_quote_body [] = []"
| "shell_quote_body (c # cs) =
     (if c = CHR 0x27 then [CHR 0x27, CHR 0x5C, CHR 0x27, CHR 0x27] else [c]) @ shell_quote_body cs"

definition shell_quote :: "string \<Rightarrow> string" where
  "shell_quote s = [CHR 0x27] @ shell_quote_body s @ [CHR 0x27]"

text \<open>
  How a POSIX shell reads one word made of single-quoted parts, backslash escapes and ordinary
  characters: the word's value and the text after it; \<open>None\<close> when a quote is not closed or a
  character with another meaning to the shell stands outside quotes.
\<close>

definition plain_char :: "char \<Rightarrow> bool" where
  "plain_char c \<longleftrightarrow> (let n = of_char c :: nat in 48 \<le> n \<and> n \<le> 57 \<or> 65 \<le> n \<and> n \<le> 90 \<or> 97 \<le> n \<and> n \<le> 122) \<or>
     c \<in> {CHR ''/'', CHR ''.'', CHR ''-'', CHR ''_''}"

fun shell_word :: "bool \<Rightarrow> string \<Rightarrow> (string \<times> string) option" where
  "shell_word quoted [] = (if quoted then None else Some ([], []))"
| "shell_word True (c # cs) =
     (if c = CHR 0x27 then shell_word False cs
      else map_option (\<lambda>(w, r). (c # w, r)) (shell_word True cs))"
| "shell_word False (c # cs) =
     (if c = CHR 0x27 then shell_word True cs
      else if c = CHR 0x5C then (case cs of [] \<Rightarrow> None | e # r \<Rightarrow> map_option (\<lambda>(w, r'). (e # w, r')) (shell_word False r))
      else if c = CHR '' '' then Some ([], c # cs)
      else if plain_char c then map_option (\<lambda>(w, r). (c # w, r)) (shell_word False cs)
      else None)"

subsection \<open>Errors that only reject one hotspot\<close>

definition is_filterable_hotspot_error :: "string \<Rightarrow> bool" where
  "is_filterable_hotspot_error reason \<longleftrightarrow>
     list_ex (\<lambda>prefix. starts_with prefix reason)
       [''unsupported '', ''watchpoint only supports accesses up to 8 bytes'', ''missing '', ''expected '',
        ''empty address operand'']"

subsection \<open>Facts about trimming and splitting\<close>

lemma dropWhile_rev_last: "s = [] \<or> \<not> P (last s) \<Longrightarrow> dropWhile P (rev s) = rev s"
  by (cases s rule: rev_cases) auto

lemma trim_id:
  "s = [] \<or> (\<not> isspace (hd s) \<and> \<not> isspace (last s)) \<Longrightarrow> trim_ascii_space s = s"
  by (cases s) (auto simp: trim_ascii_space_def dropWhile_rev_last simp del: rev.simps)

lemma trim_Nil [simp]: "trim_ascii_space [] = []"
  by (simp add: trim_ascii_space_def)

lemma trim_space_Cons [simp]: "isspace c \<Longrightarrow> trim_ascii_space (c # s) = trim_ascii_space s"
  by (simp add: trim_ascii_space_def)

lemma rev_dropWhile_rev:
  obtains ys where "s = rev (dropWhile P (rev s)) @ ys" "\<forall>c\<in>set ys. P c"
proof -
  have "s = rev (dropWhile P (rev s)) @ rev (takeWhile P (rev s))"
    using takeWhile_dropWhile_id [of P "rev s"] by (metis rev_append rev_rev_ident)
  moreover have "\<forall>c\<in>set (rev (takeWhile P (rev s))). P c" by (auto dest: set_takeWhileD)
  ultimately show thesis using that by blast
qed

lemma trim_spec:
  "\<exists>pre post. s = pre @ trim_ascii_space s @ post \<and> (\<forall>c\<in>set pre \<union> set post. isspace c) \<and>
     (trim_ascii_space s = [] \<or> (\<not> isspace (hd (trim_ascii_space s)) \<and> \<not> isspace (last (trim_ascii_space s))))"
proof -
  let ?d = "dropWhile isspace s"
  obtain post where post: "?d = trim_ascii_space s @ post" "\<forall>c\<in>set post. isspace c"
    unfolding trim_ascii_space_def by (rule rev_dropWhile_rev [of ?d isspace])
  have "s = takeWhile isspace s @ trim_ascii_space s @ post"
    using takeWhile_dropWhile_id [of isspace s] post(1) by simp
  moreover have "\<not> isspace (hd (trim_ascii_space s))" "\<not> isspace (last (trim_ascii_space s))" if "trim_ascii_space s \<noteq> []"
  proof -
    have "?d \<noteq> []" "hd ?d = hd (trim_ascii_space s)" using post(1) that by auto
    then show "\<not> isspace (hd (trim_ascii_space s))" using hd_dropWhile [of isspace s] by simp
    have "dropWhile isspace (rev ?d) \<noteq> []" using that by (simp add: trim_ascii_space_def)
    then show "\<not> isspace (last (trim_ascii_space s))"
      using hd_dropWhile [of isspace "rev ?d"] by (simp add: trim_ascii_space_def last_rev)
  qed
  moreover have "\<forall>c\<in>set (takeWhile isspace s) \<union> set post. isspace c" using post(2) by (auto dest: set_takeWhileD)
  ultimately show ?thesis by blast
qed

lemma getline_all_Nil [simp]: "getline_all d [] = []"
  by (simp add: getline_all.simps)

lemma getline_all_last: "s \<noteq> [] \<Longrightarrow> d \<notin> set s \<Longrightarrow> getline_all d s = [s]"
proof -
  assume "s \<noteq> []" "d \<notin> set s"
  then have tw: "takeWhile (\<lambda>c. c \<noteq> d) s = s" and dw: "dropWhile (\<lambda>c. c \<noteq> d) s = []"
    by (auto simp: takeWhile_eq_all_conv dropWhile_eq_Nil_conv)
  show ?thesis unfolding getline_all.simps [of d s] tw dw using \<open>s \<noteq> []\<close> by simp
qed

lemma getline_all_Cons: "d \<notin> set s \<Longrightarrow> getline_all d (s @ d # rest) = s # getline_all d rest"
proof -
  assume d: "d \<notin> set s"
  then have "takeWhile (\<lambda>c. c \<noteq> d) (s @ d # rest) = s \<and> dropWhile (\<lambda>c. c \<noteq> d) (s @ d # rest) = d # rest"
    by (induction s) auto
  then show ?thesis by (subst getline_all.simps) simp
qed

text \<open>Joining pieces with a delimiter, and splitting them again.\<close>

fun join_with :: "char \<Rightarrow> string list \<Rightarrow> string" where
  "join_with d [] = []"
| "join_with d [p] = p"
| "join_with d (p # ps) = p @ d # join_with d ps"

lemma getline_all_join:
  "ps \<noteq> [] \<Longrightarrow> (\<forall>p\<in>set ps. d \<notin> set p) \<Longrightarrow> last ps \<noteq> [] \<Longrightarrow> getline_all d (join_with d ps) = ps"
  by (induction d ps rule: join_with.induct) (auto simp: getline_all_last getline_all_Cons)

lemma find_char_append: "c \<notin> set s \<Longrightarrow> find_char c 0 (s @ c # rest) = Some (length s)"
  by (induction s) (auto simp: find_char_def)

lemma find_char_from:
  "from \<le> length s \<Longrightarrow> find_char c from (s @ t) = (if c \<in> set (drop from s) then find_char c from s else map_option (\<lambda>i. length s + i) (find_char c 0 t))"
proof -
  have id: "(+) (0::nat) = (\<lambda>i. i)" by auto
  have fi: "find_index P (xs @ ys) = (if \<exists>x\<in>set xs. P x then find_index P xs else map_option (\<lambda>i. length xs + i) (find_index P ys))"
    for P :: "char \<Rightarrow> bool" and xs ys by (induction xs) (auto simp: option.map_comp comp_def id option.map_ident)
  show "from \<le> length s \<Longrightarrow> ?thesis" by (auto simp: find_char_def fi option.map_comp comp_def)
qed

subsection \<open>Facts about numbers\<close>

lemma char_of_eq_iff: "n < 256 \<Longrightarrow> m < 256 \<Longrightarrow> (char_of n :: char) = char_of m \<longleftrightarrow> n = (m :: nat)"
  by (metis mod_less of_char_of)

lemma digit_val_char [simp]: "d < 16 \<Longrightarrow> digit_val (digit_char d) = Some d"
  by (auto simp: digit_val_def digit_char_def of_char_of)

lemma is_digit_char: "d < b \<Longrightarrow> b \<le> 16 \<Longrightarrow> is_digit b (digit_char d)"
  by (simp add: is_digit_def)

lemma digits_append: "digits b acc (s @ t) = (if \<forall>c\<in>set s. is_digit b c then digits b (fst (digits b acc s)) t
   else (fst (digits b acc s), snd (digits b acc s) @ t))"
  by (induction s arbitrary: acc) auto

lemma set_show_base: "2 \<le> b \<Longrightarrow> b \<le> 16 \<Longrightarrow> c \<in> set (show_base b n) \<Longrightarrow> is_digit b c"
proof (induction b n rule: show_base.induct)
  case (1 b n)
  then show ?case
    by (subst (asm) show_base.simps) (auto simp: is_digit_char split: if_splits)
qed

lemma digits_show: "2 \<le> b \<Longrightarrow> b \<le> 16 \<Longrightarrow> digits b 0 (show_base b n) = (n, [])"
proof (induction b n rule: show_base.induct)
  case (1 b n)
  show ?case
  proof (cases "n < b")
    case True
    then show ?thesis using 1 by (simp add: show_base.simps is_digit_char)
  next
    case False
    then have "digits b 0 (show_base b (n div b)) = (n div b, [])" using 1 by simp
    moreover have "n mod b < b" "n mod b < 16" using 1 by (simp_all add: order_less_le_trans [OF mod_less_divisor])
    ultimately show ?thesis using 1 False set_show_base [of b _ "n div b"]
      by (subst show_base.simps) (simp add: digits_append is_digit_char mult.commute)
  qed
qed

lemma show_base_nonempty [simp]: "show_base b n \<noteq> []"
  by (simp add: show_base.simps)

lemma digits_show_rest:
  assumes "2 \<le> b" "b \<le> 16" "rest = [] \<or> \<not> is_digit b (hd rest)"
  shows "digits b 0 (show_base b n @ rest) = (n, rest)"
  using assms digits_show [OF assms(1,2)] set_show_base [OF assms(1,2)]
  by (cases rest) (auto simp: digits_append)

lemma digit_not_space: "is_digit b c \<Longrightarrow> \<not> isspace c"
  by (auto simp: is_digit_def digit_val_def isspace_def split: option.splits if_splits)

lemma digit_not_sign: "is_digit b c \<Longrightarrow> c \<noteq> CHR ''-'' \<and> c \<noteq> CHR ''+'' \<and> c \<noteq> CHR ''x'' \<and> c \<noteq> CHR ''X'' \<and> c \<noteq> CHR '','' \<and> c \<noteq> CHR '']''"
  by (auto simp: is_digit_def digit_val_def split: option.splits if_splits)

lemma hd_show_base: "2 \<le> b \<Longrightarrow> b \<le> 16 \<Longrightarrow> is_digit b (hd (show_base b n))"
  using set_show_base [of b "hd (show_base b n)" n] by simp

lemma dropWhile_hd: "s = [] \<or> \<not> P (hd s) \<Longrightarrow> dropWhile P s = s"
  by (cases s) auto

lemma strip_sign_digit: "s \<noteq> [] \<Longrightarrow> is_digit b (hd s) \<Longrightarrow> strip_sign s = (False, s)"
  using digit_not_sign [of b "hd s"] by (cases s) (auto simp: strip_sign_def)

lemma show_dec_nonempty [simp]: "show_dec n \<noteq> []"
  by (simp add: show_dec_def)

lemma set_show_dec: "c \<in> set (show_dec n) \<Longrightarrow> is_digit 10 c"
  by (simp add: show_dec_def set_show_base)

lemma strto_show_dec:
  assumes "rest = [] \<or> \<not> is_digit 10 (hd rest)"
  shows "strto 10 (show_dec n @ rest) = Some (False, n, rest)"
proof -
  have h: "is_digit 10 (hd (show_dec n @ rest))" using set_show_dec [of "hd (show_dec n)" n] by simp
  then have "dropWhile isspace (show_dec n @ rest) = show_dec n @ rest"
    by (intro dropWhile_hd) (auto dest: digit_not_space)
  moreover have "strip_sign (show_dec n @ rest) = (False, show_dec n @ rest)"
    by (rule strip_sign_digit [OF _ h]) simp
  moreover have "digits 10 0 (show_dec n @ rest) = (n, rest)"
    using digits_show_rest [of 10 rest n] assms by (simp add: show_dec_def)
  ultimately show ?thesis using h by (simp add: strto_def)
qed

lemma hd_show_pos: "2 \<le> b \<Longrightarrow> b \<le> 16 \<Longrightarrow> 0 < n \<Longrightarrow> hd (show_base b n) \<noteq> CHR ''0''"
proof (induction b n rule: show_base.induct)
  case (1 b n)
  show ?case
  proof (cases "n < b")
    case True
    then have "digit_val (digit_char n) = Some n" using 1 by simp
    then have "digit_char n \<noteq> CHR ''0''" using 1 by (auto simp: digit_val_def)
    then show ?thesis using True by (simp add: show_base.simps)
  next
    case False
    then have "hd (show_base b (n div b)) \<noteq> CHR ''0''" using 1 by (simp add: div_greater_zero_iff)
    with False 1 show ?thesis by (subst show_base.simps) simp
  qed
qed

lemma strto0_show_dec: "strto 0 (show_dec n) = Some (False, n, [])"
proof (cases "n = 0")
  case True
  moreover have "digit_char 0 = CHR ''0''" by code_simp
  ultimately have "show_dec n = ''0''" by (simp add: show_dec_def show_base.simps)
  then show ?thesis using True by (simp add: strto_def strip_sign_def isspace_def hex_prefixed_def is_digit_def digit_val_def)
next
  case False
  let ?s = "show_dec n"
  have h: "is_digit 10 (hd ?s)" using set_show_dec [of "hd ?s" n] by simp
  then have ws: "dropWhile isspace ?s = ?s" by (intro dropWhile_hd) (auto dest: digit_not_space)
  have sg: "strip_sign ?s = (False, ?s)" by (rule strip_sign_digit [OF _ h]) simp
  have z: "hd ?s \<noteq> CHR ''0''" unfolding show_dec_def using False by (intro hd_show_pos) simp_all
  then have "\<not> hex_prefixed ?s" "take 1 ?s \<noteq> ''0''"
    by (cases ?s; simp add: hex_prefixed_def)+
  moreover have "digits 10 0 ?s = (n, [])" by (simp add: show_dec_def digits_show)
  ultimately show ?thesis using ws sg h by (simp add: strto_def)
qed

text \<open>Hexadecimal output with its prefix is read back by the conversions of base 0 and 16.\<close>

lemma strto_hex:
  assumes "b = 0 \<or> b = 16" "rest = [] \<or> \<not> is_digit 16 (hd rest)"
  shows "strto b (''0x'' @ show_base 16 n @ rest) = Some (False, n, rest)"
proof -
  let ?s = "''0x'' @ show_base 16 n @ rest"
  have h: "is_digit 16 (hd (show_base 16 n))" by (rule hd_show_base) simp_all
  then have "hex_prefixed ?s" by (cases "show_base 16 n") (auto simp: hex_prefixed_def)
  moreover have "digits 16 0 (show_base 16 n @ rest) = (n, rest)" using assms(2) by (intro digits_show_rest) simp_all
  moreover have "strip_sign (dropWhile isspace ?s) = (False, ?s)" by (simp add: strip_sign_def isspace_def)
  ultimately show ?thesis using assms(1) h by (simp add: strto_def)
qed

lemma strtoull_unat:
  assumes "strto b s = Some (False, unat v, rest)"
  shows "strtoull b s = (v, rest)"
proof -
  have "uint v < 2 ^ 64" by (rule order_less_le_trans [OF unsigned_less]) simp
  then have "\<not> 2 ^ 64 \<le> int (unat v)" by (simp only: of_nat_unat not_le)
  then show ?thesis by (simp only: strtoull_def assms option.case prod.case if_False) simp
qed

lemma strtoull_hex_u64:
  assumes "b = 0 \<or> b = 16" "rest = [] \<or> \<not> is_digit 16 (hd rest)"
  shows "strtoull b (''0x'' @ hex_u64 v @ rest) = (v, rest)"
  using strto_hex [OF assms, of "unat v"] by (intro strtoull_unat) (simp add: hex_u64_def)

lemma strtoull_show_dec:
  "strtoull 10 (show_dec (unat v)) = (v, [])"
  using strto_show_dec [of "[]" "unat v"] by (intro strtoull_unat) simp

lemmas conversion_back = strtoull_hex_u64 strtoull_show_dec strto0_show_dec strto_show_dec

subsection \<open>Facts about quoting\<close>

lemma shell_word_body:
  "shell_word True (shell_quote_body s @ CHR 0x27 # rest) = map_option (\<lambda>(w, r). (s @ w, r)) (shell_word False rest)"
proof (induction s)
  case Nil
  show ?case by (simp add: option.map_ident)
next
  case (Cons c s)
  then show ?case by (cases "c = CHR 0x27") (auto simp: option.map_comp comp_def split_beta)
qed

end
