(* ===== verification/Decode.thy ===== *)
theory Decode
  imports Text_Utils Seed_Address
begin

text \<open>
  The operand decoder of \<^verbatim>\<open>src/targeted_rd.cc\<close>: register names, access sizes, the addressing
  forms of a disassembled load or store, the translation to the structure the kernel module
  takes, and the bucket bounds that the result files print.  Failures are the text of the
  \<^verbatim>\<open>RdException\<close> that the code throws.
\<close>

subsection \<open>Templates\<close>

record decode_template =
  dt_access_size :: int
  dt_base_reg :: int
  dt_base_is_sp :: bool
  dt_has_imm :: bool
  dt_imm :: s64
  dt_has_index :: bool
  dt_index_reg :: int
  dt_index_is_32 :: bool
  dt_index_is_zero :: bool
  dt_extend :: u8
  dt_shift :: u8

definition dt_init :: decode_template where
  "dt_init = \<lparr>dt_access_size = 0, dt_base_reg = -1, dt_base_is_sp = False, dt_has_imm = False, dt_imm = 0,
     dt_has_index = False, dt_index_reg = -1, dt_index_is_32 = False, dt_index_is_zero = False,
     dt_extend = RD_EXT_NONE, dt_shift = 0\<rparr>"

subsection \<open>Pieces of an operand\<close>

text \<open>The immediate passes through a C \<^verbatim>\<open>int\<close> on its way into the 64-bit field.\<close>

definition parse_scaled_imm :: "string \<Rightarrow> string + s64" where
  "parse_scaled_imm token =
     (if token = [] then Inl ''missing immediate''
      else if hd token \<noteq> CHR ''#'' then Inl ''expected immediate''
      else Inr (scast (word_of_int (fst (strtoll 0 (tl token))) :: s32)))"

text \<open>The register number, and whether it is \<^verbatim>\<open>sp\<close>, a 32-bit name, or the zero register.\<close>

definition parse_reg_name :: "string \<Rightarrow> (int \<times> bool \<times> bool \<times> bool) option" where
  "parse_reg_name token =
     (let t = trim_ascii_space token in
      if t = ''sp'' then Some (PERF_REG_ARM64_SP, True, False, False)
      else if t = ''xzr'' \<or> t = ''wzr'' then Some (-1, False, hd t = CHR ''w'', True)
      else if length t \<ge> 2 \<and> (hd t = CHR ''x'' \<or> hd t = CHR ''w'') then
        (let (n, rest) = strtoll 10 (tl t) in
         if rest = [] \<and> n \<ge> 0 \<and> n \<le> 29 then Some (n, False, hd t = CHR ''w'', False)
         else if t = ''x30'' then Some (PERF_REG_ARM64_LR, False, False, False)
         else None)
      else None)"

definition parse_access_size_from_dest :: "string \<Rightarrow> string + int" where
  "parse_access_size_from_dest dest =
     (let t = trim_ascii_space dest in
      if t = [] then Inl ''missing destination operand''
      else if hd t = CHR ''b'' then Inr 1
      else if hd t = CHR ''h'' then Inr 2
      else if hd t = CHR ''w'' \<or> hd t = CHR ''s'' then Inr 4
      else if hd t = CHR ''x'' \<or> hd t = CHR ''d'' then Inr 8
      else if hd t = CHR ''q'' then Inr 16
      else Inl (''unsupported destination register class in operand '' @ [CHR 0x27] @ t @ [CHR 0x27]))"

definition quoted :: "string \<Rightarrow> string \<Rightarrow> string" where
  "quoted msg s = msg @ [CHR 0x27] @ s @ [CHR 0x27]"

definition extend_of_op :: "string \<Rightarrow> u8 option" where
  "extend_of_op op =
     (if op = ''lsl'' then Some RD_EXT_LSL else if op = ''uxtw'' then Some RD_EXT_UXTW
      else if op = ''sxtw'' then Some RD_EXT_SXTW else if op = ''uxtx'' then Some RD_EXT_UXTX
      else if op = ''sxtx'' then Some RD_EXT_SXTX else None)"

text \<open>The third item: an extension and an optional shift amount.\<close>

definition decode_extend :: "decode_template \<Rightarrow> string \<Rightarrow> string + decode_template" where
  "decode_extend dec item =
     (let ext = trim_ascii_space item;
          space = find_char (CHR '' '') 0 ext;
          op = (case space of None \<Rightarrow> ext | Some k \<Rightarrow> substr ext 0 k);
          arg = (case space of None \<Rightarrow> [] | Some k \<Rightarrow> trim_ascii_space (drop (k + 1) ext))
      in case extend_of_op op of
           None \<Rightarrow> Inl (quoted ''unsupported index extend '' op)
         | Some e \<Rightarrow>
             let dec' = dec\<lparr>dt_extend := e\<rparr> in
             if arg \<noteq> [] then
               (if hd arg \<noteq> CHR ''#'' then Inl (quoted ''unsupported shift argument '' arg)
                else Inr (dec'\<lparr>dt_shift := ucast (fst (strtoull 0 (tl arg)))\<rparr>))
             else Inr dec')"

text \<open>The comma-separated items between the brackets.\<close>

definition decode_items :: "decode_template \<Rightarrow> string list \<Rightarrow> string + decode_template" where
  "decode_items dec items =
     (if items = [] then Inl ''empty address operand''
      else case parse_reg_name (items ! 0) of
          None \<Rightarrow> Inl (quoted ''unsupported base register '' (items ! 0))
        | Some (reg, is_sp, _, is_zero) \<Rightarrow>
            if is_zero then Inl (quoted ''unsupported base register '' (items ! 0))
            else
              let dec1 = dec\<lparr>dt_base_reg := reg, dt_base_is_sp := is_sp\<rparr> in
              if length items = 1 then Inr dec1
              else if items ! 1 \<noteq> [] \<and> hd (items ! 1) = CHR ''#'' then
                (case parse_scaled_imm (items ! 1) of
                   Inl e \<Rightarrow> Inl e
                 | Inr v \<Rightarrow> Inr (dec1\<lparr>dt_has_imm := True, dt_imm := v\<rparr>))
              else case parse_reg_name (items ! 1) of
                  None \<Rightarrow> Inl (quoted ''unsupported index register '' (items ! 1))
                | Some (ireg, _, is_32, izero) \<Rightarrow>
                    let dec2 = dec1\<lparr>dt_has_index := True, dt_index_reg := ireg, dt_index_is_32 := is_32,
                                    dt_index_is_zero := izero\<rparr> in
                    if length items = 2 then Inr dec2 else decode_extend dec2 (items ! 2))"

definition decode_from_asm_operands :: "string \<Rightarrow> string \<Rightarrow> string + decode_template" where
  "decode_from_asm_operands mnemonic operands =
     (case find_char (CHR '','') 0 operands of
        None \<Rightarrow> Inl (quoted ''unsupported operand shape '' operands)
      | Some comma \<Rightarrow>
          case parse_access_size_from_dest (trim_ascii_space (substr operands 0 comma)) of
            Inl e \<Rightarrow> Inl e
          | Inr bytes \<Rightarrow>
              if bytes > 8 then Inl ''watchpoint only supports accesses up to 8 bytes''
              else case find_char (CHR ''['') comma operands of
                  None \<Rightarrow> Inl (quoted ''unsupported address operand '' operands)
                | Some lb \<Rightarrow>
                    case find_char (CHR '']'') lb operands of
                      None \<Rightarrow> Inl (quoted ''unsupported address operand '' operands)
                    | Some rb \<Rightarrow>
                        if rb \<le> lb then Inl (quoted ''unsupported address operand '' operands)
                        else decode_items (dt_init\<lparr>dt_access_size := bytes\<rparr>)
                               (split_comma (substr operands (lb + 1) (rb - lb - 1))))"

subsection \<open>The structure for the kernel\<close>

definition flag :: "bool \<Rightarrow> u8" where
  "flag b = (if b then 1 else 0)"

definition to_uapi_decode :: "decode_template \<Rightarrow> rd_wpctl_decode" where
  "to_uapi_decode dec = \<lparr>access_size = word_of_int (dt_access_size dec), base_reg = dt_base_reg dec,
     base_is_sp = flag (dt_base_is_sp dec), has_imm = flag (dt_has_imm dec), has_index = flag (dt_has_index dec),
     index_is_32 = flag (dt_index_is_32 dec), index_is_zero = flag (dt_index_is_zero dec),
     dec_extend = dt_extend dec, shift = dt_shift dec, index_reg = dt_index_reg dec, imm = dt_imm dec\<rparr>"

subsection \<open>Bounds of a bucket\<close>

text \<open>\<open>None\<close> is a shift of a 64-bit value by 64 or more.\<close>

definition bucket_lo :: "u32 \<Rightarrow> u64 option" where
  "bucket_lo bucket =
     (if bucket = 0 then Some 0 else if bucket = 1 then Some 1
      else if unat (bucket - 1) < 64 then Some (push_bit (unat (bucket - 1)) 1) else None)"

definition bucket_hi :: "u32 \<Rightarrow> u64" where
  "bucket_hi bucket =
     (if bucket = 0 then 0 else if bucket = 1 then 1 else if bucket \<ge> 63 then - 1
      else push_bit (unat bucket) 1 - 1)"

definition callchain_mode_name :: "u32 \<Rightarrow> string" where
  "callchain_mode_name mode =
     (if mode = RD_CALLCHAIN_OFF then ''off'' else if mode = RD_CALLCHAIN_FP then ''fp''
      else if mode = RD_CALLCHAIN_DWARF then ''dwarf'' else ''unknown'')"

subsection \<open>What a decoded template satisfies\<close>

text \<open>A template that the decoder can produce.\<close>

definition template_ok :: "decode_template \<Rightarrow> bool" where
  "template_ok dec \<longleftrightarrow> dt_access_size dec \<in> {1, 2, 4, 8} \<and> 0 \<le> dt_base_reg dec \<and> dt_base_reg dec \<le> 31 \<and>
     dt_base_is_sp dec = (dt_base_reg dec = 31) \<and> dt_extend dec \<le> RD_EXT_SXTX \<and> \<not> (dt_has_imm dec \<and> dt_has_index dec) \<and>
     (dt_has_index dec \<longrightarrow> dt_index_is_zero dec \<or> (0 \<le> dt_index_reg dec \<and> dt_index_reg dec \<le> 31))"

lemma parse_reg_name_range:
  assumes "parse_reg_name t = Some (reg, is_sp, is_32, is_zero)"
  shows "(is_zero \<and> reg = -1 \<or> \<not> is_zero \<and> 0 \<le> reg \<and> reg \<le> 31) \<and> is_sp = (reg = 31)"
  using assms by (auto simp: parse_reg_name_def Let_def split: if_splits prod.splits)

lemma extend_of_op_le: "extend_of_op op = Some e \<Longrightarrow> e \<le> RD_EXT_SXTX"
  by (auto simp: extend_of_op_def extend_kinds split: if_splits)

lemma extend_branches:
  assumes "(case extend_of_op op of None \<Rightarrow> Inl x
     | Some e \<Rightarrow> if b then if c then Inl y else Inr (dec\<lparr>dt_extend := e, dt_shift := sh\<rparr>) else Inr (dec\<lparr>dt_extend := e\<rparr>)) = Inr dec'"
  shows "\<exists>e. e \<le> RD_EXT_SXTX \<and> (dec' = dec\<lparr>dt_extend := e\<rparr> \<or> (\<exists>sh. dec' = dec\<lparr>dt_extend := e, dt_shift := sh\<rparr>))"
  using assms by (auto split: option.splits if_splits dest: extend_of_op_le)

lemma decode_extend_ok:
  assumes "decode_extend dec item = Inr dec'" "template_ok dec"
  shows "template_ok dec'"
proof -
  have "\<exists>e. e \<le> RD_EXT_SXTX \<and> (dec' = dec\<lparr>dt_extend := e\<rparr> \<or> (\<exists>sh. dec' = dec\<lparr>dt_extend := e, dt_shift := sh\<rparr>))"
    using assms(1) unfolding decode_extend_def Let_def by (rule extend_branches)
  with assms(2) show ?thesis by (auto simp: template_ok_def)
qed

lemma decode_items_ok:
  assumes "decode_items dec items = Inr dec'" "dt_access_size dec \<in> {1, 2, 4, 8}" "dt_extend dec \<le> RD_EXT_SXTX"
    "\<not> dt_has_imm dec" "\<not> dt_has_index dec"
  shows "template_ok dec'"
proof -
  from assms(1) obtain reg is_sp w where base: "parse_reg_name (items ! 0) = Some (reg, is_sp, w, False)"
    by (auto simp: decode_items_def split: if_splits option.splits)
  let ?d1 = "dec\<lparr>dt_base_reg := reg, dt_base_is_sp := is_sp\<rparr>"
  have r: "0 \<le> reg" "reg \<le> 31" "is_sp = (reg = 31)" using parse_reg_name_range [OF base] by auto
  have ok1: "template_ok ?d1" using assms(2-5) r by (simp add: template_ok_def)
  consider "dec' = ?d1" | v where "dec' = ?d1\<lparr>dt_has_imm := True, dt_imm := v\<rparr>"
    | ireg isp w32 iz d2 where "parse_reg_name (items ! 1) = Some (ireg, isp, w32, iz)"
        "d2 = ?d1\<lparr>dt_has_index := True, dt_index_reg := ireg, dt_index_is_32 := w32, dt_index_is_zero := iz\<rparr>"
        "dec' = d2 \<or> decode_extend d2 (items ! 2) = Inr dec'"
    using assms(1) base by (auto simp: decode_items_def Let_def split: if_splits option.splits sum.splits)
  then show ?thesis
  proof cases
    case 1
    with ok1 show ?thesis by simp
  next
    case (2 v)
    with ok1 assms(5) show ?thesis by (simp add: template_ok_def)
  next
    case (3 ireg isp w32 iz d2)
    have "template_ok d2" using ok1 3(2) assms(4) parse_reg_name_range [OF 3(1)] by (auto simp: template_ok_def)
    with 3(2,3) decode_extend_ok [of d2 "items ! 2" dec'] show ?thesis by auto
  qed
qed

lemma access_size_dest:
  "parse_access_size_from_dest d = Inr k \<Longrightarrow> k \<in> {1, 2, 4, 8, 16}"
  by (auto simp: parse_access_size_from_dest_def Let_def split: if_splits)

lemma decoded_template_ok:
  assumes "decode_from_asm_operands m ops = Inr dec"
  shows "template_ok dec"
proof -
  from assms obtain d sz items where s: "parse_access_size_from_dest d = Inr sz" "\<not> 8 < sz"
    "decode_items (dt_init\<lparr>dt_access_size   := sz\<rparr>) items = Inr dec"
    by (auto simp: decode_from_asm_operands_def split: if_splits option.splits sum.splits)
  show ?thesis
    by (rule decode_items_ok [OF s(3)]) (use access_size_dest [OF s(1)] s(2) in \<open>auto simp: dt_init_def extend_kinds\<close>)
qed

end
