(* ===== verification/Std_Sort.thy ===== *)
theory Std_Sort
  imports Prelude "HOL-Library.Multiset"
begin

text \<open>
  \<^verbatim>\<open>std::sort\<close> with a comparator, as the two programs of user space call it.  The interface
  \<open>sort_by_key\<close> is a comparator that agrees with a key of a linear order; what it gives is a sorted
  permutation, the same one for every order of the input when the keys are distinct.
\<close>

fun insort_by :: "('a \<Rightarrow> 'a \<Rightarrow> bool) \<Rightarrow> 'a \<Rightarrow> 'a list \<Rightarrow> 'a list" where
  "insort_by lt x [] = [x]"
| "insort_by lt x (y # ys) = (if lt y x then y # insort_by lt x ys else x # y # ys)"

definition std_sort :: "('a \<Rightarrow> 'a \<Rightarrow> bool) \<Rightarrow> 'a list \<Rightarrow> 'a list" where
  "std_sort lt xs = foldr (insort_by lt) xs []"

lemma mset_std_sort [simp]: "mset (std_sort lt xs) = mset xs"
proof -
  have "mset (insort_by lt x ys) = add_mset x (mset ys)" for x ys by (induction ys) auto
  then have "mset (foldr (insort_by lt) xs []) = mset xs" by (induction xs) auto
  then show ?thesis by (simp add: std_sort_def)
qed

lemma set_std_sort [simp]: "set (std_sort lt xs) = set xs"
  by (metis mset_std_sort set_mset_mset)

lemma length_std_sort [simp]: "length (std_sort lt xs) = length xs"
  by (metis mset_std_sort size_mset)

locale sort_by_key =
  fixes lt :: "'a \<Rightarrow> 'a \<Rightarrow> bool" and key :: "'a \<Rightarrow> 'b::linorder"
  assumes lt_key: "lt a b \<longleftrightarrow> key a < key b"
begin

lemma std_sort_eq: "std_sort lt xs = sort_key key xs"
proof -
  have ins: "insort_by lt x ys = insort_key key x ys" for x ys
    by (induction ys) (auto simp: lt_key not_less)
  then have "insort_by lt = insort_key key" by (intro ext)
  then show ?thesis by (simp add: std_sort_def sort_key_def)
qed

lemma sorted_weak: "sorted_wrt (\<lambda>a b. \<not> lt b a) (std_sort lt xs)"
proof -
  have "sorted (map key (sort_key key xs))" by simp
  then show ?thesis by (simp add: std_sort_eq sorted_wrt_map lt_key not_less)
qed

lemma sorted_strict:
  assumes "distinct xs" "inj_on key (set xs)"
  shows "sorted_wrt lt (std_sort lt xs)"
proof -
  let ?ys = "std_sort lt xs"
  have d: "distinct ?ys" using assms(1) by (metis mset_std_sort mset_eq_imp_distinct_iff)
  have "lt (?ys ! i) (?ys ! j)" if "i < j" "j < length ?ys" for i j
  proof -
    have "\<not> lt (?ys ! j) (?ys ! i)" using sorted_weak that by (rule sorted_wrt_nth_less)
    moreover have "?ys ! i \<noteq> ?ys ! j" using d that by (simp add: distinct_conv_nth)
    moreover have "?ys ! i \<in> set xs" "?ys ! j \<in> set xs"
      using that nth_mem [of i ?ys] nth_mem [of j ?ys] by simp_all
    ultimately show ?thesis using assms(2) by (auto simp: lt_key not_less le_less dest: inj_onD)
  qed
  then show ?thesis by (simp add: sorted_wrt_iff_nth_less)
qed

lemma permutation:
  assumes "mset ys = mset xs" "inj_on key (set xs)"
  shows "std_sort lt ys = std_sort lt xs"
proof -
  have "set ys = set xs" using assms(1) by (rule mset_eq_setD)
  with assms show ?thesis unfolding std_sort_eq by (intro sort_key_inj_key_eq) simp_all
qed

end

end
