(* ===== verification/Targets.thy ===== *)
theory Targets
  imports Decode Std_Sort "HOL-Library.Product_Lexorder"
begin

text \<open>
  Loading the hotspot list in \<^verbatim>\<open>src/targeted_rd.cc\<close>: running the disassembler and reading its
  output, relocating a file offset through \<^verbatim>\<open>/proc/self/maps\<close>, and \<^verbatim>\<open>load_targets\<close>, which aggregates
  the manifest, orders the candidates and keeps those that can be decoded, up to the breakpoint
  capacity.  The operating system is a parameter: \<open>realpath\<close>, \<open>popen\<close> (the output of a command and
  its status), the text of the maps file, and the order in which the hash table is walked.
\<close>

subsection \<open>Operating system interfaces\<close>

record os_env =
  os_realpath :: "string \<Rightarrow> string option"
  os_popen :: "string \<Rightarrow> (string \<times> int) option"
  os_self_maps :: "string option"

definition normalize_filesystem_path :: "os_env \<Rightarrow> string \<Rightarrow> string" where
  "normalize_filesystem_path os path =
     (if path = [] \<or> hd path \<noteq> CHR ''/'' then path
      else case os_realpath os path of Some resolved \<Rightarrow> resolved | None \<Rightarrow> path)"

definition run_command_capture :: "os_env \<Rightarrow> string \<Rightarrow> string + string" where
  "run_command_capture os cmd =
     (case os_popen os cmd of
        None \<Rightarrow> Inl ''popen failed''
      | Some (out, status) \<Rightarrow> Inr (if status \<noteq> 0 then [] else out))"

subsection \<open>Disassembly\<close>

record hot_target =
  ht_pc_offset :: u64
  ht_abs_pc :: u64
  ht_aggregated_samples :: u64
  ht_path :: string
  ht_mnemonic :: string
  ht_operands :: string
  ht_decode :: decode_template

definition objdump_command :: "string \<Rightarrow> string \<Rightarrow> u64 \<Rightarrow> string" where
  "objdump_command tool binary_path pc_offset =
     tool @ '' -d --start-address=0x'' @ hex_u64 pc_offset @ '' --stop-address=0x'' @ hex_u64 (pc_offset + 4) @
     '' '' @ shell_quote binary_path @ '' 2>/dev/null''"

text \<open>The output of the first tool that has one.\<close>

fun first_output :: "os_env \<Rightarrow> string \<Rightarrow> u64 \<Rightarrow> string list \<Rightarrow> string + string" where
  "first_output os binary_path pc_offset [] = Inr []"
| "first_output os binary_path pc_offset (tool # tools) =
     (case run_command_capture os (objdump_command tool binary_path pc_offset) of
        Inl e \<Rightarrow> Inl e
      | Inr output \<Rightarrow> if output \<noteq> [] then Inr output else first_output os binary_path pc_offset tools)"

text \<open>
  One line of the output: \<open>None\<close> when the loop goes on, otherwise the mnemonic and the operands of
  the instruction at the offset.
\<close>

definition disasm_line :: "u64 \<Rightarrow> string \<Rightarrow> (string \<times> string) option" where
  "disasm_line pc_offset line =
     (let t = trim_ascii_space line in
      case find_char (CHR '':'') 0 t of
        None \<Rightarrow> None
      | Some colon \<Rightarrow>
          if fst (strtoull 16 (substr t 0 colon)) \<noteq> pc_offset then None
          else case read_token (trim_ascii_space (drop (colon + 1) t)) of
              None \<Rightarrow> None
            | Some (bytes, r1) \<Rightarrow> (case read_token r1 of
                None \<Rightarrow> None
              | Some (mnemonic, r2) \<Rightarrow> Some (mnemonic, trim_ascii_space r2)))"

fun find_disasm :: "string \<Rightarrow> u64 \<Rightarrow> u64 \<Rightarrow> string list \<Rightarrow> string + hot_target" where
  "find_disasm binary_path pc_offset samples [] =
     Inl (''cannot find disassembly for hotspot PC offset 0x'' @ hex_u64 pc_offset)"
| "find_disasm binary_path pc_offset samples (line # lines) =
     (case disasm_line pc_offset line of
        None \<Rightarrow> find_disasm binary_path pc_offset samples lines
      | Some (mnemonic, operands) \<Rightarrow>
          if mnemonic \<notin> {''ldr'', ''str'', ''ldur'', ''stur''}
          then Inl (quoted ''unsupported hotspot instruction '' mnemonic @ '' at 0x'' @ hex_u64 pc_offset)
          else case decode_from_asm_operands mnemonic operands of
              Inl e \<Rightarrow> Inl e
            | Inr dec \<Rightarrow> Inr \<lparr>ht_pc_offset = pc_offset, ht_abs_pc = 0, ht_aggregated_samples = samples,
                ht_path = binary_path, ht_mnemonic = mnemonic, ht_operands = operands, ht_decode = dec\<rparr>)"

definition decode_target_via_objdump :: "os_env \<Rightarrow> string \<Rightarrow> u64 \<Rightarrow> u64 \<Rightarrow> string + hot_target" where
  "decode_target_via_objdump os binary_path pc_offset samples =
     (case first_output os binary_path pc_offset [''objdump'', ''llvm-objdump''] of
        Inl e \<Rightarrow> Inl e
      | Inr output \<Rightarrow>
          if output = [] then Inl (''cannot disassemble hotspot PC offset 0x'' @ hex_u64 pc_offset)
          else find_disasm binary_path pc_offset samples (lines_of output))"

subsection \<open>The maps file\<close>

text \<open>The fields of an executable mapping: range, file offset, normalised path.\<close>

definition map_line_fields :: "os_env \<Rightarrow> string \<Rightarrow> (string \<times> string \<times> string) option" where
  "map_line_fields os line =
     do {
       (vm_range, r1) \<leftarrow> read_token line;
       (perms, r2) \<leftarrow> read_token r1;
       (offset_hex, r3) \<leftarrow> read_token r2;
       (dev, r4) \<leftarrow> read_token r3;
       (inode, r5) \<leftarrow> read_token r4;
       if length perms < 3 \<or> perms ! 2 \<noteq> CHR ''x'' then None
       else Some (vm_range, offset_hex, normalize_filesystem_path os (trim_ascii_space r5))
     }"

definition map_range :: "string \<Rightarrow> (u64 \<times> u64) option" where
  "map_range vm_range =
     (let (vm_start, dash) = strtoull 16 vm_range
      in if dash = [] \<or> hd dash \<noteq> CHR ''-'' then None else Some (vm_start, fst (strtoull 16 (tl dash))))"

fun resolve_in_lines :: "os_env \<Rightarrow> string \<Rightarrow> u64 \<Rightarrow> string list \<Rightarrow> string + u64" where
  "resolve_in_lines os binary_path pc_offset [] =
     Inl (''cannot resolve current absolute PC for hotspot offset 0x'' @ hex_u64 pc_offset)"
| "resolve_in_lines os binary_path pc_offset (line # lines) =
     (case map_line_fields os line of
        None \<Rightarrow> resolve_in_lines os binary_path pc_offset lines
      | Some (vm_range, offset_hex, path) \<Rightarrow>
          if path \<noteq> binary_path then resolve_in_lines os binary_path pc_offset lines
          else case map_range vm_range of
              None \<Rightarrow> resolve_in_lines os binary_path pc_offset lines
            | Some (vm_start, vm_end) \<Rightarrow>
                let file_offset = fst (strtoull 16 offset_hex); span = vm_end - vm_start in
                if pc_offset < file_offset \<or> pc_offset \<ge> file_offset + span
                then resolve_in_lines os binary_path pc_offset lines
                else Inr (vm_start + (pc_offset - file_offset)))"

definition resolve_absolute_pc :: "os_env \<Rightarrow> string \<Rightarrow> u64 \<Rightarrow> string + u64" where
  "resolve_absolute_pc os binary_path pc_offset =
     (case os_self_maps os of
        None \<Rightarrow> Inl ''cannot open /proc/self/maps''
      | Some text \<Rightarrow> resolve_in_lines os binary_path pc_offset (lines_of text))"

record runtime_module_map =
  mm_module_id :: u32
  mm_vm_start :: u64
  mm_vm_end :: u64
  mm_file_offset :: u64
  mm_path :: string

fun snapshot_lines :: "os_env \<Rightarrow> string list \<Rightarrow> runtime_module_map list \<Rightarrow> runtime_module_map list" where
  "snapshot_lines os [] modules = modules"
| "snapshot_lines os (line # lines) modules =
     snapshot_lines os lines
       (case map_line_fields os line of
          None \<Rightarrow> modules
        | Some (vm_range, offset_hex, path) \<Rightarrow>
            if path = [] then modules
            else case map_range vm_range of
                None \<Rightarrow> modules
              | Some (vm_start, vm_end) \<Rightarrow> modules @
                  [\<lparr>mm_module_id = of_nat (length modules), mm_vm_start = vm_start, mm_vm_end = vm_end,
                    mm_file_offset = fst (strtoull 16 offset_hex), mm_path = path\<rparr>])"

definition snapshot_runtime_module_maps :: "os_env \<Rightarrow> runtime_module_map list" where
  "snapshot_runtime_module_maps os =
     (case os_self_maps os of None \<Rightarrow> [] | Some text \<Rightarrow> snapshot_lines os (lines_of text) [])"

subsection \<open>The manifest\<close>

record aggregated_hotspot =
  ah_sample_count :: u64
  ah_candidate_score :: u64
  ah_has_candidate_score :: bool

type_synonym hotspot = "u64 \<times> aggregated_hotspot"

text \<open>\<^verbatim>\<open>aggregated[pc_offset]\<close> creates a zero entry when there is none.\<close>

fun agg_add :: "u64 \<Rightarrow> (aggregated_hotspot \<Rightarrow> aggregated_hotspot) \<Rightarrow> hotspot list \<Rightarrow> hotspot list" where
  "agg_add pc f [] = [(pc, f \<lparr>ah_sample_count = 0, ah_candidate_score = 0, ah_has_candidate_score = False\<rparr>)]"
| "agg_add pc f ((k, v) # agg) = (if k = pc then (k, f v) # agg else (k, v) # agg_add pc f agg)"

definition add_sample :: "u64 \<Rightarrow> u64 option \<Rightarrow> aggregated_hotspot \<Rightarrow> aggregated_hotspot" where
  "add_sample samples score item =
     (let item1 = item\<lparr>ah_sample_count := ah_sample_count item + samples\<rparr>
      in case score of None \<Rightarrow> item1
         | Some v \<Rightarrow> item1\<lparr>ah_candidate_score := ah_candidate_score item1 + v, ah_has_candidate_score := True\<rparr>)"

fun parse_manifest ::
  "os_env \<Rightarrow> string \<Rightarrow> string list \<Rightarrow> string \<times> hotspot list \<Rightarrow> string + string \<times> hotspot list" where
  "parse_manifest os main_binary [] st = Inr st"
| "parse_manifest os main_binary (line # lines) (manifest_main, agg) =
     (if starts_with ''hotspot_main_binary='' line
      then parse_manifest os main_binary lines
             (normalize_filesystem_path os (drop (length ''hotspot_main_binary='') line), agg)
      else if \<not> starts_with ''hotspot='' line then parse_manifest os main_binary lines (manifest_main, agg)
      else let fields = split_tab (drop (length ''hotspot='') line) in
        if length fields < 6 then Inl ''bad hotspot line in manifest''
        else let samples = fst (strtoull 10 (fields ! 2));
                 pc_offset = fst (strtoull 0 (fields ! 4));
                 path = normalize_filesystem_path os (fields ! 5);
                 score = (if length fields \<ge> 8 then Some (fst (strtoull 10 (fields ! 7))) else None)
             in if path \<noteq> [] \<and> path \<noteq> main_binary
                then Inl (''targeted_rd only supports main binary hotspots; got '' @ path)
                else parse_manifest os main_binary lines
                       (manifest_main, agg_add pc_offset (add_sample samples score) agg))"

subsection \<open>Ordering and selection\<close>

definition hot_score :: "aggregated_hotspot \<Rightarrow> u64" where
  "hot_score a = (if ah_has_candidate_score a then ah_candidate_score a else ah_sample_count a)"

definition hot_before :: "hotspot \<Rightarrow> hotspot \<Rightarrow> bool" where
  "hot_before a b =
     (if hot_score (snd a) \<noteq> hot_score (snd b) then hot_score (snd a) > hot_score (snd b)
      else if ah_sample_count (snd a) \<noteq> ah_sample_count (snd b) then ah_sample_count (snd a) > ah_sample_count (snd b)
      else fst a < fst b)"

record rejected_target =
  rj_pc_offset :: u64
  rj_aggregated_samples :: u64
  rj_reason :: string

record loaded_targets =
  ld_targets :: "hot_target list"
  ld_rejected :: "rejected_target list"
  ld_candidate_target_count :: u32
  ld_capacity_truncated :: u32

definition clamp_u32 :: "nat \<Rightarrow> u32" where
  "clamp_u32 n = of_int (min (int n) (2 ^ 32 - 1))"

text \<open>One candidate: disassemble, decode, relocate.\<close>

definition decode_candidate :: "os_env \<Rightarrow> string \<Rightarrow> hotspot \<Rightarrow> string + hot_target" where
  "decode_candidate os main_binary kv =
     (case decode_target_via_objdump os main_binary (fst kv) (ah_sample_count (snd kv)) of
        Inl e \<Rightarrow> Inl e
      | Inr target \<Rightarrow> (case resolve_absolute_pc os main_binary (fst kv) of
          Inl e \<Rightarrow> Inl e
        | Inr pc \<Rightarrow> Inr (target\<lparr>ht_abs_pc := pc\<rparr>)))"

fun select_targets ::
  "(hotspot \<Rightarrow> string + hot_target) \<Rightarrow> nat \<Rightarrow> hotspot list \<Rightarrow> loaded_targets \<Rightarrow> string + loaded_targets" where
  "select_targets decode cap [] ld = Inr ld"
| "select_targets decode cap (kv # order) ld =
     (if length (ld_targets ld) \<ge> cap
      then Inr (ld\<lparr>ld_capacity_truncated := clamp_u32 (length (kv # order))\<rparr>)
      else case decode kv of
          Inr target \<Rightarrow> select_targets decode cap order (ld\<lparr>ld_targets := ld_targets ld @ [target]\<rparr>)
        | Inl e \<Rightarrow>
            if \<not> is_filterable_hotspot_error e then Inl e
            else select_targets decode cap order (ld\<lparr>ld_rejected := ld_rejected ld @
                   [\<lparr>rj_pc_offset = fst kv, rj_aggregated_samples = ah_sample_count (snd kv), rj_reason = e\<rparr>]\<rparr>))"

text \<open>\<open>walk\<close> is the order in which the hash table is walked; \<open>manifest\<close> is \<open>None\<close> when the file cannot be opened.\<close>

definition load_targets ::
  "os_env \<Rightarrow> (hotspot list \<Rightarrow> hotspot list) \<Rightarrow> string \<Rightarrow> string \<Rightarrow> string option \<Rightarrow> u32 \<Rightarrow> string + loaded_targets" where
  "load_targets os walk target_file main_binary manifest bp_capacity =
     (case manifest of
        None \<Rightarrow> Inl (''cannot open hotspot manifest '' @ target_file)
      | Some text \<Rightarrow> (case parse_manifest os main_binary (lines_of text) ([], []) of
          Inl e \<Rightarrow> Inl e
        | Inr (manifest_main, agg) \<Rightarrow>
            if manifest_main \<noteq> [] \<and> manifest_main \<noteq> main_binary
            then Inl ''hotspot manifest main binary does not match current executable''
            else if agg = [] then Inl (''no hotspots found in '' @ target_file)
            else let order = std_sort hot_before (walk agg) in
              case select_targets (decode_candidate os main_binary) (unat bp_capacity) order
                     \<lparr>ld_targets = [], ld_rejected = [], ld_candidate_target_count = clamp_u32 (length order),
                      ld_capacity_truncated = 0\<rparr> of
                Inl e \<Rightarrow> Inl e
              | Inr ld \<Rightarrow>
                  if ld_targets ld \<noteq> [] then Inr ld
                  else if ld_rejected ld \<noteq> []
                  then Inl (''no supported hotspots remain after filtering unsupported targets from '' @ target_file)
                  else Inl (''no supported hotspots found in '' @ target_file)))"

subsection \<open>The order is total, so the walk does not matter\<close>

definition hot_key :: "hotspot \<Rightarrow> int \<times> int \<times> int" where
  "hot_key a = (- uint (hot_score (snd a)), - uint (ah_sample_count (snd a)), uint (fst a))"

lemma hot_before_key: "hot_before a b \<longleftrightarrow> hot_key a < hot_key b"
  by (auto simp: hot_before_def hot_key_def word_less_def word_uint_eq_iff)

interpretation hot: sort_by_key hot_before hot_key
  by unfold_locales (rule hot_before_key)

lemma hot_key_inj: "distinct (map fst xs) \<Longrightarrow> inj_on hot_key (set xs)"
  by (auto simp: distinct_map inj_on_def hot_key_def intro: word_uint_eqI)

lemma std_sort_strict: "distinct (map fst xs) \<Longrightarrow> sorted_wrt hot_before (std_sort hot_before xs)"
  by (intro hot.sorted_strict hot_key_inj) (simp_all add: distinct_map)

lemma std_sort_walk: "mset ys = mset xs \<Longrightarrow> distinct (map fst xs) \<Longrightarrow> std_sort hot_before ys = std_sort hot_before xs"
  by (intro hot.permutation hot_key_inj)

subsection \<open>Aggregation\<close>

definition samples_of :: "hotspot list \<Rightarrow> u64 \<Rightarrow> u64" where
  "samples_of agg pc = (case map_of agg pc of None \<Rightarrow> 0 | Some a \<Rightarrow> ah_sample_count a)"

lemma agg_add_keys: "distinct (map fst agg) \<Longrightarrow> distinct (map fst (agg_add pc f agg)) \<and> set (map fst (agg_add pc f agg)) = insert pc (set (map fst agg))"
proof (induction agg)
  case (Cons kv agg)
  then show ?case by (cases kv) auto
qed simp

lemma map_of_agg_add:
  "map_of (agg_add pc f agg) k =
     (if k = pc then Some (f (case map_of agg pc of Some a \<Rightarrow> a
        | None \<Rightarrow> \<lparr>ah_sample_count = 0, ah_candidate_score = 0, ah_has_candidate_score = False\<rparr>)) else map_of agg k)"
proof (induction agg)
  case (Cons kv agg)
  then show ?case by (cases kv) auto
qed simp

lemma add_sample_count: "ah_sample_count (add_sample n score a) = ah_sample_count a + n"
  by (simp add: add_sample_def Let_def split: option.split)

lemma samples_of_add:
  "samples_of (agg_add pc (add_sample n score) agg) k = samples_of agg k + (if k = pc then n else 0)"
  by (simp add: samples_of_def map_of_agg_add add_sample_count split: option.split)

text \<open>What a line of the manifest contributes: an offset and a number of samples.\<close>

definition line_samples :: "string \<Rightarrow> u64 \<Rightarrow> u64" where
  "line_samples line pc =
     (if starts_with ''hotspot_main_binary='' line \<or> \<not> starts_with ''hotspot='' line then 0
      else let fields = split_tab (drop (length ''hotspot='') line)
           in if fst (strtoull 0 (fields ! 4)) = pc then fst (strtoull 10 (fields ! 2)) else 0)"

lemma parse_manifest_aggregates:
  assumes "parse_manifest os mb lines (mm, agg) = Inr (mm', agg')" "distinct (map fst agg)"
  shows "distinct (map fst agg') \<and>
    (\<forall>pc. samples_of agg' pc = samples_of agg pc + sum_list (map (\<lambda>l. line_samples l pc) lines))"
  using assms
proof (induction lines arbitrary: mm agg)
  case (Cons line lines)
  let ?fields = "split_tab (drop (length ''hotspot='') line)"
  show ?case
  proof (cases "starts_with ''hotspot_main_binary='' line \<or> \<not> starts_with ''hotspot='' line")
    case True
    then obtain mm1 where "parse_manifest os mb lines (mm1, agg) = Inr (mm', agg')"
      using Cons.prems(1) by (auto split: if_splits)
    from Cons.IH [OF this Cons.prems(2)] True show ?thesis by (simp add: line_samples_def)
  next
    case False
    define score where "score = (if length ?fields \<ge> 8 then Some (fst (strtoull 10 (?fields ! 7))) else None)"
    define agg1 where "agg1 = agg_add (fst (strtoull 0 (?fields ! 4))) (add_sample (fst (strtoull 10 (?fields ! 2))) score) agg"
    have step: "parse_manifest os mb lines (mm, agg1) = Inr (mm', agg')"
      using Cons.prems(1) False by (auto simp: agg1_def score_def Let_def split: if_splits)
    have keys: "distinct (map fst agg1)" using agg_add_keys [OF Cons.prems(2)] unfolding agg1_def by blast
    have "line_samples line pc = (if pc = fst (strtoull 0 (?fields ! 4)) then fst (strtoull 10 (?fields ! 2)) else 0)" for pc
      using False by (auto simp: line_samples_def Let_def)
    then show ?thesis using Cons.IH [OF step keys] by (simp add: agg1_def samples_of_add add.assoc)
  qed
qed simp

subsection \<open>Selection\<close>

definition ok_target :: "(hotspot \<Rightarrow> string + hot_target) \<Rightarrow> hotspot \<Rightarrow> hot_target option" where
  "ok_target decode kv = (case decode kv of Inr t \<Rightarrow> Some t | Inl _ \<Rightarrow> None)"

definition bad_target :: "(hotspot \<Rightarrow> string + hot_target) \<Rightarrow> hotspot \<Rightarrow> rejected_target option" where
  "bad_target decode kv = (case decode kv of Inr _ \<Rightarrow> None
     | Inl e \<Rightarrow> Some \<lparr>rj_pc_offset = fst kv, rj_aggregated_samples = ah_sample_count (snd kv), rj_reason = e\<rparr>)"

lemma decided:
  "decode kv = Inr t \<Longrightarrow> ok_target decode kv = Some t \<and> bad_target decode kv = None"
  "decode kv = Inl e \<Longrightarrow> ok_target decode kv = None \<and> bad_target decode kv =
     Some \<lparr>rj_pc_offset = fst kv, rj_aggregated_samples = ah_sample_count (snd kv), rj_reason = e\<rparr>"
  by (simp_all add: ok_target_def bad_target_def)

text \<open>
  The selection considers a prefix of the order; what it decodes is kept, what it cannot decode is
  rejected with a reason that concerns only this candidate, and it leaves a rest only when the
  capacity is reached.
\<close>

lemma select_targets_spec:
  assumes "select_targets decode cap order ld = Inr ld'" "length (ld_targets ld) \<le> cap"
  obtains taken rest where "order = taken @ rest"
    "ld_targets ld' = ld_targets ld @ List.map_filter (ok_target decode) taken"
    "ld_rejected ld' = ld_rejected ld @ List.map_filter (bad_target decode) taken"
    "length (ld_targets ld') \<le> cap" "ld_candidate_target_count ld' = ld_candidate_target_count ld"
    "rest = [] \<and> ld_capacity_truncated ld' = ld_capacity_truncated ld \<or>
     rest \<noteq> [] \<and> length (ld_targets ld') = cap \<and> ld_capacity_truncated ld' = clamp_u32 (length rest)"
    "\<forall>kv\<in>set taken. \<forall>e. decode kv = Inl e \<longrightarrow> is_filterable_hotspot_error e"
  using assms
proof (induction order arbitrary: ld thesis)
  case Nil
  then show ?case by (intro Nil(1) [of "[]" "[]"]) (simp_all add: List.map_filter_simps)
next
  case (Cons kv order)
  show ?case
  proof (cases "cap \<le> length (ld_targets ld)")
    case True
    with Cons.prems(2,3) show ?thesis by (intro Cons.prems(1) [of "[]" "kv # order"]) (auto simp: List.map_filter_simps)
  next
    case False
    show ?thesis
    proof (cases "decode kv")
      case (Inr t)
      let ?ld = "ld\<lparr>ld_targets := ld_targets ld @ [t]\<rparr>"
      obtain taken rest where IH: "order = taken @ rest"
        "ld_targets ld' = ld_targets ?ld @ List.map_filter (ok_target decode) taken"
        "ld_rejected ld' = ld_rejected ?ld @ List.map_filter (bad_target decode) taken"
        "length (ld_targets ld') \<le> cap" "ld_candidate_target_count ld' = ld_candidate_target_count ?ld"
        "rest = [] \<and> ld_capacity_truncated ld' = ld_capacity_truncated ?ld \<or>
         rest \<noteq> [] \<and> length (ld_targets ld') = cap \<and> ld_capacity_truncated ld' = clamp_u32 (length rest)"
        "\<forall>kv\<in>set taken. \<forall>e. decode kv = Inl e \<longrightarrow> is_filterable_hotspot_error e"
        using Cons.IH [of ?ld] Cons.prems(2) False Inr by (auto simp: not_le)
      then show ?thesis using Inr
        by (intro Cons.prems(1) [of "kv # taken" rest]) (auto simp: List.map_filter_simps decided(1))
    next
      case (Inl e)
      let ?r = "\<lparr>rj_pc_offset = fst kv, rj_aggregated_samples = ah_sample_count (snd kv), rj_reason = e\<rparr>"
      let ?ld = "ld\<lparr>ld_rejected := ld_rejected ld @ [?r]\<rparr>"
      have f: "is_filterable_hotspot_error e" using Cons.prems(2) False Inl by (auto split: if_splits)
      obtain taken rest where IH: "order = taken @ rest"
        "ld_targets ld' = ld_targets ?ld @ List.map_filter (ok_target decode) taken"
        "ld_rejected ld' = ld_rejected ?ld @ List.map_filter (bad_target decode) taken"
        "length (ld_targets ld') \<le> cap" "ld_candidate_target_count ld' = ld_candidate_target_count ?ld"
        "rest = [] \<and> ld_capacity_truncated ld' = ld_capacity_truncated ?ld \<or>
         rest \<noteq> [] \<and> length (ld_targets ld') = cap \<and> ld_capacity_truncated ld' = clamp_u32 (length rest)"
        "\<forall>kv\<in>set taken. \<forall>e. decode kv = Inl e \<longrightarrow> is_filterable_hotspot_error e"
        using Cons.IH [of ?ld] Cons.prems(2) False Inl f by (auto simp: not_le)
      then show ?thesis using Inl f
        by (intro Cons.prems(1) [of "kv # taken" rest]) (auto simp: List.map_filter_simps decided(2))
    qed
  qed
qed

lemma ok_bad_split:
  "length (List.map_filter (ok_target d) xs) + length (List.map_filter (bad_target d) xs) = length xs"
proof (induction xs)
  case (Cons kv xs)
  then show ?case by (cases "d kv") (simp_all add: List.map_filter_simps decided)
qed (simp add: List.map_filter_simps)

subsection \<open>A loaded target\<close>

lemma find_disasm_ok:
  "find_disasm bp pc n lines = Inr t \<Longrightarrow> ht_pc_offset t = pc \<and> ht_aggregated_samples t = n \<and> template_ok (ht_decode t)"
proof (induction lines)
  case (Cons line lines)
  show ?case
  proof (cases "disasm_line pc line")
    case None
    with Cons show ?thesis by simp
  next
    case (Some mo)
    obtain m ops where mo: "mo = (m, ops)" by fastforce
    with Cons.prems Some obtain dec where "decode_from_asm_operands m ops = Inr dec"
      "ht_pc_offset t = pc" "ht_aggregated_samples t = n" "ht_decode t = dec"
      by (auto simp del: insert_iff split: if_splits sum.splits)
    then show ?thesis using decoded_template_ok [of m ops dec] by simp
  qed
qed simp

lemma decode_candidate_ok:
  assumes "decode_candidate os mb kv = Inr t"
  shows "ht_pc_offset t = fst kv \<and> ht_aggregated_samples t = ah_sample_count (snd kv) \<and> template_ok (ht_decode t) \<and>
    resolve_absolute_pc os mb (fst kv) = Inr (ht_abs_pc t)"
  using assms by (auto simp: decode_candidate_def decode_target_via_objdump_def split: sum.splits if_splits dest: find_disasm_ok)

text \<open>A line of the maps file that relocates an offset to an address.\<close>

definition maps_to :: "os_env \<Rightarrow> string \<Rightarrow> u64 \<Rightarrow> u64 \<Rightarrow> string \<Rightarrow> bool" where
  "maps_to os binary_path pc_offset pc line \<longleftrightarrow>
     (\<exists>r offset_hex vm_start vm_end. map_line_fields os line = Some (r, offset_hex, binary_path) \<and>
        map_range r = Some (vm_start, vm_end) \<and> fst (strtoull 16 offset_hex) \<le> pc_offset \<and>
        pc_offset < fst (strtoull 16 offset_hex) + (vm_end - vm_start) \<and>
        pc = vm_start + (pc_offset - fst (strtoull 16 offset_hex)))"

lemma resolve_in_lines_maps:
  "resolve_in_lines os bp off lines = Inr pc \<Longrightarrow> \<exists>line\<in>set lines. maps_to os bp off pc line"
proof (induction lines)
  case (Cons line lines)
  show ?case
  proof (cases "\<exists>pc'. maps_to os bp off pc' line")
    case True
    then have "maps_to os bp off pc line" using Cons.prems by (auto simp: maps_to_def Let_def not_less [symmetric])
    then show ?thesis by simp
  next
    case False
    then have "resolve_in_lines os bp off lines = Inr pc"
      using Cons.prems by (auto simp: maps_to_def Let_def not_less split: option.splits if_splits)
    with Cons.IH show ?thesis by auto
  qed
qed simp

text \<open>In a mapping whose bounds are in order and whose file range does not wrap, the address lies inside.\<close>

lemma maps_to_inside:
  fixes fo off vs ve pc :: u64
  assumes "fo \<le> off" "off < fo + (ve - vs)" "pc = vs + (off - fo)" "vs \<le> ve" "unat fo + unat (ve - vs) < 2 ^ 64"
  shows "vs \<le> pc \<and> pc < ve \<and> pc - vs = off - fo"
proof -
  have d: "unat (ve - vs) = unat ve - unat vs" using assms(4) by (simp add: unat_sub)
  have "unat (fo + (ve - vs)) = unat fo + unat (ve - vs)" using assms(5) by (simp add: unat_add_lem [THEN iffD1])
  then have lt: "unat off < unat fo + (unat ve - unat vs)" using assms(2) d by (simp add: word_less_nat_alt)
  have o: "unat (off - fo) = unat off - unat fo" using assms(1) by (simp add: unat_sub)
  have le: "unat fo \<le> unat off" "unat vs \<le> unat ve" using assms(1,4) by (simp_all add: word_le_nat_alt)
  have "unat ve < 2 ^ 64" by (rule order_less_le_trans [OF unsigned_less]) simp
  then have "unat vs + unat (off - fo) < 2 ^ 64" using o lt le by linarith
  then have "unat pc = unat vs + (unat off - unat fo)" unfolding assms(3) o [symmetric]
    by (simp add: unat_add_lem [THEN iffD1])
  then have "unat vs \<le> unat pc \<and> unat pc < unat ve" using lt le by linarith
  then show ?thesis using assms(3) by (simp add: word_le_nat_alt word_less_nat_alt)
qed

subsection \<open>The whole load\<close>

lemma map_filter_pcs:
  "(\<And>kv t. d kv = Inr t \<Longrightarrow> ht_pc_offset t = fst kv) \<Longrightarrow>
   map ht_pc_offset (List.map_filter (ok_target d) xs) = map fst (filter (\<lambda>kv. ok_target d kv \<noteq> None) xs) \<and>
   map rj_pc_offset (List.map_filter (bad_target d) xs) = map fst (filter (\<lambda>kv. ok_target d kv = None) xs)"
proof (induction xs)
  case (Cons kv xs)
  then show ?case by (cases "d kv") (simp_all add: List.map_filter_simps decided)
qed (simp add: List.map_filter_simps)

lemma unat_clamp_u32: "n < 2 ^ 32 \<Longrightarrow> unat (clamp_u32 n) = n"
  by (simp add: clamp_u32_def min_def unat_of_nat take_bit_nat_eq_self)

lemma load_targets_spec:
  assumes "load_targets os walk tf mb (Some text) cap = Inr ld" "\<And>xs. mset (walk xs) = mset xs"
  obtains mm agg taken rest where
    "parse_manifest os mb (lines_of text) ([], []) = Inr (mm, agg)" "distinct (map fst agg)"
    "std_sort hot_before agg = taken @ rest" "ld_targets ld \<noteq> []" "length (ld_targets ld) \<le> unat cap"
    "ld_targets ld = List.map_filter (ok_target (decode_candidate os mb)) taken"
    "ld_rejected ld = List.map_filter (bad_target (decode_candidate os mb)) taken"
    "ld_candidate_target_count ld = clamp_u32 (length (taken @ rest))"
    "rest = [] \<and> ld_capacity_truncated ld = 0 \<or>
     rest \<noteq> [] \<and> length (ld_targets ld) = unat cap \<and> ld_capacity_truncated ld = clamp_u32 (length rest)"
    "\<forall>kv\<in>set taken. \<forall>e. decode_candidate os mb kv = Inl e \<longrightarrow> is_filterable_hotspot_error e"
proof -
  from assms(1) obtain mm agg where pm: "parse_manifest os mb (lines_of text) ([], []) = Inr (mm, agg)"
    by (auto simp: load_targets_def split: sum.splits if_splits)
  have d: "distinct (map fst agg)" using parse_manifest_aggregates [OF pm] by simp
  have so: "std_sort hot_before (walk agg) = std_sort hot_before agg"
    by (rule std_sort_walk [OF assms(2) d])
  let ?z = "\<lparr>ld_targets = [], ld_rejected = [], ld_candidate_target_count = clamp_u32 (length (std_sort hot_before agg)),
      ld_capacity_truncated = 0\<rparr>"
  have sel: "select_targets (decode_candidate os mb) (unat cap) (std_sort hot_before agg) ?z = Inr ld" "ld_targets ld \<noteq> []"
    using assms(1) pm by (auto simp: load_targets_def so Let_def split: sum.splits if_splits)
  from select_targets_spec [OF sel(1)] obtain taken rest where t: "std_sort hot_before agg = taken @ rest"
    "ld_targets ld = ld_targets ?z @ List.map_filter (ok_target (decode_candidate os mb)) taken"
    "ld_rejected ld = ld_rejected ?z @ List.map_filter (bad_target (decode_candidate os mb)) taken"
    "length (ld_targets ld) \<le> unat cap" "ld_candidate_target_count ld = ld_candidate_target_count ?z"
    "rest = [] \<and> ld_capacity_truncated ld = ld_capacity_truncated ?z \<or>
     rest \<noteq> [] \<and> length (ld_targets ld) = unat cap \<and> ld_capacity_truncated ld = clamp_u32 (length rest)"
    "\<forall>kv\<in>set taken. \<forall>e. decode_candidate os mb kv = Inl e \<longrightarrow> is_filterable_hotspot_error e" by auto
  show thesis by (rule that [of mm agg taken rest]) (use pm d t sel(2) in simp_all)
qed

end
