(* ===== verification/User_Demo.thy ===== *)
theory User_Demo
  imports Targets
begin

text \<open>
  A small operating system environment and a hotspot list, on which the properties of the
  user-space side are exercised: one instruction that can be decoded and one that cannot.
\<close>

definition demo_os :: os_env where
  "demo_os = \<lparr>os_realpath = (\<lambda>p. None),
     os_popen = (\<lambda>cmd. if starts_with ''objdump'' cmd
       then Some (''  14:	f9400020 	ldr	x0, [x1]
  18:	a9400440 	ldp	x0, x1, [x2]'', 0) else None),
     os_self_maps = Some ''80-c0 r-xp 10 08:01 77 /bin/app''\<rparr>"

definition demo_manifest :: string where
  "demo_manifest = ''hotspot_main_binary=/bin/app
hotspot=0	1	5	x	0x14	/bin/app
hotspot=1	1	3	x	0x14	/bin/app
hotspot=2	1	7	x	0x18	/bin/app''"

definition demo_target_list :: "hot_target list" where
  "demo_target_list = [\<lparr>ht_pc_offset = 0x14, ht_abs_pc = 0x84, ht_aggregated_samples = 8, ht_path = ''/bin/app'',
     ht_mnemonic = ''ldr'', ht_operands = ''x0, [x1]'', ht_decode = dt_init\<lparr>dt_access_size := 8, dt_base_reg := 1\<rparr>\<rparr>]"

definition demo_rejected :: "rejected_target list" where
  "demo_rejected = [\<lparr>rj_pc_offset = 0x18, rj_aggregated_samples = 7, rj_reason = quoted ''unsupported hotspot instruction '' ''ldp'' @ '' at 0x18''\<rparr>]"

lemma demo_load_targets:
  "load_targets demo_os id ''app.hotpc'' ''/bin/app'' (Some demo_manifest) 2 = Inr
     \<lparr>ld_targets = demo_target_list, ld_rejected = demo_rejected, ld_candidate_target_count = 2, ld_capacity_truncated = 0\<rparr>"
  by code_simp

end
