(* ===== verification/Decode_Correct.thy ===== *)
theory Decode_Correct
  imports Decode
begin

text \<open>
  The operand syntax that the decoder is written for, as a reference: registers and addressing
  forms as data, how a disassembler prints them, and the address that the architecture gives
  them.  The decoder reads the printed form back, the kernel module accepts the result, and
  the address it computes is the architectural one.
\<close>

subsection \<open>Operands as data\<close>

datatype gpr = Xr nat | Wr nat | Sp | Xzr | Wzr

datatype amode =
    Off gpr
  | OffImm gpr int
  | OffReg gpr gpr
  | OffExt gpr gpr string "nat option"

fun print_gpr :: "gpr \<Rightarrow> string" where
  "print_gpr (Xr n) = CHR ''x'' # show_dec n"
| "print_gpr (Wr n) = CHR ''w'' # show_dec n"
| "print_gpr Sp = ''sp''"
| "print_gpr Xzr = ''xzr''"
| "print_gpr Wzr = ''wzr''"

definition print_int :: "int \<Rightarrow> string" where
  "print_int i = (if i < 0 then CHR ''-'' # show_dec (nat (- i)) else show_dec (nat i))"

fun print_items :: "amode \<Rightarrow> string list" where
  "print_items (Off b) = [print_gpr b]"
| "print_items (OffImm b i) = [print_gpr b, CHR ''#'' # print_int i]"
| "print_items (OffReg b r) = [print_gpr b, print_gpr r]"
| "print_items (OffExt b r e None) = [print_gpr b, print_gpr r, e]"
| "print_items (OffExt b r e (Some k)) = [print_gpr b, print_gpr r, e @ '' #'' @ show_dec k]"

text \<open>\<^verbatim>\<open>[x1, x2, lsl #3]\<close>: the items with a comma and a space between them.\<close>

fun join_items :: "string list \<Rightarrow> string" where
  "join_items [] = []"
| "join_items [p] = p"
| "join_items (p # ps) = p @ '', '' @ join_items ps"

definition print_operands :: "string \<Rightarrow> amode \<Rightarrow> string" where
  "print_operands dest a = dest @ '', ['' @ join_items (print_items a) @ '']''"

text \<open>The operands that a supported instruction can have.\<close>

fun base_ok :: "gpr \<Rightarrow> bool" where
  "base_ok (Xr n) = (n \<le> 30)" | "base_ok Sp = True" | "base_ok _ = False"

fun index_ok :: "gpr \<Rightarrow> bool" where
  "index_ok (Xr n) = (n \<le> 30)" | "index_ok (Wr n) = (n \<le> 29)" | "index_ok Sp = False" | "index_ok _ = True"

fun amode_ok :: "amode \<Rightarrow> bool" where
  "amode_ok (Off b) = base_ok b"
| "amode_ok (OffImm b i) = (base_ok b \<and> - (2 ^ 31) \<le> i \<and> i < 2 ^ 31)"
| "amode_ok (OffReg b r) = (base_ok b \<and> index_ok r)"
| "amode_ok (OffExt b r e k) = (base_ok b \<and> index_ok r \<and> extend_of_op e \<noteq> None \<and>
     (case k of None \<Rightarrow> True | Some n \<Rightarrow> n < 64))"

text \<open>The architectural address.\<close>

fun gpr_val :: "pt_regs \<Rightarrow> gpr \<Rightarrow> u64" where
  "gpr_val regs (Xr n) = gregs regs n"
| "gpr_val regs (Wr n) = ucast (ucast (gregs regs n) :: u32)"
| "gpr_val regs Sp = regs_sp regs"
| "gpr_val regs _ = 0"

definition ext_val :: "string \<Rightarrow> u64 \<Rightarrow> int" where
  "ext_val e raw = (if e = ''uxtw'' then uint (ucast raw :: u32) else if e = ''sxtw'' then sint (ucast raw :: s32)
     else if e = ''sxtx'' then sint raw else uint raw)"

fun reg64 :: "gpr \<Rightarrow> gpr" where
  "reg64 (Wr n) = Xr n" | "reg64 r = r"

fun amode_addr :: "pt_regs \<Rightarrow> amode \<Rightarrow> int" where
  "amode_addr regs (Off b) = uint (gpr_val regs b)"
| "amode_addr regs (OffImm b i) = uint (gpr_val regs b) + i"
| "amode_addr regs (OffReg b r) = uint (gpr_val regs b) + uint (gpr_val regs r)"
| "amode_addr regs (OffExt b r e k) = uint (gpr_val regs b) +
     (if e = ''lsl'' then uint (gpr_val regs r) else ext_val e (gpr_val regs (reg64 r))) *
     2 ^ (case k of None \<Rightarrow> 0 | Some n \<Rightarrow> n)"

text \<open>The template for an operand, and the size that a destination register stands for.\<close>

fun gpr_no :: "gpr \<Rightarrow> int" where
  "gpr_no (Xr n) = int n" | "gpr_no (Wr n) = int n" | "gpr_no Sp = 31" | "gpr_no _ = -1"

definition with_base :: "int \<Rightarrow> gpr \<Rightarrow> decode_template" where
  "with_base bytes b = dt_init\<lparr>dt_access_size := bytes, dt_base_reg := gpr_no b, dt_base_is_sp := (b = Sp)\<rparr>"

definition with_index :: "int \<Rightarrow> gpr \<Rightarrow> gpr \<Rightarrow> decode_template" where
  "with_index bytes b r = (with_base bytes b)\<lparr>dt_has_index := True, dt_index_reg := gpr_no r,
     dt_index_is_32 := (case r of Wr _ \<Rightarrow> True | Wzr \<Rightarrow> True | _ \<Rightarrow> False), dt_index_is_zero := (r = Xzr \<or> r = Wzr)\<rparr>"

fun template_of :: "int \<Rightarrow> amode \<Rightarrow> decode_template" where
  "template_of bytes (Off b) = with_base bytes b"
| "template_of bytes (OffImm b i) = (with_base bytes b)\<lparr>dt_has_imm := True, dt_imm := word_of_int i\<rparr>"
| "template_of bytes (OffReg b r) = with_index bytes b r"
| "template_of bytes (OffExt b r e k) = (with_index bytes b r)\<lparr>dt_extend := the (extend_of_op e),
     dt_shift := of_nat (case k of None \<Rightarrow> 0 | Some n \<Rightarrow> n)\<rparr>"

subsection \<open>Registers\<close>

lemma last_show_dec: "is_digit 10 (last (show_dec n))"
  using set_show_dec [of "last (show_dec n)" n] by simp

lemma trim_print_gpr [simp]: "trim_ascii_space (print_gpr r) = print_gpr r"
proof (rule trim_id)
  show "print_gpr r = [] \<or> \<not> isspace (hd (print_gpr r)) \<and> \<not> isspace (last (print_gpr r))"
    using last_show_dec digit_not_space by (cases r) (auto simp: isspace_def)
qed

lemma strtoll_show_dec: "n < 2 ^ 63 \<Longrightarrow> strtoll 10 (show_dec n) = (int n, [])"
  using strto_show_dec [of "[]" n] by (simp add: strtoll_def)

lemma show_dec_30: "show_dec 30 = ''30''"
  unfolding show_dec_def by code_simp

lemma show_dec_not_name: "show_dec n \<noteq> ''zr''" "show_dec n \<noteq> ''p''"
proof -
  have "\<not> is_digit 10 (CHR ''z'')" "\<not> is_digit 10 (CHR ''p'')" by code_simp+
  then show "show_dec n \<noteq> ''zr''" "show_dec n \<noteq> ''p''" using set_show_dec [of _ n] by force+
qed

lemma length_show_dec: "1 \<le> length (show_dec n)"
  using show_dec_nonempty [of n] by (cases "show_dec n") auto

lemma parse_reg_num:
  assumes "c = CHR ''x'' \<or> c = CHR ''w''" "n \<le> 29"
  shows "parse_reg_name (c # show_dec n) = Some (int n, False, c = CHR ''w'', False)"
proof -
  have "trim_ascii_space (c # show_dec n) = c # show_dec n"
    using trim_print_gpr [of "Xr n"] trim_print_gpr [of "Wr n"] assms(1) by auto
  moreover have "strtoll 10 (show_dec n) = (int n, [])" using assms(2) by (intro strtoll_show_dec) simp
  ultimately show ?thesis using assms show_dec_not_name [of n] length_show_dec [of n]
    by (auto simp: parse_reg_name_def)
qed

lemma parse_print_gpr:
  assumes "base_ok r \<or> index_ok r"
  shows "parse_reg_name (print_gpr r) =
    Some (gpr_no r, r = Sp, case r of Wr _ \<Rightarrow> True | Wzr \<Rightarrow> True | _ \<Rightarrow> False, r = Xzr \<or> r = Wzr)"
proof (cases r)
  case (Xr n)
  show ?thesis
  proof (cases "n \<le> 29")
    case True
    with Xr parse_reg_num [of "CHR ''x''" n] show ?thesis by simp
  next
    case False
    with assms Xr have "n = 30" by auto
    moreover have "parse_reg_name ''x30'' = Some (30, False, False, False)" by code_simp
    ultimately show ?thesis using Xr by (simp add: show_dec_30)
  qed
next
  case (Wr n)
  with assms parse_reg_num [of "CHR ''w''" n] show ?thesis by simp
next
  case Sp
  moreover have "parse_reg_name ''sp'' = Some (31, True, False, False)" by code_simp
  ultimately show ?thesis by simp
next
  case Xzr
  moreover have "parse_reg_name ''xzr'' = Some (-1, False, False, True)" by code_simp
  ultimately show ?thesis by simp
next
  case Wzr
  moreover have "parse_reg_name ''wzr'' = Some (-1, False, True, True)" by code_simp
  ultimately show ?thesis by simp
qed

subsection \<open>Items\<close>

lemma trim_spaces_append: "\<forall>c\<in>set pre. isspace c \<Longrightarrow> trim_ascii_space (pre @ s) = trim_ascii_space s"
  by (induction pre) auto

lemma spaces_only:
  assumes "\<forall>c\<in>set pre. c = CHR '' ''"
  shows "CHR '','' \<notin> set pre" "\<forall>c\<in>set pre. isspace c"
proof
  assume "CHR '','' \<in> set pre"
  with assms have "CHR '','' = CHR '' ''" by blast
  then show False by simp
next
  show "\<forall>c\<in>set pre. isspace c" using assms by (simp add: isspace_def)
qed

lemma split_comma_join:
  assumes "ps \<noteq> []" "\<forall>p\<in>set ps. p \<noteq> [] \<and> CHR '','' \<notin> set p \<and> trim_ascii_space p = p"
    and "\<forall>c\<in>set pre. c = CHR '' ''"
  shows "split_comma (pre @ join_items ps) = ps"
  using assms
proof (induction ps arbitrary: pre rule: join_items.induct)
  case 1
  then show ?case by simp
next
  case (2 p)
  then have p: "p \<noteq> []" "CHR '','' \<notin> set p" "trim_ascii_space p = p" by simp_all
  note sp = spaces_only [OF "2.prems"(3)]
  have "getline_all (CHR '','') (pre @ p) = [pre @ p]" by (rule getline_all_last) (simp_all add: p(1,2) sp(1))
  with trim_spaces_append [OF sp(2), of p] p(3) show ?case by (simp add: split_comma_def)
next
  case (3 p q ps)
  then have p: "CHR '','' \<notin> set p" "trim_ascii_space p = p" by simp_all
  note sp = spaces_only [OF "3.prems"(3)]
  have "CHR '','' \<notin> set (pre @ p)" by (simp add: p(1) sp(1))
  then have g: "getline_all (CHR '','') ((pre @ p) @ CHR '','' # '' '' @ join_items (q # ps)) =
      (pre @ p) # getline_all (CHR '','') ('' '' @ join_items (q # ps))" by (rule getline_all_Cons)
  have "split_comma ('' '' @ join_items (q # ps)) = q # ps" by (rule "3.IH") (use "3.prems"(2) in simp_all)
  then show ?case using g trim_spaces_append [OF sp(2), of p] p(2) by (simp add: split_comma_def)
qed

lemma not_digits:
  "\<not> is_digit 10 (CHR '','')" "\<not> is_digit 10 (CHR '']'')" "\<not> is_digit 10 (CHR '' '')" "\<not> is_digit 10 (CHR ''['')"
  "\<not> is_digit 10 (CHR ''#'')"
  by (simp_all add: is_digit_def digit_val_def)

definition clean :: "string \<Rightarrow> bool" where
  "clean p \<longleftrightarrow> p \<noteq> [] \<and> CHR '','' \<notin> set p \<and> CHR '']'' \<notin> set p \<and> \<not> isspace (hd p) \<and> \<not> isspace (last p)"

lemma cleanD: "clean p \<Longrightarrow> p \<noteq> [] \<and> CHR '','' \<notin> set p \<and> CHR '']'' \<notin> set p \<and> trim_ascii_space p = p"
  by (simp add: clean_def trim_id)

lemma show_dec_clean: "clean (show_dec n)"
proof -
  have "\<not> isspace (hd (show_dec n))" "\<not> isspace (last (show_dec n))"
    by (rule digit_not_space, rule set_show_dec [of _ n], simp)+
  moreover have "CHR '','' \<notin> set (show_dec n)" "CHR '']'' \<notin> set (show_dec n)"
    using set_show_dec [of _ n] not_digits by metis+
  ultimately show ?thesis by (simp add: clean_def)
qed

lemma clean_append: "p \<noteq> [] \<Longrightarrow> CHR '','' \<notin> set p \<Longrightarrow> CHR '']'' \<notin> set p \<Longrightarrow> \<not> isspace (hd p) \<Longrightarrow> clean q \<Longrightarrow> clean (p @ q)"
  by (auto simp: clean_def)

lemma print_gpr_clean: "clean (print_gpr r)"
proof (cases r)
  case (Xr n)
  with clean_append [of "''x''" "show_dec n"] show_dec_clean show ?thesis by (simp add: isspace_def)
next
  case (Wr n)
  with clean_append [of "''w''" "show_dec n"] show_dec_clean show ?thesis by (simp add: isspace_def)
qed (simp_all add: clean_def isspace_def)

lemma print_int_clean: "clean (CHR ''#'' # print_int i)"
  using clean_append [of "''#''" "show_dec (nat i)"] clean_append [of "''#-''" "show_dec (nat (- i))"] show_dec_clean
  by (simp add: print_int_def isspace_def)

lemma extend_names: "extend_of_op e \<noteq> None \<Longrightarrow> e \<in> {''lsl'', ''uxtw'', ''sxtw'', ''uxtx'', ''sxtx''}"
  by (auto simp: extend_of_op_def split: if_splits)

lemma extend_clean:
  assumes "extend_of_op e \<noteq> None"
  shows "clean e" "CHR '' '' \<notin> set e" "clean (e @ '' #'' @ show_dec k)"
proof -
  show e: "clean e" "CHR '' '' \<notin> set e" using extend_names [OF assms] by (auto simp: clean_def isspace_def)
  have "clean ((e @ '' #'') @ show_dec k)"
    by (rule clean_append) (use e show_dec_clean in \<open>auto simp: clean_def\<close>)
  then show "clean (e @ '' #'' @ show_dec k)" by simp
qed

lemma print_items_clean:
  "amode_ok a \<Longrightarrow> print_items a \<noteq> [] \<and> (\<forall>p\<in>set (print_items a). clean p)"
  by (induction a rule: print_items.induct) (auto simp: print_gpr_clean print_int_clean extend_clean extend_clean(3) [simplified])

lemma strtoll0_print_int:
  assumes "- (2 ^ 31) \<le> i" "i < 2 ^ 31"
  shows "fst (strtoll 0 (print_int i)) = i"
proof (cases "i < 0")
  case False
  with assms strto0_show_dec [of "nat i"] show ?thesis by (simp add: strtoll_def print_int_def)
next
  case True
  have "is_digit 10 (hd (show_dec (nat (- i))))" using set_show_dec [of "hd (show_dec (nat (- i)))" "nat (- i)"] by simp
  then have ws: "dropWhile isspace (show_dec (nat (- i))) = show_dec (nat (- i))"
    and sg: "strip_sign (show_dec (nat (- i))) = (False, show_dec (nat (- i)))"
    by (intro dropWhile_hd, simp add: digit_not_space, intro strip_sign_digit [of _ 10], simp_all)
  have "strto 0 (CHR ''-'' # show_dec (nat (- i))) = Some (True, nat (- i), [])"
    using strto0_show_dec [of "nat (- i)"] ws sg unfolding strto_def
    by (auto simp: strip_sign_def isspace_def Let_def split: if_splits prod.splits)
  with True assms show ?thesis by (simp add: strtoll_def print_int_def)
qed

subsection \<open>Decoding what was printed\<close>

lemma imm_through_int:
  assumes "- (2 ^ 31) \<le> i" "i < 2 ^ 31"
  shows "(scast (word_of_int i :: s32) :: s64) = word_of_int i"
proof -
  have "signed_take_bit 31 i = i" using assms by (simp add: signed_take_bit_int_eq_self_iff)
  then show ?thesis by (simp add: scast_eq sint_sbintrunc')
qed

lemma print_gpr_hd: "print_gpr r \<noteq> []" "hd (print_gpr r) \<noteq> CHR ''#''"
  by (cases r; simp)+

lemma decode_extend_print:
  assumes "extend_of_op e = Some x"
  shows "decode_extend dec e = Inr (dec\<lparr>dt_extend := x\<rparr>)"
    "k < 64 \<Longrightarrow> decode_extend dec (e @ '' #'' @ show_dec k) = Inr (dec\<lparr>dt_extend := x, dt_shift := of_nat k\<rparr>)"
proof -
  have e: "clean e" "CHR '' '' \<notin> set e" "clean (e @ '' #'' @ show_dec k)" using extend_clean [of e] assms by simp_all
  have nf: "find_char (CHR '' '') 0 e = None" using e(2) by (auto simp: find_char_def find_index_None_iff)
  show "decode_extend dec e = Inr (dec\<lparr>dt_extend := x\<rparr>)"
    using cleanD [OF e(1)] by (simp add: decode_extend_def nf assms)
  let ?a = "CHR ''#'' # show_dec k"
  assume "k < 64"
  then have n: "fst (strtoull 0 (show_dec k)) = of_nat k" by (simp add: strtoull_def strto0_show_dec)
  have item: "e @ '' #'' @ show_dec k = e @ CHR '' '' # ?a" by simp
  have fd: "find_char (CHR '' '') 0 (e @ CHR '' '' # ?a) = Some (length e)" by (rule find_char_append [OF e(2)])
  have tr: "trim_ascii_space (e @ CHR '' '' # ?a) = e @ CHR '' '' # ?a" using cleanD [OF e(3)] unfolding item by blast
  have ta: "trim_ascii_space ?a = ?a"
    using cleanD [OF clean_append [of "''#''" "show_dec k"]] show_dec_clean by (simp add: isspace_def)
  have sc: "ucast (of_nat k :: u64) = (of_nat k :: u8)"
    using \<open>k < 64\<close> by (simp add: unsigned_of_nat take_bit_nat_eq_self)
  show "decode_extend dec (e @ '' #'' @ show_dec k) = Inr (dec\<lparr>dt_extend := x, dt_shift := of_nat k\<rparr>)"
    unfolding item by (simp add: decode_extend_def tr fd substr_def ta assms n sc)
qed

lemma decode_items_print:
  assumes "amode_ok a"
  shows "decode_items (dt_init\<lparr>dt_access_size := bytes\<rparr>) (print_items a) = Inr (template_of bytes a)"
proof (cases a)
  case (Off b)
  with assms parse_print_gpr [of b] show ?thesis by (cases b) (simp_all add: decode_items_def with_base_def)
next
  case (OffImm b i)
  have "parse_scaled_imm (CHR ''#'' # print_int i) = Inr (word_of_int i)"
    using assms OffImm by (simp add: parse_scaled_imm_def strtoll0_print_int imm_through_int)
  moreover have "b \<noteq> Xzr" "b \<noteq> Wzr" using assms OffImm by auto
  ultimately show ?thesis using assms OffImm parse_print_gpr [of b] by (simp add: decode_items_def with_base_def)
next
  case (OffReg b r)
  moreover have "b \<noteq> Xzr" "b \<noteq> Wzr" using assms OffReg by auto
  ultimately show ?thesis using assms parse_print_gpr [of b] parse_print_gpr [of r] print_gpr_hd [of r]
    by (simp add: decode_items_def with_base_def with_index_def)
next
  case (OffExt b r e k)
  moreover from assms OffExt obtain x where x: "extend_of_op e = Some x" by auto
  moreover have "b \<noteq> Xzr" "b \<noteq> Wzr" using assms OffExt by auto
  moreover have "with_index bytes b r\<lparr>dt_extend := x, dt_shift := 0\<rparr> = with_index bytes b r\<lparr>dt_extend := x\<rparr>"
    by (simp add: with_index_def with_base_def dt_init_def)
  ultimately show ?thesis using assms parse_print_gpr [of b] parse_print_gpr [of r] print_gpr_hd [of r]
      decode_extend_print [OF x, where dec = "with_index bytes b r"]
    by (cases k) (simp_all add: decode_items_def with_base_def with_index_def)
qed

lemma join_items_no_bracket:
  "(\<forall>p\<in>set ps. CHR '']'' \<notin> set p) \<Longrightarrow> CHR '']'' \<notin> set (join_items ps)"
  by (induction ps rule: join_items.induct) auto

lemma decode_print:
  assumes "amode_ok a" "CHR '','' \<notin> set dest" "parse_access_size_from_dest (trim_ascii_space dest) = Inr bytes" "bytes \<le> 8"
  shows "decode_from_asm_operands m (print_operands dest a) = Inr (template_of bytes a)"
proof -
  let ?in = "join_items (print_items a)"
  let ?ops = "print_operands dest a"
  note items = print_items_clean [OF assms(1)]
  have ops: "?ops = dest @ CHR '','' # '' ['' @ ?in @ '']''" by (simp add: print_operands_def)
  have comma: "find_char (CHR '','') 0 ?ops = Some (length dest)" unfolding ops by (rule find_char_append [OF assms(2)])
  have lb: "find_char (CHR ''['') (length dest) ?ops = Some (length dest + 2)"
    using find_char_from [of "length dest" dest "CHR ''[''" "CHR '','' # '' ['' @ ?in @ '']''"]
    unfolding ops by (simp add: find_char_def)
  have "CHR '']'' \<notin> set ?in" by (rule join_items_no_bracket) (use items in \<open>auto simp: clean_def\<close>)
  then have "find_char (CHR '']'') 0 (CHR ''['' # ?in @ CHR '']'' # []) = Some (Suc (length ?in))"
    using find_char_append [of "CHR '']''" "CHR ''['' # ?in" "[]"] by simp
  then have rb: "find_char (CHR '']'') (length dest + 2) ?ops = Some (length dest + 2 + Suc (length ?in))"
    unfolding ops by (auto simp: find_char_def)
  have "substr ?ops (length dest + 2 + 1) (length dest + 2 + Suc (length ?in) - (length dest + 2) - 1) = ?in"
    unfolding ops by (simp add: substr_def)
  moreover have "split_comma ?in = print_items a"
    using split_comma_join [of "print_items a" "[]"] items cleanD by simp
  moreover have "substr ?ops 0 (length dest) = dest" unfolding ops by (simp add: substr_def)
  ultimately show ?thesis
    using decode_items_print [OF assms(1), of bytes] assms(3,4) comma lb rb by (simp add: decode_from_asm_operands_def)
qed

subsection \<open>The kernel accepts it and computes the architectural address\<close>

lemma read_num: "n \<le> 30 \<Longrightarrow> rd_read_perf_reg regs (int n) False = gregs regs n"
  by (cases "n = 30") (auto simp: rd_read_perf_reg_def)

lemma read_gpr:
  "base_ok b \<Longrightarrow> rd_read_perf_reg regs (gpr_no b) (b = Sp) = gpr_val regs b"
  "index_ok r \<Longrightarrow> r \<noteq> Xzr \<Longrightarrow> r \<noteq> Wzr \<Longrightarrow> rd_read_perf_reg regs (gpr_no r) False = gpr_val regs (reg64 r)"
proof -
  show "base_ok b \<Longrightarrow> rd_read_perf_reg regs (gpr_no b) (b = Sp) = gpr_val regs b"
    by (cases b) (simp_all add: read_num, simp add: rd_read_perf_reg_def)
  show "index_ok r \<Longrightarrow> r \<noteq> Xzr \<Longrightarrow> r \<noteq> Wzr \<Longrightarrow> rd_read_perf_reg regs (gpr_no r) False = gpr_val regs (reg64 r)"
    by (cases r) (simp_all add: read_num)
qed

lemma template_shift: "amode_ok a \<Longrightarrow> unat (dt_shift (template_of bytes a)) < 64"
proof (induction bytes a rule: template_of.induct)
  case (4 bytes b r e k)
  then show ?case by (cases k) (simp_all add: unat_of_nat take_bit_nat_eq_self)
qed (simp_all add: with_base_def with_index_def dt_init_def)

lemma flag_zero [simp]: "flag b = 0 \<longleftrightarrow> \<not> b"
  by (simp add: flag_def)

lemmas template_simps = arch_address_def to_uapi_decode_def with_index_def with_base_def dt_init_def read_gpr

lemma template_index:
  assumes "index_ok r"
  shows "arch_index (to_uapi_decode ((with_index bytes b r)\<lparr>dt_extend := x, dt_shift := sh\<rparr>))
      (if r = Xzr \<or> r = Wzr then 0 else rd_read_perf_reg regs (gpr_no r) False) =
    (if x = RD_EXT_SXTW then sint (ucast (gpr_val regs (reg64 r)) :: s32)
     else if x = RD_EXT_SXTX then sint (gpr_val regs (reg64 r))
     else if x = RD_EXT_UXTW then uint (ucast (gpr_val regs (reg64 r)) :: u32)
     else if x = RD_EXT_NONE \<or> x = RD_EXT_LSL then uint (gpr_val regs r)
     else uint (gpr_val regs (reg64 r)))"
  using assms by (cases r) (auto simp: arch_index_def template_simps read_num extend_kinds unsigned_ucast_eq unsigned_take_bit_eq)

lemma to_uapi_sel:
  "base_reg (to_uapi_decode t) = dt_base_reg t" "base_is_sp (to_uapi_decode t) = flag (dt_base_is_sp t)"
  "has_imm (to_uapi_decode t) = flag (dt_has_imm t)" "has_index (to_uapi_decode t) = flag (dt_has_index t)"
  "index_is_zero (to_uapi_decode t) = flag (dt_index_is_zero t)" "index_reg (to_uapi_decode t) = dt_index_reg t"
  "dec_extend (to_uapi_decode t) = dt_extend t" "shift (to_uapi_decode t) = dt_shift t"
  by (simp_all add: to_uapi_decode_def)

lemma indexed_sel:
  fixes bytes b r x sh
  defines "t \<equiv> (with_index bytes b r)\<lparr>dt_extend := x, dt_shift := sh\<rparr>"
  shows "dt_base_reg t = gpr_no b" "dt_base_is_sp t = (b = Sp)" "dt_has_imm t = False" "dt_has_index t = True"
    "dt_index_is_zero t = (r = Xzr \<or> r = Wzr)" "dt_index_reg t = gpr_no r" "dt_extend t = x" "dt_shift t = sh"
  by (simp_all add: t_def with_index_def with_base_def dt_init_def)

lemma indexed_address:
  assumes "base_ok b"
  shows "arch_address (to_uapi_decode ((with_index bytes b r)\<lparr>dt_extend := x, dt_shift := sh\<rparr>)) regs =
    uint (gpr_val regs b) + arch_index (to_uapi_decode ((with_index bytes b r)\<lparr>dt_extend := x, dt_shift := sh\<rparr>))
      (if r = Xzr \<or> r = Wzr then 0 else rd_read_perf_reg regs (gpr_no r) False) *
    2 ^ (if x = RD_EXT_NONE then 0 else unat sh)"
  unfolding arch_address_def to_uapi_sel indexed_sel
  by (cases "r = Xzr \<or> r = Wzr") (auto simp: read_gpr(1) [OF assms])

lemma template_address:
  assumes "amode_ok a"
  shows "arch_address (to_uapi_decode (template_of bytes a)) regs = amode_addr regs a"
proof (cases a)
  case (Off b)
  with assms show ?thesis by (simp add: template_simps)
next
  case (OffImm b i)
  then have "signed_take_bit 63 i = i" using assms by (simp add: signed_take_bit_int_eq_self_iff)
  with assms OffImm show ?thesis by (simp add: template_simps sint_sbintrunc')
next
  case (OffReg b r)
  have t: "with_index bytes b r = (with_index bytes b r)\<lparr>dt_extend := RD_EXT_NONE, dt_shift := 0\<rparr>"
    by (simp add: template_simps)
  have "arch_index (to_uapi_decode (with_index bytes b r))
      (if r = Xzr \<or> r = Wzr then 0 else rd_read_perf_reg regs (gpr_no r) False) = uint (gpr_val regs r)"
    using template_index [where bytes = bytes and b = b and x = RD_EXT_NONE and sh = 0 and regs = regs and r = r] assms OffReg by (subst t) (simp add: extend_kinds)
  then show ?thesis using indexed_address [where bytes = bytes and b = b and r = r and x = RD_EXT_NONE and sh = 0 and regs = regs] assms OffReg t by simp
next
  case (OffExt b r e k)
  let ?sh = "case k of None \<Rightarrow> 0 | Some n \<Rightarrow> n"
  from assms OffExt obtain x where x: "extend_of_op e = Some x" by auto
  have sh: "unat (of_nat ?sh :: u8) = ?sh" using assms OffExt by (cases k) (simp_all add: unat_of_nat take_bit_nat_eq_self)
  have ix: "arch_index (to_uapi_decode ((with_index bytes b r)\<lparr>dt_extend := x, dt_shift := of_nat ?sh\<rparr>))
      (if r = Xzr \<or> r = Wzr then 0 else rd_read_perf_reg regs (gpr_no r) False) =
    (if e = ''lsl'' then uint (gpr_val regs r) else ext_val e (gpr_val regs (reg64 r)))"
    using template_index [where bytes = bytes and b = b and x = x and sh = "of_nat ?sh" and regs = regs and r = r] assms OffExt x
    by (auto simp: extend_of_op_def ext_val_def extend_kinds split: if_splits)
  have "x \<noteq> RD_EXT_NONE" using x by (auto simp: extend_of_op_def extend_kinds split: if_splits)
  then show ?thesis using indexed_address [where bytes = bytes and b = b and r = r and x = x and sh = "of_nat ?sh" and regs = regs] assms OffExt x ix sh by simp
qed

lemma template_validates:
  assumes "template_ok dec" "ut_abs_pc u \<noteq> 0" "\<not> (dt_has_index dec \<and> dt_index_reg dec = PERF_REG_ARM64_SP)"
  shows "rd_validate_target (u\<lparr>ut_decode := to_uapi_decode dec\<rparr>) = RetOk"
proof -
  let ?d = "to_uapi_decode dec"
  have a: "\<not> (access_size ?d \<noteq> 1 \<and> access_size ?d \<noteq> 2 \<and> access_size ?d \<noteq> 4 \<and> access_size ?d \<noteq> 8)"
    using assms(1) by (auto simp: to_uapi_decode_def template_ok_def)
  have b: "\<not> (base_reg ?d < 0 \<or> base_reg ?d > PERF_REG_ARM64_SP)" using assms(1) by (simp add: to_uapi_sel template_ok_def not_less)
  have c: "\<not> (has_index ?d \<noteq> 0 \<and> index_is_zero ?d = 0 \<and> (index_reg ?d < 0 \<or> index_reg ?d > PERF_REG_ARM64_LR))"
    using assms(1,3) by (auto simp: to_uapi_sel template_ok_def)
  have e: "\<not> dec_extend ?d > RD_EXT_SXTX" using assms(1) by (simp add: to_uapi_sel template_ok_def not_less)
  show ?thesis using a b c e assms(2) by (simp add: rd_validate_target_def Let_def del: not_less de_Morgan_disj de_Morgan_conj)
qed

subsection \<open>Bounds of a bucket as numbers\<close>

lemma unat_bucket_bounds:
  assumes "unat b < 64"
  obtains lo where "bucket_lo b = Some lo" "unat lo = (if unat b = 0 then 0 else 2 ^ (unat b - 1))"
    "unat (bucket_hi b) = (if unat b = 63 then 2 ^ 64 - 1 else 2 ^ unat b - 1)"
proof -
  have p2: "unat (push_bit n 1 :: u64) = 2 ^ n" if "n < 64" for n
  proof -
    have "(2 :: nat) ^ n < 2 ^ 64" using that by (intro power_strict_increasing) simp_all
    moreover have "(push_bit n 1 :: u64) = of_nat (2 ^ n)" by (simp add: push_bit_eq_mult)
    ultimately show ?thesis by (simp only: unat_of_nat) (simp add: take_bit_nat_eq_self)
  qed
  consider "b = 0" | "b = 1" | "b = 63" | "b \<noteq> 0" "b \<noteq> 1" "b \<noteq> 63" by blast
  then show thesis
  proof cases
    case 1
    then show thesis by (intro that [of 0]) (simp_all add: bucket_lo_def bucket_hi_def)
  next
    case 2
    then show thesis by (intro that [of 1]) (simp_all add: bucket_lo_def bucket_hi_def)
  next
    case 3
    then show thesis by (intro that [of "push_bit 62 1"]) (simp_all add: bucket_lo_def bucket_hi_def p2 unsigned_minus_1_eq_mask mask_eq_exp_minus_1)
  next
    case 4
    have n: "unat (b - 1) = unat b - 1" using 4(1) by (simp add: unat_minus_one)
    have "unat b \<noteq> 63" using 4(3) word_unat_eq_iff [of b 63] by simp
    then have lt: "unat b < 63" using assms by simp
    then have "\<not> 63 \<le> b" by (simp add: word_le_nat_alt)
    moreover have "unat (push_bit (unat b) 1 - 1 :: u64) = 2 ^ unat b - 1"
      using p2 [of "unat b"] lt by (subst unat_minus_one) (auto simp: unat_eq_zero [symmetric])
    moreover have "unat (push_bit (unat b - 1) 1 :: u64) = 2 ^ (unat b - 1)" using lt by (intro p2) simp
    ultimately show thesis using 4 assms lt n
      by (intro that [of "push_bit (unat b - 1) 1"]) (auto simp: bucket_lo_def bucket_hi_def p2 unat_eq_zero)
  qed
qed

end
