(* ===== verification/User_Properties.thy ===== *)
theory User_Properties
  imports User_Demo Decode_Correct
begin

text \<open>
  The properties of the user-space side that prepares the targets: the operand decoder against the
  syntax it reads and against the kernel module that uses its result, the bucket bounds, quoting,
  relocation, and the loading of the hotspot list.
\<close>

subsection \<open>Decoding\<close>

text \<open>C7: from printed operand to watched address.  For every load or store operand of the supported forms,
  the decoder reads back what a disassembler prints, the kernel module accepts the resulting
  target, and the address it computes from the registers of a sample is the address the
  architecture gives that operand.\<close>

theorem decode_end_to_end:
  assumes "amode_ok a" "CHR '','' \<notin> set dest" "parse_access_size_from_dest (trim_ascii_space dest) = Inr bytes" "bytes \<le> 8"
    and "ut_abs_pc u \<noteq> 0"
  shows "\<exists>dec. decode_from_asm_operands m (print_operands dest a) = Inr dec \<and> dt_access_size dec = bytes \<and>
    rd_validate_target (u\<lparr>ut_decode := to_uapi_decode dec\<rparr>) = RetOk \<and>
    rd_compute_effective_address (to_uapi_decode dec) regs = Some (word_of_int (amode_addr regs a))"
proof (intro exI [of _ "template_of bytes a"] conjI)
  show dec: "decode_from_asm_operands m (print_operands dest a) = Inr (template_of bytes a)"
    by (rule decode_print [OF assms(1-4)])
  have ok: "template_ok (template_of bytes a)" by (rule decoded_template_ok [OF dec])
  show size: "dt_access_size (template_of bytes a) = bytes"
    by (cases a) (simp_all add: with_base_def with_index_def)
  have idx: "\<not> (dt_has_index (template_of bytes a) \<and> dt_index_reg (template_of bytes a) = PERF_REG_ARM64_SP)"
  proof -
    have r: "index_ok r \<Longrightarrow> gpr_no r \<noteq> 31" for r by (cases r) auto
    show ?thesis using assms(1) r by (cases a) (auto simp: with_base_def with_index_def dt_init_def)
  qed
  show "rd_validate_target (u\<lparr>ut_decode := to_uapi_decode (template_of bytes a)\<rparr>) = RetOk"
    by (rule template_validates [OF ok assms(5) idx])
  have "dec_extend (to_uapi_decode (template_of bytes a)) \<le> RD_EXT_SXTX" using ok by (simp add: to_uapi_sel template_ok_def)
  moreover have "unat (shift (to_uapi_decode (template_of bytes a))) < 64"
    using template_shift [OF assms(1)] by (simp add: to_uapi_sel)
  ultimately show "rd_compute_effective_address (to_uapi_decode (template_of bytes a)) regs = Some (word_of_int (amode_addr regs a))"
    using rd_effective_address_arch template_address [OF assms(1)] by metis
qed

theorem decode_end_to_end_witness:
  "\<exists>dec. decode_from_asm_operands ''ldr'' ''x0, [x1, x2, lsl #3]'' = Inr dec \<and>
     rd_compute_effective_address (to_uapi_decode dec)
       \<lparr>gregs = (\<lambda>n. if n = 1 then 0x1000 else 2), regs_sp = 0, regs_pc = 0, regs_pstate = 0\<rparr> = Some 0x1010"
proof -
  let ?a = "OffExt (Xr 1) (Xr 2) ''lsl'' (Some 3)"
  let ?u = "\<lparr>ut_pc_offset = 0, ut_abs_pc = 1, ut_aggregated_samples = 0, ut_decode = to_uapi_decode dt_init\<rparr>"
  let ?r = "\<lparr>gregs = (\<lambda>n. if n = 1 then 0x1000 else 2), regs_sp = 0, regs_pc = 0, regs_pstate = 0\<rparr>"
  have sd: "show_dec (Suc 0) = ''1''" "show_dec 2 = ''2''" "show_dec 3 = ''3''" unfolding show_dec_def by code_simp+
  have "print_operands ''x0'' ?a = ''x0, [x1, x2, lsl #3]''" by (simp add: print_operands_def sd)
  moreover have "parse_access_size_from_dest (trim_ascii_space ''x0'') = Inr 8" by code_simp
  moreover have "amode_ok ?a" by (simp add: extend_of_op_def)
  moreover have "amode_addr ?r ?a = 0x1010" by simp
  ultimately show ?thesis using decode_end_to_end [of ?a "''x0''" 8 ?u "''ldr''" ?r] by auto
qed

text \<open>Every template that the decoder returns passes the kernel's check, unless its index register is the
  stack pointer.\<close>

theorem decoded_target_validates:
  assumes "decode_from_asm_operands m ops = Inr dec" "ut_abs_pc u \<noteq> 0"
    and "\<not> (dt_has_index dec \<and> dt_index_reg dec = PERF_REG_ARM64_SP)"
  shows "rd_validate_target (u\<lparr>ut_decode := to_uapi_decode dec\<rparr>) = RetOk"
  by (rule template_validates [OF decoded_template_ok [OF assms(1)] assms(2,3)])

theorem decoded_target_validates_witness:
  "\<exists>dec. decode_from_asm_operands ''ldr'' ''w3, [sp, #-16]'' = Inr dec \<and>
     rd_validate_target \<lparr>ut_pc_offset = 0, ut_abs_pc = 1, ut_aggregated_samples = 0, ut_decode = to_uapi_decode dec\<rparr> = RetOk"
proof -
  have d: "decode_from_asm_operands ''ldr'' ''w3, [sp, #-16]'' = Inr (dt_init\<lparr>dt_access_size := 4, dt_base_reg := 31,
      dt_base_is_sp := True, dt_has_imm := True, dt_imm := - 16\<rparr>)" (is "_ = Inr ?d") by code_simp
  from decoded_target_validates [OF d, of "\<lparr>ut_pc_offset = 0, ut_abs_pc = 1, ut_aggregated_samples = 0,
      ut_decode = to_uapi_decode ?d\<rparr>"] d show ?thesis by (simp add: dt_init_def)
qed

text \<open>The exception is real: the decoder accepts the stack pointer as an index register, and the kernel
  module refuses such a target, and with it the whole batch.\<close>

theorem sp_index_refused_by_kernel:
  "\<exists>dec. decode_from_asm_operands ''ldr'' ''x0, [x1, sp]'' = Inr dec \<and>
     (\<forall>u. rd_validate_target (u\<lparr>ut_decode := to_uapi_decode dec\<rparr>) = RetErr EINVAL)"
proof -
  have d: "decode_from_asm_operands ''ldr'' ''x0, [x1, sp]'' = Inr (dt_init\<lparr>dt_access_size := 8, dt_base_reg := 1,
      dt_has_index := True, dt_index_reg := 31\<rparr>)" (is "_ = Inr ?d") by code_simp
  have "rd_validate_target (u\<lparr>ut_decode := to_uapi_decode ?d\<rparr>) = RetErr EINVAL" for u
    by (simp add: rd_validate_target_def to_uapi_decode_def dt_init_def flag_def Let_def)
  with d show ?thesis by blast
qed

subsection \<open>Buckets\<close>

text \<open>The bounds that the result files print are those of the kernel's buckets: a distance lies between the
  printed bounds of a bucket exactly when the kernel counts it there.\<close>

theorem printed_bounds_match_kernel:
  assumes "b < 64"
  shows "\<exists>lo. bucket_lo b = Some lo \<and> (lo \<le> d \<and> d \<le> bucket_hi b \<longleftrightarrow> rd_log2_bucket d = b)"
proof -
  have bl: "unat (rd_log2_bucket d) = min 63 (bitlen (unat d))" by (rule unat_rd_log2_bucket)
  have b: "unat b < 64" using assms by (simp add: word_less_nat_alt)
  have eq: "rd_log2_bucket d = b \<longleftrightarrow> min 63 (bitlen (unat d)) = unat b" by (metis bl word_unat_eq_iff)
  have dl: "unat d < 2 ^ 64" by (rule order_less_le_trans [OF unsigned_less]) simp
  obtain lo where lo: "bucket_lo b = Some lo" "unat lo = (if unat b = 0 then 0 else 2 ^ (unat b - 1))"
    "unat (bucket_hi b) = (if unat b = 63 then 2 ^ 64 - 1 else 2 ^ unat b - 1)" by (rule unat_bucket_bounds [OF b])
  have "0 < (2 :: nat) ^ unat b" by simp
  then have le: "unat d \<le> 2 ^ unat b - 1 \<longleftrightarrow> unat d < 2 ^ unat b" by arith
  have "lo \<le> d \<and> d \<le> bucket_hi b \<longleftrightarrow> min 63 (bitlen (unat d)) = unat b"
    unfolding word_le_nat_alt lo(2,3)
    using b dl bitlen_less_iff [of "unat d" "unat b"] bitlen_less_iff [of "unat d" "unat b - 1"]
    by (cases "unat b = 63") (auto simp: min_def not_le le [simplified] simp del: bitlen_pos)
  with lo(1) eq show ?thesis by blast
qed

theorem printed_bounds_match_kernel_witness:
  "bucket_lo 4 = Some 8 \<and> bucket_hi 4 = 15 \<and> rd_log2_bucket 11 = 4"
proof -
  have "bucket_lo 4 = Some 8" "bucket_hi 4 = 15" by (simp_all add: bucket_lo_def bucket_hi_def push_bit_eq_mult)
  with printed_bounds_match_kernel [of 4 11] show ?thesis by simp
qed

subsection \<open>Quoting\<close>

text \<open>Whatever characters a path holds, a POSIX shell reads its quoted form as exactly one word with that
  value: no path can end the word or start another command.\<close>

theorem shell_quote_is_one_word:
  assumes "rest = [] \<or> hd rest = CHR '' ''"
  shows "shell_word False (shell_quote s @ rest) = Some (s, rest)"
proof -
  have "shell_word False rest = Some ([], rest)" using assms by (cases rest) auto
  then show ?thesis using shell_word_body [of s rest] by (simp add: shell_quote_def)
qed

theorem shell_quote_is_one_word_witness:
  "shell_word False (shell_quote (''/tmp/it'' @ [CHR 0x27] @ ''s; rm -rf $HOME'') @ '' 2>/dev/null'') =
     Some (''/tmp/it'' @ [CHR 0x27] @ ''s; rm -rf $HOME'', '' 2>/dev/null'')"
  by (rule shell_quote_is_one_word) simp

subsection \<open>Loading the hotspot list\<close>

text \<open>A relocated program counter lies inside an executable mapping of the binary, at the same distance from
  the start of the mapping as the offset has in the file, provided the bounds of the mapping
  are in order and its file range does not wrap around.\<close>

theorem resolved_pc_in_mapping:
  assumes "resolve_absolute_pc os binary off = Inr pc"
  shows "\<exists>maps line r offset_hex vs ve. os_self_maps os = Some maps \<and> line \<in> set (lines_of maps) \<and>
    map_line_fields os line = Some (r, offset_hex, binary) \<and> map_range r = Some (vs, ve) \<and>
    (vs \<le> ve \<and> unat (fst (strtoull 16 offset_hex)) + unat (ve - vs) < 2 ^ 64 \<longrightarrow>
       vs \<le> pc \<and> pc < ve \<and> pc - vs = off - fst (strtoull 16 offset_hex))"
proof -
  from assms obtain maps where t: "os_self_maps os = Some maps" "resolve_in_lines os binary off (lines_of maps) = Inr pc"
    by (auto simp: resolve_absolute_pc_def split: option.splits)
  from resolve_in_lines_maps [OF t(2)] obtain line r offset_hex vs ve where l: "line \<in> set (lines_of maps)"
    "map_line_fields os line = Some (r, offset_hex, binary)" "map_range r = Some (vs, ve)"
    "fst (strtoull 16 offset_hex) \<le> off" "off < fst (strtoull 16 offset_hex) + (ve - vs)"
    "pc = vs + (off - fst (strtoull 16 offset_hex))" by (auto simp: maps_to_def)
  from maps_to_inside [OF l(4-6)] t(1) l(1-3) show ?thesis by blast
qed

theorem resolved_pc_in_mapping_witness:
  "resolve_absolute_pc demo_os ''/bin/app'' 0x14 = Inr 0x84 \<and>
   (\<exists>maps line. os_self_maps demo_os = Some maps \<and> line \<in> set (lines_of maps))"
proof -
  have "resolve_absolute_pc demo_os ''/bin/app'' 0x14 = Inr 0x84" by code_simp
  from resolved_pc_in_mapping [OF this] this show ?thesis by blast
qed

text \<open>The manifest is aggregated exactly: every offset occurs once, and its sample count is the sum (modulo
  2^64) of the counts on all its hotspot lines.\<close>

theorem manifest_aggregated_exactly:
  assumes "parse_manifest os binary lines ([], []) = Inr (mm, agg)"
  shows "distinct (map fst agg) \<and> (\<forall>pc. samples_of agg pc = sum_list (map (\<lambda>l. line_samples l pc) lines))"
  using parse_manifest_aggregates [OF assms] by (simp add: samples_of_def)

theorem manifest_aggregated_exactly_witness:
  "\<exists>mm agg. parse_manifest demo_os ''/bin/app'' (lines_of demo_manifest) ([], []) = Inr (mm, agg) \<and> samples_of agg 0x14 = 8"
proof -
  have "case parse_manifest demo_os ''/bin/app'' (lines_of demo_manifest) ([], []) of Inr _ \<Rightarrow> True | Inl _ \<Rightarrow> False" by code_simp
  then obtain mm agg where p: "parse_manifest demo_os ''/bin/app'' (lines_of demo_manifest) ([], []) = Inr (mm, agg)"
    by (auto split: sum.splits)
  have "sum_list (map (\<lambda>l. line_samples l 0x14) (lines_of demo_manifest)) = 8" by code_simp
  with manifest_aggregated_exactly [OF p] p show ?thesis by auto
qed


definition demo_loaded :: "string + loaded_targets" where
  "demo_loaded = load_targets demo_os id ''app.hotpc'' ''/bin/app'' (Some demo_manifest) 2"


text \<open>C34: the result does not depend on the order in which the hash table of the candidates is walked.\<close>

theorem load_targets_walk_independent:
  assumes "\<And>xs. mset (walk xs) = mset xs"
  shows "load_targets os walk tf mb manifest cap = load_targets os id tf mb manifest cap"
proof -
  have so: "std_sort hot_before (walk agg) = std_sort hot_before agg"
    if "parse_manifest os mb lines ([], []) = Inr (mm, agg)" for lines mm agg
    using std_sort_walk [OF assms] parse_manifest_aggregates [OF that] by simp
  show ?thesis by (auto simp: load_targets_def so split: option.splits sum.splits)
qed

theorem load_targets_walk_independent_witness:
  "load_targets demo_os rev ''app.hotpc'' ''/bin/app'' (Some demo_manifest) 2 = demo_loaded"
  unfolding demo_loaded_def by (rule load_targets_walk_independent) simp

end
