(* ===== verification/Doubles.thy ===== *)
theory Doubles
  imports Text_Utils Complex_Main
begin

text \<open>
  What \<^verbatim>\<open>src/monitor.cc\<close> uses of \<^verbatim>\<open>double\<close>: a value is the rational number it stands for,
  every operation is the exact one followed by rounding to 53 significant bits, ties to even (the
  magnitudes that occur, quotients of 64-bit integers and times, are far from the ends of the
  exponent range), and a stream prints six significant digits in the style of \<^verbatim>\<open>%g\<close>.
\<close>

type_synonym dbl = rat

function int_len :: "int \<Rightarrow> int" where
  "int_len n = (if n \<le> 0 then 0 else 1 + int_len (n div 2))"
  by pat_completeness auto
termination
  by (relation "measure nat") auto

declare int_len.simps [simp del]

text \<open>The quotient of two positive integers, rounded to the nearest integer, ties to even.\<close>

definition round_half_even :: "int \<Rightarrow> int \<Rightarrow> int" where
  "round_half_even n d =
     (let q = n div d; r = n mod d
      in if 2 * r < d then q else if 2 * r > d then q + 1 else if even q then q else q + 1)"

definition scaled :: "int \<Rightarrow> int \<Rightarrow> int \<Rightarrow> int \<times> int" where
  "scaled n d e = (if e < 0 then (n * 2 ^ nat (- e), d) else (n, d * 2 ^ nat e))"

definition round_ratio :: "int \<Rightarrow> int \<Rightarrow> dbl" where
  "round_ratio n d =
     (let e0 = int_len n - int_len d - 53;
          (n0, d0) = scaled n d e0;
          e = (if n0 \<ge> 2 ^ 53 * d0 then e0 + 1 else e0);
          (n1, d1) = scaled n d e;
          m = round_half_even n1 d1
      in if e < 0 then Fract m (2 ^ nat (- e)) else of_int (m * 2 ^ nat e))"

definition round_double :: "rat \<Rightarrow> dbl" where
  "round_double r =
     (let (n, d) = quotient_of r
      in if n = 0 then 0 else if n < 0 then - round_ratio (- n) d else round_ratio n d)"

definition dbl_of_u64 :: "u64 \<Rightarrow> dbl" where
  "dbl_of_u64 w = round_double (of_int (uint w))"

definition dbl_div :: "dbl \<Rightarrow> dbl \<Rightarrow> dbl" where
  "dbl_div a b = round_double (a / b)"

definition dbl_mul :: "dbl \<Rightarrow> dbl \<Rightarrow> dbl" where
  "dbl_mul a b = round_double (a * b)"

definition dbl_add :: "dbl \<Rightarrow> dbl \<Rightarrow> dbl" where
  "dbl_add a b = round_double (a + b)"

subsection \<open>Output\<close>

text \<open>The decimal exponent of \<open>n / d\<close>: counted upwards when \<open>n \<ge> d\<close>, downwards otherwise.\<close>

function dec_exp_up :: "int \<Rightarrow> int \<Rightarrow> int" where
  "dec_exp_up n d = (if d > 0 \<and> n \<ge> 10 * d then 1 + dec_exp_up n (10 * d) else 0)"
  by pat_completeness auto
termination
  by (relation "measure (\<lambda>(n, d). nat (n - d))") auto

function dec_exp_down :: "int \<Rightarrow> int \<Rightarrow> int" where
  "dec_exp_down n d = (if n > 0 \<and> n < d then dec_exp_down (10 * n) d - 1 else 0)"
  by pat_completeness auto
termination
  by (relation "measure (\<lambda>(n, d). nat (d - n))") auto

declare dec_exp_up.simps [simp del] dec_exp_down.simps [simp del]

definition strip_zeros :: "string \<Rightarrow> string" where
  "strip_zeros s = rev (dropWhile (\<lambda>c. c = CHR ''0'') (rev s))"

text \<open>A point and the digits after it; nothing when only zeros follow.\<close>

definition fraction :: "string \<Rightarrow> string" where
  "fraction s = (let t = strip_zeros s in if t = [] then [] else CHR ''.'' # t)"

definition show_positive :: "int \<Rightarrow> int \<Rightarrow> string" where
  "show_positive n d =
     (let x0 = (if n \<ge> d then dec_exp_up n d else dec_exp_down n d);
          m0 = (if x0 \<ge> 5 then round_half_even n (d * 10 ^ nat (x0 - 5))
                else round_half_even (n * 10 ^ nat (5 - x0)) d);
          (x, m) = (if m0 = 10 ^ 6 then (x0 + 1, 10 ^ 5) else (x0, m0));
          ds = show_dec (nat m)
      in if x < - 4 \<or> x \<ge> 6
         then take 1 ds @ fraction (drop 1 ds) @ (if x < 0 then ''e-'' else ''e+'') @
              (if \<bar>x\<bar> < 10 then ''0'' else []) @ show_dec (nat \<bar>x\<bar>)
         else if x \<ge> 0 then take (nat x + 1) ds @ fraction (drop (nat x + 1) ds)
         else ''0'' @ fraction (replicate (nat (- x - 1)) (CHR ''0'') @ ds))"

definition show_double :: "dbl \<Rightarrow> string" where
  "show_double v =
     (let (n, d) = quotient_of v
      in if n = 0 then ''0'' else if n < 0 then CHR ''-'' # show_positive (- n) d else show_positive n d)"

subsection \<open>Facts\<close>

text \<open>A printed number holds digits, a point, a sign and the letter of the exponent, nothing else.\<close>

definition number_char :: "char \<Rightarrow> bool" where
  "number_char c \<longleftrightarrow> is_digit 10 c \<or> c = CHR ''.'' \<or> c = CHR ''-'' \<or> c = CHR ''+'' \<or> c = CHR ''e''"

lemma set_strip_zeros: "set (strip_zeros s) \<subseteq> set s"
  by (auto simp: strip_zeros_def dest: set_dropWhileD)

lemma fraction_chars: "\<forall>c\<in>set s. number_char c \<Longrightarrow> \<forall>c\<in>set (fraction s). number_char c"
  using set_strip_zeros [of s] by (auto simp: fraction_def Let_def number_char_def)

lemma show_dec_chars: "\<forall>c\<in>set (show_dec n). number_char c"
  by (auto simp: number_char_def dest: set_show_dec)

lemma number_char_lits [simp]:
  "number_char (CHR ''0'')" "number_char (CHR ''e'')" "number_char (CHR ''+'')" "number_char (CHR ''-'')" "number_char (CHR ''.'')"
  by (simp_all add: number_char_def is_digit_def digit_val_def)

lemma show_positive_chars: "list_all number_char (show_positive n d)"
proof -
  have sd: "list_all number_char (show_dec m)" for m by (simp add: list_all_iff show_dec_chars)
  have tk: "list_all number_char (take k (show_dec m))" for k m
    using sd [of m] by (auto simp: list_all_iff dest: in_set_takeD)
  have fr: "list_all number_char (fraction (drop k (show_dec m)))" for k m
    unfolding list_all_iff using sd [of m] by (intro fraction_chars) (auto simp: list_all_iff dest: in_set_dropD)
  have fz: "list_all number_char (fraction (replicate k (CHR ''0'') @ show_dec m))" for k m
    unfolding list_all_iff using sd [of m] by (intro fraction_chars) (auto simp: list_all_iff)
  show ?thesis by (simp add: show_positive_def Let_def split_beta tk fr fz sd)
qed

lemma show_double_chars: "list_all number_char (show_double v)"
  by (simp add: show_double_def Let_def split_beta show_positive_chars)

end
