(* ===== verification/Controller.thy ===== *)
theory Controller
  imports Targets Device
begin

text \<open>
  The user-space controller \<^verbatim>\<open>TargetedRdProfiler\<close> (\<^verbatim>\<open>src/targeted_rd.cc\<close>, \<^verbatim>\<open>include/targeted_rd.hh\<close>) and the
  enumeration of threads (\<^verbatim>\<open>src/threads.cc\<close>): its state, the reading of the environment variables,
  the window, the registration of threads with its CPU allocation, and construction.  Every
  operation takes the device as a function \<open>io\<close> on the device's state and returns the exception it
  throws, if any, with the state it leaves behind, also when it throws.
\<close>

subsection \<open>State\<close>

definition DEFAULT_WP_CAPACITY :: u32 where "DEFAULT_WP_CAPACITY = 4"
definition DEFAULT_BP_CAPACITY :: u32 where "DEFAULT_BP_CAPACITY = 6"
definition DEFAULT_BP_SAMPLE_PERIOD :: u64 where "DEFAULT_BP_SAMPLE_PERIOD = 1024"
definition DEFAULT_DWARF_STACK_BYTES :: u32 where "DEFAULT_DWARF_STACK_BYTES = 8192"
definition DEFAULT_DWARF_EVENT_CAPACITY :: u32 where "DEFAULT_DWARF_EVENT_CAPACITY = 16384"

text \<open>\<^verbatim>\<open>scratch\<close> is an address: 0 is the null pointer, \<open>- 1\<close> is \<^verbatim>\<open>MAP_FAILED\<close>.\<close>

definition MAP_FAILED :: u64 where "MAP_FAILED = - 1"

record thread_binding =
  tb_tid :: int
  tb_cpu :: int
  tb_scratch :: u64
  tb_scratch_bytes :: u64
  tb_scratch_base :: u64
  tb_scratch_stride :: u64
  tb_active :: bool

record controller =
  c_running :: bool
  c_window_open :: bool
  c_auto_fallback_active :: bool
  c_explicit_window_seen :: bool
  c_auto_window_discarded_on_first_explicit :: bool
  c_is_pin :: bool
  c_num_cpus :: int
  c_watchpoint_capacity :: u32
  c_bp_capacity :: u32
  c_bp_sample_period :: u64
  c_callchain_mode :: u32
  c_dwarf_stack_bytes :: u32
  c_dwarf_event_capacity :: u32
  c_nameprefix :: string
  c_target_file :: string
  c_rd_event_name :: string
  c_main_binary_path :: string
  c_instruction_support :: string
  c_candidate_target_count :: u32
  c_capacity_truncated_target_count :: u32
  c_targets :: "hot_target list"
  c_rejected_targets :: "rejected_target list"
  c_cpu_owner :: "int list"
  c_threads :: "int \<rightharpoonup> thread_binding"

text \<open>
  What the controller asks of the C library and the operating system, and the walks of its two
  hash tables.  \<open>cv_mmap\<close> is the result of the mapping made for a thread, \<open>cv_file\<close> the text of a
  file that can be read, \<open>cv_can_create\<close> and \<open>cv_write_ok\<close> tell
  whether a result file can be opened and written, \<open>cv_task_dir\<close> the entries of \<^verbatim>\<open>/proc/self/task\<close>.
\<close>

record ctl_env =
  cv_os :: os_env
  cv_getenv :: "string \<Rightarrow> string option"
  cv_file :: "string \<Rightarrow> string option"
  cv_can_create :: "string \<Rightarrow> bool"
  cv_write_ok :: "string \<Rightarrow> bool"
  cv_self_exe :: "string option"
  cv_open_device :: "errno option"
  cv_strerror :: "errno \<Rightarrow> string"
  cv_gettid :: int
  cv_nprocs :: int
  cv_task_dir :: "string list option"
  cv_page_size :: u64
  cv_sched_setaffinity :: "int \<Rightarrow> int \<Rightarrow> bool"
  cv_mmap :: "int \<Rightarrow> u64 \<Rightarrow> u64"
  cv_targets_ptr :: u64
  cv_hotspot_walk :: "hotspot list \<Rightarrow> hotspot list"
  cv_thread_walk :: "(int \<rightharpoonup> thread_binding) \<Rightarrow> int list"

text \<open>The controller with the device's state and the scratch mappings of the process.\<close>

record 'd rd_sys =
  sys_ctl :: controller
  sys_dev :: 'd
  sys_mem :: "(u64 \<times> u64) list"

type_synonym 'd dev_io = "'d \<Rightarrow> rd_cmd \<Rightarrow> kret \<times> rd_reply \<times> 'd"
type_synonym 'd outcome = "string option \<times> 'd rd_sys"

text \<open>Sequencing: an exception skips the rest.\<close>

definition and_then :: "('d rd_sys \<Rightarrow> 'd outcome) \<Rightarrow> ('d rd_sys \<Rightarrow> 'd outcome) \<Rightarrow> 'd rd_sys \<Rightarrow> 'd outcome" where
  "and_then f g s = (case f s of (Some e, s') \<Rightarrow> (Some e, s') | (None, s') \<Rightarrow> g s')"

abbreviation upd_ctl :: "(controller \<Rightarrow> controller) \<Rightarrow> 'd rd_sys \<Rightarrow> 'd rd_sys" where
  "upd_ctl f s \<equiv> s\<lparr>sys_ctl := f (sys_ctl s)\<rparr>"

definition ioctl_error :: "ctl_env \<Rightarrow> string \<Rightarrow> errno \<Rightarrow> string" where
  "ioctl_error cv name e = name @ '' failed: '' @ cv_strerror cv e"

text \<open>\<^verbatim>\<open>if (ioctl(...) < 0) throw ...\<close>.\<close>

definition ioctl_or_throw :: "'d dev_io \<Rightarrow> ctl_env \<Rightarrow> string \<Rightarrow> rd_cmd \<Rightarrow> 'd rd_sys \<Rightarrow> 'd outcome" where
  "ioctl_or_throw io cv name cmd s =
     (case io (sys_dev s) cmd of
        (RetErr e, _, d) \<Rightarrow> (Some (ioctl_error cv name e), s\<lparr>sys_dev := d\<rparr>)
      | (RetOk, _, d) \<Rightarrow> (None, s\<lparr>sys_dev := d\<rparr>))"

subsection \<open>The window\<close>

definition start_window_locked :: "'d dev_io \<Rightarrow> ctl_env \<Rightarrow> 'd rd_sys \<Rightarrow> 'd outcome" where
  "start_window_locked io cv s =
     (if c_window_open (sys_ctl s) then (None, s)
      else and_then (ioctl_or_throw io cv ''RDKIOC_START_WINDOW'' RDKIOC_START_WINDOW)
             (\<lambda>s. (None, upd_ctl (\<lambda>c. c\<lparr>c_window_open := True\<rparr>) s)) s)"

definition stop_window_locked :: "'d dev_io \<Rightarrow> ctl_env \<Rightarrow> 'd rd_sys \<Rightarrow> 'd outcome" where
  "stop_window_locked io cv s =
     (if \<not> c_window_open (sys_ctl s) then (None, s)
      else and_then (ioctl_or_throw io cv ''RDKIOC_STOP_WINDOW'' RDKIOC_STOP_WINDOW)
             (\<lambda>s. (None, upd_ctl (\<lambda>c. c\<lparr>c_window_open := False\<rparr>) s)) s)"

definition reset_session_locked :: "'d dev_io \<Rightarrow> ctl_env \<Rightarrow> 'd rd_sys \<Rightarrow> 'd outcome" where
  "reset_session_locked io cv s =
     (if c_window_open (sys_ctl s) then (Some ''RDKIOC_RESET_SESSION requires closed window'', s)
      else ioctl_or_throw io cv ''RDKIOC_RESET_SESSION'' RDKIOC_RESET_SESSION s)"

definition kernel_start :: "'d dev_io \<Rightarrow> ctl_env \<Rightarrow> 'd rd_sys \<Rightarrow> 'd outcome" where
  "kernel_start io cv s =
     (if c_auto_fallback_active (sys_ctl s) \<and> \<not> c_explicit_window_seen (sys_ctl s)
      then and_then (stop_window_locked io cv)
             (and_then (reset_session_locked io cv)
               (and_then (start_window_locked io cv)
                 (\<lambda>s. (None, upd_ctl (\<lambda>c. c\<lparr>c_auto_fallback_active := False, c_explicit_window_seen := True,
                    c_auto_window_discarded_on_first_explicit := True\<rparr>) s)))) s
      else let s1 = upd_ctl (\<lambda>c. c\<lparr>c_explicit_window_seen := True, c_auto_fallback_active := False\<rparr>) s
           in if c_window_open (sys_ctl s1) then (None, s1) else start_window_locked io cv s1)"

definition kernel_stop :: "'d dev_io \<Rightarrow> ctl_env \<Rightarrow> 'd rd_sys \<Rightarrow> 'd outcome" where
  "kernel_stop io cv s =
     (if \<not> c_window_open (sys_ctl s) then (None, s)
      else if c_auto_fallback_active (sys_ctl s) \<and> \<not> c_explicit_window_seen (sys_ctl s) then (None, s)
      else stop_window_locked io cv s)"

subsection \<open>Processors\<close>

text \<open>\<^verbatim>\<open>atoi\<close>, and the \<open>n\<close>-th token of a stream.\<close>

definition atoi :: "string \<Rightarrow> int" where
  "atoi s = signed_take_bit 31 (fst (strtoll 10 s))"

fun nth_token :: "nat \<Rightarrow> string \<Rightarrow> string option" where
  "nth_token 0 s = map_option fst (read_token s)"
| "nth_token (Suc n) s = (case read_token s of None \<Rightarrow> None | Some (_, rest) \<Rightarrow> nth_token n rest)"

definition rfind_char :: "char \<Rightarrow> string \<Rightarrow> nat option" where
  "rfind_char c s = map_option (\<lambda>i. length s - 1 - i) (find_index (\<lambda>x. x = c) (rev s))"

definition parse_cpu_from_tid_stat :: "ctl_env \<Rightarrow> int \<Rightarrow> int" where
  "parse_cpu_from_tid_stat cv t =
     (case cv_file cv (''/proc/self/task/'' @ (if t < 0 then ''-'' else []) @ show_dec (nat \<bar>t\<bar>) @ ''/stat'') of
        None \<Rightarrow> - 1
      | Some content \<Rightarrow>
          let line = (case lines_of content of [] \<Rightarrow> [] | l # _ \<Rightarrow> l) in
          case (find_char (CHR ''('') 0 line, rfind_char (CHR '')'') line) of
            (Some l, Some r) \<Rightarrow>
              if r \<le> l then - 1
              else (case nth_token 36 (drop (r + 1) line) of None \<Rightarrow> - 1 | Some tok \<Rightarrow> atoi tok)
          | _ \<Rightarrow> - 1)"

text \<open>The processor to start from, and the first free one from there, going round.\<close>

definition cpu_scan_start :: "ctl_env \<Rightarrow> controller \<Rightarrow> int" where
  "cpu_scan_start cv c =
     (if c_is_pin c
      then let start = parse_cpu_from_tid_stat cv (cv_gettid cv)
           in if start < 0 \<or> start \<ge> c_num_cpus c then 0 else start
      else 0)"

definition allocate_cpu_locked :: "ctl_env \<Rightarrow> controller \<Rightarrow> string + int \<times> controller" where
  "allocate_cpu_locked cv c =
     (let cpu_at = (\<lambda>off. (cpu_scan_start cv c + int off) mod c_num_cpus c)
      in case List.find (\<lambda>off. c_cpu_owner c ! nat (cpu_at off) = 0) [0..<nat (c_num_cpus c)] of
           None \<Rightarrow> Inl ''targeted_rd cannot pin thread: no free CPU available''
         | Some off \<Rightarrow> Inr (cpu_at off, c\<lparr>c_cpu_owner := (c_cpu_owner c)[nat (cpu_at off) := 1]\<rparr>))"

definition release_cpu_locked :: "int \<Rightarrow> controller \<Rightarrow> controller" where
  "release_cpu_locked n c =
     (if n \<ge> 0 \<and> n < c_num_cpus c then c\<lparr>c_cpu_owner := (c_cpu_owner c)[nat n := 0]\<rparr> else c)"

subsection \<open>Threads\<close>

definition munmap :: "u64 \<Rightarrow> u64 \<Rightarrow> (u64 \<times> u64) list \<Rightarrow> (u64 \<times> u64) list" where
  "munmap addr bytes mem = (if addr \<noteq> 0 \<and> addr \<noteq> MAP_FAILED then remove1 (addr, bytes) mem else mem)"

definition bound :: "controller \<Rightarrow> int \<Rightarrow> bool" where
  "bound c t = (case c_threads c t of None \<Rightarrow> False | Some b \<Rightarrow> tb_active b)"

text \<open>
  The handler of the \<^verbatim>\<open>try\<close> block undoes the mapping and the CPU.  Its call of
  \<^verbatim>\<open>RDKIOC_UNREGISTER_THREAD\<close> is dead code: nothing throws after the registration succeeded.
\<close>

definition register_thread_locked :: "'d dev_io \<Rightarrow> ctl_env \<Rightarrow> int \<Rightarrow> 'd rd_sys \<Rightarrow> 'd outcome" where
  "register_thread_locked io cv t s =
     (if bound (sys_ctl s) t then (None, s)
      else let c1 = (sys_ctl s)\<lparr>c_threads := (c_threads (sys_ctl s))(t := None)\<rparr> in
        case allocate_cpu_locked cv c1 of
          Inl e \<Rightarrow> (Some e, s\<lparr>sys_ctl := c1\<rparr>)
        | Inr (n, c2) \<Rightarrow>
            if \<not> cv_sched_setaffinity cv t n
            then (Some ''sched_setaffinity failed'', s\<lparr>sys_ctl := release_cpu_locked n c2\<rparr>)
            else let bytes = cv_page_size cv * ucast (c_watchpoint_capacity c2);
                     scratch = cv_mmap cv t bytes in
              if scratch = MAP_FAILED
              then (Some ''mmap scratch watchpoint region failed'', s\<lparr>sys_ctl := release_cpu_locked n c2\<rparr>)
              else let s2 = s\<lparr>sys_ctl := c2, sys_mem := (scratch, bytes) # sys_mem s\<rparr>;
                       reg = \<lparr>reg_tid = t, reg_cpu = n, reg_scratch_base = scratch,
                              reg_scratch_stride = cv_page_size cv\<rparr> in
                case ioctl_or_throw io cv ''RDKIOC_REGISTER_THREAD'' (RDKIOC_REGISTER_THREAD (Some reg)) s2 of
                  (Some e, s3) \<Rightarrow> (Some e, s3\<lparr>sys_ctl := release_cpu_locked n (sys_ctl s3),
                                    sys_mem := munmap scratch bytes (sys_mem s3)\<rparr>)
                | (None, s3) \<Rightarrow> (None, upd_ctl (\<lambda>c. c\<lparr>c_threads := (c_threads c)(t \<mapsto>
                    \<lparr>tb_tid = t, tb_cpu = n, tb_scratch = scratch, tb_scratch_bytes = bytes,
                     tb_scratch_base = scratch, tb_scratch_stride = cv_page_size cv, tb_active = True\<rparr>)\<rparr>) s3))"

definition unregister_thread_locked :: "'d dev_io \<Rightarrow> ctl_env \<Rightarrow> int \<Rightarrow> 'd rd_sys \<Rightarrow> 'd outcome" where
  "unregister_thread_locked io cv t s =
     (case c_threads (sys_ctl s) t of
        None \<Rightarrow> (None, s)
      | Some b \<Rightarrow>
          if \<not> tb_active b then (None, s)
          else and_then (ioctl_or_throw io cv ''RDKIOC_UNREGISTER_THREAD'' (RDKIOC_UNREGISTER_THREAD (Some t)))
            (\<lambda>s. let c = release_cpu_locked (tb_cpu b) (sys_ctl s)
                 in (None, s\<lparr>sys_mem := munmap (tb_scratch b) (tb_scratch_bytes b) (sys_mem s),
                       sys_ctl := c\<lparr>c_threads := (c_threads c)(t \<mapsto>
                         b\<lparr>tb_active := False, tb_scratch := 0, tb_scratch_bytes := 0\<rparr>)\<rparr>\<rparr>)) s)"

definition register_current_thread :: "'d dev_io \<Rightarrow> ctl_env \<Rightarrow> 'd rd_sys \<Rightarrow> 'd outcome" where
  "register_current_thread io cv s = register_thread_locked io cv (cv_gettid cv) s"

definition unregister_current_thread :: "'d dev_io \<Rightarrow> ctl_env \<Rightarrow> 'd rd_sys \<Rightarrow> 'd outcome" where
  "unregister_current_thread io cv s = unregister_thread_locked io cv (cv_gettid cv) s"

definition get_threads :: "ctl_env \<Rightarrow> int \<Rightarrow> string + int list" where
  "get_threads cv ignored =
     (case cv_task_dir cv of
        None \<Rightarrow> Inl ''Cannot open /proc/self/task''
      | Some names \<Rightarrow> Inr (sort (filter (\<lambda>t. t \<noteq> 0 \<and> t \<noteq> ignored) (map atoi names))))"

fun register_threads :: "'d dev_io \<Rightarrow> ctl_env \<Rightarrow> int list \<Rightarrow> 'd rd_sys \<Rightarrow> 'd outcome" where
  "register_threads io cv [] s = (None, s)"
| "register_threads io cv (t # ts) s = and_then (register_thread_locked io cv t) (register_threads io cv ts) s"

definition register_initial_threads :: "'d dev_io \<Rightarrow> ctl_env \<Rightarrow> 'd rd_sys \<Rightarrow> 'd outcome" where
  "register_initial_threads io cv s =
     (case get_threads cv 0 of Inl e \<Rightarrow> (Some e, s) | Inr tids \<Rightarrow> register_threads io cv tids s)"

subsection \<open>Configuration\<close>

definition uapi_target :: "hot_target \<Rightarrow> rd_wpctl_target" where
  "uapi_target t = \<lparr>ut_pc_offset = ht_pc_offset t, ut_abs_pc = ht_abs_pc t,
     ut_aggregated_samples = ht_aggregated_samples t, ut_decode = to_uapi_decode (ht_decode t)\<rparr>"

definition session_cfg :: "controller \<Rightarrow> rd_wpctl_session_cfg" where
  "session_cfg c = \<lparr>cfg_wp_capacity = c_watchpoint_capacity c, cfg_callchain_mode = c_callchain_mode c,
     cfg_bp_sample_period = c_bp_sample_period c,
     cfg_dwarf_stack_bytes = (if c_callchain_mode c = RD_CALLCHAIN_DWARF then c_dwarf_stack_bytes c else 0),
     cfg_dwarf_event_capacity = (if c_callchain_mode c = RD_CALLCHAIN_DWARF then c_dwarf_event_capacity c else 0)\<rparr>"

text \<open>
  The batch carries the address of an array that holds \<^term>\<open>map uapi_target (c_targets c)\<close>; the
  device reads it from there.
\<close>

definition configure_session :: "'d dev_io \<Rightarrow> ctl_env \<Rightarrow> 'd rd_sys \<Rightarrow> 'd outcome" where
  "configure_session io cv s =
     and_then (ioctl_or_throw io cv ''RDKIOC_CONFIG_SESSION'' (RDKIOC_CONFIG_SESSION (Some (session_cfg (sys_ctl s)))))
       (ioctl_or_throw io cv ''RDKIOC_LOAD_TARGETS'' (RDKIOC_LOAD_TARGETS (Some
          \<lparr>targets_ptr = cv_targets_ptr cv, batch_count = of_nat (length (map uapi_target (c_targets (sys_ctl s))))\<rparr>))) s"

subsection \<open>Construction\<close>

definition env_value :: "ctl_env \<Rightarrow> string \<Rightarrow> string option" where
  "env_value cv name = (case cv_getenv cv name of None \<Rightarrow> None | Some v \<Rightarrow> if v = [] then None else Some v)"

text \<open>A variable with a positive number: \<open>None\<close> when it is not set.\<close>

definition env_positive :: "ctl_env \<Rightarrow> string \<Rightarrow> string + int option" where
  "env_positive cv name =
     (case env_value cv name of
        None \<Rightarrow> Inr None
      | Some v \<Rightarrow> let n = fst (strtoll 10 v)
                  in if n \<le> 0 then Inl (name @ '' must be positive'') else Inr (Some n))"

definition env_callchain_mode :: "ctl_env \<Rightarrow> string + u32" where
  "env_callchain_mode cv =
     (case env_value cv ''RD_CALLCHAIN_MODE'' of
        None \<Rightarrow> Inr RD_CALLCHAIN_OFF
      | Some mode \<Rightarrow>
          if mode = ''off'' then Inr RD_CALLCHAIN_OFF
          else if mode = ''fp'' then Inr RD_CALLCHAIN_FP
          else if mode = ''dwarf'' then Inr RD_CALLCHAIN_DWARF
          else Inl ''RD_CALLCHAIN_MODE must be off, fp, or dwarf'')"

definition env_dwarf_stack :: "ctl_env \<Rightarrow> string + int option" where
  "env_dwarf_stack cv =
     (case env_value cv ''RD_DWARF_STACK_BYTES'' of
        None \<Rightarrow> Inr None
      | Some v \<Rightarrow> let n = fst (strtoll 10 v)
                  in if n \<le> 0 \<or> n > int RD_WPCTL_MAX_DWARF_STACK_BYTES
                     then Inl (''RD_DWARF_STACK_BYTES must be in [1, '' @ show_dec RD_WPCTL_MAX_DWARF_STACK_BYTES @ '']'')
                     else Inr (Some n))"

text \<open>Reading a setting: the error, or the controller with the setting.\<close>

definition setting :: "(string + 'a) \<Rightarrow> ('a \<Rightarrow> controller \<Rightarrow> string + controller) \<Rightarrow> controller \<Rightarrow> string + controller" where
  "setting r f c = (case r of Inl e \<Rightarrow> Inl e | Inr v \<Rightarrow> f v c)"

definition number_or :: "'a::len word \<Rightarrow> int option \<Rightarrow> 'a word" where
  "number_or deflt v = (case v of None \<Rightarrow> deflt | Some n \<Rightarrow> word_of_int n)"

definition initial_controller :: "ctl_env \<Rightarrow> string option \<Rightarrow> bool \<Rightarrow> controller" where
  "initial_controller cv profile_name is_pin =
     \<lparr>c_running = True, c_window_open = False, c_auto_fallback_active = False, c_explicit_window_seen = False,
      c_auto_window_discarded_on_first_explicit = False, c_is_pin = is_pin, c_num_cpus = cv_nprocs cv,
      c_watchpoint_capacity = DEFAULT_WP_CAPACITY, c_bp_capacity = DEFAULT_BP_CAPACITY,
      c_bp_sample_period = DEFAULT_BP_SAMPLE_PERIOD, c_callchain_mode = RD_CALLCHAIN_OFF,
      c_dwarf_stack_bytes = DEFAULT_DWARF_STACK_BYTES, c_dwarf_event_capacity = DEFAULT_DWARF_EVENT_CAPACITY,
      c_nameprefix = (case profile_name of None \<Rightarrow> ''rd'' | Some n \<Rightarrow> n), c_target_file = [],
      c_rd_event_name = ''mem_access'', c_main_binary_path = [],
      c_instruction_support = ''aarch64 objdump-parsed ldr/str/ldur/stur with [base], [base,#imm], [base,index{,extend #shift}]'',
      c_candidate_target_count = 0, c_capacity_truncated_target_count = 0, c_targets = [], c_rejected_targets = [],
      c_cpu_owner = [], c_threads = Map.empty\<rparr>"

definition read_self_exe_path :: "ctl_env \<Rightarrow> string" where
  "read_self_exe_path cv =
     (case cv_self_exe cv of None \<Rightarrow> []
      | Some p \<Rightarrow> if p = [] then [] else normalize_filesystem_path (cv_os cv) p)"

definition read_event_name :: "ctl_env \<Rightarrow> controller \<Rightarrow> string + string" where
  "read_event_name cv c =
     (let name = (case env_value cv ''RD_RD_EVENT'' of None \<Rightarrow> c_rd_event_name c | Some v \<Rightarrow> v)
      in if name \<noteq> ''mem_access'' then Inl ''kernel targeted_rd only supports RD_RD_EVENT=mem_access'' else Inr name)"

text \<open>The settings, in the order in which the constructor reads them.\<close>

definition read_settings :: "ctl_env \<Rightarrow> controller \<Rightarrow> string + controller" where
  "read_settings cv c =
     (case env_value cv ''RD_TARGET_FILE'' of
        None \<Rightarrow> Inl ''RD_TARGET_FILE is required for RD_MODE=targeted_rd''
      | Some tf \<Rightarrow>
          setting (env_positive cv ''RD_WP_CAPACITY'') (\<lambda>wp.
          setting (env_positive cv ''RD_BP_CAPACITY'') (\<lambda>bp.
          setting (env_positive cv ''RD_BP_SAMPLE_PERIOD'') (\<lambda>period.
          setting (read_event_name cv c) (\<lambda>event.
          setting (env_callchain_mode cv) (\<lambda>mode.
          setting (env_dwarf_stack cv) (\<lambda>stack.
          setting (env_positive cv ''RD_DWARF_EVENT_CAPACITY'') (\<lambda>cap c.
            if read_self_exe_path cv = [] then Inl ''cannot resolve /proc/self/exe''
            else Inr (c\<lparr>c_target_file := tf, c_watchpoint_capacity := number_or (c_watchpoint_capacity c) wp,
              c_bp_capacity := number_or (c_bp_capacity c) bp,
              c_bp_sample_period := number_or (c_bp_sample_period c) period, c_rd_event_name := event,
              c_callchain_mode := mode, c_dwarf_stack_bytes := number_or (c_dwarf_stack_bytes c) stack,
              c_dwarf_event_capacity := number_or (c_dwarf_event_capacity c) cap,
              c_main_binary_path := read_self_exe_path cv,
              c_cpu_owner := replicate (nat (c_num_cpus c)) 0\<rparr>)))))))) c)"

text \<open>\<^verbatim>\<open>load_targets\<close> on the controller's members.\<close>

definition load_targets_into :: "ctl_env \<Rightarrow> 'd rd_sys \<Rightarrow> 'd outcome" where
  "load_targets_into cv s =
     (let c = sys_ctl s in
      case load_targets (cv_os cv) (cv_hotspot_walk cv) (c_target_file c) (c_main_binary_path c)
             (cv_file cv (c_target_file c)) (c_bp_capacity c) of
        Inl e \<Rightarrow> (Some e, s)
      | Inr ld \<Rightarrow> (None, s\<lparr>sys_ctl := c\<lparr>c_targets := ld_targets ld, c_rejected_targets := ld_rejected ld,
          c_candidate_target_count := ld_candidate_target_count ld,
          c_capacity_truncated_target_count := ld_capacity_truncated ld\<rparr>\<rparr>))"

definition TargetedRdProfiler ::
  "'d dev_io \<Rightarrow> ctl_env \<Rightarrow> string option \<Rightarrow> bool \<Rightarrow> 'd \<Rightarrow> (u64 \<times> u64) list \<Rightarrow> 'd outcome" where
  "TargetedRdProfiler io cv profile_name is_pin d mem =
     (let c = initial_controller cv profile_name is_pin;
          s = \<lparr>sys_ctl = c, sys_dev = d, sys_mem = mem\<rparr> in
      case read_settings cv c of
        Inl e \<Rightarrow> (Some e, s)
      | Inr c1 \<Rightarrow>
          let s1 = s\<lparr>sys_ctl := c1\<rparr>; info_path = c_nameprefix c1 @ ''.rd2.info'' in
          if \<not> cv_can_create cv info_path then (Some (''cannot open '' @ info_path), s1)
          else case cv_open_device cv of
              Some e \<Rightarrow> (Some (''cannot open /dev/rd_wpctl: '' @ cv_strerror cv e), s1)
            | None \<Rightarrow>
                and_then (load_targets_into cv)
                  (and_then (configure_session io cv)
                    (and_then (register_initial_threads io cv)
                      (and_then (start_window_locked io cv)
                        (\<lambda>s. (None, upd_ctl (\<lambda>c. c\<lparr>c_auto_fallback_active := True\<rparr>) s))))) s1)"

end
