(* ===== verification/Report.thy ===== *)
theory Report
  imports Controller
begin

text \<open>
  The result files of \<^verbatim>\<open>src/targeted_rd.cc\<close>: the histograms, pair histograms, contexts and DWARF events
  of every thread, the information file, and the destructor that writes them.  What a writer does
  to the files is a list of operations; the writer also returns the exception it throws, if any.
\<close>

subsection \<open>Output\<close>

datatype out_op = FCreate string | FPut string string | FPutEvent string rd_wpctl_dwarf_event_req

text \<open>The text of a file after a sequence of operations: opening truncates it.\<close>

fun out_text :: "string \<Rightarrow> out_op list \<Rightarrow> string \<Rightarrow> string" where
  "out_text path [] old = old"
| "out_text path (FCreate p # ops) old = out_text path ops (if p = path then [] else old)"
| "out_text path (FPut p s # ops) old = out_text path ops (if p = path then old @ s else old)"
| "out_text path (FPutEvent p e # ops) old = out_text path ops old"

type_synonym 'd writer = "'d \<Rightarrow> string option \<times> out_op list \<times> 'd"

fun write_all :: "'d writer list \<Rightarrow> 'd writer" where
  "write_all [] d = (None, [], d)"
| "write_all (w # ws) d =
     (case w d of
        (Some e, ops, d1) \<Rightarrow> (Some e, ops, d1)
      | (None, ops, d1) \<Rightarrow> (case write_all ws d1 of (r, ops', d2) \<Rightarrow> (r, ops @ ops', d2)))"

text \<open>Operations that cannot fail.\<close>

definition emit :: "out_op list \<Rightarrow> 'd writer" where
  "emit ops d = (None, ops, d)"

definition open_file :: "ctl_env \<Rightarrow> string \<Rightarrow> 'd writer" where
  "open_file cv path d = (if cv_can_create cv path then (None, [FCreate path], d) else (Some (''cannot open '' @ path), [], d))"

text \<open>A query: the reply goes on to the rest, an error is thrown.\<close>

definition query :: "'d dev_io \<Rightarrow> ctl_env \<Rightarrow> string \<Rightarrow> rd_cmd \<Rightarrow> (rd_reply \<Rightarrow> 'd writer) \<Rightarrow> 'd writer" where
  "query io cv name cmd k d =
     (case io d cmd of
        (RetErr e, _, d1) \<Rightarrow> (Some (ioctl_error cv name e), [], d1)
      | (RetOk, rep, d1) \<Rightarrow> k rep d1)"

definition row :: "string list \<Rightarrow> string" where
  "row cols = join_with (CHR 0x09) cols @ [CHR 0x0A]"

definition dec :: "'a::len word \<Rightarrow> string" where
  "dec v = show_dec (unat v)"

definition show_int :: "int \<Rightarrow> string" where
  "show_int n = (if n < 0 then ''-'' @ show_dec (nat (- n)) else show_dec (nat n))"

definition hex0x :: "u64 \<Rightarrow> string" where
  "hex0x v = ''0x'' @ hex_u64 v"

text \<open>Beyond bucket 64 the shift of \<^verbatim>\<open>bucket_lo\<close> is undefined, and so is what is printed.\<close>

definition bounds :: "u32 \<Rightarrow> string list" where
  "bounds b = [dec (the (bucket_lo b)), dec (bucket_hi b)]"

text \<open>One row for every bucket that is not empty, after the fields that identify the histogram.\<close>

definition bucket_rows :: "string \<Rightarrow> string list \<Rightarrow> u64 list \<Rightarrow> out_op list" where
  "bucket_rows path key buckets =
     map (\<lambda>b. FPut path (row (key @ bounds (of_nat b) @ [dec (buckets ! b)])))
       (filter (\<lambda>b. buckets ! b \<noteq> 0) [0..<RD_WPCTL_LOG2_BUCKETS])"

subsection \<open>The files of a thread\<close>

definition thread_path :: "controller \<Rightarrow> rd_wpctl_thread_stats \<Rightarrow> string \<Rightarrow> string" where
  "thread_path c stats suffix = c_nameprefix c @ ''.rd2.t'' @ show_int (st_tid stats) @ suffix"

definition hist_reply :: "rd_reply \<Rightarrow> u64 list" where
  "hist_reply rep = (case rep of HistReply r \<Rightarrow> hr_buckets r | _ \<Rightarrow> replicate RD_WPCTL_LOG2_BUCKETS 0)"

definition write_thread_histograms :: "'d dev_io \<Rightarrow> ctl_env \<Rightarrow> controller \<Rightarrow> rd_wpctl_thread_stats \<Rightarrow> u32 \<Rightarrow> 'd writer" where
  "write_thread_histograms io cv c stats ti =
     (let path = thread_path c stats ''.hist.log2.txt'' in
      write_all ([open_file cv path, emit [FPut path (row [''pc_offset'', ''bucket_lo'', ''bucket_hi'', ''count''])]] @
        map (\<lambda>i. query io cv ''RDKIOC_GET_LOG2_HIST'' (RDKIOC_GET_LOG2_HIST (Some (ti, of_nat i)))
                   (\<lambda>rep. emit (bucket_rows path [hex0x (ht_pc_offset (c_targets c ! i))] (hist_reply rep))))
          [0..<length (c_targets c)]))"

definition pair_reply :: "rd_reply \<Rightarrow> rd_wpctl_pair_hist_req option" where
  "pair_reply rep = (case rep of PairReply r \<Rightarrow> if pr_used r = 0 then None else Some r | _ \<Rightarrow> None)"

definition write_thread_pair_histograms ::
  "'d dev_io \<Rightarrow> ctl_env \<Rightarrow> controller \<Rightarrow> rd_wpctl_thread_stats \<Rightarrow> u32 \<Rightarrow> 'd writer" where
  "write_thread_pair_histograms io cv c stats ti =
     (let path = thread_path c stats ''.pair.hist.log2.txt'' in
      write_all ([open_file cv path, emit [FPut path (row [''seed_pc_offset'', ''seed_context_id'', ''reuse_pc'',
          ''reuse_context_id'', ''bucket_lo'', ''bucket_hi'', ''count''])]] @
        map (\<lambda>i. query io cv ''RDKIOC_GET_PAIR_HIST_ENTRY'' (RDKIOC_GET_PAIR_HIST_ENTRY (Some (ti, of_nat i)))
                   (\<lambda>rep. emit (case pair_reply rep of None \<Rightarrow> []
                      | Some r \<Rightarrow> bucket_rows path [hex0x (pr_seed_pc_offset r), dec (pr_seed_context_id r),
                          hex0x (pr_reuse_pc r), dec (pr_reuse_context_id r)] (pr_buckets r))))
          [0..<RD_WPCTL_MAX_PAIR_HISTS]))"

definition context_row :: "rd_wpctl_context_req \<Rightarrow> string" where
  "context_row r = row ([dec (cr_context_id r), dec (cr_depth r)] @
     map (\<lambda>i. if i < unat (cr_depth r) then hex0x (cr_ips r ! i) else ''0x0'') [0..<RD_WPCTL_MAX_CALLCHAIN_DEPTH])"

definition write_thread_contexts :: "'d dev_io \<Rightarrow> ctl_env \<Rightarrow> controller \<Rightarrow> rd_wpctl_thread_stats \<Rightarrow> u32 \<Rightarrow> 'd writer" where
  "write_thread_contexts io cv c stats ti =
     (let path = thread_path c stats ''.contexts.txt'' in
      write_all ([open_file cv path, emit [FPut path (row ([''context_id'', ''depth''] @
          map (\<lambda>i. ''ip'' @ show_dec i) [0..<RD_WPCTL_MAX_CALLCHAIN_DEPTH]))]] @
        map (\<lambda>i. query io cv ''RDKIOC_GET_CONTEXT_ENTRY'' (RDKIOC_GET_CONTEXT_ENTRY (Some (ti, of_nat i)))
                   (\<lambda>rep. emit (case rep of ContextReply r \<Rightarrow> if cr_used r = 0 then [] else [FPut path (context_row r)] | _ \<Rightarrow> [])))
          [1..<Suc RD_WPCTL_MAX_CONTEXTS]))"

definition dwarf_row :: "rd_wpctl_dwarf_event_req \<Rightarrow> string" where
  "dwarf_row r = row ([dec (de_event_index r), show_int (de_tid r), dec (de_target_index r), hex0x (de_seed_pc_offset r),
     hex0x (de_seed_pc r), hex0x (de_reuse_pc r)] @ bounds (ucast (de_bucket r)) @ [dec (de_delta r),
     hex0x (snap_sp (de_seed r)), hex0x (snap_sp (de_reuse r)), dec (snap_stack_size (de_seed r)), dec (snap_stack_size (de_reuse r))])"

definition write_dwarf_event :: "ctl_env \<Rightarrow> string \<Rightarrow> string \<Rightarrow> rd_reply \<Rightarrow> 'd writer" where
  "write_dwarf_event cv bin_path txt_path rep d =
     (case rep of
        DwarfReply r \<Rightarrow>
          if de_used r = 0 then (None, [], d)
          else if \<not> cv_write_ok cv bin_path then (Some (''write failed for '' @ bin_path), [], d)
          else (None, [FPutEvent bin_path r, FPut txt_path (dwarf_row r)], d)
      | _ \<Rightarrow> (None, [], d))"

text \<open>Both files are opened before either is tested.\<close>

definition write_thread_dwarf_events ::
  "'d dev_io \<Rightarrow> ctl_env \<Rightarrow> controller \<Rightarrow> rd_wpctl_thread_stats \<Rightarrow> u32 \<Rightarrow> 'd writer" where
  "write_thread_dwarf_events io cv c stats ti d =
     (let bin_path = thread_path c stats ''.dwarf.raw.bin''; txt_path = thread_path c stats ''.dwarf.raw.txt'';
          opened = map FCreate (filter (cv_can_create cv) [bin_path, txt_path]) in
      if \<not> cv_can_create cv bin_path then (Some (''cannot open '' @ bin_path), opened, d)
      else if \<not> cv_can_create cv txt_path then (Some (''cannot open '' @ txt_path), opened, d)
      else write_all (emit (opened @ [FPut txt_path (row [''event_index'', ''tid'', ''target_index'', ''seed_pc_offset'', ''seed_pc'',
               ''reuse_pc'', ''bucket_lo'', ''bucket_hi'', ''delta'', ''seed_sp'', ''reuse_sp'', ''seed_stack_size'',
               ''reuse_stack_size''])]) #
             map (\<lambda>i. query io cv ''RDKIOC_GET_DWARF_EVENT'' (RDKIOC_GET_DWARF_EVENT (Some (ti, of_nat i)))
                        (write_dwarf_event cv bin_path txt_path))
               [0..<unat (st_dwarf_event_used stats)]) d)"

subsection \<open>The information file\<close>

definition thread_row :: "rd_wpctl_thread_stats \<Rightarrow> string" where
  "thread_row st = ''thread='' @ row [show_int (st_tid st), show_int (st_cpu st), dec (st_candidate_samples st),
     dec (st_reservoir_seen st), dec (st_reservoir_accepted st), dec (st_reservoir_rejected st), dec (st_hits st),
     dec (st_evictions st), dec (st_dropped st), dec (st_pair_hist_used st), dec (st_pair_hist_dropped st),
     dec (st_context_used st), dec (st_context_dropped st), dec (st_callchain_failed st), dec (st_callchain_truncated st),
     dec (st_dwarf_event_used st), dec (st_dwarf_event_dropped st), dec (st_dwarf_stack_copy_failed st),
     dec (st_dwarf_stack_bytes st)]"

text \<open>The members of the zero-initialised request that a device leaves alone.\<close>

definition zero_stats :: "u32 \<Rightarrow> rd_wpctl_thread_stats" where
  "zero_stats i = \<lparr>st_index = i, st_tid = 0, st_cpu = 0, st_active = 0, st_candidate_samples = 0, st_reservoir_seen = 0,
     st_reservoir_accepted = 0, st_reservoir_rejected = 0, st_hits = 0, st_evictions = 0, st_dropped = 0,
     st_pair_hist_used = 0, st_pair_hist_dropped = 0, st_context_used = 0, st_context_dropped = 0,
     st_callchain_failed = 0, st_callchain_truncated = 0, st_dwarf_event_used = 0, st_dwarf_event_dropped = 0,
     st_dwarf_stack_copy_failed = 0, st_dwarf_stack_bytes = 0\<rparr>"

definition stats_reply :: "u32 \<Rightarrow> rd_reply \<Rightarrow> rd_wpctl_thread_stats" where
  "stats_reply i rep = (case rep of StatsReply st \<Rightarrow> st | _ \<Rightarrow> zero_stats i)"

text \<open>What is written for one thread once its statistics are there.\<close>

definition write_thread :: "'d dev_io \<Rightarrow> ctl_env \<Rightarrow> controller \<Rightarrow> string \<Rightarrow> u32 \<Rightarrow> rd_wpctl_thread_stats \<Rightarrow> 'd writer" where
  "write_thread io cv c info i st =
     write_all ([emit [FPut info (thread_row st)], write_thread_histograms io cv c st i,
        write_thread_pair_histograms io cv c st i] @
       (if c_callchain_mode c = RD_CALLCHAIN_FP then [write_thread_contexts io cv c st i] else []) @
       (if c_callchain_mode c = RD_CALLCHAIN_DWARF then [write_thread_dwarf_events io cv c st i] else []))"

text \<open>The loop over the threads; the last argument collects the statistics for the totals.\<close>

fun write_threads ::
  "'d dev_io \<Rightarrow> ctl_env \<Rightarrow> controller \<Rightarrow> string \<Rightarrow> nat list \<Rightarrow> rd_wpctl_thread_stats list \<Rightarrow>
   (rd_wpctl_thread_stats list \<Rightarrow> 'd writer) \<Rightarrow> 'd writer" where
  "write_threads io cv c info [] sts k d = k sts d"
| "write_threads io cv c info (i # is) sts k d =
     query io cv ''RDKIOC_GET_THREAD_STATS'' (RDKIOC_GET_THREAD_STATS (Some (of_nat i)))
       (\<lambda>rep. let st = stats_reply (of_nat i) rep
              in write_all [write_thread io cv c info (of_nat i) st, write_threads io cv c info is (sts @ [st]) k]) d"

definition entry :: "string \<Rightarrow> string \<Rightarrow> string" where
  "entry key v = key @ ''='' @ v @ [CHR 0x0A]"

definition info_settings :: "controller \<Rightarrow> string" where
  "info_settings c =
     entry ''mode'' ''targeted_rd'' @ entry ''targeted_rd_backend'' ''kernel_module'' @
     entry ''targeted_rd_seed_source'' ''execute_breakpoint'' @
     entry ''targeted_rd_rd_source'' ''kernel_perf_event_read_value'' @
     entry ''targeted_rd_binary_patch'' ''0'' @ entry ''hist_format'' ''log2_only'' @ entry ''pair_hist_present'' ''1'' @
     entry ''pair_hist_key'' ''seed_pc_offset,seed_context_id,reuse_pc,reuse_context_id'' @
     entry ''pair_hist_reuse_pc_identity'' ''raw_va'' @
     entry ''pair_hist_capacity'' (show_dec RD_WPCTL_MAX_PAIR_HISTS) @
     entry ''callchain_present'' (if c_callchain_mode c = RD_CALLCHAIN_OFF then ''0'' else ''1'') @
     entry ''callchain_mode'' (callchain_mode_name (c_callchain_mode c)) @
     entry ''callchain_max_depth'' (show_dec RD_WPCTL_MAX_CALLCHAIN_DEPTH) @
     entry ''context_capacity'' (show_dec RD_WPCTL_MAX_CONTEXTS) @
     (if c_callchain_mode c = RD_CALLCHAIN_DWARF
      then entry ''dwarf_unwind_present'' ''1'' @ entry ''dwarf_stack_bytes'' (dec (c_dwarf_stack_bytes c)) @
           entry ''dwarf_event_capacity'' (dec (c_dwarf_event_capacity c)) else []) @
     entry ''window_mode'' (if c_explicit_window_seen c then ''explicit'' else ''auto_fallback'') @
     (if c_auto_window_discarded_on_first_explicit c then entry ''auto_window_discarded_on_first_explicit'' ''1'' else []) @
     entry ''target_file'' (c_target_file c) @ entry ''main_binary'' (c_main_binary_path c)"

definition info_modules :: "runtime_module_map list \<Rightarrow> string" where
  "info_modules maps =
     entry ''pc_identity'' ''raw_va'' @ entry ''module_map_version'' ''1'' @
     entry ''module_map_scope'' ''targeted_rd_current_run'' @
     entry ''module_map_fields'' ''module_id,path,vm_start,vm_end,file_offset'' @
     entry ''module_map_count'' (show_dec (length maps)) @
     concat (map (\<lambda>e. ''module_map='' @ row [dec (mm_module_id e), mm_path e, hex0x (mm_vm_start e), hex0x (mm_vm_end e),
       hex0x (mm_file_offset e)]) maps)"

definition info_targets :: "controller \<Rightarrow> string" where
  "info_targets c =
     entry ''instruction_support'' (c_instruction_support c) @ entry ''rd_event'' (c_rd_event_name c) @
     entry ''candidate_source'' ''sparse_execute_breakpoint_samples'' @
     entry ''breakpoint_sample_period'' (dec (c_bp_sample_period c)) @ entry ''bp_capacity'' (dec (c_bp_capacity c)) @
     entry ''reservoir_capacity'' (dec (c_watchpoint_capacity c)) @ entry ''watchpoint_count'' (dec (c_watchpoint_capacity c)) @
     entry ''target_filter_policy'' ''drop_unsupported_hotspots'' @
     entry ''requested_target_count'' (dec (c_candidate_target_count c)) @
     entry ''candidate_target_count'' (dec (c_candidate_target_count c)) @
     entry ''capacity_truncated_target_count'' (dec (c_capacity_truncated_target_count c)) @
     entry ''rejected_target_count'' (show_dec (length (c_rejected_targets c))) @
     entry ''cpu_binding'' ''exclusive_process_local'' @ entry ''target_count'' (show_dec (length (c_targets c))) @
     concat (map (\<lambda>i. let t = c_targets c ! i in ''target='' @ row [show_dec i, hex0x (ht_pc_offset t), hex0x (ht_abs_pc t),
       dec (ht_aggregated_samples t), ht_mnemonic t, ht_operands t]) [0..<length (c_targets c)]) @
     concat (map (\<lambda>t. ''rejected_target='' @ row [hex0x (rj_pc_offset t), dec (rj_aggregated_samples t), rj_reason t])
       (c_rejected_targets c))"

definition total :: "(rd_wpctl_thread_stats \<Rightarrow> u64) \<Rightarrow> rd_wpctl_thread_stats list \<Rightarrow> string" where
  "total f sts = dec (sum_list (map f sts))"

definition info_totals :: "rd_wpctl_thread_stats list \<Rightarrow> string" where
  "info_totals sts =
     entry ''seed_samples'' (total st_reservoir_accepted sts) @ entry ''watchpoint_hits'' (total st_hits sts) @
     entry ''evicted_pending_samples'' (total st_evictions sts) @ entry ''dropped_pending_samples'' (total st_dropped sts) @
     entry ''pair_hist_used'' (total (\<lambda>st. ucast (st_pair_hist_used st)) sts) @
     entry ''pair_hist_dropped'' (total st_pair_hist_dropped sts) @
     entry ''context_used'' (total (\<lambda>st. ucast (st_context_used st)) sts) @
     entry ''context_dropped'' (total st_context_dropped sts) @ entry ''callchain_failed'' (total st_callchain_failed sts) @
     entry ''callchain_truncated'' (total st_callchain_truncated sts) @
     entry ''dwarf_event_used'' (total (\<lambda>st. ucast (st_dwarf_event_used st)) sts) @
     entry ''dwarf_event_dropped'' (total st_dwarf_event_dropped sts) @
     entry ''dwarf_stack_copy_failed'' (total st_dwarf_stack_copy_failed sts)"

definition layout_threads :: "rd_reply \<Rightarrow> u32" where
  "layout_threads rep = (case rep of LayoutReply l \<Rightarrow> lay_thread_count l | _ \<Rightarrow> 0)"

definition write_info :: "'d dev_io \<Rightarrow> ctl_env \<Rightarrow> controller \<Rightarrow> 'd writer" where
  "write_info io cv c =
     (let info = c_nameprefix c @ ''.rd2.info'' in
      query io cv ''RDKIOC_GET_LAYOUT'' RDKIOC_GET_LAYOUT (\<lambda>rep.
        write_all [emit [FPut info (info_settings c), FPut info (info_modules (snapshot_runtime_module_maps (cv_os cv))),
            FPut info (info_targets c), FPut info (entry ''thread_count'' (dec (layout_threads rep)))],
          write_threads io cv c info [0..<unat (layout_threads rep)] []
            (\<lambda>sts. emit [FPut info (info_totals sts)])]))"

subsection \<open>Destruction\<close>

fun unregister_all :: "'d dev_io \<Rightarrow> ctl_env \<Rightarrow> int list \<Rightarrow> 'd rd_sys \<Rightarrow> 'd outcome" where
  "unregister_all io cv [] s = (None, s)"
| "unregister_all io cv (t # ts) s =
     and_then (\<lambda>s. if bound (sys_ctl s) t then unregister_thread_locked io cv t s else (None, s))
       (unregister_all io cv ts) s"

text \<open>
  The destructor: what goes wrong is only reported, and the device is closed in any case
  (\<open>close\<close> is the effect of closing it).
\<close>

definition destroy_profiler ::
  "'d dev_io \<Rightarrow> ctl_env \<Rightarrow> ('d \<Rightarrow> 'd) \<Rightarrow> 'd rd_sys \<Rightarrow> string option \<times> out_op list \<times> 'd rd_sys" where
  "destroy_profiler io cv close s =
     (case and_then (\<lambda>s. if c_window_open (sys_ctl s) then stop_window_locked io cv s else (None, s))
             (\<lambda>s. unregister_all io cv (cv_thread_walk cv (c_threads (sys_ctl s))) s) s of
        (Some e, s1) \<Rightarrow> (Some e, [], s1\<lparr>sys_dev := close (sys_dev s1)\<rparr>)
      | (None, s1) \<Rightarrow> (case write_info io cv (sys_ctl s1) (sys_dev s1) of
          (r, ops, d) \<Rightarrow> (r, ops, s1\<lparr>sys_dev := close d\<rparr>)))"

end
