(* ===== verification/Monitor_State.thy ===== *)
theory Monitor_State
  imports Doubles Report
begin

text \<open>
  The data of the sampling monitor (\<^verbatim>\<open>include/monitor.hh\<close>): the SPE constants, the records of a
  sample, a hotspot, a window, a thread and its samplers, the class \<^verbatim>\<open>Monitor\<close> itself, and what the
  monitor sees of the operating system: perf descriptors, ring and AUX buffers, mappings, the
  epoll set, and the processors that threads were bound to.  A table of the source is an association list; the order in which a hash table is
  walked is a parameter.
\<close>

subsection \<open>SPE packets and sample flags\<close>

definition SPE_PACKET_TS_HEADER :: u8 where "SPE_PACKET_TS_HEADER = 0x71"
definition SPE_PACKET_PADDING_HEADER :: u8 where "SPE_PACKET_PADDING_HEADER = 0x00"
definition SPE_PACKET_END_HEADER :: u8 where "SPE_PACKET_END_HEADER = 0x01"
definition SPE_PACKET_HEADER_PAYLOAD_SIZE_MASK :: u8 where "SPE_PACKET_HEADER_PAYLOAD_SIZE_MASK = 0x30"
definition SPE_PACKET_SHORT_INDEX_MASK :: u8 where "SPE_PACKET_SHORT_INDEX_MASK = 0x07"
definition SPE_PACKET_EVENTS_MASK :: u8 where "SPE_PACKET_EVENTS_MASK = 0xCF"
definition SPE_PACKET_EVENTS_HEADER :: u8 where "SPE_PACKET_EVENTS_HEADER = 0x42"
definition SPE_PACKET_ADDRESS_MASK :: u8 where "SPE_PACKET_ADDRESS_MASK = 0xF8"
definition SPE_PACKET_ADDRESS_HEADER :: u8 where "SPE_PACKET_ADDRESS_HEADER = 0xB0"
definition SPE_PACKET_COUNTER_MASK :: u8 where "SPE_PACKET_COUNTER_MASK = 0xF8"
definition SPE_PACKET_COUNTER_HEADER :: u8 where "SPE_PACKET_COUNTER_HEADER = 0x98"

definition SPE_ADDR_PKT_HDR_INDEX_INS :: u8 where "SPE_ADDR_PKT_HDR_INDEX_INS = 0"
definition SPE_ADDR_PKT_HDR_INDEX_BRANCH :: u8 where "SPE_ADDR_PKT_HDR_INDEX_BRANCH = 1"
definition SPE_ADDR_PKT_HDR_INDEX_DATA_VIRT :: u8 where "SPE_ADDR_PKT_HDR_INDEX_DATA_VIRT = 2"
definition SPE_ADDR_PKT_HDR_INDEX_PREV_BRANCH :: u8 where "SPE_ADDR_PKT_HDR_INDEX_PREV_BRANCH = 4"

definition SPE_CNT_PKT_HDR_INDEX_TOTAL_LAT :: u8 where "SPE_CNT_PKT_HDR_INDEX_TOTAL_LAT = 0"
definition SPE_CNT_PKT_HDR_INDEX_ISSUE_LAT :: u8 where "SPE_CNT_PKT_HDR_INDEX_ISSUE_LAT = 1"
definition SPE_CNT_PKT_HDR_INDEX_TRANS_LAT :: u8 where "SPE_CNT_PKT_HDR_INDEX_TRANS_LAT = 2"

definition SPE_EVENT_L1D_REFILL :: nat where "SPE_EVENT_L1D_REFILL = 3"
definition SPE_EVENT_TLB_WALK :: nat where "SPE_EVENT_TLB_WALK = 5"
definition SPE_EVENT_LLC_MISS :: nat where "SPE_EVENT_LLC_MISS = 9"
definition SPE_EVENT_REMOTE_ACCESS :: nat where "SPE_EVENT_REMOTE_ACCESS = 10"

definition SPE_SAMPLE_FLAG_PC_VALID :: u64 where "SPE_SAMPLE_FLAG_PC_VALID = 1"
definition SPE_SAMPLE_FLAG_LAT_TOTAL_VALID :: u64 where "SPE_SAMPLE_FLAG_LAT_TOTAL_VALID = 2"
definition SPE_SAMPLE_FLAG_LAT_ISSUE_VALID :: u64 where "SPE_SAMPLE_FLAG_LAT_ISSUE_VALID = 4"
definition SPE_SAMPLE_FLAG_LAT_XLAT_VALID :: u64 where "SPE_SAMPLE_FLAG_LAT_XLAT_VALID = 8"
definition SPE_SAMPLE_FLAG_EVENTS_VALID :: u64 where "SPE_SAMPLE_FLAG_EVENTS_VALID = 16"
definition SPE_SAMPLE_FLAG_LAT_EXEC_VALID :: u64 where "SPE_SAMPLE_FLAG_LAT_EXEC_VALID = 32"
definition SPE_SAMPLE_FLAG_DATA_VA_VALID :: u64 where "SPE_SAMPLE_FLAG_DATA_VA_VALID = 64"

lemmas spe_headers =
  SPE_PACKET_TS_HEADER_def SPE_PACKET_PADDING_HEADER_def SPE_PACKET_END_HEADER_def
  SPE_PACKET_HEADER_PAYLOAD_SIZE_MASK_def SPE_PACKET_SHORT_INDEX_MASK_def SPE_PACKET_EVENTS_MASK_def
  SPE_PACKET_EVENTS_HEADER_def SPE_PACKET_ADDRESS_MASK_def SPE_PACKET_ADDRESS_HEADER_def
  SPE_PACKET_COUNTER_MASK_def SPE_PACKET_COUNTER_HEADER_def

lemmas spe_indices =
  SPE_ADDR_PKT_HDR_INDEX_INS_def SPE_ADDR_PKT_HDR_INDEX_BRANCH_def SPE_ADDR_PKT_HDR_INDEX_DATA_VIRT_def
  SPE_ADDR_PKT_HDR_INDEX_PREV_BRANCH_def SPE_CNT_PKT_HDR_INDEX_TOTAL_LAT_def
  SPE_CNT_PKT_HDR_INDEX_ISSUE_LAT_def SPE_CNT_PKT_HDR_INDEX_TRANS_LAT_def

lemmas spe_flags =
  SPE_SAMPLE_FLAG_PC_VALID_def SPE_SAMPLE_FLAG_LAT_TOTAL_VALID_def SPE_SAMPLE_FLAG_LAT_ISSUE_VALID_def
  SPE_SAMPLE_FLAG_LAT_XLAT_VALID_def SPE_SAMPLE_FLAG_EVENTS_VALID_def SPE_SAMPLE_FLAG_LAT_EXEC_VALID_def
  SPE_SAMPLE_FLAG_DATA_VA_VALID_def

subsection \<open>Records\<close>

text \<open>An event specification: the name of every event and whether it starts a group.\<close>

type_synonym event_spec = "(string \<times> bool) list"

record counter_data =
  cd_value :: u64
  cd_active_time :: dbl

text \<open>\<^verbatim>\<open>counters\<close> is a pointer that \<^verbatim>\<open>stop\<close> fills; \<open>None\<close> is null.\<close>

record kinfo =
  ki_tag :: string
  ki_num_samples :: u64
  ki_sample_throttles :: u64
  ki_duration :: dbl
  ki_counters :: "counter_data list option"
  ki_clock_start :: u64
  ki_clock_stop :: u64
  ki_offloaded :: bool

record phase_info =
  ph_tag :: string
  ph_time :: u64

record addr_tag =
  at_tag :: string
  at_start :: u64
  at_end :: u64

record module_map_entry =
  me_module_id :: u32
  me_vm_start :: u64
  me_vm_end :: u64
  me_file_offset :: u64
  me_path :: string

record hotspot_key =
  hk_module_id :: u32
  hk_pc_offset :: u64

record hotspot_stats =
  hs_sample_count :: u64
  hs_lat_total_sum :: u64
  hs_lat_total_count :: u64
  hs_lat_issue_sum :: u64
  hs_lat_issue_count :: u64
  hs_lat_xlat_sum :: u64
  hs_lat_xlat_count :: u64
  hs_lat_exec_sum :: u64
  hs_lat_exec_count :: u64
  hs_l1d_refill_count :: u64
  hs_llc_miss_count :: u64
  hs_tlb_walk_count :: u64
  hs_remote_access_count :: u64

record hotspot_summary =
  hm_tid :: int
  hm_module_id :: u32
  hm_pc_offset :: u64
  hm_sample_count :: u64
  hm_pareto_front :: u64
  hm_candidate_score :: u64
  hm_candidate_metric :: string
  hm_avg_mem_latency :: dbl
  hm_lat_total_sum :: u64
  hm_lat_issue_sum :: u64
  hm_lat_xlat_sum :: u64
  hm_lat_exec_sum :: u64
  hm_l1d_refill_count :: u64
  hm_llc_miss_count :: u64
  hm_tlb_walk_count :: u64
  hm_remote_access_count :: u64
  hm_path :: string

record spe_instruction_sample =
  sp_pc :: u64
  sp_data_va :: u64
  sp_lat_total :: u64
  sp_lat_issue :: u64
  sp_lat_xlat :: u64
  sp_event_bits :: u64
  sp_flags :: u64

text \<open>A sample file: what was written to it, and whether it could be opened.\<close>

record binary_writer =
  bw_path :: string
  bw_open :: bool
  bw_bytes :: "u8 list"

text \<open>Addresses: 0 is the null pointer.\<close>

record sampler_slot =
  ss_slot_id :: int
  ss_tid :: int
  ss_sampler_index :: nat
  ss_fd :: int
  ss_ringbuf :: u64
  ss_ringbuf_bytes :: u64
  ss_auxbuf :: u64
  ss_auxbuf_bytes :: u64
  pending_pc :: u64
  pending_data_va :: u64
  pending_lat_total :: u64
  pending_lat_issue :: u64
  pending_lat_xlat :: u64
  pending_event_bits :: u64
  pending_flags :: u64

record thread_state =
  ts_tid :: int
  ts_active :: bool
  ts_counter_fds :: "int list"
  ts_writers :: "binary_writer list"
  ts_samplers :: "sampler_slot list"

text \<open>
  \<open>mo_sampler_slots\<close> maps a slot id to the slot it points at: the thread and the position among
  its samplers.  \<open>mo_event_fd\<close> and \<open>mo_epoll_fd\<close> are \<open>- 1\<close> without samplers.
\<close>

record monitor =
  mo_num_cpus :: int
  mo_sample_period :: u64
  mo_ringbufsize :: int
  mo_auxbufsize :: int
  mo_counter_spec :: event_spec
  mo_sampler_spec :: event_spec
  mo_nonstop_mode :: bool
  mo_sampler_tid :: int
  mo_events_enabled :: bool
  mo_prev_counters :: "u64 list"
  mo_retired_values :: "u64 list"
  mo_retired_time_enabled :: "u64 list"
  mo_retired_time_running :: "u64 list"
  mo_tids :: "int list"
  mo_threads :: "int \<rightharpoonup> thread_state"
  mo_sampler_slots :: "int \<rightharpoonup> int \<times> nat"
  mo_next_slot_id :: int
  mo_written_sample_bytes :: u64
  mo_nameprefix :: string
  mo_is_pin :: bool
  mo_event_fd :: int
  mo_epoll_fd :: int
  mo_kinfos :: "kinfo list"
  mo_start_time :: "int \<times> int"
  mo_clock_res :: u64
  mo_addr_tags :: "addr_tag list"
  mo_phases :: "phase_info list"
  mo_module_maps :: "module_map_entry list"
  mo_main_binary_path :: string
  mo_thread_hotspots :: "(int \<times> (hotspot_key \<times> hotspot_stats) list) list"
  mo_hotspot_top_k :: nat
  mo_hotspot_min_samples :: u64
  mo_hotspot_min_latency_samples :: u64
  mo_hotspot_unmapped_samples :: u64
  mo_spe_time_packet_flush_count :: u64
  mo_spe_end_packet_flush_count :: u64
  mo_spe_empty_flush_count :: u64
  mo_spe_unknown_packet_count :: u64

subsection \<open>The operating system\<close>

text \<open>
  A perf buffer: the control page, and the bytes of the data area and of the AUX area.  The AUX
  area is mapped at an address of its own, so the reader finds it at the ring's address plus
  \<^verbatim>\<open>aux_offset\<close> only when that sum is the address of the mapping.
\<close>

record perf_buffer =
  pb_data_head :: u64
  pb_data_tail :: u64
  pb_aux_offset :: u64
  pb_aux_size :: u64
  pb_aux_tail :: u64
  pb_data :: "u8 list"
  pb_aux :: "u8 list"

record perf_os =
  po_fds :: "int list"
  po_enabled :: "int list"
  po_epoll :: "(int \<times> u64) list"
  po_maps :: "(u64 \<times> u64) list"
  po_bufs :: "u64 \<Rightarrow> perf_buffer"
  po_pinned :: "(int \<times> int) list"

text \<open>The monitor with the system, the value of the event descriptor and of the semaphore.\<close>

record mon_sys =
  ms_mon :: monitor
  ms_os :: perf_os
  ms_eventfd :: u64
  ms_sem :: nat

subsection \<open>Association lists as hash tables\<close>

text \<open>\<^verbatim>\<open>table[key]\<close> creates a default entry when there is none.\<close>

fun at_key :: "'v \<Rightarrow> 'k \<Rightarrow> ('v \<Rightarrow> 'v) \<Rightarrow> ('k \<times> 'v) list \<Rightarrow> ('k \<times> 'v) list" where
  "at_key d k f [] = [(k, f d)]"
| "at_key d k f ((k', v) # t) = (if k' = k then (k', f v) # t else (k', v) # at_key d k f t)"

definition lookup :: "'v \<Rightarrow> ('k \<times> 'v) list \<Rightarrow> 'k \<Rightarrow> 'v" where
  "lookup d t k = (case map_of t k of None \<Rightarrow> d | Some v \<Rightarrow> v)"

lemma map_of_at_key [simp]: "map_of (at_key d k f t) j = (if j = k then Some (f (lookup d t k)) else map_of t j)"
proof (induction t)
  case (Cons kv t)
  then show ?case by (cases kv) (auto simp: lookup_def)
qed (simp add: lookup_def)

lemma lookup_at_key [simp]: "lookup d (at_key d k f t) j = (if j = k then f (lookup d t k) else lookup d t j)"
  by (simp add: lookup_def)

lemma lookup_Nil [simp]: "lookup d [] k = d"
  by (simp add: lookup_def)

lemma at_key_keys: "set (map fst (at_key d k f t)) = insert k (set (map fst t))"
proof (induction t)
  case (Cons kv t)
  then show ?case by (cases kv) auto
qed simp

lemma at_key_distinct: "distinct (map fst t) \<Longrightarrow> distinct (map fst (at_key d k f t))"
proof (induction t)
  case (Cons kv t)
  then show ?case using at_key_keys [of d k f t] by (cases kv) auto
qed simp

text \<open>\<^verbatim>\<open>v.back()\<close> as a place to assign to.\<close>

definition upd_last :: "('a \<Rightarrow> 'a) \<Rightarrow> 'a list \<Rightarrow> 'a list" where
  "upd_last f xs = (if xs = [] then [] else butlast xs @ [f (last xs)])"

lemma upd_last_simps [simp]:
  "upd_last f [] = []" "upd_last f (xs @ [x]) = xs @ [f x]" "length (upd_last f xs) = length xs"
  by (simp_all add: upd_last_def)

lemma upd_last_eq_Nil [simp]: "upd_last f xs = [] \<longleftrightarrow> xs = []"
  by (simp add: upd_last_def)

end
