(* ===== verification/Hotspots.thy ===== *)
theory Hotspots
  imports Monitor_State
begin

text \<open>
  Hotspots in \<^verbatim>\<open>src/monitor.cc\<close>: the snapshot of the executable mappings, the attribution of a sample
  to an instruction of the main binary, and the choice of the hotspots of a thread by Pareto
  dominance on sample count and average latency.
\<close>

subsection \<open>Which events are SPE events\<close>

text \<open>\<^verbatim>\<open>!strncmp(a, b, n)\<close>: equal up to the first NUL or \<open>n\<close> characters.\<close>

definition strncmp_eq :: "string \<Rightarrow> string \<Rightarrow> nat \<Rightarrow> bool" where
  "strncmp_eq a b n \<longleftrightarrow> take n (a @ [CHR 0x00]) = take n (b @ [CHR 0x00])"

definition parse_arm_spe_event :: "string \<Rightarrow> u64" where
  "parse_arm_spe_event event_name =
     (if strncmp_eq event_name ''ARM_SPE:LOAD'' 13 then 0x200000001
      else if strncmp_eq event_name ''ARM_SPE:STORE'' 14 then 0x400000001
      else if strncmp_eq event_name ''ARM_SPE:LOADSTORE'' 18 then 0x600000001
      else 0)"

text \<open>The value is kept in an \<^verbatim>\<open>int\<close>, 32 bits wide.\<close>

fun has_arm_spe_event :: "string list \<Rightarrow> s32" where
  "has_arm_spe_event [] = 0"
| "has_arm_spe_event (name # names) =
     (let val = ucast (parse_arm_spe_event name) in if val \<noteq> 0 then val else has_arm_spe_event names)"

definition has_arm_spe_samples :: "monitor \<Rightarrow> bool" where
  "has_arm_spe_samples m \<longleftrightarrow> has_arm_spe_event (map fst (mo_sampler_spec m)) \<noteq> 0"

definition sample_record_bytes :: "monitor \<Rightarrow> u64" where
  "sample_record_bytes m = (if has_arm_spe_samples m then 56 else 16)"

definition sample_record_fields :: "monitor \<Rightarrow> string" where
  "sample_record_fields m =
     (if has_arm_spe_samples m then ''pc,data_va,lat_total,lat_issue,lat_xlat,event_bits,flags'' else ''time,addr'')"

definition sample_pc_present :: "monitor \<Rightarrow> bool" where
  "sample_pc_present m = has_arm_spe_samples m"

subsection \<open>Module maps\<close>

text \<open>The monitor's own \<^verbatim>\<open>trim_ascii_space\<close> removes leading white space only.\<close>

definition trim_leading_space :: "string \<Rightarrow> string" where
  "trim_leading_space s = dropWhile isspace s"

definition remember_module_map ::
  "os_env \<Rightarrow> u64 \<Rightarrow> u64 \<Rightarrow> u64 \<Rightarrow> string \<Rightarrow> module_map_entry list \<Rightarrow> module_map_entry list" where
  "remember_module_map os vm_start vm_end file_offset path maps =
     (let effective_path = (if path = [] then ''[anonymous_exec]'' else normalize_filesystem_path os path)
      in if list_ex (\<lambda>e. me_vm_start e = vm_start \<and> me_vm_end e = vm_end \<and>
                         me_file_offset e = file_offset \<and> me_path e = effective_path) maps
         then maps
         else maps @ [\<lparr>me_module_id = of_nat (length maps), me_vm_start = vm_start, me_vm_end = vm_end,
                       me_file_offset = file_offset, me_path = effective_path\<rparr>])"

definition snapshot_main_binary_path :: "ctl_env \<Rightarrow> monitor \<Rightarrow> monitor" where
  "snapshot_main_binary_path cv m =
     (if mo_main_binary_path m = [] then m\<lparr>mo_main_binary_path := read_self_exe_path cv\<rparr> else m)"

text \<open>A line of the maps file with an executable mapping: its range, offset and path.\<close>

definition exec_map_line :: "string \<Rightarrow> (string \<times> string \<times> string) option" where
  "exec_map_line line =
     do {
       (vm_range, r1) \<leftarrow> read_token line;
       (perms, r2) \<leftarrow> read_token r1;
       (offset_hex, r3) \<leftarrow> read_token r2;
       (dev, r4) \<leftarrow> read_token r3;
       (inode, r5) \<leftarrow> read_token r4;
       if length perms < 3 \<or> perms ! 2 \<noteq> CHR ''x'' then None
       else Some (vm_range, offset_hex, trim_leading_space r5)
     }"

definition snapshot_line :: "os_env \<Rightarrow> string \<Rightarrow> module_map_entry list \<Rightarrow> module_map_entry list" where
  "snapshot_line os line maps =
     (case exec_map_line line of
        None \<Rightarrow> maps
      | Some (vm_range, offset_hex, path) \<Rightarrow>
          (case map_range vm_range of
             None \<Rightarrow> maps
           | Some (vm_start, vm_end) \<Rightarrow>
               remember_module_map os vm_start vm_end (fst (strtoull 16 offset_hex)) path maps))"

definition snapshot_module_maps :: "ctl_env \<Rightarrow> monitor \<Rightarrow> string option \<times> monitor" where
  "snapshot_module_maps cv m =
     (if \<not> sample_pc_present m then (None, m)
      else case os_self_maps (cv_os cv) of
          None \<Rightarrow> (Some ''Cannot open /proc/self/maps'', m)
        | Some text \<Rightarrow>
            (None, m\<lparr>mo_module_maps := fold (snapshot_line (cv_os cv)) (lines_of text) (mo_module_maps m)\<rparr>))"

definition find_module_map :: "monitor \<Rightarrow> u64 \<Rightarrow> module_map_entry option" where
  "find_module_map m pc = List.find (\<lambda>e. me_vm_start e \<le> pc \<and> pc < me_vm_end e) (mo_module_maps m)"

definition is_main_binary_module :: "monitor \<Rightarrow> module_map_entry \<Rightarrow> bool" where
  "is_main_binary_module m e \<longleftrightarrow> mo_main_binary_path m \<noteq> [] \<and> me_path e = mo_main_binary_path m"

subsection \<open>Recording a sample\<close>

definition spe_sample_has_event :: "spe_instruction_sample \<Rightarrow> nat \<Rightarrow> bool" where
  "spe_sample_has_event s event_bit \<longleftrightarrow>
     sp_flags s AND SPE_SAMPLE_FLAG_EVENTS_VALID \<noteq> 0 \<and> sp_event_bits s AND push_bit event_bit 1 \<noteq> 0"

definition zero_hotspot_stats :: hotspot_stats where
  "zero_hotspot_stats = \<lparr>hs_sample_count = 0, hs_lat_total_sum = 0, hs_lat_total_count = 0, hs_lat_issue_sum = 0,
     hs_lat_issue_count = 0, hs_lat_xlat_sum = 0, hs_lat_xlat_count = 0, hs_lat_exec_sum = 0, hs_lat_exec_count = 0,
     hs_l1d_refill_count = 0, hs_llc_miss_count = 0, hs_tlb_walk_count = 0, hs_remote_access_count = 0\<rparr>"

definition flag_set :: "spe_instruction_sample \<Rightarrow> u64 \<Rightarrow> bool" where
  "flag_set s f \<longleftrightarrow> sp_flags s AND f \<noteq> 0"

text \<open>\<^verbatim>\<open>if (flag) field += v\<close> adds \<open>if_set flag v\<close>.\<close>

definition if_set :: "bool \<Rightarrow> u64 \<Rightarrow> u64" where
  "if_set b v = (if b then v else 0)"

definition add_to_stats :: "spe_instruction_sample \<Rightarrow> hotspot_stats \<Rightarrow> hotspot_stats" where
  "add_to_stats s st =
     (let total = flag_set s SPE_SAMPLE_FLAG_LAT_TOTAL_VALID; issue = flag_set s SPE_SAMPLE_FLAG_LAT_ISSUE_VALID;
          xlat = flag_set s SPE_SAMPLE_FLAG_LAT_XLAT_VALID; exec = flag_set s SPE_SAMPLE_FLAG_LAT_EXEC_VALID
      in st\<lparr>hs_sample_count := hs_sample_count st + 1,
            hs_lat_total_sum := hs_lat_total_sum st + if_set total (sp_lat_total s),
            hs_lat_total_count := hs_lat_total_count st + if_set total 1,
            hs_lat_issue_sum := hs_lat_issue_sum st + if_set issue (sp_lat_issue s),
            hs_lat_issue_count := hs_lat_issue_count st + if_set issue 1,
            hs_lat_xlat_sum := hs_lat_xlat_sum st + if_set xlat (sp_lat_xlat s),
            hs_lat_xlat_count := hs_lat_xlat_count st + if_set xlat 1,
            hs_lat_exec_sum := hs_lat_exec_sum st + if_set exec (sp_lat_total s - (sp_lat_issue s + sp_lat_xlat s)),
            hs_lat_exec_count := hs_lat_exec_count st + if_set exec 1,
            hs_l1d_refill_count := hs_l1d_refill_count st + if_set (spe_sample_has_event s SPE_EVENT_L1D_REFILL) 1,
            hs_llc_miss_count := hs_llc_miss_count st + if_set (spe_sample_has_event s SPE_EVENT_LLC_MISS) 1,
            hs_tlb_walk_count := hs_tlb_walk_count st + if_set (spe_sample_has_event s SPE_EVENT_TLB_WALK) 1,
            hs_remote_access_count := hs_remote_access_count st + if_set (spe_sample_has_event s SPE_EVENT_REMOTE_ACCESS) 1\<rparr>)"

definition hotspot_key_of :: "module_map_entry \<Rightarrow> u64 \<Rightarrow> hotspot_key" where
  "hotspot_key_of e pc = \<lparr>hk_module_id = me_module_id e, hk_pc_offset = pc - me_vm_start e + me_file_offset e\<rparr>"

definition record_hotspot_sample :: "int \<Rightarrow> spe_instruction_sample \<Rightarrow> monitor \<Rightarrow> monitor" where
  "record_hotspot_sample t s m =
     (if \<not> sample_pc_present m \<or> t \<le> 0 \<or> sp_pc s = 0 \<or> \<not> flag_set s SPE_SAMPLE_FLAG_PC_VALID then m
      else case find_module_map m (sp_pc s) of
          None \<Rightarrow> m\<lparr>mo_hotspot_unmapped_samples := mo_hotspot_unmapped_samples m + 1\<rparr>
        | Some e \<Rightarrow>
            if \<not> is_main_binary_module m e then m
            else m\<lparr>mo_thread_hotspots :=
                   at_key [] t (at_key zero_hotspot_stats (hotspot_key_of e (sp_pc s)) (add_to_stats s)) (mo_thread_hotspots m)\<rparr>)"

subsection \<open>Choosing the hotspots of a thread\<close>

definition hotspot_latency_count :: "hotspot_stats \<Rightarrow> u64" where
  "hotspot_latency_count st = (if hs_lat_exec_count st \<noteq> 0 then hs_lat_exec_count st else hs_lat_total_count st)"

definition hotspot_candidate_score :: "hotspot_stats \<Rightarrow> u64" where
  "hotspot_candidate_score st = (if hs_lat_exec_count st \<noteq> 0 then hs_lat_exec_sum st else hs_lat_total_sum st)"

definition hotspot_candidate_metric :: "hotspot_stats \<Rightarrow> string" where
  "hotspot_candidate_metric st = (if hs_lat_exec_count st \<noteq> 0 then ''lat_exec_sum'' else ''lat_total_sum'')"

definition hotspot_avg_mem_latency :: "hotspot_stats \<Rightarrow> dbl" where
  "hotspot_avg_mem_latency st =
     (if hs_lat_exec_count st \<noteq> 0 then dbl_div (dbl_of_u64 (hs_lat_exec_sum st)) (dbl_of_u64 (hs_lat_exec_count st))
      else if hs_lat_total_count st \<noteq> 0 then dbl_div (dbl_of_u64 (hs_lat_total_sum st)) (dbl_of_u64 (hs_lat_total_count st))
      else 0)"

definition hotspot_dominates :: "hotspot_summary \<Rightarrow> hotspot_summary \<Rightarrow> bool" where
  "hotspot_dominates a b \<longleftrightarrow>
     hm_sample_count a \<ge> hm_sample_count b \<and> hm_avg_mem_latency a \<ge> hm_avg_mem_latency b \<and>
     (hm_sample_count a > hm_sample_count b \<or> hm_avg_mem_latency a > hm_avg_mem_latency b)"

definition hotspot_score_before :: "hotspot_summary \<Rightarrow> hotspot_summary \<Rightarrow> bool" where
  "hotspot_score_before a b =
     (if hm_candidate_score a \<noteq> hm_candidate_score b then hm_candidate_score a > hm_candidate_score b
      else if hm_sample_count a \<noteq> hm_sample_count b then hm_sample_count a > hm_sample_count b
      else if hm_module_id a \<noteq> hm_module_id b then hm_module_id a < hm_module_id b
      else hm_pc_offset a < hm_pc_offset b)"

definition summary_of :: "monitor \<Rightarrow> int \<Rightarrow> hotspot_key \<times> hotspot_stats \<Rightarrow> hotspot_summary" where
  "summary_of m t kv =
     (let k = fst kv; st = snd kv
      in \<lparr>hm_tid = t, hm_module_id = hk_module_id k, hm_pc_offset = hk_pc_offset k,
          hm_sample_count = hs_sample_count st, hm_pareto_front = 0,
          hm_candidate_score = hotspot_candidate_score st, hm_candidate_metric = hotspot_candidate_metric st,
          hm_avg_mem_latency = hotspot_avg_mem_latency st, hm_lat_total_sum = hs_lat_total_sum st,
          hm_lat_issue_sum = hs_lat_issue_sum st, hm_lat_xlat_sum = hs_lat_xlat_sum st,
          hm_lat_exec_sum = hs_lat_exec_sum st, hm_l1d_refill_count = hs_l1d_refill_count st,
          hm_llc_miss_count = hs_llc_miss_count st, hm_tlb_walk_count = hs_tlb_walk_count st,
          hm_remote_access_count = hs_remote_access_count st,
          hm_path = (if unat (hk_module_id k) < length (mo_module_maps m)
                     then me_path (mo_module_maps m ! unat (hk_module_id k)) else ''[unknown_module]'')\<rparr>)"

text \<open>Enough samples, and enough of them with a latency.\<close>

definition enough_samples :: "monitor \<Rightarrow> (hotspot_key \<times> hotspot_stats) list \<Rightarrow> hotspot_summary \<Rightarrow> bool" where
  "enough_samples m table s \<longleftrightarrow>
     hm_sample_count s \<ge> mo_hotspot_min_samples m \<and>
     (case map_of table \<lparr>hk_module_id = hm_module_id s, hk_pc_offset = hm_pc_offset s\<rparr> of
        None \<Rightarrow> 0 | Some st \<Rightarrow> hotspot_latency_count st) \<ge> mo_hotspot_min_latency_samples m"

definition dominated :: "hotspot_summary list \<Rightarrow> nat \<Rightarrow> bool" where
  "dominated xs i \<longleftrightarrow> list_ex (\<lambda>j. j \<noteq> i \<and> hotspot_dominates (xs ! j) (xs ! i)) [0..<length xs]"

definition mark_pareto :: "hotspot_summary list \<Rightarrow> hotspot_summary list" where
  "mark_pareto xs = map (\<lambda>i. (xs ! i)\<lparr>hm_pareto_front := if dominated xs i then 0 else 1\<rparr>) [0..<length xs]"

text \<open>The loop that appends until the limit is reached.\<close>

definition fill_up :: "nat \<Rightarrow> hotspot_summary list \<Rightarrow> hotspot_summary list \<Rightarrow> hotspot_summary list" where
  "fill_up k acc xs = acc @ take (k - length acc) xs"

definition collect_hotspots_for_thread ::
  "((hotspot_key \<times> hotspot_stats) list \<Rightarrow> (hotspot_key \<times> hotspot_stats) list) \<Rightarrow> monitor \<Rightarrow> int \<Rightarrow> hotspot_summary list" where
  "collect_hotspots_for_thread walk m t =
     (case map_of (mo_thread_hotspots m) t of
        None \<Rightarrow> []
      | Some table \<Rightarrow>
          let all_summaries = map (summary_of m t) (walk table);
              marked = mark_pareto (filter (enough_samples m table) all_summaries);
              fallback = filter (\<lambda>s. \<not> enough_samples m table s) all_summaries;
              front = std_sort hotspot_score_before (filter (\<lambda>s. hm_pareto_front s = 1) marked);
              non_front = std_sort hotspot_score_before (filter (\<lambda>s. hm_pareto_front s = 0) marked);
              rest = std_sort hotspot_score_before fallback;
              k = mo_hotspot_top_k m
          in fill_up k (fill_up k (fill_up k [] front) non_front) (map (\<lambda>s. s\<lparr>hm_pareto_front := 0\<rparr>) rest))"

end
