(* ===== verification/Spe.thy ===== *)
theory Spe
  imports Hotspots
begin

text \<open>
  Draining a sampler in \<^verbatim>\<open>src/monitor.cc\<close>: the decoding of SPE packets, the assembly of a sample from
  them, and \<^verbatim>\<open>process_samples_locked\<close>, which walks the records of the ring buffer and the AUX data
  they point at.  \<open>None\<close> stands for a read outside a buffer, a division by zero or a loop that does
  not end; an exception is a value.
\<close>

subsection \<open>Packets\<close>

definition is_arm_spe_address_packet :: "u8 \<Rightarrow> bool" where
  "is_arm_spe_address_packet header \<longleftrightarrow> header AND SPE_PACKET_ADDRESS_MASK = SPE_PACKET_ADDRESS_HEADER"

definition is_arm_spe_counter_packet :: "u8 \<Rightarrow> bool" where
  "is_arm_spe_counter_packet header \<longleftrightarrow> header AND SPE_PACKET_COUNTER_MASK = SPE_PACKET_COUNTER_HEADER"

definition is_arm_spe_events_packet :: "u8 \<Rightarrow> bool" where
  "is_arm_spe_events_packet header \<longleftrightarrow> header AND SPE_PACKET_EVENTS_MASK = SPE_PACKET_EVENTS_HEADER"

definition arm_spe_short_index :: "u8 \<Rightarrow> u8" where
  "arm_spe_short_index header = header AND SPE_PACKET_SHORT_INDEX_MASK"

definition arm_spe_payload_size :: "u8 \<Rightarrow> nat" where
  "arm_spe_payload_size header = 2 ^ unat (drop_bit 4 (header AND SPE_PACKET_HEADER_PAYLOAD_SIZE_MASK))"

text \<open>Little-endian bytes.\<close>

fun le_val :: "u8 list \<Rightarrow> u64" where
  "le_val [] = 0"
| "le_val (b # bs) = ucast b + 256 * le_val bs"

definition u64_bytes :: "u64 \<Rightarrow> u8 list" where
  "u64_bytes w = map (\<lambda>i. ucast (drop_bit (8 * i) w)) [0..<8]"

definition read_bytes :: "u8 list \<Rightarrow> nat \<Rightarrow> nat \<Rightarrow> u64 option" where
  "read_bytes area pos n = (if pos + n \<le> length area then Some (le_val (take n (drop pos area))) else None)"

definition read_spe_payload :: "u8 list \<Rightarrow> nat \<Rightarrow> nat \<Rightarrow> u64 option" where
  "read_spe_payload area packet payload_size = read_bytes area (packet + 1) payload_size"

definition arm_spe_addr_get_bytes_0_6 :: "u64 \<Rightarrow> u64" where
  "arm_spe_addr_get_bytes_0_6 payload = payload AND (push_bit 56 1 - 1)"

definition decode_arm_spe_address_payload :: "u8 \<Rightarrow> u64 \<Rightarrow> u64" where
  "decode_arm_spe_address_payload index payload =
     (if index = SPE_ADDR_PKT_HDR_INDEX_INS \<or> index = SPE_ADDR_PKT_HDR_INDEX_BRANCH \<or>
         index = SPE_ADDR_PKT_HDR_INDEX_PREV_BRANCH
      then let ns = drop_bit 63 payload AND 1; el = drop_bit 61 payload AND 3;
               low = arm_spe_addr_get_bytes_0_6 payload
           in if ns \<noteq> 0 \<and> (el = 1 \<or> el = 2) then low OR push_bit 56 0xff else low
      else if index = SPE_ADDR_PKT_HDR_INDEX_DATA_VIRT then arm_spe_addr_get_bytes_0_6 payload
      else payload)"

subsection \<open>A pending sample\<close>

definition bw_write :: "u8 list \<Rightarrow> binary_writer \<Rightarrow> binary_writer" where
  "bw_write bytes w = (if bw_open w then w\<lparr>bw_bytes := bw_bytes w @ bytes\<rparr> else w)"

definition reset_pending_spe_sample :: "sampler_slot \<Rightarrow> sampler_slot" where
  "reset_pending_spe_sample slot = slot\<lparr>pending_pc := 0, pending_data_va := 0, pending_lat_total := 0,
     pending_lat_issue := 0, pending_lat_xlat := 0, pending_event_bits := 0, pending_flags := 0\<rparr>"

definition sample_bytes :: "spe_instruction_sample \<Rightarrow> u8 list" where
  "sample_bytes s = concat (map u64_bytes [sp_pc s, sp_data_va s, sp_lat_total s, sp_lat_issue s, sp_lat_xlat s,
     sp_event_bits s, sp_flags s])"

text \<open>The sample of a slot's pending fields, with the flag of a usable execution latency.\<close>

definition pending_sample :: "sampler_slot \<Rightarrow> spe_instruction_sample" where
  "pending_sample slot =
     (let latency_flags = SPE_SAMPLE_FLAG_LAT_TOTAL_VALID OR SPE_SAMPLE_FLAG_LAT_ISSUE_VALID OR SPE_SAMPLE_FLAG_LAT_XLAT_VALID
      in \<lparr>sp_pc = pending_pc slot, sp_data_va = pending_data_va slot, sp_lat_total = pending_lat_total slot,
          sp_lat_issue = pending_lat_issue slot, sp_lat_xlat = pending_lat_xlat slot,
          sp_event_bits = pending_event_bits slot,
          sp_flags = (if pending_flags slot AND latency_flags = latency_flags \<and>
                         pending_lat_total slot \<ge> pending_lat_issue slot + pending_lat_xlat slot
                      then pending_flags slot OR SPE_SAMPLE_FLAG_LAT_EXEC_VALID else pending_flags slot)\<rparr>)"

text \<open>What a drain changes: the monitor, the slot, the slot's writer, the count of samples and the AUX tail.\<close>

record drain_state =
  dr_mon :: monitor
  dr_slot :: sampler_slot
  dr_writer :: binary_writer
  dr_num_samples :: u64
  dr_aux_tail :: u64

definition flush_pending_spe_sample_locked :: "bool \<Rightarrow> drain_state \<Rightarrow> drain_state" where
  "flush_pending_spe_sample_locked from_end_packet d =
     (let m = dr_mon d; slot = dr_slot d in
      if pending_flags slot AND SPE_SAMPLE_FLAG_PC_VALID = 0
      then d\<lparr>dr_slot := reset_pending_spe_sample slot,
             dr_mon := m\<lparr>mo_spe_empty_flush_count := mo_spe_empty_flush_count m + 1\<rparr>\<rparr>
      else let sample = pending_sample slot;
               m1 = record_hotspot_sample (ss_tid slot) sample
                      (m\<lparr>mo_written_sample_bytes := mo_written_sample_bytes m + 56\<rparr>);
               m2 = (if from_end_packet
                     then m1\<lparr>mo_spe_end_packet_flush_count := mo_spe_end_packet_flush_count m1 + 1\<rparr>
                     else m1\<lparr>mo_spe_time_packet_flush_count := mo_spe_time_packet_flush_count m1 + 1\<rparr>)
           in d\<lparr>dr_writer := bw_write (sample_bytes sample) (dr_writer d), dr_mon := m2,
                dr_num_samples := dr_num_samples d + 1, dr_slot := reset_pending_spe_sample slot\<rparr>)"

definition set_flag :: "u64 \<Rightarrow> sampler_slot \<Rightarrow> sampler_slot" where
  "set_flag f slot = slot\<lparr>pending_flags := pending_flags slot OR f\<rparr>"

definition put_address :: "u8 \<Rightarrow> u64 \<Rightarrow> sampler_slot \<Rightarrow> sampler_slot" where
  "put_address addr_index decoded_addr slot =
     (if addr_index = SPE_ADDR_PKT_HDR_INDEX_INS
      then set_flag SPE_SAMPLE_FLAG_PC_VALID (slot\<lparr>pending_pc := decoded_addr\<rparr>)
      else if addr_index = SPE_ADDR_PKT_HDR_INDEX_DATA_VIRT
      then set_flag SPE_SAMPLE_FLAG_DATA_VA_VALID (slot\<lparr>pending_data_va := decoded_addr\<rparr>)
      else slot)"

definition put_counter :: "u8 \<Rightarrow> u64 \<Rightarrow> sampler_slot \<Rightarrow> sampler_slot" where
  "put_counter counter_index v slot =
     (if counter_index = SPE_CNT_PKT_HDR_INDEX_TOTAL_LAT
      then set_flag SPE_SAMPLE_FLAG_LAT_TOTAL_VALID (slot\<lparr>pending_lat_total := v\<rparr>)
      else if counter_index = SPE_CNT_PKT_HDR_INDEX_ISSUE_LAT
      then set_flag SPE_SAMPLE_FLAG_LAT_ISSUE_VALID (slot\<lparr>pending_lat_issue := v\<rparr>)
      else if counter_index = SPE_CNT_PKT_HDR_INDEX_TRANS_LAT
      then set_flag SPE_SAMPLE_FLAG_LAT_XLAT_VALID (slot\<lparr>pending_lat_xlat := v\<rparr>)
      else slot)"

definition put_events :: "u64 \<Rightarrow> sampler_slot \<Rightarrow> sampler_slot" where
  "put_events v slot = set_flag SPE_SAMPLE_FLAG_EVENTS_VALID (slot\<lparr>pending_event_bits := v\<rparr>)"

definition unknown_payload_size :: "u8 \<Rightarrow> nat" where
  "unknown_payload_size header =
     (let k = header AND 0x30 in if k = 0x00 then 1 else if k = 0x10 then 2 else if k = 0x20 then 4 else 8)"

text \<open>One packet: the size of its payload and what it does.\<close>

definition spe_packet :: "u8 list \<Rightarrow> nat \<Rightarrow> drain_state \<Rightarrow> (nat \<times> drain_state) option" where
  "spe_packet area pos d =
     do {
       header \<leftarrow> arr_get (Some area) pos;
       if is_arm_spe_address_packet header then do {
         raw_addr \<leftarrow> read_spe_payload area pos 8;
         let index = arm_spe_short_index header;
         Some (8, d\<lparr>dr_slot := put_address index (decode_arm_spe_address_payload index raw_addr) (dr_slot d)\<rparr>)
       }
       else if is_arm_spe_counter_packet header then do {
         v \<leftarrow> read_spe_payload area pos (arm_spe_payload_size header);
         Some (arm_spe_payload_size header, d\<lparr>dr_slot := put_counter (arm_spe_short_index header) v (dr_slot d)\<rparr>)
       }
       else if is_arm_spe_events_packet header then do {
         v \<leftarrow> read_spe_payload area pos (arm_spe_payload_size header);
         Some (arm_spe_payload_size header, d\<lparr>dr_slot := put_events v (dr_slot d)\<rparr>)
       }
       else if header = SPE_PACKET_PADDING_HEADER then Some (0, d)
       else if header = SPE_PACKET_END_HEADER then Some (0, flush_pending_spe_sample_locked True d)
       else if header = SPE_PACKET_TS_HEADER then Some (8, flush_pending_spe_sample_locked False d)
       else Some (unknown_payload_size header,
              d\<lparr>dr_mon := (dr_mon d)\<lparr>mo_spe_unknown_packet_count := mo_spe_unknown_packet_count (dr_mon d) + 1\<rparr>\<rparr>)
     }"

text \<open>The AUX data of one record, from \<open>it\<close> on: positions go round the buffer, packets do not.\<close>

partial_function (option) spe_packets :: "u8 list \<Rightarrow> u64 \<Rightarrow> u64 \<Rightarrow> u64 \<Rightarrow> u64 \<Rightarrow> drain_state \<Rightarrow> drain_state option" where
  "spe_packets area aux_size rec_offset rec_size it d =
     (if it < rec_size
      then if aux_size = 0 then None
           else Option.bind (spe_packet area (unat ((rec_offset + it) mod aux_size)) d)
                  (\<lambda>r. spe_packets area aux_size rec_offset rec_size (it + 1 + of_nat (fst r)) (snd r))
      else Some d)"

declare spe_packets.simps [code]

subsection \<open>Records of the ring buffer\<close>

definition PERF_RECORD_THROTTLE :: u32 where "PERF_RECORD_THROTTLE = 5"
definition PERF_RECORD_SAMPLE :: u32 where "PERF_RECORD_SAMPLE = 9"
definition PERF_RECORD_AUX :: u32 where "PERF_RECORD_AUX = 11"
definition PERF_AUX_FLAG_TRUNCATED :: u64 where "PERF_AUX_FLAG_TRUNCATED = 1"
definition PERF_AUX_FLAG_COLLISION :: u64 where "PERF_AUX_FLAG_COLLISION = 8"

text \<open>A header is 8 bytes: the type in four, two that are not read, and the size in two.\<close>

definition record_header :: "u8 list \<Rightarrow> nat \<Rightarrow> (u32 \<times> u64) option" where
  "record_header data pos =
     do {
       ty \<leftarrow> read_bytes data pos 4;
       size_in_bytes \<leftarrow> read_bytes data (pos + 6) 2;
       Some (ucast ty, size_in_bytes)
     }"

definition throttle :: "monitor \<Rightarrow> monitor" where
  "throttle m = m\<lparr>mo_kinfos := upd_last (\<lambda>k. k\<lparr>ki_sample_throttles := ki_sample_throttles k + 1\<rparr>) (mo_kinfos m)\<rparr>"

text \<open>A 64-bit field of the record at \<open>data_tail\<close>; the position goes round the data area.\<close>

definition record_field :: "u8 list \<Rightarrow> u64 \<Rightarrow> u64 \<Rightarrow> u64 option" where
  "record_field data data_tail off = read_bytes data (unat ((data_tail + off) mod of_nat (length data))) 8"

definition sample_record :: "u8 list \<Rightarrow> u64 \<Rightarrow> drain_state \<Rightarrow> drain_state option" where
  "sample_record data data_tail d =
     do {
       time \<leftarrow> record_field data data_tail 16;
       addr \<leftarrow> record_field data data_tail 24;
       Some (d\<lparr>dr_writer := bw_write (u64_bytes time @ u64_bytes addr) (dr_writer d),
               dr_mon := (dr_mon d)\<lparr>mo_written_sample_bytes := mo_written_sample_bytes (dr_mon d) + 16\<rparr>,
               dr_num_samples := dr_num_samples d + 1\<rparr>)
     }"

text \<open>
  An AUX record.  The sample id behind its three fields is copied as one structure of 32 bytes,
  from a position that goes round but without going round itself.
\<close>

definition aux_area :: "perf_buffer \<Rightarrow> sampler_slot \<Rightarrow> u8 list option" where
  "aux_area b slot = (if ss_ringbuf slot + pb_aux_offset b = ss_auxbuf slot then Some (pb_aux b) else None)"

definition aux_record :: "perf_buffer \<Rightarrow> u64 \<Rightarrow> drain_state \<Rightarrow> drain_state option" where
  "aux_record b data_tail d =
     do {
       rec_offset \<leftarrow> record_field (pb_data b) data_tail 8;
       rec_size \<leftarrow> record_field (pb_data b) data_tail 16;
       flags \<leftarrow> record_field (pb_data b) data_tail 24;
       _ \<leftarrow> (if unat ((data_tail + 32) mod of_nat (length (pb_data b))) + 32 \<le> length (pb_data b) then Some () else None);
       let d1 = (if flags AND PERF_AUX_FLAG_COLLISION \<noteq> 0 then d\<lparr>dr_mon := throttle (dr_mon d)\<rparr> else d);
       if flags \<noteq> PERF_AUX_FLAG_TRUNCATED then do {
         area \<leftarrow> aux_area b (dr_slot d1);
         d2 \<leftarrow> spe_packets area (pb_aux_size b) rec_offset rec_size 0 d1;
         Some (d2\<lparr>dr_aux_tail := dr_aux_tail d2 + rec_size\<rparr>)
       }
       else Some d1
     }"

text \<open>One record: its size and what it does.  Other types of records are skipped.\<close>

definition ring_record :: "perf_buffer \<Rightarrow> u64 \<Rightarrow> drain_state \<Rightarrow> (u64 \<times> drain_state) option" where
  "ring_record b data_tail d =
     (if pb_data b = [] then None
      else do {
        (ty, size_in_bytes) \<leftarrow> record_header (pb_data b) (unat (data_tail mod of_nat (length (pb_data b))));
        d' \<leftarrow> (if ty = PERF_RECORD_SAMPLE then sample_record (pb_data b) data_tail d
               else if ty = PERF_RECORD_THROTTLE then Some (d\<lparr>dr_mon := throttle (dr_mon d)\<rparr>)
               else if ty = PERF_RECORD_AUX then aux_record b data_tail d
               else Some d);
        Some (size_in_bytes, d')
      })"

partial_function (option) ring_records :: "perf_buffer \<Rightarrow> u64 \<Rightarrow> drain_state \<Rightarrow> (u64 \<times> drain_state) option" where
  "ring_records b data_tail d =
     (if data_tail < pb_data_head b
      then Option.bind (ring_record b data_tail d) (\<lambda>r. ring_records b (data_tail + fst r) (snd r))
      else Some (data_tail, d))"

declare ring_records.simps [code]

text \<open>
  The drain of one slot: an exception or the number of samples, with the monitor, the buffer and the
  slot it leaves behind.
\<close>

definition put_writer :: "int \<Rightarrow> nat \<Rightarrow> binary_writer \<Rightarrow> monitor \<Rightarrow> monitor" where
  "put_writer t i w m = m\<lparr>mo_threads := (mo_threads m)(t := map_option (\<lambda>ts. ts\<lparr>ts_writers := (ts_writers ts)[i := w]\<rparr>) (mo_threads m t))\<rparr>"

definition add_num_samples :: "u64 \<Rightarrow> monitor \<Rightarrow> monitor" where
  "add_num_samples n m = m\<lparr>mo_kinfos := upd_last (\<lambda>k. k\<lparr>ki_num_samples := ki_num_samples k + n\<rparr>) (mo_kinfos m)\<rparr>"

definition process_samples_locked ::
  "monitor \<Rightarrow> perf_buffer \<Rightarrow> sampler_slot \<Rightarrow> ((string + u64) \<times> monitor \<times> perf_buffer \<times> sampler_slot) option" where
  "process_samples_locked m b slot =
     (if mo_kinfos m = [] then Some (Inr 0, m, b\<lparr>pb_data_tail := pb_data_head b\<rparr>, slot)
      else if pb_data_head b = pb_data_tail b then Some (Inr 0, m, b, slot)
      else case mo_threads m (ss_tid slot) of
          None \<Rightarrow> Some (Inl ''writer missing for sampler slot'', m, b, slot)
        | Some ts \<Rightarrow>
            if ss_sampler_index slot \<ge> length (ts_writers ts)
            then Some (Inl ''writer missing for sampler slot'', m, b, slot)
            else do {
              (tail', d) \<leftarrow> ring_records b (pb_data_tail b)
                 \<lparr>dr_mon = m, dr_slot = slot, dr_writer = ts_writers ts ! ss_sampler_index slot,
                  dr_num_samples = 0, dr_aux_tail = pb_aux_tail b\<rparr>;
              let m1 = put_writer (ss_tid slot) (ss_sampler_index slot) (dr_writer d) (dr_mon d);
              let b1 = b\<lparr>pb_aux_tail := dr_aux_tail d\<rparr>;
              if pb_data_head b \<noteq> tail' then Some (Inl ''corrupted samples mapping'', m1, b1, dr_slot d)
              else Some (Inr (dr_num_samples d), add_num_samples (dr_num_samples d) m1,
                         b1\<lparr>pb_data_tail := tail'\<rparr>, dr_slot d)
            })"

end
