(* ===== verification/Spe_Correct.thy ===== *)
theory Spe_Correct
  imports Spe
begin

text \<open>
  What the decoder of SPE data computes, stated against the packet format of the architecture: a
  record is a sequence of packets (addresses, counters, events, padding, and an end or a time stamp
  that closes a sampled instruction), and the samples are read off the groups between two closing
  packets.  The decoder gives exactly these samples from the bytes of the packets.
\<close>

subsection \<open>Bytes\<close>

lemma bit_le_val:
  "length bs \<le> 8 \<Longrightarrow> bit (le_val bs) n \<longleftrightarrow> n < 64 \<and> n div 8 < length bs \<and> bit (bs ! (n div 8)) (n mod 8)"
proof (induction bs arbitrary: n)
  case (Cons b bs)
  have "256 * le_val bs = push_bit 8 (le_val bs)" by (simp add: push_bit_eq_mult)
  moreover have "ucast b + push_bit 8 (le_val bs) = ucast b OR push_bit 8 (le_val bs)"
    by (rule disjunctive_add) (auto simp: bit_simps dest: bit_imp_le_length)
  ultimately have eq: "bit (le_val (b # bs)) n \<longleftrightarrow> bit b n \<and> n < 64 \<or> 8 \<le> n \<and> n < 64 \<and> bit (le_val bs) (n - 8)"
    by (auto simp: bit_simps)
  show ?case
  proof (cases "n < 8")
    case True
    then show ?thesis using eq by simp
  next
    case False
    then have "\<not> bit b n" "n div 8 = Suc ((n - 8) div 8)" "n mod 8 = (n - 8) mod 8"
      using bit_imp_le_length [of b n] by (auto simp: le_div_geq le_mod_geq)
    then show ?thesis using eq False Cons.IH [of "n - 8"] Cons.prems by auto
  qed
qed simp

lemma length_u64_bytes [simp]: "length (u64_bytes w) = 8"
  by (simp add: u64_bytes_def)

lemma le_val_take_u64_bytes:
  assumes "k \<le> 8"
  shows "le_val (take k (u64_bytes w)) = take_bit (8 * k) w"
proof (rule bit_word_eqI)
  fix n :: nat
  assume "n < LENGTH(64)"
  have nth: "bit (take k (u64_bytes w) ! (n div 8)) (n mod 8) = bit w n" if "n div 8 < k"
    using that assms by (simp add: u64_bytes_def bit_simps)
  have lt: "n div 8 < k \<longleftrightarrow> n < 8 * k" by auto
  show "bit (le_val (take k (u64_bytes w))) n = bit (take_bit (8 * k) w) n"
    using assms nth lt \<open>n < LENGTH(64)\<close> by (auto simp: bit_le_val bit_simps)
qed

lemma le_val_u64_bytes [simp]: "le_val (u64_bytes w) = w"
  using le_val_take_u64_bytes [of 8 w] take_bit_length_eq [of w] by simp

lemma read_bytes_at:
  "take n (drop pos area) = bs \<Longrightarrow> length bs = n \<Longrightarrow> 0 < n \<Longrightarrow> read_bytes area pos n = Some (le_val bs)"
  by (auto simp: read_bytes_def)

subsection \<open>The packet format\<close>

datatype spe_pkt =
    Address u8 u64
  | Counter u8 u64
  | Events nat u64
  | Padding
  | End_of_record
  | Timestamp u64
  | Unknown u8 "u8 list"

definition encode :: "spe_pkt \<Rightarrow> u8 list" where
  "encode p = (case p of
     Address i v \<Rightarrow> (0xB0 OR i) # u64_bytes v
   | Counter i v \<Rightarrow> (0x98 OR i) # take 2 (u64_bytes v)
   | Events k v \<Rightarrow> (0x42 OR push_bit 4 (of_nat k)) # take (2 ^ k) (u64_bytes v)
   | Padding \<Rightarrow> [0x00]
   | End_of_record \<Rightarrow> [0x01]
   | Timestamp v \<Rightarrow> 0x71 # u64_bytes v
   | Unknown h bs \<Rightarrow> h # bs)"

text \<open>Indices have three bits, a counter 16, an event set 1, 2, 4 or 8 bytes.\<close>

definition pkt_ok :: "spe_pkt \<Rightarrow> bool" where
  "pkt_ok p = (case p of
     Address i v \<Rightarrow> i < 8
   | Counter i v \<Rightarrow> i < 8 \<and> v < 2 ^ 16
   | Events k v \<Rightarrow> k < 4 \<and> take_bit (8 * 2 ^ k) v = v
   | Unknown h bs \<Rightarrow> \<not> is_arm_spe_address_packet h \<and> \<not> is_arm_spe_counter_packet h \<and> \<not> is_arm_spe_events_packet h \<and>
       h \<notin> {0x00, 0x01, 0x71} \<and> length bs = unknown_payload_size h
   | _ \<Rightarrow> True)"

text \<open>What a packet contributes to the pending sample.\<close>

definition put_pkt :: "spe_pkt \<Rightarrow> sampler_slot \<Rightarrow> sampler_slot" where
  "put_pkt p = (case p of
     Address i v \<Rightarrow> put_address i (decode_arm_spe_address_payload i v)
   | Counter i v \<Rightarrow> put_counter i v
   | Events k v \<Rightarrow> put_events v
   | _ \<Rightarrow> id)"

definition pkt_effect :: "spe_pkt \<Rightarrow> drain_state \<Rightarrow> drain_state" where
  "pkt_effect p d = (case p of
     End_of_record \<Rightarrow> flush_pending_spe_sample_locked True d
   | Timestamp v \<Rightarrow> flush_pending_spe_sample_locked False d
   | Unknown h bs \<Rightarrow> d\<lparr>dr_mon := (dr_mon d)\<lparr>mo_spe_unknown_packet_count := mo_spe_unknown_packet_count (dr_mon d) + 1\<rparr>\<rparr>
   | _ \<Rightarrow> d\<lparr>dr_slot := put_pkt p (dr_slot d)\<rparr>)"

lemma u8_less_8: "(i :: u8) < 8 \<Longrightarrow> i = 0 \<or> i = 1 \<or> i = 2 \<or> i = 3 \<or> i = 4 \<or> i = 5 \<or> i = 6 \<or> i = 7"
proof -
  assume "i < 8"
  then have "unat i < 8" by (simp add: word_less_nat_alt)
  then have "unat i = 0 \<or> unat i = 1 \<or> unat i = 2 \<or> unat i = 3 \<or> unat i = 4 \<or> unat i = 5 \<or> unat i = 6 \<or> unat i = 7" by arith
  then show ?thesis by (simp add: word_unat_eq_iff)
qed

lemmas header_tests = is_arm_spe_address_packet_def is_arm_spe_counter_packet_def is_arm_spe_events_packet_def
  arm_spe_short_index_def arm_spe_payload_size_def spe_headers

lemma address_header:
  "i < 8 \<Longrightarrow> is_arm_spe_address_packet (0xB0 OR i) \<and> arm_spe_short_index (0xB0 OR i) = i"
  by (drule u8_less_8) (auto simp: header_tests)

lemma counter_header:
  "i < 8 \<Longrightarrow> \<not> is_arm_spe_address_packet (0x98 OR i) \<and> is_arm_spe_counter_packet (0x98 OR i) \<and>
     arm_spe_short_index (0x98 OR i) = i \<and> arm_spe_payload_size (0x98 OR i) = 2"
  by (drule u8_less_8) (auto simp: header_tests)

lemma events_header:
  "k < 4 \<Longrightarrow> let h = 0x42 OR push_bit 4 (of_nat k) in
     \<not> is_arm_spe_address_packet h \<and> \<not> is_arm_spe_counter_packet h \<and> is_arm_spe_events_packet h \<and> arm_spe_payload_size h = 2 ^ k"
proof -
  assume "k < 4"
  then have "k = 0 \<or> k = 1 \<or> k = 2 \<or> k = 3" by arith
  then show ?thesis by (auto simp: header_tests)
qed

lemma other_headers:
  "\<not> is_arm_spe_address_packet h \<and> \<not> is_arm_spe_counter_packet h \<and> \<not> is_arm_spe_events_packet h" if "h \<in> {0x00, 0x01, 0x71}"
  using that by (auto simp: header_tests)

lemma arr_get_head: "take n (drop pos area) = h # bs \<Longrightarrow> arr_get (Some area) pos = Some h"
proof -
  assume a: "take n (drop pos area) = h # bs"
  then have "drop pos area \<noteq> []" by auto
  moreover have "hd (drop pos area) = h" using a by (metis hd_take list.sel(1) take_eq_Nil list.distinct(1) gr0I)
  ultimately show ?thesis by (simp add: hd_drop_conv_nth)
qed

lemma take_drop_tail: "take (Suc n) (drop pos area) = h # bs \<Longrightarrow> take n (drop (pos + 1) area) = bs"
  by (metis Suc_eq_plus1 add.commute drop_Suc list.sel(3) tl_drop tl_take take_Suc_Cons drop_drop take_tl diff_Suc_1)

lemma spe_packet_encoded:
  assumes "pkt_ok p" "take (length (encode p)) (drop pos area) = encode p"
  shows "spe_packet area pos d = Some (length (encode p) - 1, pkt_effect p d)"
proof -
  obtain h bs where e: "encode p = h # bs" by (cases p) (auto simp: encode_def)
  have hd: "arr_get (Some area) pos = Some h" using assms(2) unfolding e by (rule arr_get_head)
  have tl: "take (length bs) (drop (pos + 1) area) = bs" using assms(2) unfolding e by (intro take_drop_tail) simp
  have pl: "read_spe_payload area pos (length bs) = Some (le_val bs)" if "bs \<noteq> []"
    unfolding read_spe_payload_def using that tl by (intro read_bytes_at) simp_all
  show ?thesis
  proof (cases p)
    case (Address i v)
    with e assms(1) have "h = 0xB0 OR i" "bs = u64_bytes v" "i < 8" by (auto simp: encode_def pkt_ok_def)
    with Address e hd pl address_header [of i] show ?thesis
      by (simp add: spe_packet_def pkt_effect_def put_pkt_def flip: length_0_conv)
  next
    case (Counter i v)
    with e assms(1) have *: "h = 0x98 OR i" "bs = take 2 (u64_bytes v)" "i < 8" "v < 2 ^ 16" by (auto simp: encode_def pkt_ok_def)
    then have "take_bit 16 v = v" 
      by (simp add: word_unat_eq_iff unsigned_take_bit_eq take_bit_nat_eq_self word_less_nat_alt)
    with * have "le_val bs = v" by (simp add: le_val_take_u64_bytes)
    with Counter e hd pl counter_header [of i] * show ?thesis
      by (simp add: spe_packet_def pkt_effect_def put_pkt_def flip: length_0_conv)
  next
    case (Events k v)
    with e assms(1) have *: "h = 0x42 OR push_bit 4 (of_nat k)" "bs = take (2 ^ k) (u64_bytes v)" "k < 4" "take_bit (8 * 2 ^ k) v = v"
      by (auto simp: encode_def pkt_ok_def)
    then have k: "(2::nat) ^ k \<le> 8" using power_increasing [of k 3 "2::nat"] by simp
    then have "le_val bs = v" "length bs = 2 ^ k" using * by (simp_all add: le_val_take_u64_bytes)
    with Events e hd pl events_header [of k] * show ?thesis
      by (simp add: spe_packet_def pkt_effect_def put_pkt_def Let_def flip: length_0_conv)
  next
    case Padding
    with e hd other_headers [of h] show ?thesis
      by (auto simp: encode_def spe_packet_def pkt_effect_def put_pkt_def spe_headers)
  next
    case End_of_record
    with e hd other_headers [of h] show ?thesis
      by (auto simp: encode_def spe_packet_def pkt_effect_def put_pkt_def spe_headers)
  next
    case (Timestamp v)
    with e hd other_headers [of h] show ?thesis
      by (auto simp: encode_def spe_packet_def pkt_effect_def put_pkt_def spe_headers)
  next
    case (Unknown h' bs')
    with e hd assms(1) show ?thesis
      by (auto simp: encode_def pkt_ok_def spe_packet_def pkt_effect_def put_pkt_def spe_headers)
  qed
qed

subsection \<open>A sequence of packets in the AUX buffer\<close>

text \<open>
  The packets stand one after the other from a position on, the positions taken modulo the size of
  the buffer; no packet crosses its end.
\<close>

fun stored :: "u8 list \<Rightarrow> u64 \<Rightarrow> u64 \<Rightarrow> spe_pkt list \<Rightarrow> bool" where
  "stored area aux_size pos [] \<longleftrightarrow> True"
| "stored area aux_size pos (p # ps) \<longleftrightarrow>
     pkt_ok p \<and> take (length (encode p)) (drop (unat (pos mod aux_size)) area) = encode p \<and>
     stored area aux_size (pos + of_nat (length (encode p))) ps"

definition encoded_size :: "spe_pkt list \<Rightarrow> nat" where
  "encoded_size ps = sum_list (map (\<lambda>p. length (encode p)) ps)"

lemma encoded_size_simps [simp]:
  "encoded_size [] = 0" "encoded_size (p # ps) = length (encode p) + encoded_size ps"
  "encoded_size (ps @ qs) = encoded_size ps + encoded_size qs"
  by (simp_all add: encoded_size_def)

lemma encode_nonempty [simp]: "encode p \<noteq> []"
  by (cases p) (simp_all add: encode_def)

lemma unat_of_nat_u64: "n < 2 ^ 64 \<Longrightarrow> unat (of_nat n :: u64) = n"
  by (simp add: unat_of_nat take_bit_nat_eq_self)

lemma spe_packets_stored:
  assumes "stored area aux_size (rec_offset + of_nat it) ps" "aux_size \<noteq> 0" "it + encoded_size ps < 2 ^ 64"
  shows "spe_packets area aux_size rec_offset (of_nat (it + encoded_size ps)) (of_nat it) d = Some (fold pkt_effect ps d)"
  using assms
proof (induction ps arbitrary: it d)
  case Nil
  then show ?case by (subst spe_packets.simps) simp
next
  case (Cons p ps)
  let ?n = "length (encode p)"
  have pos: "0 < ?n" by simp
  have lt: "(of_nat it :: u64) < of_nat (it + encoded_size (p # ps))"
    using Cons.prems(3) pos by (simp only: word_less_nat_alt unat_of_nat_u64 encoded_size_simps)
  have one: "spe_packet area (unat ((rec_offset + of_nat it) mod aux_size)) d = Some (?n - 1, pkt_effect p d)"
    using Cons.prems(1) by (intro spe_packet_encoded) simp_all
  have next': "(of_nat it :: u64) + 1 + of_nat (?n - 1) = of_nat (it + ?n)"
    using pos by (cases ?n) simp_all
  have "spe_packets area aux_size rec_offset (of_nat (it + encoded_size (p # ps))) (of_nat it) d =
      spe_packets area aux_size rec_offset (of_nat (it + encoded_size (p # ps))) (of_nat (it + ?n)) (pkt_effect p d)"
    using lt one Cons.prems(2) by (subst spe_packets.simps) (simp only: if_True if_False bind.bind_lunit fst_conv snd_conv next' simp_thms)
  also have "\<dots> = Some (fold pkt_effect ps (pkt_effect p d))"
    using Cons.IH [of "it + ?n"] Cons.prems by (simp add: add.assoc)
  finally show ?case by simp
qed

subsection \<open>Samples as groups of packets\<close>

text \<open>The groups that a closing packet ends (\<open>True\<close> for an end packet), and what is left open.\<close>

fun groups :: "spe_pkt list \<Rightarrow> spe_pkt list \<Rightarrow> (spe_pkt list \<times> bool) list" where
  "groups g [] = []"
| "groups g (End_of_record # ps) = (g, True) # groups [] ps"
| "groups g (Timestamp v # ps) = (g, False) # groups [] ps"
| "groups g (p # ps) = groups (g @ [p]) ps"

fun left_open :: "spe_pkt list \<Rightarrow> spe_pkt list \<Rightarrow> spe_pkt list" where
  "left_open g [] = g"
| "left_open g (End_of_record # ps) = left_open [] ps"
| "left_open g (Timestamp v # ps) = left_open [] ps"
| "left_open g (p # ps) = left_open (g @ [p]) ps"

text \<open>The fields that a packet carries.\<close>

definition pc_in :: "spe_pkt \<Rightarrow> u64 option" where
  "pc_in p = (case p of Address i v \<Rightarrow> if i = 0 then Some (decode_arm_spe_address_payload i v) else None | _ \<Rightarrow> None)"

definition va_in :: "spe_pkt \<Rightarrow> u64 option" where
  "va_in p = (case p of Address i v \<Rightarrow> if i = 2 then Some (decode_arm_spe_address_payload i v) else None | _ \<Rightarrow> None)"

definition latency_in :: "u8 \<Rightarrow> spe_pkt \<Rightarrow> u64 option" where
  "latency_in k p = (case p of Counter i v \<Rightarrow> if i = k then Some v else None | _ \<Rightarrow> None)"

definition events_in :: "spe_pkt \<Rightarrow> u64 option" where
  "events_in p = (case p of Events k v \<Rightarrow> Some v | _ \<Rightarrow> None)"

text \<open>The last packet of a group that carries a field decides it.\<close>

definition last_of :: "(spe_pkt \<Rightarrow> u64 option) \<Rightarrow> spe_pkt list \<Rightarrow> u64 option" where
  "last_of f g = fold (\<lambda>p acc. case f p of None \<Rightarrow> acc | Some v \<Rightarrow> Some v) g None"

definition field :: "(spe_pkt \<Rightarrow> u64 option) \<Rightarrow> spe_pkt list \<Rightarrow> u64" where
  "field f g = (case last_of f g of None \<Rightarrow> 0 | Some v \<Rightarrow> v)"

definition carried :: "(spe_pkt \<Rightarrow> u64 option) \<Rightarrow> spe_pkt list \<Rightarrow> bool" where
  "carried f g \<longleftrightarrow> list_ex (\<lambda>p. f p \<noteq> None) g"

definition fl :: "bool \<Rightarrow> u64 \<Rightarrow> u64" where
  "fl b v = (if b then v else 0)"

definition group_flags :: "spe_pkt list \<Rightarrow> u64" where
  "group_flags g = fl (carried pc_in g) 1 OR fl (carried (latency_in 0) g) 2 OR fl (carried (latency_in 1) g) 4 OR
     fl (carried (latency_in 2) g) 8 OR fl (carried events_in g) 16 OR fl (carried va_in g) 64"

text \<open>
  The sample of a group: nothing without the address of the instruction; the flag 32 says that the
  three latencies are there and that the total covers the other two.
\<close>

definition group_sample :: "spe_pkt list \<Rightarrow> spe_instruction_sample option" where
  "group_sample g =
     (if \<not> carried pc_in g then None
      else Some \<lparr>sp_pc = field pc_in g, sp_data_va = field va_in g, sp_lat_total = field (latency_in 0) g,
        sp_lat_issue = field (latency_in 1) g, sp_lat_xlat = field (latency_in 2) g, sp_event_bits = field events_in g,
        sp_flags = group_flags g OR fl (carried (latency_in 0) g \<and> carried (latency_in 1) g \<and> carried (latency_in 2) g \<and>
          field (latency_in 0) g \<ge> field (latency_in 1) g + field (latency_in 2) g) 32\<rparr>)"

definition spec_samples :: "spe_pkt list \<Rightarrow> spe_pkt list \<Rightarrow> spe_instruction_sample list" where
  "spec_samples g ps = List.map_filter (\<lambda>c. group_sample (fst c)) (groups g ps)"

subsection \<open>The pending fields hold the open group\<close>

definition slot_of :: "sampler_slot \<Rightarrow> spe_pkt list \<Rightarrow> sampler_slot" where
  "slot_of slot g = slot\<lparr>pending_pc := field pc_in g, pending_data_va := field va_in g,
     pending_lat_total := field (latency_in 0) g, pending_lat_issue := field (latency_in 1) g,
     pending_lat_xlat := field (latency_in 2) g, pending_event_bits := field events_in g, pending_flags := group_flags g\<rparr>"

lemma field_snoc: "field f (g @ [p]) = (case f p of None \<Rightarrow> field f g | Some v \<Rightarrow> v)"
  by (simp add: field_def last_of_def split: option.split)

lemma carried_snoc: "carried f (g @ [p]) \<longleftrightarrow> carried f g \<or> f p \<noteq> None"
  by (simp add: carried_def)

lemma fl_simps [simp]: "fl True v = v" "fl False v = 0"
  by (simp_all add: fl_def)

lemma fl_or: "fl (a \<or> b) v = fl a v OR fl b v"
  by (simp add: fl_def)

lemma slot_of_Nil: "slot_of slot [] = reset_pending_spe_sample slot"
  by (simp add: slot_of_def reset_pending_spe_sample_def field_def last_of_def group_flags_def carried_def)

lemma slot_of_again [simp]: "reset_pending_spe_sample (slot_of slot g) = slot_of slot []" "ss_tid (slot_of slot g) = ss_tid slot"
  by (simp_all add: slot_of_Nil) (simp_all add: slot_of_def reset_pending_spe_sample_def)

lemmas carried_fields = pc_in_def va_in_def latency_in_def events_in_def

definition pkt_flags :: "spe_pkt \<Rightarrow> u64" where
  "pkt_flags p = fl (pc_in p \<noteq> None) 1 OR fl (latency_in 0 p \<noteq> None) 2 OR fl (latency_in 1 p \<noteq> None) 4 OR
     fl (latency_in 2 p \<noteq> None) 8 OR fl (events_in p \<noteq> None) 16 OR fl (va_in p \<noteq> None) 64"

lemma group_flags_snoc: "group_flags (g @ [p]) = group_flags g OR pkt_flags p"
  unfolding group_flags_def pkt_flags_def carried_snoc fl_or by (simp only: or.assoc or.commute or.left_commute)

lemma put_pkt_slot_of: "put_pkt p (slot_of slot g) = slot_of slot (g @ [p])"
  by (cases p)
    (auto simp: put_pkt_def put_address_def put_counter_def put_events_def set_flag_def slot_of_def field_snoc
      group_flags_snoc pkt_flags_def carried_fields spe_indices spe_flags)

lemma group_flags_tests:
  "group_flags g AND 1 = 0 \<longleftrightarrow> \<not> carried pc_in g"
  "group_flags g AND 14 = 14 \<longleftrightarrow> carried (latency_in 0) g \<and> carried (latency_in 1) g \<and> carried (latency_in 2) g"
  unfolding group_flags_def
  by (cases "carried pc_in g"; cases "carried (latency_in 0) g"; cases "carried (latency_in 1) g";
      cases "carried (latency_in 2) g"; cases "carried events_in g"; cases "carried va_in g"; simp)+

lemma pending_slot_of:
  "carried pc_in g \<Longrightarrow> group_sample g = Some (pending_sample (slot_of slot g))"
proof -
  have lat: "(2::u64) OR (4 OR 8) = 14" by simp
  assume "carried pc_in g"
  then show ?thesis
    by (auto simp: group_sample_def pending_sample_def slot_of_def spe_flags lat group_flags_tests(2) fl_def)
qed

subsection \<open>The effect of a sequence of packets\<close>

text \<open>The monitor without the counters of the decoder and without the windows.\<close>

definition core :: "monitor \<Rightarrow> monitor" where
  "core m = m\<lparr>mo_written_sample_bytes := 0, mo_spe_time_packet_flush_count := 0, mo_spe_end_packet_flush_count := 0,
     mo_spe_empty_flush_count := 0, mo_spe_unknown_packet_count := 0, mo_kinfos := []\<rparr>"

definition decode_counts :: "monitor \<Rightarrow> kinfo list \<times> u64 \<times> u64 \<times> u64 \<times> u64 \<times> u64" where
  "decode_counts m = (mo_kinfos m, mo_written_sample_bytes m, mo_spe_time_packet_flush_count m, mo_spe_end_packet_flush_count m,
     mo_spe_empty_flush_count m, mo_spe_unknown_packet_count m)"

lemma record_hotspot_core: "core (record_hotspot_sample t s m) = record_hotspot_sample t s (core m)"
  by (simp add: record_hotspot_sample_def core_def sample_pc_present_def has_arm_spe_samples_def find_module_map_def
      is_main_binary_module_def split: option.split)

lemma record_hotspot_counts: "decode_counts (record_hotspot_sample t s m) = decode_counts m"
  by (simp add: record_hotspot_sample_def decode_counts_def split: option.split)

lemma core_updates [simp]:
  "core (m\<lparr>mo_written_sample_bytes := v\<rparr>) = core m" "core (m\<lparr>mo_spe_time_packet_flush_count := v\<rparr>) = core m"
  "core (m\<lparr>mo_spe_end_packet_flush_count := v\<rparr>) = core m" "core (m\<lparr>mo_spe_empty_flush_count := v\<rparr>) = core m"
  "core (m\<lparr>mo_spe_unknown_packet_count := v\<rparr>) = core m" "core (m\<lparr>mo_kinfos := ks\<rparr>) = core m"
  by (simp_all add: core_def)

text \<open>A closing packet, in terms of the group it closes.\<close>

lemma flush_group:
  assumes "dr_slot d = slot_of slot g" "flush_pending_spe_sample_locked e d = d'"
  shows "dr_slot d' = slot_of slot []" "dr_aux_tail d' = dr_aux_tail d"
    "dr_writer d' = (case group_sample g of None \<Rightarrow> dr_writer d | Some s \<Rightarrow> bw_write (sample_bytes s) (dr_writer d))"
    "dr_num_samples d' = dr_num_samples d + (case group_sample g of None \<Rightarrow> 0 | Some s \<Rightarrow> 1)"
    "core (dr_mon d') = (case group_sample g of None \<Rightarrow> core (dr_mon d)
       | Some s \<Rightarrow> record_hotspot_sample (ss_tid slot) s (core (dr_mon d)))"
    "mo_written_sample_bytes (dr_mon d') = mo_written_sample_bytes (dr_mon d) + (case group_sample g of None \<Rightarrow> 0 | Some s \<Rightarrow> 56)"
    "mo_spe_unknown_packet_count (dr_mon d') = mo_spe_unknown_packet_count (dr_mon d)"
    "mo_spe_empty_flush_count (dr_mon d') = mo_spe_empty_flush_count (dr_mon d) + (case group_sample g of None \<Rightarrow> 1 | Some s \<Rightarrow> 0)"
    "mo_kinfos (dr_mon d') = mo_kinfos (dr_mon d)"
proof -
  let ?r = "record_hotspot_sample (ss_tid slot) (pending_sample (slot_of slot g)) (dr_mon d\<lparr>mo_written_sample_bytes := mo_written_sample_bytes (dr_mon d) + 56\<rparr>)"
  have pf: "pending_flags (slot_of slot g) = group_flags g" by (simp add: slot_of_def)
  have gs: "group_sample g = (if carried pc_in g then Some (pending_sample (slot_of slot g)) else None)"
    using pending_slot_of [of g slot] by (simp add: group_sample_def)
  have c: "mo_written_sample_bytes ?r = mo_written_sample_bytes (dr_mon d) + 56"
    "mo_spe_unknown_packet_count ?r = mo_spe_unknown_packet_count (dr_mon d)"
    "mo_spe_empty_flush_count ?r = mo_spe_empty_flush_count (dr_mon d)" "mo_kinfos ?r = mo_kinfos (dr_mon d)"
    using record_hotspot_counts [of "ss_tid slot" "pending_sample (slot_of slot g)" "dr_mon d\<lparr>mo_written_sample_bytes := mo_written_sample_bytes (dr_mon d) + 56\<rparr>"]
    by (simp_all add: decode_counts_def)
  note defs = flush_pending_spe_sample_locked_def Let_def pf group_flags_tests(1) SPE_SAMPLE_FLAG_PC_VALID_def gs c
    record_hotspot_core
  show "dr_slot d' = slot_of slot []" "dr_aux_tail d' = dr_aux_tail d"
    "dr_writer d' = (case group_sample g of None \<Rightarrow> dr_writer d | Some s \<Rightarrow> bw_write (sample_bytes s) (dr_writer d))"
    "dr_num_samples d' = dr_num_samples d + (case group_sample g of None \<Rightarrow> 0 | Some s \<Rightarrow> 1)"
    "core (dr_mon d') = (case group_sample g of None \<Rightarrow> core (dr_mon d)
       | Some s \<Rightarrow> record_hotspot_sample (ss_tid slot) s (core (dr_mon d)))"
    "mo_written_sample_bytes (dr_mon d') = mo_written_sample_bytes (dr_mon d) + (case group_sample g of None \<Rightarrow> 0 | Some s \<Rightarrow> 56)"
    "mo_spe_unknown_packet_count (dr_mon d') = mo_spe_unknown_packet_count (dr_mon d)"
    "mo_spe_empty_flush_count (dr_mon d') = mo_spe_empty_flush_count (dr_mon d) + (case group_sample g of None \<Rightarrow> 1 | Some s \<Rightarrow> 0)"
    "mo_kinfos (dr_mon d') = mo_kinfos (dr_mon d)"
    unfolding assms(2) [symmetric] by (simp_all add: defs assms(1))
qed

definition is_unknown :: "spe_pkt \<Rightarrow> bool" where
  "is_unknown p = (case p of Unknown h bs \<Rightarrow> True | _ \<Rightarrow> False)"

text \<open>What the decoder has done when it has read the packets \<open>ps\<close> after those of the open group \<open>g\<close>.\<close>

definition decoded :: "sampler_slot \<Rightarrow> spe_pkt list \<Rightarrow> spe_pkt list \<Rightarrow> drain_state \<Rightarrow> drain_state \<Rightarrow> bool" where
  "decoded slot g ps d d' \<longleftrightarrow>
     dr_slot d' = slot_of slot (left_open g ps) \<and>
     map ki_num_samples (mo_kinfos (dr_mon d')) = map ki_num_samples (mo_kinfos (dr_mon d)) \<and>
     dr_writer d' = fold (\<lambda>s. bw_write (sample_bytes s)) (spec_samples g ps) (dr_writer d) \<and>
     dr_num_samples d' = dr_num_samples d + of_nat (length (spec_samples g ps)) \<and>
     core (dr_mon d') = fold (record_hotspot_sample (ss_tid slot)) (spec_samples g ps) (core (dr_mon d)) \<and>
     mo_written_sample_bytes (dr_mon d') = mo_written_sample_bytes (dr_mon d) + 56 * of_nat (length (spec_samples g ps)) \<and>
     mo_spe_unknown_packet_count (dr_mon d') = mo_spe_unknown_packet_count (dr_mon d) + of_nat (count_if is_unknown ps) \<and>
     mo_spe_empty_flush_count (dr_mon d') = mo_spe_empty_flush_count (dr_mon d) +
       of_nat (count_if (\<lambda>c. group_sample (fst c) = None) (groups g ps))"

lemma decoded_Nil: "dr_slot d = slot_of slot g \<Longrightarrow> decoded slot g [] d d"
  by (simp add: decoded_def spec_samples_def List.map_filter_simps)

text \<open>A packet that closes the group, and one that does not.\<close>

lemma decoded_close:
  assumes "dr_slot d = slot_of slot g" "p = End_of_record \<or> (\<exists>v. p = Timestamp v)"
    and "decoded slot [] ps (pkt_effect p d) d'"
  shows "decoded slot g (p # ps) d d'"
proof -
  define e where "e = (p = End_of_record)"
  define d1 where "d1 = flush_pending_spe_sample_locked e d"
  have eff: "pkt_effect p d = d1" using assms(2) by (auto simp: pkt_effect_def d1_def e_def)
  have gr: "groups g (p # ps) = (g, e) # groups [] ps" "left_open g (p # ps) = left_open [] ps" "\<not> is_unknown p"
    using assms(2) by (auto simp: e_def is_unknown_def)
  have ss: "spec_samples g (p # ps) = (case group_sample g of None \<Rightarrow> [] | Some s \<Rightarrow> [s]) @ spec_samples [] ps"
    by (simp add: spec_samples_def gr List.map_filter_simps split: option.split)
  note f = flush_group [OF assms(1) d1_def [symmetric]]
  show ?thesis
    using assms(3) unfolding eff decoded_def ss gr(1,2)
    by (cases "group_sample g") (simp_all add: f gr(3) algebra_simps)
qed

lemma decoded_open:
  assumes "dr_slot d = slot_of slot g" "p \<noteq> End_of_record" "\<And>v. p \<noteq> Timestamp v"
    and "decoded slot (g @ [p]) ps (pkt_effect p d) d'"
  shows "decoded slot g (p # ps) d d'"
proof -
  have gr: "groups g (p # ps) = groups (g @ [p]) ps" "left_open g (p # ps) = left_open (g @ [p]) ps"
    using assms(2,3) by (cases p; simp)+
  have eff: "dr_mon (pkt_effect p d) = (if is_unknown p then (dr_mon d)\<lparr>mo_spe_unknown_packet_count := mo_spe_unknown_packet_count (dr_mon d) + 1\<rparr> else dr_mon d)"
    "dr_writer (pkt_effect p d) = dr_writer d" "dr_num_samples (pkt_effect p d) = dr_num_samples d" "dr_aux_tail (pkt_effect p d) = dr_aux_tail d"
    using assms(2,3) by (cases p; simp add: pkt_effect_def is_unknown_def)+
  show ?thesis using assms(4) by (auto simp: decoded_def spec_samples_def gr eff)
qed

lemma fold_pkt_effect:
  "dr_slot d = slot_of slot g \<Longrightarrow> decoded slot g ps d (fold pkt_effect ps d)"
proof (induction ps arbitrary: g d)
  case Nil
  then show ?case by (simp add: decoded_Nil)
next
  case (Cons p ps)
  show ?case
  proof (cases "p = End_of_record \<or> (\<exists>v. p = Timestamp v)")
    case True
    then have "dr_slot (pkt_effect p d) = slot_of slot []"
      using flush_group(1) [OF Cons.prems refl] by (auto simp: pkt_effect_def)
    from Cons.IH [OF this] show ?thesis using decoded_close [OF Cons.prems True] by simp
  next
    case False
    then have "dr_slot (pkt_effect p d) = slot_of slot (g @ [p])"
      using put_pkt_slot_of [of p slot g] Cons.prems by (cases p) (auto simp: pkt_effect_def put_pkt_def)
    from Cons.IH [OF this] show ?thesis using decoded_open [OF Cons.prems] False by simp
  qed
qed

lemma spe_packets_decoded:
  assumes "stored area aux_size rec_offset ps" "aux_size \<noteq> 0" "encoded_size ps < 2 ^ 64" "dr_slot d = slot_of slot g"
  obtains d' where "spe_packets area aux_size rec_offset (of_nat (encoded_size ps)) 0 d = Some d'" "decoded slot g ps d d'"
  using spe_packets_stored [of area aux_size rec_offset 0 ps d] assms fold_pkt_effect [OF assms(4), of ps] that by simp

text \<open>The AUX tail is none of the packets' business.\<close>

lemma fold_pkt_effect_aux_tail: "dr_aux_tail (fold pkt_effect ps d) = dr_aux_tail d"
proof (induction ps arbitrary: d)
  case (Cons p ps)
  have "dr_aux_tail (pkt_effect p d) = dr_aux_tail d"
    by (cases p) (simp_all add: pkt_effect_def flush_pending_spe_sample_locked_def Let_def)
  with Cons show ?case by simp
qed simp

text \<open>Decoding goes on where it stopped.\<close>

lemma groups_append: "groups g (ps @ qs) = groups g ps @ groups (left_open g ps) qs"
  by (induction g ps rule: groups.induct) simp_all

lemma left_open_append: "left_open g (ps @ qs) = left_open (left_open g ps) qs"
  by (induction g ps rule: left_open.induct) simp_all

lemma spec_samples_append: "spec_samples g (ps @ qs) = spec_samples g ps @ spec_samples (left_open g ps) qs"
  by (simp add: spec_samples_def groups_append map_filter_def)

lemma decoded_append:
  "decoded slot g ps d d1 \<Longrightarrow> decoded slot (left_open g ps) qs d1 d2 \<Longrightarrow> decoded slot g (ps @ qs) d d2"
  by (auto simp: decoded_def spec_samples_append groups_append left_open_append algebra_simps)

text \<open>Changes that decoding does not see.\<close>

lemma decoded_throttle:
  "decoded slot g ps (d\<lparr>dr_mon := throttle (dr_mon d)\<rparr>) d' \<Longrightarrow> decoded slot g ps d d'"
proof -
  have "map ki_num_samples (upd_last (\<lambda>k. k\<lparr>ki_sample_throttles := ki_sample_throttles k + 1\<rparr>) ks) = map ki_num_samples ks" for ks
    by (cases ks rule: rev_cases) simp_all
  then show "decoded slot g ps (d\<lparr>dr_mon := throttle (dr_mon d)\<rparr>) d' \<Longrightarrow> decoded slot g ps d d'"
    by (simp add: decoded_def throttle_def)
qed

lemma decoded_aux_tail: "decoded slot g ps d (d'\<lparr>dr_aux_tail := v\<rparr>) \<longleftrightarrow> decoded slot g ps d d'"
  by (simp add: decoded_def)

end
