(* ===== verification/Ring_Correct.thy ===== *)
theory Ring_Correct
  imports Spe_Correct
begin

text \<open>
  A drain of the ring buffer of an SPE sampler: when the ring holds a sequence of records and the AUX
  buffer the packets they point at, \<^verbatim>\<open>process_samples_locked\<close> returns, and what it wrote, counted and
  aggregated is what the packets say.
\<close>

subsection \<open>What the ring holds\<close>

text \<open>An AUX record has an offset, flags and the packets it covers; other records have a type.\<close>

datatype ring_rec = AuxRec u64 u64 "spe_pkt list" | ThrottleRec | OtherRec u32

definition rec_type :: "ring_rec \<Rightarrow> u32" where
  "rec_type r = (case r of AuxRec _ _ _ \<Rightarrow> PERF_RECORD_AUX | ThrottleRec \<Rightarrow> PERF_RECORD_THROTTLE | OtherRec ty \<Rightarrow> ty)"

definition known_types :: "u32 set" where
  "known_types = {PERF_RECORD_SAMPLE, PERF_RECORD_THROTTLE, PERF_RECORD_AUX}"

text \<open>The packets a drain decodes: those of the AUX records that are not marked as truncated.\<close>

definition rec_pkts :: "ring_rec \<Rightarrow> spe_pkt list" where
  "rec_pkts r = (case r of AuxRec off flags ps \<Rightarrow> if flags = PERF_AUX_FLAG_TRUNCATED then [] else ps | _ \<Rightarrow> [])"

definition rec_at :: "perf_buffer \<Rightarrow> u64 \<Rightarrow> ring_rec \<Rightarrow> bool" where
  "rec_at b tail r = (case r of
     AuxRec off flags ps \<Rightarrow>
       record_field (pb_data b) tail 8 = Some off \<and> record_field (pb_data b) tail 16 = Some (of_nat (encoded_size ps)) \<and>
       record_field (pb_data b) tail 24 = Some flags \<and> encoded_size ps < 2 ^ 64 \<and>
       unat ((tail + 32) mod of_nat (length (pb_data b))) + 32 \<le> length (pb_data b) \<and>
       (flags \<noteq> PERF_AUX_FLAG_TRUNCATED \<longrightarrow> stored (pb_aux b) (pb_aux_size b) off ps)
   | ThrottleRec \<Rightarrow> True
   | OtherRec ty \<Rightarrow> ty \<notin> known_types)"

fun ring_holds :: "perf_buffer \<Rightarrow> u64 \<Rightarrow> (ring_rec \<times> u64) list \<Rightarrow> bool" where
  "ring_holds b tail [] \<longleftrightarrow> tail = pb_data_head b"
| "ring_holds b tail ((r, sz) # rs) \<longleftrightarrow>
     tail < pb_data_head b \<and> pb_data b \<noteq> [] \<and>
     record_header (pb_data b) (unat (tail mod of_nat (length (pb_data b)))) = Some (rec_type r, sz) \<and>
     rec_at b tail r \<and> ring_holds b (tail + sz) rs"

definition rec_aux_bytes :: "ring_rec \<Rightarrow> u64" where
  "rec_aux_bytes r = of_nat (encoded_size (rec_pkts r))"

subsection \<open>One record\<close>

lemma dr_aux_tail_throttle [simp]: "dr_aux_tail (d\<lparr>dr_mon := m\<rparr>) = dr_aux_tail d"
  by simp

lemma ring_record_decoded:
  assumes "rec_at b tail r" "record_header (pb_data b) (unat (tail mod of_nat (length (pb_data b)))) = Some (rec_type r, sz)"
    and "pb_data b \<noteq> []" "dr_slot d = slot_of slot g" "pb_aux_size b \<noteq> 0" "ss_ringbuf slot + pb_aux_offset b = ss_auxbuf slot"
  obtains d' where "ring_record b tail d = Some (sz, d')" "decoded slot g (rec_pkts r) d d'"
    "dr_aux_tail d' = dr_aux_tail d + rec_aux_bytes r"
proof (cases r)
  case (AuxRec off flags ps)
  define d1 where "d1 = (if flags AND PERF_AUX_FLAG_COLLISION \<noteq> 0 then d\<lparr>dr_mon := throttle (dr_mon d)\<rparr> else d)"
  have d1: "dr_slot d1 = slot_of slot g" "dr_aux_tail d1 = dr_aux_tail d" using assms(4) by (simp_all add: d1_def)
  have from_d1: "decoded slot g qs d e" if "decoded slot g qs d1 e" for qs e
    using that decoded_throttle [of slot g qs d e] by (auto simp: d1_def split: if_splits)
  have ty: "rec_type r = PERF_RECORD_AUX" "PERF_RECORD_AUX \<noteq> PERF_RECORD_SAMPLE" "PERF_RECORD_AUX \<noteq> PERF_RECORD_THROTTLE"
    by (simp_all add: AuxRec rec_type_def PERF_RECORD_AUX_def PERF_RECORD_SAMPLE_def PERF_RECORD_THROTTLE_def)
  have f: "record_field (pb_data b) tail 8 = Some off" "record_field (pb_data b) tail 16 = Some (of_nat (encoded_size ps))"
    "record_field (pb_data b) tail 24 = Some flags" "unat ((tail + 32) mod of_nat (length (pb_data b))) + 32 \<le> length (pb_data b)"
    using assms(1) by (simp_all add: rec_at_def AuxRec)
  have aux: "aux_record b tail d = (if flags \<noteq> PERF_AUX_FLAG_TRUNCATED then do {
       area \<leftarrow> aux_area b (dr_slot d1);
       d2 \<leftarrow> spe_packets area (pb_aux_size b) off (of_nat (encoded_size ps)) 0 d1;
       Some (d2\<lparr>dr_aux_tail := dr_aux_tail d2 + of_nat (encoded_size ps)\<rparr>) } else Some d1)"
    using f by (simp add: aux_record_def Let_def d1_def)
  show thesis
  proof (cases "flags = PERF_AUX_FLAG_TRUNCATED")
    case True
    have "ring_record b tail d = Some (sz, d1)" using assms(2,3) ty aux True by (simp add: ring_record_def)
    moreover have "decoded slot g [] d d1" using decoded_Nil [OF d1(1)] by (rule from_d1)
    ultimately show thesis using that [of d1] d1(2) True by (simp add: AuxRec rec_pkts_def rec_aux_bytes_def)
  next
    case False
    have at_aux: "aux_area b (dr_slot d1) = Some (pb_aux b)" using assms(6) d1(1) by (simp add: aux_area_def slot_of_def)
    have st: "stored (pb_aux b) (pb_aux_size b) off ps" "encoded_size ps < 2 ^ 64"
      using assms(1) False by (simp_all add: rec_at_def AuxRec)
    obtain d2 where d2: "spe_packets (pb_aux b) (pb_aux_size b) off (of_nat (encoded_size ps)) 0 d1 = Some d2"
      "decoded slot g ps d1 d2" by (rule spe_packets_decoded [OF st(1) assms(5) st(2) d1(1)])
    have "spe_packets (pb_aux b) (pb_aux_size b) off (of_nat (encoded_size ps)) 0 d1 = Some (fold pkt_effect ps d1)"
      using spe_packets_stored [of "pb_aux b" "pb_aux_size b" off 0 ps d1] st assms(5) by simp
    then have t2: "dr_aux_tail d2 = dr_aux_tail d" using d2(1) fold_pkt_effect_aux_tail [of ps d1] d1(2) by simp
    define d3 where "d3 = d2\<lparr>dr_aux_tail := dr_aux_tail d2 + of_nat (encoded_size ps)\<rparr>"
    have "aux_record b tail d = Some d3" unfolding aux at_aux d3_def using False by (simp add: d2(1))
    then have "ring_record b tail d = Some (sz, d3)" using assms(2,3) ty by (simp add: ring_record_def)
    moreover have "decoded slot g ps d d3" using from_d1 [OF d2(2)] by (simp add: d3_def decoded_aux_tail)
    ultimately show thesis using that [of d3] t2 False by (simp add: AuxRec rec_pkts_def rec_aux_bytes_def d3_def)
  qed
next
  case ThrottleRec
  let ?d = "d\<lparr>dr_mon := throttle (dr_mon d)\<rparr>"
  have "decoded slot g [] ?d ?d" using assms(4) by (intro decoded_Nil) simp
  then have "decoded slot g [] d ?d" by (rule decoded_throttle)
  moreover have "ring_record b tail d = Some (sz, ?d)"
    using assms(2,3) ThrottleRec by (simp add: ring_record_def rec_type_def PERF_RECORD_THROTTLE_def PERF_RECORD_SAMPLE_def)
  ultimately show thesis using that [of ?d] ThrottleRec by (simp add: rec_pkts_def rec_aux_bytes_def)
next
  case (OtherRec ty)
  have "ring_record b tail d = Some (sz, d)"
    using assms(1-3) OtherRec by (auto simp: ring_record_def rec_type_def rec_at_def known_types_def)
  then show thesis using that [of d] decoded_Nil [OF assms(4)] OtherRec by (simp add: rec_pkts_def rec_aux_bytes_def)
qed

subsection \<open>The whole ring\<close>

definition ring_pkts :: "(ring_rec \<times> u64) list \<Rightarrow> spe_pkt list" where
  "ring_pkts rs = concat (map (\<lambda>r. rec_pkts (fst r)) rs)"

definition ring_aux_bytes :: "(ring_rec \<times> u64) list \<Rightarrow> u64" where
  "ring_aux_bytes rs = sum_list (map (\<lambda>r. rec_aux_bytes (fst r)) rs)"

lemma ring_records_decoded:
  assumes "ring_holds b tail rs" "dr_slot d = slot_of slot g" "pb_aux_size b \<noteq> 0" "ss_ringbuf slot + pb_aux_offset b = ss_auxbuf slot"
  shows "\<exists>d'. ring_records b tail d = Some (pb_data_head b, d') \<and> decoded slot g (ring_pkts rs) d d' \<and>
    dr_aux_tail d' = dr_aux_tail d + ring_aux_bytes rs"
  using assms(1,2)
proof (induction rs arbitrary: tail d g)
  case Nil
  then have "ring_records b tail d = Some (pb_data_head b, d)" by (subst ring_records.simps) simp
  then show ?case using decoded_Nil [OF Nil(2)] by (simp add: ring_pkts_def ring_aux_bytes_def)
next
  case (Cons rsz rs)
  obtain r sz where rsz: "rsz = (r, sz)" by fastforce
  have h: "tail < pb_data_head b" "pb_data b \<noteq> []" "rec_at b tail r" "ring_holds b (tail + sz) rs"
    "record_header (pb_data b) (unat (tail mod of_nat (length (pb_data b)))) = Some (rec_type r, sz)"
    using Cons.prems(1) rsz by simp_all
  obtain d1 where d1: "ring_record b tail d = Some (sz, d1)" "decoded slot g (rec_pkts r) d d1"
    "dr_aux_tail d1 = dr_aux_tail d + rec_aux_bytes r"
    by (rule ring_record_decoded [OF h(3,5,2) Cons.prems(2) assms(3,4)])
  have "dr_slot d1 = slot_of slot (left_open g (rec_pkts r))" using d1(2) by (simp add: decoded_def)
  from Cons.IH [OF h(4) this] obtain d' where d': "ring_records b (tail + sz) d1 = Some (pb_data_head b, d')"
    "decoded slot (left_open g (rec_pkts r)) (ring_pkts rs) d1 d'" "dr_aux_tail d' = dr_aux_tail d1 + ring_aux_bytes rs"
    by blast
  have "ring_records b tail d = Some (pb_data_head b, d')"
    using h(1) d1(1) d'(1) by (subst ring_records.simps) simp
  moreover have "decoded slot g (rec_pkts r @ ring_pkts rs) d d'" by (rule decoded_append [OF d1(2) d'(2)])
  ultimately show ?case using d1(3) d'(3) by (simp add: rsz ring_pkts_def ring_aux_bytes_def add.assoc)
qed

lemma core_eq_fields:
  assumes "core m = core m'"
  shows "mo_thread_hotspots m = mo_thread_hotspots m'" "mo_threads m = mo_threads m'"
    "mo_hotspot_unmapped_samples m = mo_hotspot_unmapped_samples m'"
  using arg_cong [OF assms, of mo_thread_hotspots] arg_cong [OF assms, of mo_threads]
    arg_cong [OF assms, of mo_hotspot_unmapped_samples] by (simp_all add: core_def)

lemma fold_record_core: "core (fold (record_hotspot_sample t) ss m) = fold (record_hotspot_sample t) ss (core m)"
  by (induction ss arbitrary: m) (simp_all add: record_hotspot_core)

lemma record_hotspot_threads [simp]: "mo_threads (record_hotspot_sample t s m) = mo_threads m"
  by (simp add: record_hotspot_sample_def split: option.split)

lemma fold_record_threads: "mo_threads (fold (record_hotspot_sample t) ss m) = mo_threads m"
  by (induction ss arbitrary: m) simp_all

lemma fold_bw_write:
  "bw_open w \<Longrightarrow> fold (\<lambda>s. bw_write (sample_bytes s)) ss w = w\<lparr>bw_bytes := bw_bytes w @ concat (map sample_bytes ss)\<rparr>"
  by (induction ss arbitrary: w) (simp_all add: bw_write_def)

lemma map_upd_last: "map f (upd_last g xs) = upd_last h (map f xs)" if "\<And>x. f (g x) = h (f x)"
  using that by (simp add: upd_last_def map_butlast last_map)

lemma put_writer_frame [simp]:
  "mo_thread_hotspots (put_writer t i w m) = mo_thread_hotspots m" "mo_kinfos (put_writer t i w m) = mo_kinfos m"
  "mo_written_sample_bytes (put_writer t i w m) = mo_written_sample_bytes m"
  by (simp_all add: put_writer_def)

lemma add_num_samples_frame [simp]:
  "mo_thread_hotspots (add_num_samples n m) = mo_thread_hotspots m" "mo_threads (add_num_samples n m) = mo_threads m"
  "mo_written_sample_bytes (add_num_samples n m) = mo_written_sample_bytes m"
  by (simp_all add: add_num_samples_def)

lemma drain_decoded:
  assumes "mo_kinfos m \<noteq> []" "pb_data_head b \<noteq> pb_data_tail b" "mo_threads m (ss_tid slot) = Some ts"
    and "ss_sampler_index slot < length (ts_writers ts)" "bw_open (ts_writers ts ! ss_sampler_index slot)"
    and "ring_holds b (pb_data_tail b) rs" "slot = slot_of slot g" "pb_aux_size b \<noteq> 0"
    and "ss_ringbuf slot + pb_aux_offset b = ss_auxbuf slot" "ss = spec_samples g (ring_pkts rs)"
  shows "\<exists>m'. process_samples_locked m b slot = Some (Inr (of_nat (length ss)), m',
      b\<lparr>pb_aux_tail := pb_aux_tail b + ring_aux_bytes rs, pb_data_tail := pb_data_head b\<rparr>, slot_of slot (left_open g (ring_pkts rs))) \<and>
    mo_threads m' = (mo_threads m)(ss_tid slot \<mapsto> ts\<lparr>ts_writers := (ts_writers ts)[ss_sampler_index slot :=
      (ts_writers ts ! ss_sampler_index slot)\<lparr>bw_bytes := bw_bytes (ts_writers ts ! ss_sampler_index slot) @ concat (map sample_bytes ss)\<rparr>]\<rparr>) \<and>
    mo_thread_hotspots m' = mo_thread_hotspots (fold (record_hotspot_sample (ss_tid slot)) ss m) \<and>
    mo_written_sample_bytes m' = mo_written_sample_bytes m + 56 * of_nat (length ss) \<and>
    map ki_num_samples (mo_kinfos m') = upd_last (\<lambda>n. n + of_nat (length ss)) (map ki_num_samples (mo_kinfos m))"
proof -
  let ?w = "ts_writers ts ! ss_sampler_index slot"
  define d0 where "d0 = \<lparr>dr_mon = m, dr_slot = slot, dr_writer = ?w, dr_num_samples = 0, dr_aux_tail = pb_aux_tail b\<rparr>"
  have d0: "dr_slot d0 = slot_of slot g" using assms(7) by (simp add: d0_def)
  obtain d where d: "ring_records b (pb_data_tail b) d0 = Some (pb_data_head b, d)" "decoded slot g (ring_pkts rs) d0 d"
    "dr_aux_tail d = pb_aux_tail b + ring_aux_bytes rs"
    using ring_records_decoded [OF assms(6) d0 assms(8,9)] by (auto simp: d0_def)
  note dd = d(2) [unfolded decoded_def, folded assms(10)]
  have c: "core (dr_mon d) = core (fold (record_hotspot_sample (ss_tid slot)) ss m)"
    using dd by (simp add: fold_record_core d0_def)
  have th: "mo_threads (dr_mon d) = mo_threads m" using core_eq_fields(2) [OF c] by (simp add: fold_record_threads)
  have w: "dr_writer d = ?w\<lparr>bw_bytes := bw_bytes ?w @ concat (map sample_bytes ss)\<rparr>"
    using dd fold_bw_write [OF assms(5), of ss] by (simp add: d0_def)
  define m1 where "m1 = put_writer (ss_tid slot) (ss_sampler_index slot) (dr_writer d) (dr_mon d)"
  let ?m' = "add_num_samples (dr_num_samples d) m1"
  have "process_samples_locked m b slot = Some (Inr (dr_num_samples d), ?m',
      b\<lparr>pb_aux_tail := dr_aux_tail d, pb_data_tail := pb_data_head b\<rparr>, dr_slot d)"
    using assms(1-4) d(1) unfolding process_samples_locked_def by (simp add: d0_def m1_def Let_def)
  moreover have "mo_threads ?m' = (mo_threads m)(ss_tid slot \<mapsto> ts\<lparr>ts_writers := (ts_writers ts)[ss_sampler_index slot := dr_writer d]\<rparr>)"
    using assms(3) th by (simp add: m1_def put_writer_def)
  moreover have "map ki_num_samples (mo_kinfos ?m') = upd_last (\<lambda>n. n + dr_num_samples d) (map ki_num_samples (mo_kinfos m))"
    using dd map_upd_last [of ki_num_samples "\<lambda>k. k\<lparr>ki_num_samples := ki_num_samples k + dr_num_samples d\<rparr>" "\<lambda>n. n + dr_num_samples d" "mo_kinfos (dr_mon d)"]
    by (simp add: add_num_samples_def m1_def d0_def)
  ultimately show ?thesis using dd d(3) w core_eq_fields(1) [OF c]
    by (intro exI [of _ ?m']) (simp add: d0_def m1_def)
qed

end
