(* ===== verification/Monitor.thy ===== *)
theory Monitor
  imports Spe
begin

text \<open>
  The class \<^verbatim>\<open>Monitor\<close> of \<^verbatim>\<open>src/monitor.cc\<close>: opening and closing the perf resources of a thread,
  registration, windows, counters, and the work of the sampler thread; and \<^verbatim>\<open>src/clock.cc\<close>.  An
  operation returns the exception it throws, if any, with the state it leaves; \<open>None\<close> stands for
  undefined behaviour and for waiting for ever.
\<close>

subsection \<open>Interfaces of the system\<close>

record read_format =
  rf_value :: u64
  rf_time_enabled :: u64
  rf_time_running :: u64

record mon_attr =
  ma_type :: int
  ma_config :: u64
  ma_inherit :: bool
  ma_sample_period :: u64
  ma_sample_type :: "string list"
  ma_precise_ip :: nat
  ma_wakeup_events :: nat
  ma_pinned :: bool
  ma_disabled :: bool
  ma_clockid :: string
  ma_exclude_kernel :: bool
  ma_exclude_hv :: bool
  ma_sample_id_all :: bool

text \<open>
  \<open>mn_pfm_encode\<close> is the type and configuration that libpfm gives an event; \<open>mn_ring\<close> is the buffer
  behind a sampler descriptor when it is mapped; the walks are the orders of the hash tables; a
  descriptor that could not be created is negative.
\<close>

record mon_env =
  mn_cv :: ctl_env
  mn_pfm_encode :: "string \<Rightarrow> (int \<times> u64) option"
  mn_perf_event_open :: "perf_os \<Rightarrow> mon_attr \<Rightarrow> int \<Rightarrow> int \<Rightarrow> string + int"
  mn_mmap :: "perf_os \<Rightarrow> u64 \<Rightarrow> int \<Rightarrow> u64"
  mn_ring :: "int \<Rightarrow> perf_buffer"
  mn_epoll_add :: "perf_os \<Rightarrow> int \<Rightarrow> bool"
  mn_read_fd :: "perf_os \<Rightarrow> int \<Rightarrow> read_format option"
  mn_clock_gettime :: "(int \<times> int) option"
  mn_clock_getres :: "(int \<times> int) option"
  mn_pfm_initialize :: bool
  mn_epoll_create :: int
  mn_eventfd :: int
  mn_sem_init :: bool
  mn_sampler_tid :: int
  mn_epoll_add_eventfd :: bool
  mn_l1_line_size :: int
  mn_thread_walk :: "(int \<rightharpoonup> thread_state) \<Rightarrow> int list"
  mn_hot_walk :: "(hotspot_key \<times> hotspot_stats) list \<Rightarrow> (hotspot_key \<times> hotspot_stats) list"

type_synonym mon_outcome = "(string option \<times> mon_sys) option"

definition mon_then :: "(mon_sys \<Rightarrow> mon_outcome) \<Rightarrow> (mon_sys \<Rightarrow> mon_outcome) \<Rightarrow> mon_sys \<Rightarrow> mon_outcome" where
  "mon_then f g s = (case f s of None \<Rightarrow> None | Some (Some e, s') \<Rightarrow> Some (Some e, s') | Some (None, s') \<Rightarrow> g s')"

abbreviation upd_mon :: "(monitor \<Rightarrow> monitor) \<Rightarrow> mon_sys \<Rightarrow> mon_sys" where
  "upd_mon f s \<equiv> s\<lparr>ms_mon := f (ms_mon s)\<rparr>"

abbreviation upd_os :: "(perf_os \<Rightarrow> perf_os) \<Rightarrow> mon_sys \<Rightarrow> mon_sys" where
  "upd_os f s \<equiv> s\<lparr>ms_os := f (ms_os s)\<rparr>"

subsection \<open>Descriptors and mappings\<close>

definition os_close :: "int \<Rightarrow> perf_os \<Rightarrow> perf_os" where
  "os_close fd os = (if fd \<ge> 0 then os\<lparr>po_fds := remove1 fd (po_fds os), po_enabled := removeAll fd (po_enabled os),
     po_epoll := filter (\<lambda>e. fst e \<noteq> fd) (po_epoll os)\<rparr> else os)"

definition os_enable :: "int \<Rightarrow> perf_os \<Rightarrow> perf_os" where
  "os_enable fd os = (if fd \<ge> 0 then os\<lparr>po_enabled := List.insert fd (po_enabled os)\<rparr> else os)"

definition os_disable :: "int \<Rightarrow> perf_os \<Rightarrow> perf_os" where
  "os_disable fd os = (if fd \<ge> 0 then os\<lparr>po_enabled := removeAll fd (po_enabled os)\<rparr> else os)"

definition os_munmap :: "u64 \<Rightarrow> u64 \<Rightarrow> perf_os \<Rightarrow> perf_os" where
  "os_munmap addr bytes os = (if addr \<noteq> 0 \<and> bytes \<noteq> 0 then os\<lparr>po_maps := remove1 (addr, bytes) (po_maps os)\<rparr> else os)"

definition make_sampler_token :: "u32 \<Rightarrow> u64" where
  "make_sampler_token slot_id = push_bit 32 1 OR ucast slot_id"

definition read_fd :: "mon_env \<Rightarrow> perf_os \<Rightarrow> int \<Rightarrow> string + read_format" where
  "read_fd env os fd = (case mn_read_fd env os fd of None \<Rightarrow> Inl ''read() on event fd failed'' | Some c \<Rightarrow> Inr c)"

text \<open>\<^verbatim>\<open>file >> n\<close> for an \<^verbatim>\<open>int\<close>: saturating, 0 when there is no number.\<close>

definition stream_int :: "string \<Rightarrow> int" where
  "stream_int s = max (- (2 ^ 31)) (min (2 ^ 31 - 1) (fst (strtoll 10 s)))"

definition init_perf_attr :: "mon_env \<Rightarrow> string \<Rightarrow> bool \<Rightarrow> u64 \<Rightarrow> string + mon_attr" where
  "init_perf_attr env event_name per_thread sample_period =
     (let spe_config = parse_arm_spe_event event_name; encoding = mn_pfm_encode env event_name in
      if encoding = None \<and> spe_config = 0 then Inl (''pfm_get_os_event_encoding '' @ event_name @ '' fail'')
      else let (ty, config) = (case encoding of None \<Rightarrow> (0, 0) | Some e \<Rightarrow> e);
               sampling = (sample_period \<noteq> 0);
               attr = \<lparr>ma_type = ty, ma_config = config, ma_inherit = \<not> per_thread,
                 ma_sample_period = (if sampling then sample_period else 0),
                 ma_sample_type = (if sampling then [''ADDR'', ''TIME'', ''TID''] else []),
                 ma_precise_ip = (if sampling then 2 else 0), ma_wakeup_events = (if sampling then 1024 else 0),
                 ma_pinned = sampling, ma_disabled = True, ma_clockid = ''CLOCK_MONOTONIC_RAW'',
                 ma_exclude_kernel = True, ma_exclude_hv = True, ma_sample_id_all = True\<rparr>
           in if spe_config = 0 then Inr attr
              else case cv_file (mn_cv env) ''/sys/bus/event_source/devices/arm_spe_0/type'' of
                  None \<Rightarrow> Inl ''Failed to open the file /sys/bus/event_source/devices/arm_spe_0/type''
                | Some content \<Rightarrow> Inr (attr\<lparr>ma_type := stream_int content,
                    ma_sample_type := [''IP'', ''TID'', ''TIME'', ''CPU'', ''DATA_SRC'', ''IDENTIFIER''], ma_config := spe_config\<rparr>))"

text \<open>The array of descriptors stays at \<open>- 1\<close> from the event on that cannot be opened.\<close>

fun open_fds :: "mon_env \<Rightarrow> int \<Rightarrow> u64 \<Rightarrow> nat \<Rightarrow> int \<Rightarrow> event_spec \<Rightarrow> perf_os \<Rightarrow> string option \<times> int list \<times> perf_os" where
  "open_fds env pid period i group_fd [] os = (None, [], os)"
| "open_fds env pid period i group_fd ((name, leader) # spec) os =
     (let g = (if leader then - 1 else group_fd) in
      case init_perf_attr env name True period of
        Inl e \<Rightarrow> (Some e, replicate (Suc (length spec)) (- 1), os)
      | Inr attr \<Rightarrow> (case mn_perf_event_open env os attr pid g of
          Inl e \<Rightarrow> (Some (''perf_event_open failed [i='' @ show_dec i @ '', errno='' @ e @ '']''), replicate (Suc (length spec)) (- 1), os)
        | Inr fd \<Rightarrow>
            (case open_fds env pid period (Suc i) (if g = - 1 then fd else g) spec (os\<lparr>po_fds := fd # po_fds os\<rparr>) of
               (r, fds, os') \<Rightarrow> (r, fd # fds, os'))))"

subsection \<open>The resources of a thread\<close>

definition zero_slot_state :: sampler_slot where
  "zero_slot_state = \<lparr>ss_slot_id = 0, ss_tid = 0, ss_sampler_index = 0, ss_fd = 0, ss_ringbuf = 0, ss_ringbuf_bytes = 0,
     ss_auxbuf = 0, ss_auxbuf_bytes = 0, pending_pc = 0, pending_data_va = 0, pending_lat_total = 0,
     pending_lat_issue = 0, pending_lat_xlat = 0, pending_event_bits = 0, pending_flags = 0\<rparr>"

definition zero_thread :: thread_state where
  "zero_thread = \<lparr>ts_tid = 0, ts_active = False, ts_counter_fds = [], ts_writers = [], ts_samplers = []\<rparr>"

definition get_thread_state :: "int \<Rightarrow> mon_sys \<Rightarrow> thread_state" where
  "get_thread_state t s = (case mo_threads (ms_mon s) t of None \<Rightarrow> zero_thread | Some ts \<Rightarrow> ts)"

definition upd_thread :: "int \<Rightarrow> (thread_state \<Rightarrow> thread_state) \<Rightarrow> mon_sys \<Rightarrow> mon_sys" where
  "upd_thread t f s = upd_mon (\<lambda>m. m\<lparr>mo_threads := (mo_threads m)(t \<mapsto> f (get_thread_state t s))\<rparr>) s"

text \<open>\<^verbatim>\<open>(bufsize * MB) / PAGE_SIZE\<close>: the product is an \<^verbatim>\<open>int\<close> and must not overflow.\<close>

definition buffer_pages :: "int \<Rightarrow> u64 \<Rightarrow> int option" where
  "buffer_pages bufsize page =
     (let bytes = bufsize * 2 ^ 20
      in if - (2 ^ 31) \<le> bytes \<and> bytes < 2 ^ 31 \<and> page \<noteq> 0
         then Some (sgn bytes * (\<bar>bytes\<bar> div uint page)) else None)"

definition sampler_path :: "monitor \<Rightarrow> int \<Rightarrow> nat \<Rightarrow> string" where
  "sampler_path m t i = take 127 (mo_nameprefix m @ ''.t'' @ show_int t @ ''.sample'' @ show_dec i)"

definition new_writer :: "mon_env \<Rightarrow> monitor \<Rightarrow> int \<Rightarrow> nat \<Rightarrow> binary_writer" where
  "new_writer env m t i = \<lparr>bw_path = sampler_path m t i, bw_open = cv_can_create (mn_cv env) (sampler_path m t i), bw_bytes = []\<rparr>"

text \<open>Opening and mapping one sampler whose descriptor is \<open>fd\<close>.\<close>

definition map_sampler :: "mon_env \<Rightarrow> int \<Rightarrow> nat \<Rightarrow> string \<Rightarrow> int \<Rightarrow> int \<Rightarrow> int \<Rightarrow> mon_sys \<Rightarrow> string option \<times> sampler_slot \<times> mon_sys" where
  "map_sampler env t i name fd ring_pages aux_pages s =
     (let page = cv_page_size (mn_cv env);
          slot = (reset_pending_spe_sample zero_slot_state)\<lparr>ss_slot_id := mo_next_slot_id (ms_mon s), ss_tid := t,
                   ss_sampler_index := i, ss_fd := fd, ss_ringbuf_bytes := of_int (1 + ring_pages) * page\<rparr>;
          s1 = upd_mon (\<lambda>m. m\<lparr>mo_next_slot_id := mo_next_slot_id m + 1\<rparr>) s;
          ring = mn_mmap env (ms_os s1) (ss_ringbuf_bytes slot) fd
      in if ring = MAP_FAILED then (Some ''mapping sampler ring buffer failed'', slot, s1)
         else let slot1 = slot\<lparr>ss_ringbuf := ring\<rparr>;
                  s2 = upd_os (\<lambda>os. os\<lparr>po_maps := (ring, ss_ringbuf_bytes slot) # po_maps os,
                                      po_bufs := (po_bufs os)(ring := mn_ring env fd)\<rparr>) s1
              in if parse_arm_spe_event name = 0 then (None, slot1, s2)
                 else let aux_bytes = of_int aux_pages * page;
                          s3 = upd_os (\<lambda>os. os\<lparr>po_bufs := (po_bufs os)(ring := (po_bufs os ring)\<lparr>pb_aux_offset := ss_ringbuf_bytes slot,
                                                              pb_aux_size := aux_bytes\<rparr>)\<rparr>) s2;
                          slot2 = slot1\<lparr>ss_auxbuf_bytes := aux_bytes\<rparr>;
                          aux = mn_mmap env (ms_os s3) aux_bytes fd
                      in if aux = MAP_FAILED then (Some ''mapping sampler aux ring buffer failed'', slot2, s3)
                         else (None, slot2\<lparr>ss_auxbuf := aux\<rparr>,
                           upd_os (\<lambda>os. os\<lparr>po_maps := (aux, aux_bytes) # po_maps os,
                             po_bufs := (po_bufs os)(ring := (po_bufs os ring)\<lparr>pb_aux_offset := aux - ring\<rparr>)\<rparr>) s3))"

text \<open>The loop over the samplers; when it throws, the descriptors it has not reached yet are closed.\<close>

fun open_samplers :: "mon_env \<Rightarrow> int \<Rightarrow> int \<Rightarrow> int \<Rightarrow> nat \<Rightarrow> event_spec \<Rightarrow> int list \<Rightarrow> mon_sys \<Rightarrow> string option \<times> mon_sys" where
  "open_samplers env t ring_pages aux_pages i ((name, leader) # spec) (fd # fds) s =
     (case map_sampler env t i name fd ring_pages aux_pages s of
        (Some e, slot, s1) \<Rightarrow> (Some e, upd_os (fold os_close fds) s1)
      | (None, slot, s1) \<Rightarrow>
          let k = length (ts_samplers (get_thread_state t s1));
              s2 = upd_thread t (\<lambda>ts. ts\<lparr>ts_samplers := ts_samplers ts @ [slot]\<rparr>) s1;
              s3 = upd_mon (\<lambda>m. m\<lparr>mo_sampler_slots := (mo_sampler_slots m)(ss_slot_id slot \<mapsto> (t, k))\<rparr>) s2
          in if mo_epoll_fd (ms_mon s3) = - 1 then open_samplers env t ring_pages aux_pages (Suc i) spec fds s3
             else if mn_epoll_add env (ms_os s3) fd
             then open_samplers env t ring_pages aux_pages (Suc i) spec fds
                    (upd_os (\<lambda>os. os\<lparr>po_epoll := (fd, make_sampler_token (of_int (ss_slot_id slot))) # po_epoll os\<rparr>) s3)
             else (Some ''epoll_ctl'', upd_os (fold os_close fds) s3))"
| "open_samplers env t ring_pages aux_pages i spec fds s = (None, s)"

definition pin_thread :: "mon_env \<Rightarrow> int \<Rightarrow> mon_sys \<Rightarrow> mon_sys" where
  "pin_thread env t s =
     (if mo_is_pin (ms_mon s)
      then let c = parse_cpu_from_tid_stat (mn_cv env) t
           in if c \<ge> 0 \<and> c < mo_num_cpus (ms_mon s) \<and> cv_sched_setaffinity (mn_cv env) t c
              then upd_os (\<lambda>os. os\<lparr>po_pinned := (t, c) # po_pinned os\<rparr>) s else s
      else s)"

definition open_counters :: "mon_env \<Rightarrow> int \<Rightarrow> mon_sys \<Rightarrow> string option \<times> mon_sys" where
  "open_counters env t s =
     (if mo_counter_spec (ms_mon s) \<noteq> []
      then case open_fds env t 0 0 (- 1) (mo_counter_spec (ms_mon s)) (ms_os s) of
             (r, fds, os) \<Rightarrow> (r, upd_thread t (\<lambda>ts. ts\<lparr>ts_counter_fds := fds\<rparr>) (s\<lparr>ms_os := os\<rparr>))
      else (None, upd_thread t (\<lambda>ts. ts\<lparr>ts_counter_fds := []\<rparr>) s))"

definition open_thread_locked :: "mon_env \<Rightarrow> int \<Rightarrow> mon_sys \<Rightarrow> mon_outcome" where
  "open_thread_locked env t s0 =
     (let s = pin_thread env t s0; spec = mo_sampler_spec (ms_mon s) in
      case open_counters env t s of
        (Some e, s1) \<Rightarrow> Some (Some e, s1)
      | (None, s1) \<Rightarrow>
          if spec = [] then Some (None, s1)
          else let ws = ts_writers (get_thread_state t s1) in
            if ws \<noteq> [] \<and> length ws \<noteq> length spec then Some (Some ''writer vector size mismatch'', s1)
            else let s2 = (if ws = [] then upd_thread t (\<lambda>ts. ts\<lparr>ts_writers := map (new_writer env (ms_mon s1) t) [0..<length spec]\<rparr>) s1
                           else s1)
              in do {
                ring_pages \<leftarrow> buffer_pages (mo_ringbufsize (ms_mon s)) (cv_page_size (mn_cv env));
                aux_pages \<leftarrow> buffer_pages (mo_auxbufsize (ms_mon s)) (cv_page_size (mn_cv env));
                case open_fds env t (mo_sample_period (ms_mon s)) 0 (- 1) spec (ms_os s2) of
                  (Some e, fds, os) \<Rightarrow> Some (Some e, s2\<lparr>ms_os := os\<rparr>)
                | (None, fds, os) \<Rightarrow>
                    Some (open_samplers env t ring_pages aux_pages 0 spec fds
                            (upd_thread t (\<lambda>ts. ts\<lparr>ts_samplers := []\<rparr>) (s2\<lparr>ms_os := os\<rparr>)))
              })"

definition thread_fds :: "thread_state \<Rightarrow> int list" where
  "thread_fds ts = ts_counter_fds ts @ map ss_fd (ts_samplers ts)"

definition enable_thread_locked :: "thread_state \<Rightarrow> mon_sys \<Rightarrow> mon_sys" where
  "enable_thread_locked ts s = upd_os (fold os_enable (thread_fds ts)) s"

definition disable_thread_locked :: "thread_state \<Rightarrow> mon_sys \<Rightarrow> mon_sys" where
  "disable_thread_locked ts s = upd_os (fold os_disable (thread_fds ts)) s"

definition close_slot :: "sampler_slot \<Rightarrow> mon_sys \<Rightarrow> mon_sys" where
  "close_slot slot s = upd_os (\<lambda>os. os_close (ss_fd slot) (os_munmap (ss_ringbuf slot) (ss_ringbuf_bytes slot)
       (os_munmap (ss_auxbuf slot) (ss_auxbuf_bytes slot) os)))
     (upd_mon (\<lambda>m. m\<lparr>mo_sampler_slots := (mo_sampler_slots m)(ss_slot_id slot := None)\<rparr>) s)"

definition close_thread_locked :: "int \<Rightarrow> mon_sys \<Rightarrow> mon_sys" where
  "close_thread_locked t s =
     (let ts = get_thread_state t s;
          s1 = fold close_slot (ts_samplers ts) s;
          s2 = upd_os (fold os_close (ts_counter_fds ts)) s1
      in upd_thread t (\<lambda>ts. ts\<lparr>ts_samplers := [], ts_counter_fds := [], ts_active := False\<rparr>) s2)"

subsection \<open>Registration\<close>

definition mon_register_thread_locked :: "mon_env \<Rightarrow> int \<Rightarrow> mon_sys \<Rightarrow> mon_outcome" where
  "mon_register_thread_locked env t s =
     (let s1 = upd_thread t (\<lambda>ts. ts\<lparr>ts_tid := t\<rparr>) s;
          s2 = upd_mon (\<lambda>m. m\<lparr>mo_tids := (if t \<in> set (mo_tids m) then mo_tids m else mo_tids m @ [t])\<rparr>) s1
      in if ts_active (get_thread_state t s2) then Some (None, s2)
         else case open_thread_locked env t s2 of
             None \<Rightarrow> None
           | Some (None, s3) \<Rightarrow> Some (None, upd_thread t (\<lambda>ts. ts\<lparr>ts_active := True\<rparr>) s3)
           | Some (Some e, s3) \<Rightarrow> Some (Some e, close_thread_locked t s3))"

text \<open>Draining one slot in place.\<close>

definition drain_slot :: "int \<Rightarrow> nat \<Rightarrow> mon_sys \<Rightarrow> ((string + u64) \<times> mon_sys) option" where
  "drain_slot t i s =
     (let slot = ts_samplers (get_thread_state t s) ! i; b = po_bufs (ms_os s) (ss_ringbuf slot) in
      case process_samples_locked (ms_mon s) b slot of
        None \<Rightarrow> None
      | Some (r, m, b', slot') \<Rightarrow>
          Some (r, upd_os (\<lambda>os. os\<lparr>po_bufs := (po_bufs os)(ss_ringbuf slot := b')\<rparr>)
                     (upd_thread t (\<lambda>ts. ts\<lparr>ts_samplers := (ts_samplers ts)[i := slot']\<rparr>) (s\<lparr>ms_mon := m\<rparr>))))"

fun drain_slots :: "int \<Rightarrow> nat list \<Rightarrow> u64 \<Rightarrow> mon_sys \<Rightarrow> ((string + u64) \<times> mon_sys) option" where
  "drain_slots t [] n s = Some (Inr n, s)"
| "drain_slots t (i # is) n s =
     (case drain_slot t i s of
        None \<Rightarrow> None
      | Some (Inl e, s') \<Rightarrow> Some (Inl e, s')
      | Some (Inr k, s') \<Rightarrow> drain_slots t is (n + k) s')"

definition drain_thread :: "int \<Rightarrow> u64 \<Rightarrow> mon_sys \<Rightarrow> ((string + u64) \<times> mon_sys) option" where
  "drain_thread t n s = drain_slots t [0..<length (ts_samplers (get_thread_state t s))] n s"

definition add_retired :: "nat \<Rightarrow> read_format \<Rightarrow> monitor \<Rightarrow> monitor" where
  "add_retired i c m = m\<lparr>mo_retired_values := (mo_retired_values m)[i := mo_retired_values m ! i + rf_value c],
     mo_retired_time_enabled := (mo_retired_time_enabled m)[i := mo_retired_time_enabled m ! i + rf_time_enabled c],
     mo_retired_time_running := (mo_retired_time_running m)[i := mo_retired_time_running m ! i + rf_time_running c]\<rparr>"

fun retire_fds :: "mon_env \<Rightarrow> (nat \<times> int) list \<Rightarrow> mon_sys \<Rightarrow> string option \<times> mon_sys" where
  "retire_fds env [] s = (None, s)"
| "retire_fds env ((i, fd) # ifs) s =
     (if fd < 0 then retire_fds env ifs s
      else case read_fd env (ms_os s) fd of
          Inl e \<Rightarrow> (Some e, s)
        | Inr c \<Rightarrow> retire_fds env ifs (upd_mon (add_retired i c) s))"

text \<open>The descriptors of a thread with the counters they belong to.\<close>

definition indexed_fds :: "monitor \<Rightarrow> thread_state \<Rightarrow> (nat \<times> int) list" where
  "indexed_fds m ts = zip [0..<length (mo_counter_spec m)] (ts_counter_fds ts) @
     map (\<lambda>slot. (length (mo_counter_spec m) + ss_sampler_index slot, ss_fd slot)) (ts_samplers ts)"

definition accumulate_retired_counts_locked :: "mon_env \<Rightarrow> int \<Rightarrow> mon_sys \<Rightarrow> string option \<times> mon_sys" where
  "accumulate_retired_counts_locked env t s = retire_fds env (indexed_fds (ms_mon s) (get_thread_state t s)) s"

definition mon_unregister_thread_locked :: "mon_env \<Rightarrow> int \<Rightarrow> mon_sys \<Rightarrow> mon_outcome" where
  "mon_unregister_thread_locked env t s =
     (case mo_threads (ms_mon s) t of
        None \<Rightarrow> Some (None, s)
      | Some ts \<Rightarrow>
          if \<not> ts_active ts then Some (None, s)
          else let s1 = (if mo_events_enabled (ms_mon s) then disable_thread_locked ts s else s) in
            case drain_thread t 0 s1 of
              None \<Rightarrow> None
            | Some (Inl e, s2) \<Rightarrow> Some (Some e, s2)
            | Some (Inr _, s2) \<Rightarrow> (case accumulate_retired_counts_locked env t s2 of
                (Some e, s3) \<Rightarrow> Some (Some e, s3)
              | (None, s3) \<Rightarrow> Some (None, close_thread_locked t s3)))"

definition no_events :: "monitor \<Rightarrow> bool" where
  "no_events m \<longleftrightarrow> mo_counter_spec m = [] \<and> mo_sampler_spec m = []"

definition mon_register_current_thread :: "mon_env \<Rightarrow> mon_sys \<Rightarrow> mon_outcome" where
  "mon_register_current_thread env s =
     (if no_events (ms_mon s) then Some (None, s)
      else let t = cv_gettid (mn_cv env) in
        mon_then (mon_register_thread_locked env t)
          (\<lambda>s. Some (None, if mo_events_enabled (ms_mon s) then enable_thread_locked (get_thread_state t s) s else s)) s)"

definition mon_unregister_current_thread :: "mon_env \<Rightarrow> mon_sys \<Rightarrow> mon_outcome" where
  "mon_unregister_current_thread env s =
     (if no_events (ms_mon s) then Some (None, s) else mon_unregister_thread_locked env (cv_gettid (mn_cv env)) s)"

subsection \<open>Counters\<close>

fun sum_fds :: "mon_env \<Rightarrow> perf_os \<Rightarrow> int list \<Rightarrow> read_format \<Rightarrow> string + read_format" where
  "sum_fds env os [] acc = Inr acc"
| "sum_fds env os (fd # fds) acc =
     (case read_fd env os fd of
        Inl e \<Rightarrow> Inl e
      | Inr c \<Rightarrow> sum_fds env os fds \<lparr>rf_value = rf_value acc + rf_value c,
          rf_time_enabled = rf_time_enabled acc + rf_time_enabled c,
          rf_time_running = rf_time_running acc + rf_time_running c\<rparr>)"

definition active_threads :: "mon_env \<Rightarrow> monitor \<Rightarrow> thread_state list" where
  "active_threads env m = filter ts_active (List.map_filter (mo_threads m) (mn_thread_walk env (mo_threads m)))"

text \<open>The descriptors that are read for counter \<open>i\<close>; the samplers come after the counters.\<close>

definition fds_of_index :: "mon_env \<Rightarrow> monitor \<Rightarrow> nat \<Rightarrow> int list" where
  "fds_of_index env m i =
     (let nc = length (mo_counter_spec m) in
      if i < nc then map (\<lambda>ts. ts_counter_fds ts ! i) (filter (\<lambda>ts. i < length (ts_counter_fds ts)) (active_threads env m))
      else map (\<lambda>ts. ss_fd (ts_samplers ts ! (i - nc))) (filter (\<lambda>ts. i - nc < length (ts_samplers ts)) (active_threads env m)))"

definition retired :: "monitor \<Rightarrow> nat \<Rightarrow> read_format" where
  "retired m i = \<lparr>rf_value = mo_retired_values m ! i, rf_time_enabled = mo_retired_time_enabled m ! i,
     rf_time_running = mo_retired_time_running m ! i\<rparr>"

definition active_time :: "read_format \<Rightarrow> dbl" where
  "active_time c = (if rf_time_enabled c \<noteq> 0 then dbl_div (dbl_of_u64 (rf_time_running c)) (dbl_of_u64 (rf_time_enabled c)) else 0)"

fun read_indices :: "mon_env \<Rightarrow> nat list \<Rightarrow> mon_sys \<Rightarrow> (string + counter_data list) \<times> mon_sys" where
  "read_indices env [] s = (Inr [], s)"
| "read_indices env (i # is) s =
     (case sum_fds env (ms_os s) (fds_of_index env (ms_mon s) i) (retired (ms_mon s) i) of
        Inl e \<Rightarrow> (Inl e, s)
      | Inr c \<Rightarrow>
          let cd = \<lparr>cd_value = rf_value c - mo_prev_counters (ms_mon s) ! i, cd_active_time = active_time c\<rparr>;
              s1 = upd_mon (\<lambda>m. m\<lparr>mo_prev_counters := (mo_prev_counters m)[i := rf_value c]\<rparr>) s
          in case read_indices env is s1 of (Inl e, s2) \<Rightarrow> (Inl e, s2) | (Inr cds, s2) \<Rightarrow> (Inr (cd # cds), s2))"

definition read_counters :: "mon_env \<Rightarrow> bool \<Rightarrow> mon_sys \<Rightarrow> (string + counter_data list) \<times> mon_sys" where
  "read_counters env include_samplers s =
     (let nc = length (mo_counter_spec (ms_mon s)); ns = length (mo_sampler_spec (ms_mon s))
      in read_indices env [0..<(if include_samplers then nc + ns else nc)] s)"

subsection \<open>Windows\<close>

definition for_active :: "mon_env \<Rightarrow> (thread_state \<Rightarrow> mon_sys \<Rightarrow> mon_sys) \<Rightarrow> mon_sys \<Rightarrow> mon_sys" where
  "for_active env f s = fold f (active_threads env (ms_mon s)) s"

definition zero_kinfo :: kinfo where
  "zero_kinfo = \<lparr>ki_tag = [], ki_num_samples = 0, ki_sample_throttles = 0, ki_duration = 0, ki_counters = None,
     ki_clock_start = 0, ki_clock_stop = 0, ki_offloaded = False\<rparr>"

definition upd_kinfo :: "(kinfo \<Rightarrow> kinfo) \<Rightarrow> mon_sys \<Rightarrow> mon_sys" where
  "upd_kinfo f s = upd_mon (\<lambda>m. m\<lparr>mo_kinfos := upd_last f (mo_kinfos m)\<rparr>) s"

definition bad_tag :: "string \<Rightarrow> bool" where
  "bad_tag tag \<longleftrightarrow> CHR ''='' \<in> set tag \<or> CHR 0x0A \<in> set tag"

text \<open>Waiting for the semaphore: \<open>None\<close> when nobody has posted it.\<close>

definition sem_wait :: "mon_sys \<Rightarrow> mon_sys option" where
  "sem_wait s = (if ms_sem s = 0 then None else Some (s\<lparr>ms_sem := ms_sem s - 1\<rparr>))"

definition enable_all :: "mon_env \<Rightarrow> mon_sys \<Rightarrow> mon_sys" where
  "enable_all env s = (if mo_events_enabled (ms_mon s) then s
     else upd_mon (\<lambda>m. m\<lparr>mo_events_enabled := True\<rparr>) (for_active env enable_thread_locked s))"

definition disable_all :: "mon_env \<Rightarrow> mon_sys \<Rightarrow> mon_sys" where
  "disable_all env s = (if \<not> mo_events_enabled (ms_mon s) then s
     else upd_mon (\<lambda>m. m\<lparr>mo_events_enabled := False\<rparr>) (for_active env disable_thread_locked s))"

definition mon_start :: "mon_env \<Rightarrow> string option \<Rightarrow> bool \<Rightarrow> mon_sys \<Rightarrow> mon_outcome" where
  "mon_start env tag offloaded s =
     (let s1 = upd_mon (\<lambda>m. m\<lparr>mo_kinfos := mo_kinfos m @ [zero_kinfo]\<rparr>) s in
      if (case tag of None \<Rightarrow> False | Some t \<Rightarrow> bad_tag t)
      then Some (Some (take 127 (''Invalid tag '' @ [CHR 0x27] @ the tag @ [CHR 0x27])), s1)
      else let s2 = upd_kinfo (\<lambda>k. k\<lparr>ki_tag := (case tag of None \<Rightarrow> ''?'' | Some t \<Rightarrow> t), ki_offloaded := offloaded\<rparr>) s1 in
        do {
          s3 \<leftarrow> (if \<not> mo_nonstop_mode (ms_mon s2) \<and> mo_epoll_fd (ms_mon s2) \<noteq> - 1 then sem_wait s2 else Some s2);
          let s4 = upd_mon (snapshot_main_binary_path (mn_cv env)) s3;
          case snapshot_module_maps (mn_cv env) (ms_mon s4) of
            (Some e, m) \<Rightarrow> Some (Some e, s4\<lparr>ms_mon := m\<rparr>)
          | (None, m) \<Rightarrow>
              (case mn_clock_gettime env of
                 None \<Rightarrow> Some (Some ''failed clock_gettime'', s4\<lparr>ms_mon := m\<rparr>)
               | Some now \<Rightarrow> Some (None, enable_all env (s4\<lparr>ms_mon := m\<lparr>mo_start_time := now\<rparr>\<rparr>)))
        })"

definition ticks :: "u64 \<Rightarrow> int \<times> int \<Rightarrow> u64" where
  "ticks clock_res time = of_int (fst time) * clock_res + (of_int (snd time) * clock_res) div 1000000000"

definition duration :: "int \<times> int \<Rightarrow> int \<times> int \<Rightarrow> dbl" where
  "duration start stop = dbl_add (round_double (of_int (fst stop - fst start)))
     (dbl_mul (round_double (1 / 10 ^ 9)) (round_double (of_int (snd stop - snd start))))"

text \<open>An array that \<^verbatim>\<open>read_counters\<close> has not filled is empty in the model: nothing in it may be read.\<close>

definition mon_stop :: "mon_env \<Rightarrow> mon_sys \<Rightarrow> mon_outcome" where
  "mon_stop env s =
     (let s1 = (if \<not> mo_nonstop_mode (ms_mon s) then disable_all env s else s) in
      case mn_clock_gettime env of
        None \<Rightarrow> Some (Some ''failed clock_gettime'', s1)
      | Some stop_time \<Rightarrow>
          let s2 = (if \<not> mo_nonstop_mode (ms_mon s1) \<and> mo_event_fd (ms_mon s1) \<noteq> - 1
                    then s1\<lparr>ms_eventfd := ms_eventfd s1 + 1\<rparr> else s1) in
          if mo_kinfos (ms_mon s2) = [] then None
          else let m = ms_mon s2;
                   s3 = upd_kinfo (\<lambda>k. k\<lparr>ki_duration := duration (mo_start_time m) stop_time,
                          ki_clock_start := ticks (mo_clock_res m) (mo_start_time m),
                          ki_clock_stop := ticks (mo_clock_res m) stop_time, ki_counters := Some []\<rparr>) s2
               in (case read_counters env True s3 of
                     (Inl e, s4) \<Rightarrow> Some (Some e, s4)
                   | (Inr cds, s4) \<Rightarrow> Some (None, upd_kinfo (\<lambda>k. k\<lparr>ki_counters := Some cds\<rparr>) s4)))"

text \<open>The descriptors that a request to all of them, such as a reset, is sent to.\<close>

definition fds_ioctl :: "mon_env \<Rightarrow> mon_sys \<Rightarrow> int list" where
  "fds_ioctl env s = filter (\<lambda>fd. fd \<ge> 0) (concat (map thread_fds (active_threads env (ms_mon s))))"

definition read_samples :: "mon_sys \<Rightarrow> mon_sys" where
  "read_samples s = (if mo_event_fd (ms_mon s) = - 1 then s else s\<lparr>ms_eventfd := ms_eventfd s + 1\<rparr>)"

definition tag_addr :: "string \<Rightarrow> u64 \<Rightarrow> u64 \<Rightarrow> mon_sys \<Rightarrow> mon_sys" where
  "tag_addr tag start stop s = upd_mon (\<lambda>m. m\<lparr>mo_addr_tags := mo_addr_tags m @ [\<lparr>at_tag = tag, at_start = start, at_end = stop\<rparr>]\<rparr>) s"

definition nano_clock :: "mon_env \<Rightarrow> string + u64" where
  "nano_clock env =
     (case mn_clock_gettime env of
        None \<Rightarrow> Inl ''failed clock_gettime''
      | Some (sec, nsec) \<Rightarrow>
          (case mn_clock_getres env of
             None \<Rightarrow> Inl ''clock_getres failure (CLOCK_MONOTONIC_RAW)''
           | Some (rsec, rnsec) \<Rightarrow>
               if rsec \<noteq> 0 then Inl ''clock_getres failure (CLOCK_MONOTONIC_RAW)''
               else Inr (of_int (sec * rnsec * 1000000000 + nsec * rnsec))))"

definition mark_phase :: "mon_env \<Rightarrow> string \<Rightarrow> mon_sys \<Rightarrow> string option \<times> mon_sys" where
  "mark_phase env tag s =
     (case nano_clock env of
        Inl e \<Rightarrow> (Some e, s)
      | Inr time \<Rightarrow> (None, upd_mon (\<lambda>m. m\<lparr>mo_phases := mo_phases m @ [\<lparr>ph_tag = tag, ph_time = time\<rparr>]\<rparr>) s))"

definition set_nonstop :: "mon_sys \<Rightarrow> mon_sys" where
  "set_nonstop s = upd_mon (\<lambda>m. m\<lparr>mo_nonstop_mode := True\<rparr>) s"

subsection \<open>The sampler thread\<close>

definition EVENTFD_TOKEN :: u64 where "EVENTFD_TOKEN = 0"
definition SAMPLER_DRAIN :: u64 where "SAMPLER_DRAIN = 1"
definition SAMPLER_STOP :: u64 where "SAMPLER_STOP = 2"

definition process_samples :: "int \<Rightarrow> mon_sys \<Rightarrow> ((string + u64) \<times> mon_sys) option" where
  "process_samples slot_id s =
     (case mo_sampler_slots (ms_mon s) slot_id of None \<Rightarrow> Some (Inr 0, s) | Some (t, i) \<Rightarrow> drain_slot t i s)"

text \<open>The events of one wait, up to the event descriptor: its value is read, which sets it to zero.\<close>

fun sampler_events :: "u64 list \<Rightarrow> mon_sys \<Rightarrow> ((string + u64 option) \<times> mon_sys) option" where
  "sampler_events [] s = Some (Inr None, s)"
| "sampler_events (token # tokens) s =
     (if token = EVENTFD_TOKEN then Some (Inr (Some (ms_eventfd s)), s\<lparr>ms_eventfd := 0\<rparr>)
      else if drop_bit 32 token = 1
      then case process_samples (sint (ucast token :: s32)) s of
             None \<Rightarrow> None
           | Some (Inl e, s') \<Rightarrow> Some (Inl e, s')
           | Some (Inr _, s') \<Rightarrow> sampler_events tokens s'
      else sampler_events tokens s)"

fun drain_threads :: "int list \<Rightarrow> u64 \<Rightarrow> mon_sys \<Rightarrow> ((string + u64) \<times> mon_sys) option" where
  "drain_threads [] n s = Some (Inr n, s)"
| "drain_threads (t # ts) n s =
     (if ts_active (get_thread_state t s)
      then case drain_thread t n s of
             None \<Rightarrow> None
           | Some (Inl e, s') \<Rightarrow> Some (Inl e, s')
           | Some (Inr k, s') \<Rightarrow> drain_threads ts k s'
      else drain_threads ts n s)"

text \<open>The drain on command \<open>cmd\<close>; the result tells whether the thread goes on.\<close>

definition sampler_drain :: "mon_env \<Rightarrow> u64 \<Rightarrow> mon_sys \<Rightarrow> ((string + bool) \<times> mon_sys) option" where
  "sampler_drain env cmd s =
     (case drain_threads (mn_thread_walk env (mo_threads (ms_mon s))) 0 s of
        None \<Rightarrow> None
      | Some (Inl e, s1) \<Rightarrow> Some (Inl e, s1)
      | Some (Inr extra, s1) \<Rightarrow>
          let s2 = (if cmd \<noteq> SAMPLER_STOP \<or> extra \<noteq> 0 then s1\<lparr>ms_sem := ms_sem s1 + 1\<rparr> else s1)
          in Some (Inr (cmd \<noteq> SAMPLER_STOP), s2))"

subsection \<open>Construction\<close>

definition positive_setting :: "ctl_env \<Rightarrow> string \<Rightarrow> u64 \<Rightarrow> string + u64" where
  "positive_setting cv name dflt =
     (case env_value cv name of
        None \<Rightarrow> Inr dflt
      | Some text \<Rightarrow>
          let (v, rest) = strtoull 10 text
          in if rest \<noteq> [] \<or> v = 0 then Inl (name @ '' must be a positive integer'') else Inr v)"

fun attach_threads :: "mon_env \<Rightarrow> int list \<Rightarrow> mon_sys \<Rightarrow> mon_sys option" where
  "attach_threads env [] s = Some s"
| "attach_threads env (t # ts) s =
     (case mon_register_thread_locked env t s of None \<Rightarrow> None | Some (_, s') \<Rightarrow> attach_threads env ts s')"

definition initial_monitor :: "mon_env \<Rightarrow> event_spec \<Rightarrow> event_spec \<Rightarrow> u64 \<Rightarrow> int \<Rightarrow> int \<Rightarrow> string \<Rightarrow> bool \<Rightarrow> monitor" where
  "initial_monitor env counters samplers period ring aux name pin =
     \<lparr>mo_num_cpus = cv_nprocs (mn_cv env), mo_sample_period = period, mo_ringbufsize = ring, mo_auxbufsize = aux,
      mo_counter_spec = counters, mo_sampler_spec = samplers, mo_nonstop_mode = False, mo_sampler_tid = - 1,
      mo_events_enabled = False, mo_prev_counters = [], mo_retired_values = [], mo_retired_time_enabled = [],
      mo_retired_time_running = [], mo_tids = [], mo_threads = Map.empty, mo_sampler_slots = Map.empty,
      mo_next_slot_id = 0, mo_written_sample_bytes = 0, mo_nameprefix = name, mo_is_pin = pin, mo_event_fd = - 1,
      mo_epoll_fd = - 1, mo_kinfos = [], mo_start_time = (0, 0), mo_clock_res = 0, mo_addr_tags = [], mo_phases = [],
      mo_module_maps = [], mo_main_binary_path = [], mo_thread_hotspots = [], mo_hotspot_top_k = 12,
      mo_hotspot_min_samples = 1, mo_hotspot_min_latency_samples = 1, mo_hotspot_unmapped_samples = 0,
      mo_spe_time_packet_flush_count = 0, mo_spe_end_packet_flush_count = 0, mo_spe_empty_flush_count = 0,
      mo_spe_unknown_packet_count = 0\<rparr>"

definition monitor_settings :: "ctl_env \<Rightarrow> monitor \<Rightarrow> string + monitor" where
  "monitor_settings cv m =
     (case positive_setting cv ''RD_HOTSPOT_TOP_K'' (of_nat (mo_hotspot_top_k m)) of
        Inl e \<Rightarrow> Inl e
      | Inr k \<Rightarrow> (case positive_setting cv ''RD_HOTPC_MIN_SAMPLES'' (mo_hotspot_min_samples m) of
          Inl e \<Rightarrow> Inl e
        | Inr ms \<Rightarrow> (case positive_setting cv ''RD_HOTPC_MIN_LATENCY_SAMPLES'' (mo_hotspot_min_latency_samples m) of
            Inl e \<Rightarrow> Inl e
          | Inr ml \<Rightarrow> Inr (m\<lparr>mo_hotspot_top_k := unat k, mo_hotspot_min_samples := ms, mo_hotspot_min_latency_samples := ml\<rparr>))))"

text \<open>The machinery of the sampler thread, which exists only with samplers.\<close>

definition open_sampler_thread :: "mon_env \<Rightarrow> mon_sys \<Rightarrow> string option \<times> mon_sys" where
  "open_sampler_thread env s =
     (if mo_sampler_spec (ms_mon s) = [] then (None, s)
      else let s1 = upd_mon (\<lambda>m. m\<lparr>mo_epoll_fd := mn_epoll_create env\<rparr>) s in
        if mn_epoll_create env < 0 then (Some ''epoll_create failed'', s1)
        else let s2 = upd_mon (\<lambda>m. m\<lparr>mo_event_fd := mn_eventfd env\<rparr>) s1 in
          if mn_eventfd env < 0 then (Some ''eventfd failed'', s2)
          else if \<not> mn_sem_init env then (Some ''sem_init'', s2)
          else let s3 = upd_mon (\<lambda>m. m\<lparr>mo_sampler_tid := mn_sampler_tid env\<rparr>) (s2\<lparr>ms_sem := 1, ms_eventfd := 0\<rparr>)
               in if mn_epoll_add_eventfd env then (None, s3) else (Some ''epoll_ctl'', s3))"

definition construct_monitor ::
  "mon_env \<Rightarrow> event_spec \<Rightarrow> event_spec \<Rightarrow> u64 \<Rightarrow> int \<Rightarrow> int \<Rightarrow> string \<Rightarrow> bool \<Rightarrow> perf_os \<Rightarrow> mon_outcome" where
  "construct_monitor env counters samplers period ring aux name pin os =
     (let s0 = \<lparr>ms_mon = initial_monitor env counters samplers period ring aux name pin, ms_os = os, ms_eventfd = 0, ms_sem = 0\<rparr> in
      case monitor_settings (mn_cv env) (ms_mon s0) of
        Inl e \<Rightarrow> Some (Some e, s0)
      | Inr m \<Rightarrow>
          if \<not> mn_pfm_initialize env then Some (Some ''PFM init fail!'', s0\<lparr>ms_mon := m\<rparr>)
          else case mn_clock_getres env of
              None \<Rightarrow> Some (Some ''clock_getres failure (CLOCK_MONOTONIC_RAW)'', s0\<lparr>ms_mon := m\<rparr>)
            | Some (rsec, rnsec) \<Rightarrow>
                if rsec \<noteq> 0 then Some (Some ''clock_getres failure (CLOCK_MONOTONIC_RAW)'', s0\<lparr>ms_mon := m\<rparr>)
                else case open_sampler_thread env (s0\<lparr>ms_mon := m\<lparr>mo_clock_res := of_int rnsec * 1000000000\<rparr>\<rparr>) of
                    (Some e, s1) \<Rightarrow> Some (Some e, s1)
                  | (None, s1) \<Rightarrow>
                      let n = length counters + length samplers;
                          s2 = upd_mon (\<lambda>m. m\<lparr>mo_prev_counters := replicate n 0, mo_retired_values := replicate n 0,
                                 mo_retired_time_enabled := replicate n 0, mo_retired_time_running := replicate n 0\<rparr>) s1
                      in (case get_threads (mn_cv env) (mo_sampler_tid (ms_mon s2)) of
                            Inl e \<Rightarrow> Some (Some e, s2)
                          | Inr tids \<Rightarrow> (case attach_threads env tids s2 of None \<Rightarrow> None | Some s3 \<Rightarrow> Some (None, s3))))"

end
