(* ===== verification/Monitor_Report.thy ===== *)
theory Monitor_Report
  imports Monitor
begin

text \<open>
  The output of \<^verbatim>\<open>src/monitor.cc\<close>: the hotspot manifest \<^verbatim>\<open>.hotpc\<close>, the information file and the
  destructor.  \<open>None\<close> stands for a read of counters that no \<^verbatim>\<open>stop\<close> has filled.
\<close>

subsection \<open>The hotspot manifest\<close>

definition text_line :: "string \<Rightarrow> string" where
  "text_line s = s @ [CHR 0x0A]"

definition HOTSPOT_FIELDS :: string where
  "HOTSPOT_FIELDS = ''hotspot_fields=tid,rank,sample_count,module_id,pc_offset,path,pareto_front,candidate_score,candidate_metric,avg_mem_latency,lat_total_sum,lat_issue_sum,lat_xlat_sum,lat_exec_sum,l1d_refill_count,llc_miss_count,tlb_walk_count,remote_access_count''"

definition hotspot_columns :: "nat \<Rightarrow> hotspot_summary \<Rightarrow> string list" where
  "hotspot_columns rank h =
     [show_int (hm_tid h), show_dec (rank + 1), dec (hm_sample_count h), dec (hm_module_id h), hex0x (hm_pc_offset h),
      hm_path h, dec (hm_pareto_front h), dec (hm_candidate_score h), hm_candidate_metric h,
      show_double (hm_avg_mem_latency h), dec (hm_lat_total_sum h), dec (hm_lat_issue_sum h), dec (hm_lat_xlat_sum h),
      dec (hm_lat_exec_sum h), dec (hm_l1d_refill_count h), dec (hm_llc_miss_count h), dec (hm_tlb_walk_count h),
      dec (hm_remote_access_count h)]"

definition hotspot_lines :: "mon_env \<Rightarrow> monitor \<Rightarrow> string list" where
  "hotspot_lines env m =
     concat (map (\<lambda>t. let hs = collect_hotspots_for_thread (mn_hot_walk env) m t
                      in map (\<lambda>rank. ''hotspot='' @ row (hotspot_columns rank (hs ! rank))) [0..<length hs]) (mo_tids m))"

definition hotspot_count :: "mon_env \<Rightarrow> monitor \<Rightarrow> nat" where
  "hotspot_count env m = sum_list (map (\<lambda>t. length (collect_hotspots_for_thread (mn_hot_walk env) m t)) (mo_tids m))"

definition manifest_lines :: "mon_env \<Rightarrow> monitor \<Rightarrow> string list" where
  "manifest_lines env m =
     [text_line (''hotspot_top_k='' @ show_dec (mo_hotspot_top_k m)), text_line ''hotspot_identity=module_offset'',
      text_line ''hotspot_scope=main_binary_only'', text_line (''hotspot_main_binary='' @ mo_main_binary_path m),
      text_line ''hotspot_kind_hint=arm_spe_loadstore'', text_line ''hotspot_selection_policy=pareto_sample_count_avg_mem_latency'',
      text_line HOTSPOT_FIELDS, text_line (''hotspot_count='' @ show_dec (hotspot_count env m)),
      text_line (''hotspot_unmapped_pc_samples='' @ dec (mo_hotspot_unmapped_samples m))] @ hotspot_lines env m"

definition manifest_path :: "monitor \<Rightarrow> string" where
  "manifest_path m = mo_nameprefix m @ ''.hotpc''"

definition write_hotspot_manifest :: "mon_env \<Rightarrow> monitor \<Rightarrow> out_op list" where
  "write_hotspot_manifest env m =
     (if \<not> sample_pc_present m \<or> \<not> cv_can_create (mn_cv env) (manifest_path m) then []
      else FCreate (manifest_path m) # map (FPut (manifest_path m)) (manifest_lines env m))"

subsection \<open>The information file\<close>

text \<open>The arguments of the command line, which NUL characters separate, as one string.\<close>

fun join_args :: "string \<Rightarrow> string" where
  "join_args [] = []"
| "join_args [c] = (if c = CHR 0x00 then [] else [c])"
| "join_args (c # d # cs) =
     (if c \<noteq> CHR 0x00 then c # join_args (d # cs) else if d \<noteq> CHR 0x00 then CHR '' '' # join_args (d # cs) else [])"

definition cmdline :: "ctl_env \<Rightarrow> string" where
  "cmdline cv = (case cv_file cv ''/proc/self/cmdline'' of None \<Rightarrow> []
     | Some content \<Rightarrow> join_args (take 255 (takeWhile (\<lambda>c. c \<noteq> CHR 0x0A) content)))"

definition show_inverse :: "u64 \<Rightarrow> string" where
  "show_inverse w = (if w = 0 then ''inf'' else show_double (dbl_div 1 (dbl_of_u64 w)))"

definition show_ptr :: "u64 \<Rightarrow> string" where
  "show_ptr p = (if p = 0 then ''0'' else hex0x p)"

definition show_flag :: "bool \<Rightarrow> string" where
  "show_flag b = (if b then ''1'' else ''0'')"

text \<open>One value per window, separated by commas.\<close>

definition per_window :: "string \<Rightarrow> (kinfo \<Rightarrow> string) \<Rightarrow> kinfo list \<Rightarrow> string" where
  "per_window key f ks = text_line (key @ ''='' @ join_with (CHR '','') (map f ks))"

definition counter_of :: "nat \<Rightarrow> kinfo \<Rightarrow> counter_data option" where
  "counter_of i k = arr_get (ki_counters k) i"

definition per_window_counter :: "string \<Rightarrow> nat \<Rightarrow> (counter_data \<Rightarrow> string) \<Rightarrow> kinfo list \<Rightarrow> string option" where
  "per_window_counter key i f ks =
     map_option (\<lambda>cs. text_line (key @ ''='' @ join_with (CHR '','') (map f cs))) (those (map (counter_of i) ks))"

definition info_header :: "mon_env \<Rightarrow> monitor \<Rightarrow> string list" where
  "info_header env m =
     [text_line (''cmdline='' @ cmdline (mn_cv env)), text_line (''sample_period='' @ dec (mo_sample_period m)),
      text_line (''bufsize_ring='' @ show_int (mo_ringbufsize m)), text_line (''bufsize_aux='' @ show_int (mo_auxbufsize m)),
      text_line (''clock_res='' @ show_inverse (mo_clock_res m)),
      text_line (''l1_cache_line_size='' @ show_int (mn_l1_line_size env)), text_line (''main_binary='' @ mo_main_binary_path m)]"

definition info_sampling :: "monitor \<Rightarrow> string list" where
  "info_sampling m =
     (if mo_sampler_spec m = [] then []
      else [text_line (''sample_record_bytes='' @ dec (sample_record_bytes m)),
            text_line (''sample_record_fields='' @ sample_record_fields m),
            text_line (''sample_pc_present='' @ show_flag (sample_pc_present m))] @
           (if has_arm_spe_samples m
            then [text_line ''sample_data_va_present=1'', text_line ''sample_time_present=0'',
                  text_line ''spe_time_packet_used_as_record_end=1'', text_line ''spe_end_packet_used_as_record_end=1'',
                  text_line ''spe_sample_flags=pc_valid,lat_total_valid,lat_issue_valid,lat_xlat_valid,events_valid,lat_exec_valid,data_va_valid'']
            else []))"

definition info_module_row :: "module_map_entry \<Rightarrow> string" where
  "info_module_row e = ''module_map='' @ row [dec (me_module_id e), me_path e, hex0x (me_vm_start e), hex0x (me_vm_end e),
     hex0x (me_file_offset e)]"

definition hotspot_total_samples :: "monitor \<Rightarrow> u64" where
  "hotspot_total_samples m = sum_list (map (\<lambda>tt. sum_list (map (\<lambda>kv. hs_sample_count (snd kv)) (snd tt))) (mo_thread_hotspots m))"

definition info_hotspots :: "mon_env \<Rightarrow> monitor \<Rightarrow> string list" where
  "info_hotspots env m =
     (if \<not> sample_pc_present m then []
      else [text_line ''pc_identity=raw_va'', text_line ''spe_latency_present=1'', text_line ''spe_event_packet_present=1'',
            text_line (''spe_time_packet_flush_count='' @ dec (mo_spe_time_packet_flush_count m)),
            text_line (''spe_end_packet_flush_count='' @ dec (mo_spe_end_packet_flush_count m)),
            text_line (''spe_empty_flush_count='' @ dec (mo_spe_empty_flush_count m)),
            text_line (''spe_unknown_packet_count='' @ dec (mo_spe_unknown_packet_count m)),
            text_line ''module_map_fields=module_id,path,vm_start,vm_end,file_offset'',
            text_line (''module_map_count='' @ show_dec (length (mo_module_maps m)))] @
           map info_module_row (mo_module_maps m) @
           [text_line (''hotspot_top_k='' @ show_dec (mo_hotspot_top_k m)),
            text_line (''hotspot_min_samples='' @ dec (mo_hotspot_min_samples m)),
            text_line (''hotspot_min_latency_samples='' @ dec (mo_hotspot_min_latency_samples m)),
            text_line ''hotspot_identity=module_offset'', text_line ''hotspot_scope=main_binary_only'',
            text_line (''hotspot_main_binary='' @ mo_main_binary_path m), text_line ''hotspot_kind_hint=arm_spe_loadstore'',
            text_line ''hotspot_selection_policy=pareto_sample_count_avg_mem_latency'',
            text_line ''hotspot_score_policy=lat_exec_sum_with_lat_total_sum_fallback'',
            text_line (''hotspot_thread_count='' @ show_dec (count_if (\<lambda>tt. snd tt \<noteq> []) (mo_thread_hotspots m))),
            text_line (''hotspot_total_samples='' @ dec (hotspot_total_samples m)),
            text_line (''hotspot_unmapped_pc_samples='' @ dec (mo_hotspot_unmapped_samples m)),
            text_line (''hotspot_manifest='' @ manifest_path m), text_line HOTSPOT_FIELDS,
            text_line (''hotspot_count='' @ show_dec (hotspot_count env m))] @
           hotspot_lines env m)"

definition counter_lines :: "monitor \<Rightarrow> string list option" where
  "counter_lines m =
     (let ks = mo_kinfos m; nc = length (mo_counter_spec m) in
      do {
        cs \<leftarrow> those (concat (map (\<lambda>i. let name = fst (mo_counter_spec m ! i) in
                 [per_window_counter name i (\<lambda>c. dec (cd_value c)) ks,
                  per_window_counter (''active_'' @ name) i (\<lambda>c. show_double (cd_active_time c)) ks]) [0..<nc]));
        ss \<leftarrow> those (map (\<lambda>i. per_window_counter (fst (mo_sampler_spec m ! i)) (nc + i) (\<lambda>c. dec (cd_value c)) ks)
                (filter (\<lambda>i. parse_arm_spe_event (fst (mo_sampler_spec m ! i)) = 0) [0..<length (mo_sampler_spec m)]));
        Some (cs @ ss)
      })"

definition info_windows :: "monitor \<Rightarrow> string list option" where
  "info_windows m =
     (let ks = mo_kinfos m in
      if ks = [] then Some []
      else map_option (\<lambda>cl.
        [per_window ''tag'' ki_tag ks, per_window ''offloaded'' (\<lambda>k. show_flag (ki_offloaded k)) ks,
         per_window ''num_samples'' (\<lambda>k. dec (ki_num_samples k)) ks,
         per_window ''sample_throttles'' (\<lambda>k. dec (ki_sample_throttles k)) ks,
         per_window ''duration'' (\<lambda>k. show_double (ki_duration k)) ks,
         per_window ''clock_start'' (\<lambda>k. dec (ki_clock_start k)) ks,
         per_window ''clock_stop'' (\<lambda>k. dec (ki_clock_stop k)) ks,
         text_line ''counters_are_not_cumulative=1''] @ cl) (counter_lines m))"

definition info_marks :: "monitor \<Rightarrow> string list" where
  "info_marks m =
     (if mo_addr_tags m = [] then []
      else [text_line (''addr_tags='' @ join_with (CHR '','')
              (map (\<lambda>a. at_tag a @ '':'' @ show_ptr (at_start a) @ '':'' @ show_ptr (at_end a)) (mo_addr_tags m)))]) @
     (if mo_phases m = [] then []
      else [text_line (''phases='' @ join_with (CHR '','') (map (\<lambda>p. ph_tag p @ '':'' @ dec (ph_time p)) (mo_phases m)))])"

definition mon_write_info :: "mon_env \<Rightarrow> monitor \<Rightarrow> string list option" where
  "mon_write_info env m =
     map_option (\<lambda>w. info_header env m @ info_sampling m @ info_hotspots env m @ w @ info_marks m) (info_windows m)"

subsection \<open>Destruction\<close>

text \<open>
  The stop request adds to what the event descriptor still holds, and joining waits for the
  sampler thread: when the thread does not take the sum for a stop, it waits for an event that nobody
  will send any more, and the join does not return.
\<close>

definition join_sampler :: "mon_env \<Rightarrow> mon_sys \<Rightarrow> mon_sys option" where
  "join_sampler env s =
     (if mo_event_fd (ms_mon s) = - 1 then Some s
      else let cmd = ms_eventfd s + SAMPLER_STOP in
        case sampler_drain env cmd (s\<lparr>ms_eventfd := 0\<rparr>) of
          None \<Rightarrow> None
        | Some (Inl e, s1) \<Rightarrow> None
        | Some (Inr goes_on, s1) \<Rightarrow> if goes_on then None else Some s1)"

definition info_path :: "monitor \<Rightarrow> string" where
  "info_path m = take 127 (mo_nameprefix m @ ''.info'')"

definition destroy_monitor :: "mon_env \<Rightarrow> mon_sys \<Rightarrow> (out_op list \<times> mon_sys) option" where
  "destroy_monitor env s =
     do {
       s1 \<leftarrow> join_sampler env s;
       let s2 = disable_all env s1;
       let s3 = fold close_thread_locked (mn_thread_walk env (mo_threads (ms_mon s2))) s2;
       info \<leftarrow> mon_write_info env (ms_mon s3);
       Some ((if cv_can_create (mn_cv env) (info_path (ms_mon s3)) then map (FPut (info_path (ms_mon s3))) info else []) @ write_hotspot_manifest env (ms_mon s3), s3)
     }"

end
