(* ===== verification/Hotspots_Correct.thy ===== *)
theory Hotspots_Correct
  imports Hotspots
begin

text \<open>
  Hotspot aggregation is exact, and the choice of the hotspots of a thread is what the manifest calls
  \<^verbatim>\<open>pareto_sample_count_avg_mem_latency\<close>: first the candidates that no other one dominates, then the
  dominated ones, then those with too few samples, each part by decreasing score; the order in
  which the hash table is walked does not matter.
\<close>

subsection \<open>Attribution\<close>

definition attributed :: "monitor \<Rightarrow> int \<Rightarrow> hotspot_key \<Rightarrow> spe_instruction_sample \<Rightarrow> bool" where
  "attributed m t k s \<longleftrightarrow>
     sample_pc_present m \<and> 0 < t \<and> sp_pc s \<noteq> 0 \<and> flag_set s SPE_SAMPLE_FLAG_PC_VALID \<and>
     (case find_module_map m (sp_pc s) of None \<Rightarrow> False
      | Some e \<Rightarrow> is_main_binary_module m e \<and> k = hotspot_key_of e (sp_pc s))"

definition stats_of :: "monitor \<Rightarrow> int \<Rightarrow> hotspot_key \<Rightarrow> hotspot_stats" where
  "stats_of m t k = lookup zero_hotspot_stats (lookup [] (mo_thread_hotspots m) t) k"

definition tables_ok :: "monitor \<Rightarrow> bool" where
  "tables_ok m \<longleftrightarrow> (\<forall>t table. map_of (mo_thread_hotspots m) t = Some table \<longrightarrow> table \<noteq> [] \<and> distinct (map fst table))"

lemma record_frame [simp]:
  "mo_module_maps (record_hotspot_sample t s m) = mo_module_maps m"
  "mo_main_binary_path (record_hotspot_sample t s m) = mo_main_binary_path m"
  "mo_sampler_spec (record_hotspot_sample t s m) = mo_sampler_spec m"
  by (simp_all add: record_hotspot_sample_def split: option.split)

lemma main_binary_record [simp]: "is_main_binary_module (record_hotspot_sample t s m) = is_main_binary_module m"
  by (intro ext) (simp add: is_main_binary_module_def)

lemma attributed_record [simp]: "attributed (record_hotspot_sample t s m) = attributed m"
  by (intro ext) (simp add: attributed_def sample_pc_present_def has_arm_spe_samples_def find_module_map_def
      split: option.split)

lemma stats_of_record:
  "stats_of (record_hotspot_sample t s m) u k =
     (if u = t \<and> attributed m t k s then add_to_stats s (stats_of m u k) else stats_of m u k)"
  by (auto simp: stats_of_def record_hotspot_sample_def attributed_def split: option.split)

lemma tables_ok_record: "tables_ok m \<Longrightarrow> tables_ok (record_hotspot_sample t s m)"
proof -
  assume ok: "tables_ok m"
  have d: "distinct (map fst (lookup [] (mo_thread_hotspots m) t))"
    using ok by (auto simp: tables_ok_def lookup_def split: option.split)
  have "at_key zero_hotspot_stats k f xs \<noteq> []" for k f and xs :: "(hotspot_key \<times> hotspot_stats) list"
    by (cases xs) (auto split: if_splits)
  with ok at_key_distinct [OF d] show ?thesis
    by (auto simp: tables_ok_def record_hotspot_sample_def split: option.split)
qed

lemma stats_of_fold:
  "stats_of (fold (record_hotspot_sample t) ss m) t k = fold add_to_stats (filter (attributed m t k) ss) (stats_of m t k)"
  by (induction ss arbitrary: m) (simp_all add: stats_of_record)

lemma tables_ok_fold: "tables_ok m \<Longrightarrow> tables_ok (fold (record_hotspot_sample t) ss m)"
  by (induction ss arbitrary: m) (simp_all add: tables_ok_record)

text \<open>What a sequence of samples adds to the counts and sums of an entry.\<close>

lemma fold_add_to_stats:
  "hs_sample_count (fold add_to_stats ss st) = hs_sample_count st + of_nat (length ss)"
  "hs_lat_total_sum (fold add_to_stats ss st) = hs_lat_total_sum st +
     sum_list (map sp_lat_total (filter (\<lambda>s. flag_set s SPE_SAMPLE_FLAG_LAT_TOTAL_VALID) ss))"
  "hs_lat_exec_sum (fold add_to_stats ss st) = hs_lat_exec_sum st +
     sum_list (map (\<lambda>s. sp_lat_total s - (sp_lat_issue s + sp_lat_xlat s)) (filter (\<lambda>s. flag_set s SPE_SAMPLE_FLAG_LAT_EXEC_VALID) ss))"
  "hs_llc_miss_count (fold add_to_stats ss st) = hs_llc_miss_count st +
     of_nat (count_if (\<lambda>s. spe_sample_has_event s SPE_EVENT_LLC_MISS) ss)"
  by (induction ss arbitrary: st) (simp_all add: add_to_stats_def Let_def if_set_def)

subsection \<open>Dominance is a strict partial order\<close>

lemma dominates_irrefl: "\<not> hotspot_dominates a a"
  by (simp add: hotspot_dominates_def)

lemma dominates_trans: "hotspot_dominates a b \<Longrightarrow> hotspot_dominates b c \<Longrightarrow> hotspot_dominates a c"
  unfolding hotspot_dominates_def by (meson order_trans order_less_le_trans order_le_less_trans)

text \<open>Whoever is dominated in a list is dominated by an entry that nobody dominates.\<close>

definition undominated :: "hotspot_summary list \<Rightarrow> hotspot_summary \<Rightarrow> bool" where
  "undominated xs x \<longleftrightarrow> (\<forall>y\<in>set xs. \<not> hotspot_dominates y x)"

lemma dominated_by_front:
  assumes "x \<in> set xs" "\<not> undominated xs x"
  shows "\<exists>y\<in>set xs. undominated xs y \<and> hotspot_dominates y x"
proof -
  let ?R = "{(y, z). y \<in> set xs \<and> z \<in> set xs \<and> hotspot_dominates y z}"
  have "finite ?R" by (rule finite_subset [of _ "set xs \<times> set xs"]) auto
  moreover have "acyclic ?R"
  proof -
    have "trans ?R" by (auto simp: trans_def intro: dominates_trans)
    then show ?thesis by (auto simp: acyclic_def dominates_irrefl)
  qed
  ultimately have "wf ?R" by (rule finite_acyclic_wf)
  define A where "A = {y \<in> set xs. hotspot_dominates y x}"
  obtain a where "a \<in> A" using assms by (auto simp: A_def undominated_def)
  with \<open>wf ?R\<close> obtain y where y: "y \<in> A" "\<And>z. (z, y) \<in> ?R \<Longrightarrow> z \<notin> A"
    by (rule wfE_min) blast
  have "undominated xs y" unfolding undominated_def
  proof (intro ballI notI)
    fix z assume z: "z \<in> set xs" "hotspot_dominates z y"
    then have "z \<in> A" using y(1) dominates_trans [of z y x] by (simp add: A_def)
    with y z show False by (simp add: A_def)
  qed
  with y(1) show ?thesis by (auto simp: A_def)
qed

subsection \<open>The choice\<close>

definition mark :: "hotspot_summary list \<Rightarrow> hotspot_summary \<Rightarrow> hotspot_summary" where
  "mark xs x = x\<lparr>hm_pareto_front := if undominated xs x then 1 else 0\<rparr>"

lemma mark_pareto_eq: "mark_pareto xs = map (mark xs) xs"
proof (rule nth_equalityI)
  fix i assume "i < length (mark_pareto xs)"
  then have i: "i < length xs" by (simp add: mark_pareto_def)
  have "dominated xs i \<longleftrightarrow> \<not> undominated xs (xs ! i)"
    using i dominates_irrefl unfolding dominated_def undominated_def list_ex_iff
    by (metis atLeastLessThan_iff in_set_conv_nth nth_mem set_upt zero_le)
  then show "mark_pareto xs ! i = map (mark xs) xs ! i" using i by (simp add: mark_pareto_def mark_def)
qed (simp add: mark_pareto_def)

lemma mark_fields [simp]:
  "hm_module_id (mark xs x) = hm_module_id x" "hm_pc_offset (mark xs x) = hm_pc_offset x"
  "hm_candidate_score (mark xs x) = hm_candidate_score x" "hm_sample_count (mark xs x) = hm_sample_count x"
  "hm_pareto_front (mark xs x) = (if undominated xs x then 1 else 0)"
  by (simp_all add: mark_def)

lemma filter_mark:
  "filter (\<lambda>s. hm_pareto_front s = 1) (mark_pareto xs) = map (mark xs) (filter (undominated xs) xs)"
  "filter (\<lambda>s. hm_pareto_front s = 0) (mark_pareto xs) = map (mark xs) (filter (\<lambda>x. \<not> undominated xs x) xs)"
  by (simp_all add: mark_pareto_eq filter_map comp_def)

definition ident :: "hotspot_summary \<Rightarrow> u32 \<times> u64" where
  "ident s = (hm_module_id s, hm_pc_offset s)"

definition score_key :: "hotspot_summary \<Rightarrow> int \<times> int \<times> int \<times> int" where
  "score_key a = (- uint (hm_candidate_score a), - uint (hm_sample_count a), uint (hm_module_id a), uint (hm_pc_offset a))"

lemma score_before_key: "hotspot_score_before a b \<longleftrightarrow> score_key a < score_key b"
  by (auto simp: hotspot_score_before_def score_key_def word_less_def word_uint_eq_iff)

interpretation hs: sort_by_key hotspot_score_before score_key
  by unfold_locales (rule score_before_key)

lemma score_key_inj: "distinct (map ident xs) \<Longrightarrow> inj_on score_key (set xs)"
  by (auto simp: distinct_map inj_on_def score_key_def ident_def intro: word_uint_eqI)

lemma sorted_scores: "distinct (map ident xs) \<Longrightarrow> sorted_wrt hotspot_score_before (std_sort hotspot_score_before xs)"
  by (intro hs.sorted_strict score_key_inj) (simp_all add: distinct_map)

lemma undominated_mset: "mset xs = mset ys \<Longrightarrow> undominated xs = undominated ys \<and> mark xs = mark ys"
  by (auto simp: undominated_def mark_def fun_eq_iff dest: mset_eq_setD)

lemma fill_up_take: "fill_up k (take k xs) ys = take k (xs @ ys)"
  by (simp add: fill_up_def min_def)

lemma fill_up_Nil: "fill_up k [] xs = take k xs"
  by (simp add: fill_up_def)

text \<open>The three parts of a table, sorted, and the choice as a prefix of them.\<close>

definition parts :: "monitor \<Rightarrow> (hotspot_key \<times> hotspot_stats) list \<Rightarrow> hotspot_summary list \<Rightarrow>
  hotspot_summary list \<times> hotspot_summary list \<times> hotspot_summary list" where
  "parts m table xs =
     (let enough = filter (enough_samples m table) xs
      in (std_sort hotspot_score_before (map (mark enough) (filter (undominated enough) enough)),
          std_sort hotspot_score_before (map (mark enough) (filter (\<lambda>x. \<not> undominated enough x) enough)),
          map (\<lambda>s. s\<lparr>hm_pareto_front := 0\<rparr>) (std_sort hotspot_score_before (filter (\<lambda>x. \<not> enough_samples m table x) xs))))"

lemma collect_parts:
  "map_of (mo_thread_hotspots m) t = Some table \<Longrightarrow>
   collect_hotspots_for_thread walk m t =
     (case parts m table (map (summary_of m t) (walk table)) of (front, non_front, rest) \<Rightarrow>
        take (mo_hotspot_top_k m) (front @ non_front @ rest))"
  unfolding collect_hotspots_for_thread_def parts_def
  by (simp only: Let_def filter_mark fill_up_Nil fill_up_take option.case prod.case append_assoc)

lemma parts_perm:
  assumes "mset ys = mset xs" "distinct (map ident xs)"
  shows "parts m table ys = parts m table xs"
proof -
  let ?e = "enough_samples m table"
  have e: "mset (filter ?e ys) = mset (filter ?e xs)" "mset (filter (\<lambda>x. \<not> ?e x) ys) = mset (filter (\<lambda>x. \<not> ?e x) xs)"
    using assms(1) by simp_all
  note u = undominated_mset [OF e(1)]
  have d: "distinct (map ident (filter P xs))" for P
    using assms(2) by (simp add: distinct_map inj_on_def)
  have dm: "distinct (map ident (map (mark z) (filter P (filter Q xs))))" for P Q z
  proof -
    have "ident \<circ> mark z = ident" by (simp add: fun_eq_iff ident_def)
    then show ?thesis using d [of "\<lambda>x. Q x \<and> P x"] by (simp add: conj_commute)
  qed
  have mm: "mset (map (mark z) (filter P (filter ?e ys))) = mset (map (mark z) (filter P (filter ?e xs)))" for P z
    using assms(1) by simp
  show ?thesis unfolding parts_def Let_def u [THEN conjunct1] u [THEN conjunct2]
    by (simp only: prod.inject hs.permutation [OF mm score_key_inj [OF dm]] hs.permutation [OF e(2) score_key_inj [OF d]] simp_thms)
qed

lemma distinct_summaries:
  "distinct (map fst table) \<Longrightarrow> distinct (map ident (map (summary_of m t) table))"
  by (auto simp: distinct_map inj_on_def ident_def summary_of_def Let_def intro: hotspot_key.equality)

lemma collect_walk:
  assumes "tables_ok m" "\<And>xs. mset (walk xs) = mset xs"
  shows "collect_hotspots_for_thread walk m t = collect_hotspots_for_thread id m t"
proof (cases "map_of (mo_thread_hotspots m) t")
  case None
  then show ?thesis by (simp add: collect_hotspots_for_thread_def)
next
  case (Some table)
  have "distinct (map fst table)" using assms(1) Some by (simp add: tables_ok_def)
  then have "parts m table (map (summary_of m t) (walk table)) = parts m table (map (summary_of m t) table)"
    by (intro parts_perm distinct_summaries) (simp add: assms(2))
  then show ?thesis by (simp add: collect_parts [OF Some])
qed

end
