(* ===== verification/Manifest.thy ===== *)
theory Manifest
  imports Monitor_Report Hotspots_Correct
begin

text \<open>
  From the sampling run to the targeted run: the manifest that the monitor writes is the one that
  \<^verbatim>\<open>load_targets\<close> reads.  What comes back is exactly the table of the offsets with their sample counts
  and scores, summed over the threads.
\<close>

subsection \<open>Which module a hotspot belongs to\<close>

definition maps_ok :: "monitor \<Rightarrow> bool" where
  "maps_ok m \<longleftrightarrow> (\<forall>i<length (mo_module_maps m). me_module_id (mo_module_maps m ! i) = of_nat i)"

text \<open>Every recorded hotspot lies in a mapping of the main binary.\<close>

definition in_main :: "monitor \<Rightarrow> hotspot_key \<Rightarrow> bool" where
  "in_main m k \<longleftrightarrow> mo_main_binary_path m \<noteq> [] \<and>
     unat (hk_module_id k) < length (mo_module_maps m) \<and> me_path (mo_module_maps m ! unat (hk_module_id k)) = mo_main_binary_path m"

definition hot_inv :: "monitor \<Rightarrow> bool" where
  "hot_inv m \<longleftrightarrow> maps_ok m \<and> tables_ok m \<and> length (mo_module_maps m) < 2 ^ 32 \<and>
     (\<forall>t table k st. map_of (mo_thread_hotspots m) t = Some table \<longrightarrow> (k, st) \<in> set table \<longrightarrow> in_main m k)"

lemma at_key_entries: "(k', v) \<in> set (at_key d k f t) \<Longrightarrow> k' = k \<or> (k', v) \<in> set t"
proof (induction t)
  case (Cons kv t)
  then show ?case by (cases kv) (auto split: if_splits)
qed simp

lemma hot_inv_record:
  assumes "hot_inv m"
  shows "hot_inv (record_hotspot_sample t s m)"
proof -
  let ?m = "record_hotspot_sample t s m"
  have in_main: "in_main ?m = in_main m" by (simp add: in_main_def fun_eq_iff)
  have "in_main m k" if table: "map_of (mo_thread_hotspots ?m) u = Some table" "(k, st) \<in> set table" for u table k st
  proof (cases "mo_thread_hotspots ?m = mo_thread_hotspots m")
    case True
    then show ?thesis using assms table by (auto simp: hot_inv_def)
  next
    case False
    then obtain e where e: "find_module_map m (sp_pc s) = Some e" "is_main_binary_module m e"
      "mo_thread_hotspots ?m = at_key [] t (at_key zero_hotspot_stats (hotspot_key_of e (sp_pc s)) (add_to_stats s)) (mo_thread_hotspots m)"
      by (auto simp: record_hotspot_sample_def split: option.splits if_splits)
    have "e \<in> set (mo_module_maps m)" using e(1) by (auto simp: find_module_map_def find_Some_iff)
    then obtain i where i: "i < length (mo_module_maps m)" "e = mo_module_maps m ! i" by (auto simp: in_set_conv_nth)
    have len: "length (mo_module_maps m) < 2 ^ 32" using assms by (simp add: hot_inv_def)
    have "me_module_id e = of_nat i" using assms i by (simp add: hot_inv_def maps_ok_def)
    then have "unat (me_module_id e) = i" using i(1) len by (simp add: unat_of_nat take_bit_nat_eq_self)
    then have new: "in_main m (hotspot_key_of e (sp_pc s))"
      using e(2) i by (simp add: in_main_def hotspot_key_of_def is_main_binary_module_def)
    show ?thesis
    proof (cases "u = t")
      case True
      then have "table = at_key zero_hotspot_stats (hotspot_key_of e (sp_pc s)) (add_to_stats s) (lookup [] (mo_thread_hotspots m) t)"
        using table(1) e(3) by simp
      with table(2) have "k = hotspot_key_of e (sp_pc s) \<or> (k, st) \<in> set (lookup [] (mo_thread_hotspots m) t)"
        by (auto dest: at_key_entries)
      then show ?thesis using new assms
        by (cases "map_of (mo_thread_hotspots m) t") (auto simp: hot_inv_def lookup_def)
    next
      case False
      then show ?thesis using table e(3) assms by (auto simp: hot_inv_def)
    qed
  qed
  then show ?thesis using assms tables_ok_record [of m t s] by (auto simp: hot_inv_def maps_ok_def in_main)
qed

subsection \<open>Lines\<close>

lemma lines_of_text_lines:
  "\<forall>l\<in>set ls. CHR 0x0A \<notin> set l \<Longrightarrow> lines_of (concat (map text_line ls)) = ls"
  by (induction ls) (simp_all add: lines_of_def text_line_def getline_all_Cons)

definition clean_text :: "string \<Rightarrow> bool" where
  "clean_text s \<longleftrightarrow> CHR 0x0A \<notin> set s \<and> CHR 0x09 \<notin> set s"

lemma clean_text_append [simp]: "clean_text (s @ t) \<longleftrightarrow> clean_text s \<and> clean_text t"
  by (auto simp: clean_text_def)

lemma clean_Cons [simp]: "clean_text (c # s) \<longleftrightarrow> c \<noteq> CHR 0x0A \<and> c \<noteq> CHR 0x09 \<and> clean_text s" "clean_text []"
  by (auto simp: clean_text_def)

lemma clean_numbers: "list_all number_char s \<Longrightarrow> clean_text s"
  by (auto simp: clean_text_def list_all_iff number_char_def is_digit_def digit_val_def)

lemma clean_show_dec [simp]: "clean_text (show_dec n)"
  by (rule clean_numbers) (simp add: list_all_iff show_dec_chars)

lemma clean_dec [simp]: "clean_text (dec w)"
  by (simp add: dec_def)

lemma clean_show_int [simp]: "clean_text (show_int n)"
  by (simp add: show_int_def)

lemma clean_show_double [simp]: "clean_text (show_double v)"
  by (rule clean_numbers) (rule show_double_chars)

lemma clean_hex [simp]: "clean_text (hex0x v)"
proof -
  have "is_digit 16 c \<Longrightarrow> c \<noteq> CHR 0x0A \<and> c \<noteq> CHR 0x09" for c by (auto simp: is_digit_def digit_val_def)
  then have "clean_text (hex_u64 v)" using set_show_base [of 16 _ "unat v"] by (auto simp: clean_text_def hex_u64_def)
  then show ?thesis by (simp add: hex0x_def)
qed

lemma clean_metric [simp]: "clean_text (hotspot_candidate_metric st)"
  by (simp add: hotspot_candidate_metric_def clean_text_def)

text \<open>A line of the manifest without its newline.\<close>

definition hotspot_line :: "nat \<Rightarrow> hotspot_summary \<Rightarrow> string" where
  "hotspot_line rank h = ''hotspot='' @ join_with (CHR 0x09) (hotspot_columns rank h)"

definition clean_summary :: "hotspot_summary \<Rightarrow> bool" where
  "clean_summary h \<longleftrightarrow> clean_text (hm_path h) \<and> clean_text (hm_candidate_metric h)"

lemma clean_join: "\<forall>p\<in>set ps. CHR 0x0A \<notin> set p \<Longrightarrow> CHR 0x0A \<notin> set (join_with (CHR 0x09) ps)"
  by (induction "CHR 0x09" ps rule: join_with.induct) auto

lemma clean_columns: "clean_summary h \<Longrightarrow> \<forall>p\<in>set (hotspot_columns rank h). clean_text p"
  by (simp add: hotspot_columns_def clean_summary_def)

lemma hotspot_line_no_newline: "clean_summary h \<Longrightarrow> CHR 0x0A \<notin> set (hotspot_line rank h)"
  using clean_columns [of h rank] clean_join [of "hotspot_columns rank h"]
  by (auto simp: hotspot_line_def clean_text_def)

lemma split_hotspot_line:
  assumes "clean_summary h"
  shows "split_tab (join_with (CHR 0x09) (hotspot_columns rank h)) = hotspot_columns rank h"
  unfolding split_tab_def
proof (rule getline_all_join)
  show "\<forall>p\<in>set (hotspot_columns rank h). CHR 0x09 \<notin> set p"
    using clean_columns [OF assms] by (auto simp: clean_text_def)
qed (simp_all add: hotspot_columns_def dec_def)

subsection \<open>Reading it back\<close>

definition hotspot_entry :: "hotspot_summary \<Rightarrow> hotspot list \<Rightarrow> hotspot list" where
  "hotspot_entry h = agg_add (hm_pc_offset h) (add_sample (hm_sample_count h) (Some (hm_candidate_score h)))"

lemma strtoull_dec: "strtoull 10 (dec w) = (w, [])" for w :: u64
  by (simp add: dec_def strtoull_show_dec)

lemma strtoull_hex0x: "strtoull 0 (hex0x w) = (w, [])"
  using strtoull_hex_u64 [of 0 "[]" w] by (simp add: hex0x_def)

lemma parse_hotspot_line:
  assumes "clean_summary h" "normalize_filesystem_path os (hm_path h) = mb"
  shows "parse_manifest os mb (hotspot_line rank h # ls) (mm, agg) = parse_manifest os mb ls (mm, hotspot_entry h agg)"
proof -
  let ?f = "split_tab (drop (length ''hotspot='') (hotspot_line rank h))"
  have f: "?f = hotspot_columns rank h" by (simp add: hotspot_line_def split_hotspot_line [OF assms(1)])
  have sw: "\<not> starts_with ''hotspot_main_binary='' (hotspot_line rank h)" "starts_with ''hotspot='' (hotspot_line rank h)"
    by (simp_all add: starts_with_def hotspot_line_def)
  have cols: "hotspot_columns rank h ! 2 = dec (hm_sample_count h)" "hotspot_columns rank h ! 4 = hex0x (hm_pc_offset h)"
    "hotspot_columns rank h ! 5 = hm_path h" "hotspot_columns rank h ! 7 = dec (hm_candidate_score h)"
    "length (hotspot_columns rank h) = 18"
    by (simp_all add: hotspot_columns_def)
  show ?thesis
    unfolding parse_manifest.simps Let_def f
    by (simp add: sw cols assms(2) strtoull_dec strtoull_hex0x hotspot_entry_def)
qed

lemma parse_other_line:
  "\<not> starts_with ''hotspot_main_binary='' l \<Longrightarrow> \<not> starts_with ''hotspot='' l \<Longrightarrow>
   parse_manifest os mb (l # ls) st = parse_manifest os mb ls st"
  by (cases st) simp

lemma parse_main_line:
  "parse_manifest os mb ((''hotspot_main_binary='' @ p) # ls) (mm, agg) =
   parse_manifest os mb ls (normalize_filesystem_path os p, agg)"
  by (simp add: starts_with_def)

lemma parse_hotspot_lines:
  "\<forall>(r, h)\<in>set rhs. clean_summary h \<and> normalize_filesystem_path os (hm_path h) = mb \<Longrightarrow>
   parse_manifest os mb (map (\<lambda>(r, h). hotspot_line r h) rhs) (mm, agg) = Inr (mm, fold hotspot_entry (map snd rhs) agg)"
proof (induction rhs arbitrary: agg)
  case (Cons rh rhs)
  obtain r h where "rh = (r, h)" by fastforce
  with Cons show ?case by (simp add: parse_hotspot_line del: parse_manifest.simps)
qed simp

subsection \<open>The whole manifest\<close>

definition all_hotspots :: "mon_env \<Rightarrow> monitor \<Rightarrow> hotspot_summary list" where
  "all_hotspots env m = concat (map (collect_hotspots_for_thread (mn_hot_walk env) m) (mo_tids m))"

definition ranked :: "mon_env \<Rightarrow> monitor \<Rightarrow> (nat \<times> hotspot_summary) list" where
  "ranked env m = concat (map (\<lambda>t. let hs = collect_hotspots_for_thread (mn_hot_walk env) m t in zip [0..<length hs] hs) (mo_tids m))"

lemma snd_ranked: "map snd (ranked env m) = all_hotspots env m"
  by (simp add: ranked_def all_hotspots_def map_concat comp_def Let_def)

lemma hotspot_lines_ranked: "hotspot_lines env m = map (\<lambda>(r, h). text_line (hotspot_line r h)) (ranked env m)"
proof -
  have row: "''hotspot='' @ row (hotspot_columns r h) = text_line (hotspot_line r h)" for r h
    by (simp add: row_def text_line_def hotspot_line_def)
  have "map (\<lambda>r. text_line (hotspot_line r (hs ! r))) [0..<length hs] = map (\<lambda>(r, h). text_line (hotspot_line r h)) (zip [0..<length hs] hs)" for hs
    by (rule nth_equalityI) simp_all
  then show ?thesis unfolding hotspot_lines_def ranked_def Let_def row by (simp add: map_concat comp_def)
qed

lemma out_text_lines: "out_text p (map (FPut p) ls) old = old @ concat ls"
  by (induction ls arbitrary: old) simp_all

text \<open>Every hotspot that is written comes from an entry of the table.\<close>

lemma mark_summary: "(mark xs s)\<lparr>hm_pareto_front := 0\<rparr> = s\<lparr>hm_pareto_front := 0\<rparr>"
  by (simp add: mark_def)

lemma set_parts:
  assumes "parts m table xs = (front, non_front, rest)" "h \<in> set (front @ non_front @ rest)"
  shows "\<exists>s\<in>set xs. h\<lparr>hm_pareto_front := 0\<rparr> = s\<lparr>hm_pareto_front := 0\<rparr>"
proof -
  have "h \<in> mark (filter (enough_samples m table) xs) ` set xs \<or> h \<in> (\<lambda>s. s\<lparr>hm_pareto_front := 0\<rparr>) ` set xs"
    using assms by (auto simp: parts_def Let_def)
  then show ?thesis by (auto simp: mark_summary)
qed

lemma collect_from_table:
  assumes "h \<in> set (collect_hotspots_for_thread walk m t)" "\<And>xs. mset (walk xs) = mset xs"
  obtains table kv where "map_of (mo_thread_hotspots m) t = Some table" "kv \<in> set table"
    "h\<lparr>hm_pareto_front := 0\<rparr> = summary_of m t kv"
proof (cases "map_of (mo_thread_hotspots m) t")
  case None
  with assms(1) show thesis by (simp add: collect_hotspots_for_thread_def)
next
  case (Some table)
  obtain front non_front rest where p: "parts m table (map (summary_of m t) (walk table)) = (front, non_front, rest)"
    by (metis prod.exhaust)
  have "h \<in> set (front @ non_front @ rest)"
    using assms(1) unfolding collect_parts [OF Some] p prod.case by (rule in_set_takeD)
  from set_parts [OF p this] obtain kv where "kv \<in> set (walk table)"
    "h\<lparr>hm_pareto_front := 0\<rparr> = (summary_of m t kv)\<lparr>hm_pareto_front := 0\<rparr>" by auto
  moreover have "(summary_of m t kv)\<lparr>hm_pareto_front := 0\<rparr> = summary_of m t kv" for kv
    by (simp add: summary_of_def Let_def)
  ultimately show thesis using that [OF Some, of kv] mset_eq_setD [OF assms(2) [of table]] by simp
qed

lemma written_hotspot:
  assumes "h \<in> set (all_hotspots env m)" "hot_inv m" "\<And>xs. mset (mn_hot_walk env xs) = mset xs"
  shows "hm_path h = mo_main_binary_path m \<and> clean_text (hm_candidate_metric h)"
proof -
  obtain t where "h \<in> set (collect_hotspots_for_thread (mn_hot_walk env) m t)" using assms(1) by (auto simp: all_hotspots_def)
  then obtain table kv where t: "map_of (mo_thread_hotspots m) t = Some table" "kv \<in> set table"
    "h\<lparr>hm_pareto_front := 0\<rparr> = summary_of m t kv" by (rule collect_from_table) (rule assms(3))
  then have "in_main m (fst kv)" using assms(2) by (cases kv) (auto simp: hot_inv_def)
  moreover have "hm_path h = hm_path (summary_of m t kv)" "hm_candidate_metric h = hm_candidate_metric (summary_of m t kv)"
    using arg_cong [OF t(3), of hm_path] arg_cong [OF t(3), of hm_candidate_metric] by simp_all
  ultimately show ?thesis by (simp add: in_main_def summary_of_def Let_def)
qed

lemma manifest_read_back:
  assumes "hot_inv m" "sample_pc_present m" "cv_can_create (mn_cv env) (manifest_path m)"
    and "\<And>xs. mset (mn_hot_walk env xs) = mset xs"
    and "clean_text (mo_main_binary_path m)" "normalize_filesystem_path os (mo_main_binary_path m) = mo_main_binary_path m"
  shows "parse_manifest os (mo_main_binary_path m)
      (lines_of (out_text (manifest_path m) (write_hotspot_manifest env m) old)) ([], []) =
    Inr (mo_main_binary_path m, fold hotspot_entry (all_hotspots env m) [])"
proof -
  let ?mb = "mo_main_binary_path m"
  let ?h1 = "[''hotspot_top_k='' @ show_dec (mo_hotspot_top_k m), ''hotspot_identity=module_offset'', ''hotspot_scope=main_binary_only'']"
  let ?h2 = "[''hotspot_kind_hint=arm_spe_loadstore'', ''hotspot_selection_policy=pareto_sample_count_avg_mem_latency'',
      HOTSPOT_FIELDS, ''hotspot_count='' @ show_dec (hotspot_count env m),
      ''hotspot_unmapped_pc_samples='' @ dec (mo_hotspot_unmapped_samples m)]"
  let ?ls = "?h1 @ [''hotspot_main_binary='' @ ?mb] @ ?h2 @ map (\<lambda>(r, h). hotspot_line r h) (ranked env m)"
  have w: "clean_summary h \<and> hm_path h = ?mb" if "(r, h) \<in> set (ranked env m)" for r h
  proof -
    have "h \<in> set (all_hotspots env m)" using that by (force simp flip: snd_ranked)
    then show ?thesis using written_hotspot [OF _ assms(1,4)] assms(5) by (simp add: clean_summary_def)
  qed
  have ml: "manifest_lines env m = map text_line ?ls"
    by (simp add: manifest_lines_def hotspot_lines_ranked comp_def split_beta)
  have content: "out_text (manifest_path m) (write_hotspot_manifest env m) old = concat (map text_line ?ls)"
    using assms(2,3) unfolding write_hotspot_manifest_def ml
    by (simp only: simp_thms if_False out_text.simps if_True out_text_lines append_Nil)
  have "\<forall>l\<in>set ?ls. CHR 0x0A \<notin> set l"
    using assms(5) w clean_show_dec clean_dec hotspot_line_no_newline
    by (auto simp: HOTSPOT_FIELDS_def clean_text_def)
  then have lines: "lines_of (concat (map text_line ?ls)) = ?ls" by (rule lines_of_text_lines)
  have other: "\<not> starts_with ''hotspot_main_binary='' l \<and> \<not> starts_with ''hotspot='' l" if "l \<in> set (?h1 @ ?h2)" for l
    using that by (auto simp: starts_with_def HOTSPOT_FIELDS_def)
  have skip: "parse_manifest os ?mb (xs @ ls) st = parse_manifest os ?mb ls st" if "set xs \<subseteq> set (?h1 @ ?h2)" for xs ls st
    using that other by (induction xs) (simp_all add: parse_other_line del: parse_manifest.simps)
  have "parse_manifest os ?mb ?ls ([], []) =
      parse_manifest os ?mb (map (\<lambda>(r, h). hotspot_line r h) (ranked env m)) (?mb, [])"
    by (subst skip, simp, subst append_Cons, subst parse_main_line, subst append_Nil, subst skip, simp_all add: assms(6) del: parse_manifest.simps)
  also have "\<dots> = Inr (?mb, fold hotspot_entry (map snd (ranked env m)) [])"
    using w assms(6) by (intro parse_hotspot_lines) auto
  finally show ?thesis unfolding content lines snd_ranked .
qed

end
