(* ===== verification/Controller_Correct.thy ===== *)
theory Controller_Correct
  imports Controller
begin

text \<open>
  The controller keeps its own books in order, and it agrees with the device it drives: its
  window flag with the device's window, its active bindings with the device's live threads.  What
  it relies on of the device is the locale below; the kernel module provides it.
\<close>

subsection \<open>Processors and bindings\<close>

definition on_cpu :: "controller \<Rightarrow> int \<rightharpoonup> int" where
  "on_cpu c t = (case c_threads c t of None \<Rightarrow> None | Some b \<Rightarrow> if tb_active b then Some (tb_cpu b) else None)"

text \<open>
  Every processor that is taken belongs to exactly one active binding, and every active binding
  has a processor.
\<close>

definition cpus_ok :: "int \<Rightarrow> int list \<Rightarrow> (int \<rightharpoonup> int) \<Rightarrow> bool" where
  "cpus_ok n owner on \<longleftrightarrow> length owner = nat n \<and> (\<forall>t k. on t = Some k \<longrightarrow> 0 \<le> k \<and> k < n) \<and>
     (\<forall>i<length owner. owner ! i \<noteq> 0 \<longleftrightarrow> (\<exists>t. on t = Some (int i))) \<and>
     (\<forall>t u k. on t = Some k \<and> on u = Some k \<longrightarrow> t = u)"

definition ctl_inv :: "controller \<Rightarrow> bool" where
  "ctl_inv c \<longleftrightarrow> cpus_ok (c_num_cpus c) (c_cpu_owner c) (on_cpu c) \<and> (\<forall>t b. c_threads c t = Some b \<longrightarrow> tb_tid b = t)"

lemma bound_on_cpu: "bound c t \<longleftrightarrow> on_cpu c t \<noteq> None"
  by (simp add: bound_def on_cpu_def split: option.split)

lemma cpus_ok_bind:
  assumes "cpus_ok n owner on" "0 \<le> k" "k < n" "owner ! nat k = 0" "on t = None"
  shows "cpus_ok n (owner[nat k := 1]) (on(t \<mapsto> k))"
proof -
  have k: "nat k < length owner" using assms(1-3) by (simp add: cpus_ok_def)
  have free: "on u \<noteq> Some k" for u using assms(1,2,4) k unfolding cpus_ok_def by (metis int_nat_eq)
  have "owner[nat k := 1] ! i \<noteq> 0 \<longleftrightarrow> (\<exists>u. (on(t \<mapsto> k)) u = Some (int i))" if "i < length owner" for i
  proof (cases "i = nat k")
    case True
    with assms(2) that show ?thesis by (auto intro!: exI [of _ t])
  next
    case False
    moreover have "owner ! i \<noteq> 0 \<longleftrightarrow> (\<exists>u. on u = Some (int i))" using assms(1) that by (simp add: cpus_ok_def)
    ultimately show ?thesis using assms(2,5) by (auto simp: fun_upd_apply) (metis option.discI)
  qed
  then show ?thesis using assms(1-3) free by (auto simp: cpus_ok_def)
qed

lemma cpus_ok_unbind:
  assumes "cpus_ok n owner on" "on t = Some k"
  shows "cpus_ok n (owner[nat k := 0]) (on(t := None))"
proof -
  have kn: "0 \<le> k" "k < n" "length owner = nat n" using assms unfolding cpus_ok_def by blast+
  then have k: "0 \<le> k" "nat k < length owner" by simp_all
  have only: "on u = Some k \<Longrightarrow> u = t" for u using assms unfolding cpus_ok_def by blast
  have "owner[nat k := 0] ! i \<noteq> 0 \<longleftrightarrow> (\<exists>u. (on(t := None)) u = Some (int i))" if "i < length owner" for i
  proof (cases "i = nat k")
    case True
    with k only that show ?thesis by auto
  next
    case False
    moreover have "owner ! i \<noteq> 0 \<longleftrightarrow> (\<exists>u. on u = Some (int i))" using assms(1) that by (simp add: cpus_ok_def)
    ultimately show ?thesis using assms(2) k(1) by (auto simp: fun_upd_apply) (metis nat_int option.inject)
  qed
  then show ?thesis using assms(1) unfolding cpus_ok_def by auto
qed

lemma on_cpu_flags [simp]:
  "on_cpu (c\<lparr>c_window_open := w\<rparr>) = on_cpu c" "on_cpu (c\<lparr>c_auto_fallback_active := w\<rparr>) = on_cpu c"
  "on_cpu (c\<lparr>c_explicit_window_seen := w\<rparr>) = on_cpu c"
  "on_cpu (c\<lparr>c_auto_window_discarded_on_first_explicit := w\<rparr>) = on_cpu c"
  by (simp_all add: on_cpu_def fun_eq_iff)

lemma ctl_inv_flags [simp]:
  "ctl_inv (c\<lparr>c_window_open := w\<rparr>) = ctl_inv c" "ctl_inv (c\<lparr>c_auto_fallback_active := w\<rparr>) = ctl_inv c"
  "ctl_inv (c\<lparr>c_explicit_window_seen := w\<rparr>) = ctl_inv c"
  "ctl_inv (c\<lparr>c_auto_window_discarded_on_first_explicit := w\<rparr>) = ctl_inv c"
  "bound (c\<lparr>c_window_open := w\<rparr>) = bound c" "bound (c\<lparr>c_auto_fallback_active := w\<rparr>) = bound c"
  "bound (c\<lparr>c_explicit_window_seen := w\<rparr>) = bound c"
  "bound (c\<lparr>c_auto_window_discarded_on_first_explicit := w\<rparr>) = bound c"
  "bound (c\<lparr>c_cpu_owner := ow\<rparr>) = bound c"
  by (simp_all add: ctl_inv_def bound_def fun_eq_iff)

text \<open>The scan visits every processor, so it fails only when none is free.\<close>

lemma scan_onto:
  assumes "0 \<le> (st :: int)" "st < n" "0 \<le> k" "k < n"
  shows "\<exists>off\<in>{0..<nat n}. (st + int off) mod n = k"
proof
  show "nat ((k - st) mod n) \<in> {0..<nat n}" using assms by (simp add: nat_less_iff)
  have "(st + (k - st) mod n) mod n = k mod n" by (metis add.commute diff_add_cancel mod_add_left_eq)
  then show "(st + int (nat ((k - st) mod n))) mod n = k" using assms by simp
qed

lemma scan_start_range: "0 < c_num_cpus c \<Longrightarrow> 0 \<le> cpu_scan_start cv c \<and> cpu_scan_start cv c < c_num_cpus c"
  by (simp add: cpu_scan_start_def Let_def)

lemma find_upt_Some:
  "List.find P [0..<n] = Some i \<Longrightarrow> i < n \<and> P i"
  by (auto simp: find_Some_iff)

lemma allocate_cpu_cases:
  assumes "length (c_cpu_owner c) = nat (c_num_cpus c)"
  obtains (full) "allocate_cpu_locked cv c = Inl ''targeted_rd cannot pin thread: no free CPU available''"
      "\<forall>i<length (c_cpu_owner c). c_cpu_owner c ! i \<noteq> 0"
  | (free) n where "allocate_cpu_locked cv c = Inr (n, c\<lparr>c_cpu_owner := (c_cpu_owner c)[nat n := 1]\<rparr>)"
      "0 \<le> n" "n < c_num_cpus c" "c_cpu_owner c ! nat n = 0"
proof -
  let ?at = "\<lambda>off. (cpu_scan_start cv c + int off) mod c_num_cpus c"
  let ?find = "List.find (\<lambda>off. c_cpu_owner c ! nat (?at off) = 0) [0..<nat (c_num_cpus c)]"
  show thesis
  proof (cases ?find)
    case None
    have "c_cpu_owner c ! i \<noteq> 0" if i: "i < length (c_cpu_owner c)" for i
    proof -
      have pos: "0 < c_num_cpus c" "int i < c_num_cpus c" using i assms by linarith+
      obtain off where "off \<in> {0..<nat (c_num_cpus c)}" "?at off = int i"
        using scan_onto [of "cpu_scan_start cv c" "c_num_cpus c" "int i"] scan_start_range [OF pos(1)] pos by auto
      then show ?thesis using None by (auto simp: find_None_iff)
    qed
    with None show thesis by (intro full) (simp_all add: allocate_cpu_locked_def)
  next
    case (Some off)
    then have o: "off < nat (c_num_cpus c)" "c_cpu_owner c ! nat (?at off) = 0" using find_upt_Some by blast+
    then have "0 < c_num_cpus c" by linarith
    then show thesis using Some o by (intro free [of "?at off"]) (simp_all add: allocate_cpu_locked_def Let_def)
  qed
qed

lemma release_cpu_simps [simp]:
  "c_threads (release_cpu_locked n c) = c_threads c" "c_window_open (release_cpu_locked n c) = c_window_open c"
  "c_num_cpus (release_cpu_locked n c) = c_num_cpus c" "bound (release_cpu_locked n c) = bound c"
  by (simp_all add: release_cpu_locked_def bound_def fun_eq_iff)

text \<open>An allocation that is given back leaves no trace.\<close>

lemma release_allocated:
  "0 \<le> n \<Longrightarrow> n < c_num_cpus c \<Longrightarrow> length (c_cpu_owner c) = nat (c_num_cpus c) \<Longrightarrow> c_cpu_owner c ! nat n = 0 \<Longrightarrow>
   release_cpu_locked n (c\<lparr>c_cpu_owner := (c_cpu_owner c)[nat n := 1]\<rparr>) = c"
  by (simp add: release_cpu_locked_def list_update_same_conv)

lemma ctl_inv_erase:
  assumes "ctl_inv c" "\<not> bound c t"
  shows "ctl_inv (c\<lparr>c_threads := (c_threads c)(t := None)\<rparr>)" "bound (c\<lparr>c_threads := (c_threads c)(t := None)\<rparr>) = bound c"
proof -
  have "on_cpu (c\<lparr>c_threads := (c_threads c)(t := None)\<rparr>) = on_cpu c"
    using assms(2) by (auto simp: bound_on_cpu on_cpu_def fun_eq_iff)
  then show "ctl_inv (c\<lparr>c_threads := (c_threads c)(t := None)\<rparr>)"
    "bound (c\<lparr>c_threads := (c_threads c)(t := None)\<rparr>) = bound c"
    using assms(1) by (simp_all add: ctl_inv_def bound_on_cpu [abs_def])
qed

lemma ctl_inv_bind:
  assumes "ctl_inv c" "\<not> bound c t" "0 \<le> tb_cpu b" "tb_cpu b < c_num_cpus c" "c_cpu_owner c ! nat (tb_cpu b) = 0"
    "tb_tid b = t" "tb_active b"
  shows "ctl_inv (c\<lparr>c_cpu_owner := (c_cpu_owner c)[nat (tb_cpu b) := 1], c_threads := (c_threads c)(t \<mapsto> b)\<rparr>)"
proof -
  have "on_cpu (c\<lparr>c_cpu_owner := ow, c_threads := (c_threads c)(t \<mapsto> b)\<rparr>) = (on_cpu c)(t \<mapsto> tb_cpu b)" for ow
    using assms(7) by (auto simp: on_cpu_def fun_eq_iff)
  then show ?thesis using assms cpus_ok_bind [OF _ assms(3-5), of "on_cpu c" t] by (simp add: ctl_inv_def bound_on_cpu)
qed

lemma ctl_inv_unbind:
  assumes "ctl_inv c" "c_threads c t = Some b" "tb_active b" "tb_tid b' = t" "\<not> tb_active b'"
  shows "ctl_inv ((release_cpu_locked (tb_cpu b) c)\<lparr>c_threads := (c_threads c)(t \<mapsto> b')\<rparr>)"
proof -
  have t: "on_cpu c t = Some (tb_cpu b)" using assms(2,3) by (simp add: on_cpu_def)
  then have r: "0 \<le> tb_cpu b" "tb_cpu b < c_num_cpus c" using assms(1) by (auto simp: ctl_inv_def cpus_ok_def)
  have "on_cpu (c\<lparr>c_cpu_owner := ow, c_threads := (c_threads c)(t \<mapsto> b')\<rparr>) = (on_cpu c)(t := None)" for ow
    using assms(5) by (auto simp: on_cpu_def fun_eq_iff)
  then show ?thesis using assms(1,4) cpus_ok_unbind [of "c_num_cpus c" "c_cpu_owner c" "on_cpu c" t] t r by (simp add: ctl_inv_def release_cpu_locked_def)
qed

subsection \<open>Scratch mappings\<close>

text \<open>The process has, beside the mappings it started with, exactly those of the active bindings.\<close>

definition region :: "controller \<Rightarrow> int \<Rightarrow> u64 \<times> u64" where
  "region c t = (case c_threads c t of None \<Rightarrow> (0, 0) | Some b \<Rightarrow> (tb_scratch b, tb_scratch_bytes b))"

definition mappings_ok :: "(u64 \<times> u64) list \<Rightarrow> controller \<Rightarrow> (u64 \<times> u64) list \<Rightarrow> bool" where
  "mappings_ok mem0 c mem \<longleftrightarrow> finite {t. bound c t} \<and>
     mset mem = mset mem0 + image_mset (region c) (mset_set {t. bound c t}) \<and>
     (\<forall>t. bound c t \<longrightarrow> fst (region c t) \<noteq> 0 \<and> fst (region c t) \<noteq> MAP_FAILED)"

lemma mappings_cong:
  assumes "\<And>t. bound c' t = bound c t" "\<And>t. bound c t \<Longrightarrow> region c' t = region c t"
  shows "mappings_ok mem0 c' mem = mappings_ok mem0 c mem"
proof -
  have b: "{t. bound c' t} = {t. bound c t}" using assms(1) by simp
  have "image_mset (region c') (mset_set {t. bound c t}) = image_mset (region c) (mset_set {t. bound c t})"
    if "finite {t. bound c t}" using that assms(2) by (intro image_mset_cong) auto
  then show ?thesis using assms by (auto simp: mappings_ok_def b)
qed

lemma mappings_bind:
  assumes "mappings_ok mem0 c mem" "\<not> bound c t" "tb_active b" "tb_scratch b \<noteq> 0" "tb_scratch b \<noteq> MAP_FAILED"
    "c_threads c' = (c_threads c)(t \<mapsto> b)"
  shows "mappings_ok mem0 c' ((tb_scratch b, tb_scratch_bytes b) # mem)"
proof -
  have bd: "{u. bound c' u} = insert t {u. bound c u}" using assms(3,6) by (auto simp: bound_def)
  have fin: "finite {u. bound c u}" using assms(1) by (simp add: mappings_ok_def)
  have rg: "region c' u = region c u" if "u \<noteq> t" for u using that assms(6) by (simp add: region_def)
  have rt: "region c' t = (tb_scratch b, tb_scratch_bytes b)" using assms(6) by (simp add: region_def)
  have "image_mset (region c') (mset_set {u. bound c u}) = image_mset (region c) (mset_set {u. bound c u})"
    using assms(2) fin rg by (intro image_mset_cong) (metis finite_set_mset_mset_set mem_Collect_eq)
  moreover have "fst (region c' u) \<noteq> 0 \<and> fst (region c' u) \<noteq> MAP_FAILED" if "bound c' u" for u
  proof (cases "u = t")
    case True
    then show ?thesis using rt assms(4,5) by simp
  next
    case False
    then have "bound c u" using that bd by blast
    then show ?thesis using assms(1) rg [OF False] by (simp add: mappings_ok_def)
  qed
  ultimately show ?thesis using assms(1,2) fin by (simp add: mappings_ok_def bd rt)
qed

lemma mappings_unbind:
  assumes "mappings_ok mem0 c mem" "c_threads c t = Some b" "tb_active b" "\<not> tb_active b'"
    "c_threads c' = (c_threads c)(t \<mapsto> b')"
  shows "mappings_ok mem0 c' (munmap (tb_scratch b) (tb_scratch_bytes b) mem)"
proof -
  have bt: "bound c t" "region c t = (tb_scratch b, tb_scratch_bytes b)" using assms(2,3) by (simp_all add: bound_def region_def)
  have bd: "{u. bound c' u} = {u. bound c u} - {t}" using assms(4,5) by (auto simp: bound_def)
  have fin: "finite {u. bound c u}" using assms(1) by (simp add: mappings_ok_def)
  have rg: "region c' u = region c u" if "u \<noteq> t" for u using that assms(5) by (simp add: region_def)
  have "image_mset (region c') (mset_set ({u. bound c u} - {t})) = image_mset (region c) (mset_set ({u. bound c u} - {t}))"
    using fin rg by (intro image_mset_cong) auto
  moreover have "mset_set {u. bound c u} = add_mset t (mset_set ({u. bound c u} - {t}))"
    using mset_set.remove [OF fin, of t] bt(1) by simp
  moreover have "munmap (tb_scratch b) (tb_scratch_bytes b) mem = remove1 (region c t) mem"
    using assms(1) bt by (auto simp: mappings_ok_def munmap_def)
  moreover have "fst (region c' u) \<noteq> 0 \<and> fst (region c' u) \<noteq> MAP_FAILED" if "bound c' u" for u
  proof -
    have "u \<noteq> t" "bound c u" using that bd by blast+
    then show ?thesis using assms(1) rg [of u] by (simp add: mappings_ok_def)
  qed
  ultimately show ?thesis using assms(1) fin by (simp add: mappings_ok_def bd)
qed

subsection \<open>The outcomes of a registration\<close>

definition erased :: "controller \<Rightarrow> int \<Rightarrow> controller" where
  "erased c t = c\<lparr>c_threads := (c_threads c)(t := None)\<rparr>"

definition taken_cpu :: "int \<Rightarrow> controller \<Rightarrow> controller" where
  "taken_cpu n c = c\<lparr>c_cpu_owner := (c_cpu_owner c)[nat n := 1]\<rparr>"

definition new_binding :: "ctl_env \<Rightarrow> int \<Rightarrow> int \<Rightarrow> u64 \<Rightarrow> u64 \<Rightarrow> thread_binding" where
  "new_binding cv t n scratch bytes = \<lparr>tb_tid = t, tb_cpu = n, tb_scratch = scratch, tb_scratch_bytes = bytes,
     tb_scratch_base = scratch, tb_scratch_stride = cv_page_size cv, tb_active = True\<rparr>"

definition register_cmd :: "ctl_env \<Rightarrow> int \<Rightarrow> int \<Rightarrow> u64 \<Rightarrow> rd_cmd" where
  "register_cmd cv t n scratch = RDKIOC_REGISTER_THREAD (Some \<lparr>reg_tid = t, reg_cpu = n, reg_scratch_base = scratch,
     reg_scratch_stride = cv_page_size cv\<rparr>)"

text \<open>Either nothing but the erased stale entry changes, or the device was asked.\<close>

lemma register_thread_cases:
  assumes "ctl_inv (sys_ctl s)" "register_thread_locked io cv t s = (r, s')"
  obtains (bound) "bound (sys_ctl s) t" "r = None" "s' = s"
  | (failed) e where "\<not> bound (sys_ctl s) t" "r = Some e" "s' = s\<lparr>sys_ctl := erased (sys_ctl s) t\<rparr>"
  | (refused) n scratch bytes e rep d where "\<not> bound (sys_ctl s) t" "scratch = cv_mmap cv t bytes" "scratch \<noteq> MAP_FAILED"
      "io (sys_dev s) (register_cmd cv t n scratch) = (RetErr e, rep, d)" "r = Some (ioctl_error cv ''RDKIOC_REGISTER_THREAD'' e)"
      "s' = s\<lparr>sys_ctl := erased (sys_ctl s) t, sys_dev := d, sys_mem := munmap scratch bytes ((scratch, bytes) # sys_mem s)\<rparr>"
  | (registered) n scratch bytes rep d where "\<not> bound (sys_ctl s) t" "scratch = cv_mmap cv t bytes" "scratch \<noteq> MAP_FAILED"
      "0 \<le> n" "n < c_num_cpus (sys_ctl s)" "c_cpu_owner (sys_ctl s) ! nat n = 0"
      "io (sys_dev s) (register_cmd cv t n scratch) = (RetOk, rep, d)" "r = None"
      "s' = s\<lparr>sys_ctl := (taken_cpu n (erased (sys_ctl s) t))\<lparr>c_threads := (c_threads (sys_ctl s))(t \<mapsto> new_binding cv t n scratch bytes)\<rparr>,
              sys_dev := d, sys_mem := (scratch, bytes) # sys_mem s\<rparr>"
proof (cases "bound (sys_ctl s) t")
  case True
  then have "r = None" "s' = s" using assms(2) by (simp_all add: register_thread_locked_def)
  with True show thesis by (rule bound)
next
  case False
  let ?c1 = "erased (sys_ctl s) t"
  have len: "length (c_cpu_owner ?c1) = nat (c_num_cpus ?c1)" using assms(1) by (simp add: erased_def ctl_inv_def cpus_ok_def)
  note def = register_thread_locked_def Let_def ioctl_or_throw_def erased_def [symmetric]
  from len show thesis
  proof (cases rule: allocate_cpu_cases [where cv = cv])
    case full
    then show thesis using assms(2) False failed by (auto simp: def)
  next
    case (free n)
    have rel: "release_cpu_locked n (taken_cpu n ?c1) = ?c1" unfolding taken_cpu_def by (rule release_allocated [OF free(2,3) len free(4)])
    note al = free(1) [folded taken_cpu_def]
    let ?bytes = "cv_page_size cv * ucast (c_watchpoint_capacity (taken_cpu n ?c1))"
    let ?scratch = "cv_mmap cv t ?bytes"
    show thesis
    proof (cases "cv_sched_setaffinity cv t n \<and> ?scratch \<noteq> MAP_FAILED")
      case unpinned: False
      then show thesis using assms(2) False al rel failed by (auto simp: def split: if_splits)
    next
      case True
      obtain ret rep d where io: "io (sys_dev s) (register_cmd cv t n ?scratch) = (ret, rep, d)"
        by (cases "io (sys_dev s) (register_cmd cv t n ?scratch)")
      show thesis
      proof (cases ret)
        case (RetErr e)
        with True assms(2) False al rel io refused [of ?scratch ?bytes n e rep d] show thesis
          by (auto simp: def register_cmd_def)
      next
        case RetOk
        have "c_num_cpus ?c1 = c_num_cpus (sys_ctl s)" "c_cpu_owner ?c1 = c_cpu_owner (sys_ctl s)" by (simp_all add: erased_def)
        with RetOk True assms(2) False al rel io free(2-4) registered [of ?scratch ?bytes n rep d] show thesis
          by (auto simp: def register_cmd_def new_binding_def) (simp add: erased_def taken_cpu_def)
      qed
    qed
  qed
qed

subsection \<open>The fresh controller\<close>

lemma read_settings_fresh:
  assumes "read_settings cv (initial_controller cv nm pin) = Inr c"
  shows "ctl_inv c" "\<not> bound c t" "\<not> c_window_open c" "\<not> c_explicit_window_seen c" "\<not> c_auto_fallback_active c"
    "unat (c_dwarf_stack_bytes c) \<le> RD_WPCTL_MAX_DWARF_STACK_BYTES" "c_dwarf_stack_bytes c \<noteq> 0"
    "c_callchain_mode c \<in> {RD_CALLCHAIN_OFF, RD_CALLCHAIN_FP, RD_CALLCHAIN_DWARF}"
proof -
  from assms obtain tf wp bp period event mode stack cap where c: "c = (initial_controller cv nm pin)
      \<lparr>c_target_file := tf, c_watchpoint_capacity := wp, c_bp_capacity := bp, c_bp_sample_period := period,
       c_rd_event_name := event, c_callchain_mode := mode, c_dwarf_stack_bytes := number_or DEFAULT_DWARF_STACK_BYTES stack,
       c_dwarf_event_capacity := cap, c_main_binary_path := read_self_exe_path cv,
       c_cpu_owner := replicate (nat (cv_nprocs cv)) 0\<rparr>" "env_dwarf_stack cv = Inr stack" "env_callchain_mode cv = Inr mode"
    by (auto simp: read_settings_def setting_def initial_controller_def split: option.splits sum.splits if_splits)
  have on: "on_cpu c = Map.empty" by (simp add: c(1) initial_controller_def on_cpu_def fun_eq_iff)
  show "ctl_inv c" by (simp add: ctl_inv_def on cpus_ok_def) (simp add: c(1) initial_controller_def)
  show "\<not> bound c t" by (simp add: bound_on_cpu on)
  show "\<not> c_window_open c" "\<not> c_explicit_window_seen c" "\<not> c_auto_fallback_active c"
    by (simp_all add: c(1) initial_controller_def)
  show "c_callchain_mode c \<in> {RD_CALLCHAIN_OFF, RD_CALLCHAIN_FP, RD_CALLCHAIN_DWARF}"
    using c(3) by (auto simp: c(1) env_callchain_mode_def split: option.splits if_splits)
  have "unat (number_or DEFAULT_DWARF_STACK_BYTES stack) \<le> RD_WPCTL_MAX_DWARF_STACK_BYTES \<and>
      number_or DEFAULT_DWARF_STACK_BYTES stack \<noteq> 0"
  proof (cases stack)
    case None
    then show ?thesis by (simp add: number_or_def DEFAULT_DWARF_STACK_BYTES_def uapi_consts)
  next
    case (Some n)
    then have "0 < n" "n \<le> 8192" using c(2) by (auto simp: env_dwarf_stack_def Let_def uapi_consts split: option.splits if_splits)
    then have "uint (word_of_int n :: u32) = n" by (simp add: uint_word_of_int)
    then have "unat (word_of_int n :: u32) = nat n" by (simp flip: nat_uint_eq)
    then show ?thesis using Some \<open>0 < n\<close> \<open>n \<le> 8192\<close> by (auto simp: number_or_def uapi_consts unat_eq_zero [symmetric])
  qed
  then show "unat (c_dwarf_stack_bytes c) \<le> RD_WPCTL_MAX_DWARF_STACK_BYTES" "c_dwarf_stack_bytes c \<noteq> 0"
    by (simp_all add: c(1))
qed

lemma load_targets_into_frame:
  assumes "load_targets_into cv s = (r, s')"
  shows "ctl_inv (sys_ctl s') = ctl_inv (sys_ctl s)" "bound (sys_ctl s') = bound (sys_ctl s)"
    "c_window_open (sys_ctl s') = c_window_open (sys_ctl s)" "sys_dev s' = sys_dev s" "sys_mem s' = sys_mem s"
    "c_explicit_window_seen (sys_ctl s') = c_explicit_window_seen (sys_ctl s)"
proof -
  have on: "on_cpu (c\<lparr>c_targets := a, c_rejected_targets := b, c_candidate_target_count := x,
      c_capacity_truncated_target_count := y\<rparr>) = on_cpu c" for c a b x y by (simp add: on_cpu_def fun_eq_iff)
  from assms show "ctl_inv (sys_ctl s') = ctl_inv (sys_ctl s)" "bound (sys_ctl s') = bound (sys_ctl s)"
    "c_window_open (sys_ctl s') = c_window_open (sys_ctl s)" "sys_dev s' = sys_dev s" "sys_mem s' = sys_mem s"
    "c_explicit_window_seen (sys_ctl s') = c_explicit_window_seen (sys_ctl s)"
    by (auto simp: load_targets_into_def Let_def ctl_inv_def bound_on_cpu [abs_def] on split: sum.splits)
qed

subsection \<open>The device\<close>

text \<open>The commands that change neither the window nor the set of live threads.\<close>

fun quiet :: "rd_cmd \<Rightarrow> bool" where
  "quiet (RDKIOC_REGISTER_THREAD _) = False"
| "quiet (RDKIOC_UNREGISTER_THREAD _) = False"
| "quiet RDKIOC_START_WINDOW = False"
| "quiet RDKIOC_STOP_WINDOW = False"
| "quiet _ = True"

text \<open>What the controller relies on: the window follows start and stop, the live threads follow the
  registrations that succeed, and a live thread can always be unregistered.\<close>

locale rd_device =
  fixes io :: "'d dev_io" and dev_ok :: "'d \<Rightarrow> bool" and dev_running :: "'d \<Rightarrow> bool" and dev_live :: "'d \<Rightarrow> int set"
  assumes io_ok: "dev_ok d \<Longrightarrow> io d cmd = (r, rep, d') \<Longrightarrow> dev_ok d'"
    and io_start: "dev_ok d \<Longrightarrow> io d RDKIOC_START_WINDOW = (r, rep, d') \<Longrightarrow>
      r = RetOk \<and> dev_running d' \<and> dev_live d' = dev_live d"
    and io_stop: "dev_ok d \<Longrightarrow> io d RDKIOC_STOP_WINDOW = (r, rep, d') \<Longrightarrow>
      r = RetOk \<and> \<not> dev_running d' \<and> dev_live d' = dev_live d"
    and io_quiet: "dev_ok d \<Longrightarrow> quiet cmd \<Longrightarrow> io d cmd = (r, rep, d') \<Longrightarrow>
      dev_running d' = dev_running d \<and> dev_live d' = dev_live d"
    and io_register: "dev_ok d \<Longrightarrow> io d (RDKIOC_REGISTER_THREAD (Some reg)) = (r, rep, d') \<Longrightarrow>
      dev_running d' = dev_running d \<and>
      dev_live d' = (if r = RetOk then insert (reg_tid reg) (dev_live d) else dev_live d) \<and>
      (r = RetOk \<longrightarrow> reg_scratch_base reg \<noteq> 0)"
    and io_unregister: "dev_ok d \<Longrightarrow> io d (RDKIOC_UNREGISTER_THREAD (Some t)) = (r, rep, d') \<Longrightarrow>
      dev_running d' = dev_running d \<and> dev_live d' = dev_live d - {t} \<and> (t \<in> dev_live d \<longrightarrow> r = RetOk)"
begin

definition agrees :: "'d rd_sys \<Rightarrow> bool" where
  "agrees s \<longleftrightarrow> dev_ok (sys_dev s) \<and> ctl_inv (sys_ctl s) \<and> (c_window_open (sys_ctl s) \<longleftrightarrow> dev_running (sys_dev s)) \<and>
     (\<forall>t. bound (sys_ctl s) t \<longleftrightarrow> t \<in> dev_live (sys_dev s))"

lemma start_window:
  assumes "agrees s"
  obtains s' where "start_window_locked io cv s = (None, s')" "agrees s'" "c_window_open (sys_ctl s')"
    "\<exists>d. s' = s\<lparr>sys_dev := d, sys_ctl := (sys_ctl s)\<lparr>c_window_open := True\<rparr>\<rparr>"
proof (cases "c_window_open (sys_ctl s)")
  case True
  then show thesis using assms by (intro that [of s]) (auto simp: start_window_locked_def intro!: exI [of _ "sys_dev s"])
next
  case False
  obtain r rep d where io: "io (sys_dev s) RDKIOC_START_WINDOW = (r, rep, d)" by (cases "io (sys_dev s) RDKIOC_START_WINDOW")
  have ok: "dev_ok (sys_dev s)" using assms by (simp add: agrees_def)
  note laws = io_start [OF ok io] io_ok [OF ok io]
  show thesis
    by (rule that [of "s\<lparr>sys_dev := d, sys_ctl := (sys_ctl s)\<lparr>c_window_open := True\<rparr>\<rparr>"])
       (use False io laws assms in \<open>auto simp: start_window_locked_def and_then_def ioctl_or_throw_def agrees_def\<close>)
qed

lemma stop_window:
  assumes "agrees s"
  obtains s' where "stop_window_locked io cv s = (None, s')" "agrees s'" "\<not> c_window_open (sys_ctl s')"
    "\<exists>d. s' = s\<lparr>sys_dev := d, sys_ctl := (sys_ctl s)\<lparr>c_window_open := False\<rparr>\<rparr>"
proof (cases "c_window_open (sys_ctl s)")
  case False
  then show thesis using assms by (intro that [of s]) (auto simp: stop_window_locked_def intro!: exI [of _ "sys_dev s"])
next
  case True
  obtain r rep d where io: "io (sys_dev s) RDKIOC_STOP_WINDOW = (r, rep, d)" by (cases "io (sys_dev s) RDKIOC_STOP_WINDOW")
  have ok: "dev_ok (sys_dev s)" using assms by (simp add: agrees_def)
  note laws = io_stop [OF ok io] io_ok [OF ok io]
  show thesis
    by (rule that [of "s\<lparr>sys_dev := d, sys_ctl := (sys_ctl s)\<lparr>c_window_open := False\<rparr>\<rparr>"])
       (use True io laws assms in \<open>auto simp: stop_window_locked_def and_then_def ioctl_or_throw_def agrees_def\<close>)
qed

lemma quiet_ioctl:
  assumes "agrees s" "quiet cmd" "ioctl_or_throw io cv name cmd s = (r, s')"
  shows "agrees s' \<and> sys_ctl s' = sys_ctl s \<and> sys_mem s' = sys_mem s"
proof -
  obtain ret rep d where io: "io (sys_dev s) cmd = (ret, rep, d)" by (cases "io (sys_dev s) cmd")
  have ok: "dev_ok (sys_dev s)" using assms(1) by (simp add: agrees_def)
  from io_quiet [OF ok assms(2) io] io_ok [OF ok io] assms(1,3) io show ?thesis
    by (cases ret) (auto simp: ioctl_or_throw_def agrees_def)
qed

lemma reset_session:
  assumes "agrees s" "reset_session_locked io cv s = (r, s')"
  shows "agrees s' \<and> sys_ctl s' = sys_ctl s \<and> sys_mem s' = sys_mem s"
  using assms quiet_ioctl [OF assms(1), of RDKIOC_RESET_SESSION cv "''RDKIOC_RESET_SESSION''" r s']
  by (auto simp: reset_session_locked_def split: if_splits)

text \<open>
  The first explicit start: stop, reset, start.  When the reset fails the window stays closed and
  the fallback stays armed.
\<close>

lemma kernel_start_first:
  assumes "agrees s" "c_auto_fallback_active (sys_ctl s)" "\<not> c_explicit_window_seen (sys_ctl s)"
  obtains (discarded) d1 d2 d3 rep2 rep3 c' where
      "io d1 RDKIOC_RESET_SESSION = (RetOk, rep2, d2)" "dev_ok d1" "\<not> dev_running d1" "dev_ok d2"
      "io d2 RDKIOC_START_WINDOW = (RetOk, rep3, d3)"
      "kernel_start io cv s = (None, s\<lparr>sys_dev := d3, sys_ctl := c'\<rparr>)" "agrees (s\<lparr>sys_dev := d3, sys_ctl := c'\<rparr>)"
      "c_window_open c'" "c_explicit_window_seen c'" "\<not> c_auto_fallback_active c'" "c_auto_window_discarded_on_first_explicit c'"
  | (failed) e s' where "kernel_start io cv s = (Some e, s')" "agrees s'" "\<not> c_window_open (sys_ctl s')"
      "c_auto_fallback_active (sys_ctl s')" "\<not> c_explicit_window_seen (sys_ctl s')"
proof -
  obtain s1 where s1: "stop_window_locked io cv s = (None, s1)" "agrees s1" "\<not> c_window_open (sys_ctl s1)"
    "\<exists>d. s1 = s\<lparr>sys_dev := d, sys_ctl := (sys_ctl s)\<lparr>c_window_open := False\<rparr>\<rparr>" by (rule stop_window [OF assms(1)])
  obtain r s2 where s2: "reset_session_locked io cv s1 = (r, s2)" by (cases "reset_session_locked io cv s1")
  note a2 = reset_session [OF s1(2) s2]
  obtain ret rep d2 where io2: "io (sys_dev s1) RDKIOC_RESET_SESSION = (ret, rep, d2)" by (cases "io (sys_dev s1) RDKIOC_RESET_SESSION")
  show thesis
  proof (cases r)
    case (Some e)
    have "kernel_start io cv s = (Some e, s2)"
      using assms(2,3) s1(1) s2 Some by (simp add: kernel_start_def and_then_def)
    then show thesis using failed [of e s2] a2 s1(3,4) assms(2,3) by auto
  next
    case None
    then have ret: "ret = RetOk" "s2 = s1\<lparr>sys_dev := d2\<rparr>"
      using s2 s1(3) io2 by (cases ret; auto simp: reset_session_locked_def ioctl_or_throw_def)+
    have open2: "\<not> c_window_open (sys_ctl s2)" using a2 s1(3) by simp
    obtain ret3 rep3 d3 where io3: "io d2 RDKIOC_START_WINDOW = (ret3, rep3, d3)" by (cases "io d2 RDKIOC_START_WINDOW")
    have ok: "dev_ok (sys_dev s1)" "\<not> dev_running (sys_dev s1)" "dev_ok d2"
      using s1(2,3) a2 ret(2) by (auto simp: agrees_def)
    have ret3: "ret3 = RetOk" using io_start [OF ok(3) io3] by simp
    obtain s3 where s3: "start_window_locked io cv s2 = (None, s3)" "agrees s3" "c_window_open (sys_ctl s3)"
      "\<exists>d. s3 = s2\<lparr>sys_dev := d, sys_ctl := (sys_ctl s2)\<lparr>c_window_open := True\<rparr>\<rparr>"
      using start_window [of s2] a2 by blast
    have d3: "sys_dev s3 = d3" using s3(1) open2 io3 ret3 ret(2) by (auto simp: start_window_locked_def and_then_def ioctl_or_throw_def)
    let ?c = "(sys_ctl s3)\<lparr>c_auto_fallback_active := False, c_explicit_window_seen := True,
      c_auto_window_discarded_on_first_explicit := True\<rparr>"
    have mem: "sys_mem s3 = sys_mem s" using s3(4) a2 s1(4) by auto
    have ks: "kernel_start io cv s = (None, s3\<lparr>sys_ctl := ?c\<rparr>)"
      using assms(2,3) s1(1) s2 None s3(1) by (simp add: kernel_start_def and_then_def)
    have eq: "s3\<lparr>sys_ctl := ?c\<rparr> = s\<lparr>sys_dev := d3, sys_ctl := ?c\<rparr>" using d3 mem by simp
    show thesis
      by (rule discarded [of "sys_dev s1" rep d2 rep3 d3 ?c])
         (use io2 ret ok io3 ret3 ks s3(2,3) eq d3 in \<open>auto simp: agrees_def\<close>)
  qed
qed

lemma kernel_start_agrees:
  assumes "agrees s" "kernel_start io cv s = (r, s')"
  shows "agrees s' \<and> (r = None \<longrightarrow> c_window_open (sys_ctl s')) \<and> c_threads (sys_ctl s') = c_threads (sys_ctl s) \<and> sys_mem s' = sys_mem s"
proof (cases "c_auto_fallback_active (sys_ctl s) \<and> \<not> c_explicit_window_seen (sys_ctl s)")
  case True
  obtain s1 where s1: "stop_window_locked io cv s = (None, s1)" "agrees s1"
    "\<exists>d. s1 = s\<lparr>sys_dev := d, sys_ctl := (sys_ctl s)\<lparr>c_window_open := False\<rparr>\<rparr>" by (rule stop_window [OF assms(1)])
  obtain r2 s2 where s2: "reset_session_locked io cv s1 = (r2, s2)" by (cases "reset_session_locked io cv s1")
  note a2 = reset_session [OF s1(2) s2]
  obtain s3 where s3: "start_window_locked io cv s2 = (None, s3)" "agrees s3" "c_window_open (sys_ctl s3)"
    "\<exists>d. s3 = s2\<lparr>sys_dev := d, sys_ctl := (sys_ctl s2)\<lparr>c_window_open := True\<rparr>\<rparr>" using start_window [of s2] a2 by blast
  show ?thesis
  proof (cases r2)
    case None
    then have "r = None" "s' = upd_ctl (\<lambda>c. c\<lparr>c_auto_fallback_active := False, c_explicit_window_seen := True,
        c_auto_window_discarded_on_first_explicit := True\<rparr>) s3"
      using assms(2) True s1(1) s2 s3(1) by (auto simp: kernel_start_def and_then_def)
    then show ?thesis using s1(3) a2 s3 by (auto simp: agrees_def)
  next
    case (Some e)
    then have "r = Some e" "s' = s2" using assms(2) True s1(1) s2 by (auto simp: kernel_start_def and_then_def)
    then show ?thesis using a2 s1(3) by auto
  qed
next
  case False
  let ?s1 = "upd_ctl (\<lambda>c. c\<lparr>c_explicit_window_seen := True, c_auto_fallback_active := False\<rparr>) s"
  have a1: "agrees ?s1" using assms(1) by (simp add: agrees_def)
  obtain s3 where s3: "start_window_locked io cv ?s1 = (None, s3)" "agrees s3" "c_window_open (sys_ctl s3)"
    "\<exists>d. s3 = ?s1\<lparr>sys_dev := d, sys_ctl := (sys_ctl ?s1)\<lparr>c_window_open := True\<rparr>\<rparr>" by (rule start_window [OF a1])
  have ks: "kernel_start io cv s = (if c_window_open (sys_ctl ?s1) then (None, ?s1) else start_window_locked io cv ?s1)"
    unfolding kernel_start_def using False by (simp only: if_False Let_def)
  show ?thesis
  proof (cases "c_window_open (sys_ctl ?s1)")
    case True
    then have "s' = ?s1" using ks assms(2) by simp
    then show ?thesis using a1 True by simp
  next
    case False
    then have "r = None" "s' = s3" using ks s3(1) assms(2) by auto
    then show ?thesis using s3 by auto
  qed
qed

lemma kernel_stop_agrees:
  assumes "agrees s" "kernel_stop io cv s = (r, s')"
  shows "agrees s' \<and> r = None \<and> c_threads (sys_ctl s') = c_threads (sys_ctl s) \<and> sys_mem s' = sys_mem s"
proof -
  obtain s1 where s1: "stop_window_locked io cv s = (None, s1)" "agrees s1"
    "\<exists>d. s1 = s\<lparr>sys_dev := d, sys_ctl := (sys_ctl s)\<lparr>c_window_open := False\<rparr>\<rparr>" by (rule stop_window [OF assms(1)])
  from assms(2) s1(1) have "r = None \<and> (s' = s \<or> s' = s1)" by (simp add: kernel_stop_def split: if_splits)
  then show ?thesis using assms(1) s1(2,3) by auto
qed

lemma erase_agrees:
  assumes "agrees s" "\<not> bound (sys_ctl s) t"
  shows "agrees (s\<lparr>sys_ctl := erased (sys_ctl s) t, sys_mem := mem\<rparr>)" "bound (erased (sys_ctl s) t) = bound (sys_ctl s)"
    "c_cpu_owner (erased (sys_ctl s) t) = c_cpu_owner (sys_ctl s)"
    "mappings_ok mem0 (sys_ctl s) mem \<Longrightarrow> mappings_ok mem0 (erased (sys_ctl s) t) mem"
proof -
  have "ctl_inv (sys_ctl s)" using assms(1) by (simp add: agrees_def)
  note er = ctl_inv_erase [OF this assms(2), folded erased_def]
  show "agrees (s\<lparr>sys_ctl := erased (sys_ctl s) t, sys_mem := mem\<rparr>)" using assms(1) er by (simp add: agrees_def erased_def)
  show "bound (erased (sys_ctl s) t) = bound (sys_ctl s)" by (rule er(2))
  show "c_cpu_owner (erased (sys_ctl s) t) = c_cpu_owner (sys_ctl s)" by (simp add: erased_def)
  have rg: "region (erased (sys_ctl s) t) u = region (sys_ctl s) u" if "bound (sys_ctl s) u" for u
    using that assms(2) by (cases "u = t") (simp_all add: region_def erased_def)
  show "mappings_ok mem0 (sys_ctl s) mem \<Longrightarrow> mappings_ok mem0 (erased (sys_ctl s) t) mem"
    using mappings_cong [of "erased (sys_ctl s) t" "sys_ctl s" mem0 mem] er(2) rg by simp
qed

text \<open>A registration succeeds completely or leaves nothing behind.\<close>

lemma register_thread:
  assumes "agrees s" "register_thread_locked io cv t s = (r, s')"
  shows "agrees s'" "r = None \<Longrightarrow> bound (sys_ctl s') = (\<lambda>u. u = t \<or> bound (sys_ctl s) u)"
    "r \<noteq> None \<Longrightarrow> bound (sys_ctl s') = bound (sys_ctl s) \<and> c_cpu_owner (sys_ctl s') = c_cpu_owner (sys_ctl s)"
    "(\<forall>n. cv_mmap cv t n \<noteq> 0) \<Longrightarrow> mappings_ok mem0 (sys_ctl s) (sys_mem s) \<Longrightarrow> mappings_ok mem0 (sys_ctl s') (sys_mem s')"
proof -
  have inv: "ctl_inv (sys_ctl s)" "dev_ok (sys_dev s)" using assms(1) by (simp_all add: agrees_def)
  let ?g = "\<lambda>r s'. agrees s' \<and> (r = None \<longrightarrow> bound (sys_ctl s') = (\<lambda>u. u = t \<or> bound (sys_ctl s) u)) \<and>
    (r \<noteq> None \<longrightarrow> bound (sys_ctl s') = bound (sys_ctl s) \<and> c_cpu_owner (sys_ctl s') = c_cpu_owner (sys_ctl s)) \<and>
    ((\<forall>n. cv_mmap cv t n \<noteq> 0) \<and> mappings_ok mem0 (sys_ctl s) (sys_mem s) \<longrightarrow> mappings_ok mem0 (sys_ctl s') (sys_mem s'))"
  from inv(1) assms(2) have "?g r s'"
  proof (cases rule: register_thread_cases)
    case bound
    then show ?thesis using assms(1) by (auto simp: fun_eq_iff)
  next
    case (failed e)
    then show ?thesis using erase_agrees(1) [OF assms(1) failed(1), of "sys_mem s"] erase_agrees(2-4) [OF assms(1) failed(1)] by simp
  next
    case (refused n scratch bytes e rep d)
    note law = io_register [OF inv(2) refused(4) [unfolded register_cmd_def]] io_ok [OF inv(2) refused(4)]
    have "agrees s'" using erase_agrees(1) [OF assms(1) refused(1), of "sys_mem s'"] law by (simp add: refused(6) agrees_def)
    moreover have "(\<forall>n. cv_mmap cv t n \<noteq> 0) \<longrightarrow> sys_mem s' = sys_mem s" using refused(2,3) by (simp add: refused(6) munmap_def)
    ultimately show ?thesis using erase_agrees(2-4) [OF assms(1) refused(1)] by (simp add: refused(5,6))
  next
    case (registered n scratch bytes rep d)
    note law = io_register [OF inv(2) registered(7) [unfolded register_cmd_def]] io_ok [OF inv(2) registered(7)]
    let ?b = "new_binding cv t n scratch bytes"
    have c': "sys_ctl s' = (sys_ctl s)\<lparr>c_cpu_owner := (c_cpu_owner (sys_ctl s))[nat (tb_cpu ?b) := 1],
        c_threads := (c_threads (sys_ctl s))(t \<mapsto> ?b)\<rparr>"
      by (simp add: registered(9) taken_cpu_def erased_def new_binding_def)
    have "ctl_inv (sys_ctl s')" unfolding c'
      by (rule ctl_inv_bind [OF inv(1) registered(1)]) (simp_all add: new_binding_def registered(4-6))
    moreover have bd: "bound (sys_ctl s') u = (u = t \<or> bound (sys_ctl s) u)" for u
      unfolding c' by (simp add: bound_def new_binding_def)
    moreover have "mappings_ok mem0 (sys_ctl s) (sys_mem s) \<Longrightarrow> mappings_ok mem0 (sys_ctl s') (sys_mem s')"
      using mappings_bind [OF _ registered(1), of mem0 "sys_mem s" ?b "sys_ctl s'"] law(1) registered(3)
      unfolding c' by (simp add: new_binding_def registered(9))
    ultimately show ?thesis using law assms(1) c' registered(8,9) by (auto simp: agrees_def)
  qed
  then show "agrees s'" "r = None \<Longrightarrow> bound (sys_ctl s') = (\<lambda>u. u = t \<or> bound (sys_ctl s) u)"
    "r \<noteq> None \<Longrightarrow> bound (sys_ctl s') = bound (sys_ctl s) \<and> c_cpu_owner (sys_ctl s') = c_cpu_owner (sys_ctl s)"
    "(\<forall>n. cv_mmap cv t n \<noteq> 0) \<Longrightarrow> mappings_ok mem0 (sys_ctl s) (sys_mem s) \<Longrightarrow> mappings_ok mem0 (sys_ctl s') (sys_mem s')"
    by blast+
qed

lemma unregister_thread:
  assumes "agrees s" "unregister_thread_locked io cv t s = (r, s')"
  shows "agrees s'" "r = None" "bound (sys_ctl s') = (\<lambda>u. u \<noteq> t \<and> bound (sys_ctl s) u)"
    "mappings_ok mem0 (sys_ctl s) (sys_mem s) \<Longrightarrow> mappings_ok mem0 (sys_ctl s') (sys_mem s')"
    "c_window_open (sys_ctl s') = c_window_open (sys_ctl s)"
proof -
  have inv: "ctl_inv (sys_ctl s)" "dev_ok (sys_dev s)" using assms(1) by (simp_all add: agrees_def)
  have "agrees s' \<and> r = None \<and> bound (sys_ctl s') = (\<lambda>u. u \<noteq> t \<and> bound (sys_ctl s) u) \<and>
    (mappings_ok mem0 (sys_ctl s) (sys_mem s) \<longrightarrow> mappings_ok mem0 (sys_ctl s') (sys_mem s')) \<and>
    c_window_open (sys_ctl s') = c_window_open (sys_ctl s)"
  proof (cases "bound (sys_ctl s) t")
    case False
    then have "r = None" "s' = s" using assms(2) by (auto simp: unregister_thread_locked_def bound_def split: option.splits)
    then show ?thesis using assms(1) False by (auto simp: fun_eq_iff)
  next
    case True
    then obtain b where b: "c_threads (sys_ctl s) t = Some b" "tb_active b" by (auto simp: bound_def split: option.splits)
    obtain ret rep d where io: "io (sys_dev s) (RDKIOC_UNREGISTER_THREAD (Some t)) = (ret, rep, d)"
      by (cases "io (sys_dev s) (RDKIOC_UNREGISTER_THREAD (Some t))")
    note law = io_unregister [OF inv(2) io] io_ok [OF inv(2) io]
    have ok: "ret = RetOk" using law(1) True assms(1) by (auto simp: agrees_def)
    let ?b = "b\<lparr>tb_active := False, tb_scratch := 0, tb_scratch_bytes := 0\<rparr>"
    let ?c = "(release_cpu_locked (tb_cpu b) (sys_ctl s))\<lparr>c_threads := (c_threads (sys_ctl s))(t \<mapsto> ?b)\<rparr>"
    have s': "r = None" "s' = s\<lparr>sys_dev := d, sys_mem := munmap (tb_scratch b) (tb_scratch_bytes b) (sys_mem s), sys_ctl := ?c\<rparr>"
      using assms(2) b io ok by (auto simp: unregister_thread_locked_def and_then_def ioctl_or_throw_def Let_def)
    have ci: "ctl_inv ?c" using inv(1) b by (intro ctl_inv_unbind) (auto simp: ctl_inv_def)
    have bd: "bound ?c u = (u \<noteq> t \<and> bound (sys_ctl s) u)" for u by (simp add: bound_def)
    have "mappings_ok mem0 (sys_ctl s) (sys_mem s) \<Longrightarrow> mappings_ok mem0 ?c (munmap (tb_scratch b) (tb_scratch_bytes b) (sys_mem s))"
      by (rule mappings_unbind [OF _ b, of _ _ ?b]) simp_all
    then show ?thesis using s' ci bd law assms(1) by (auto simp: agrees_def fun_eq_iff)
  qed
  then show "agrees s'" "r = None" "bound (sys_ctl s') = (\<lambda>u. u \<noteq> t \<and> bound (sys_ctl s) u)"
    "mappings_ok mem0 (sys_ctl s) (sys_mem s) \<Longrightarrow> mappings_ok mem0 (sys_ctl s') (sys_mem s')"
    "c_window_open (sys_ctl s') = c_window_open (sys_ctl s)" by blast+
qed

lemma register_threads_agree:
  "agrees s \<Longrightarrow> register_threads io cv ts s = (r, s') \<Longrightarrow>
   agrees s' \<and> (r = None \<longrightarrow> bound (sys_ctl s') = (\<lambda>u. u \<in> set ts \<or> bound (sys_ctl s) u)) \<and>
   ((\<forall>t n. cv_mmap cv t n \<noteq> 0) \<and> mappings_ok mem0 (sys_ctl s) (sys_mem s) \<longrightarrow> mappings_ok mem0 (sys_ctl s') (sys_mem s'))"
proof (induction ts arbitrary: s)
  case (Cons t ts)
  obtain r1 s1 where s1: "register_thread_locked io cv t s = (r1, s1)" by (cases "register_thread_locked io cv t s")
  note reg = register_thread [OF Cons.prems(1) s1]
  show ?case
  proof (cases r1)
    case None
    then have rest: "register_threads io cv ts s1 = (r, s')" using Cons.prems(2) s1 by (simp add: and_then_def)
    note IH = Cons.IH [OF reg(1) rest]
    show ?thesis using IH reg(4) [of mem0] reg(2) [OF None] by auto
  next
    case (Some e)
    then have "r = Some e" "s' = s1" using Cons.prems(2) s1 by (auto simp: and_then_def)
    then show ?thesis using reg(1,4) by blast
  qed
qed simp

lemma register_threads_flags:
  "agrees s \<Longrightarrow> register_threads io cv ts s = (r, s') \<Longrightarrow> c_explicit_window_seen (sys_ctl s') = c_explicit_window_seen (sys_ctl s)"
proof (induction ts arbitrary: s)
  case (Cons t ts)
  obtain r1 s1 where s1: "register_thread_locked io cv t s = (r1, s1)" by (cases "register_thread_locked io cv t s")
  have inv: "ctl_inv (sys_ctl s)" using Cons.prems(1) by (simp add: agrees_def)
  from inv s1 have "c_explicit_window_seen (sys_ctl s1) = c_explicit_window_seen (sys_ctl s)"
    by (cases rule: register_thread_cases) (simp_all add: taken_cpu_def erased_def)
  with Cons show ?case using register_thread(1) [OF Cons.prems(1) s1] s1 by (cases r1) (auto simp: and_then_def)
qed simp

lemma configure_frame:
  assumes "agrees s" "configure_session io cv s = (r, s')"
  shows "agrees s' \<and> sys_ctl s' = sys_ctl s \<and> sys_mem s' = sys_mem s"
proof -
  obtain r1 s1 where s1: "ioctl_or_throw io cv ''RDKIOC_CONFIG_SESSION'' (RDKIOC_CONFIG_SESSION (Some (session_cfg (sys_ctl s)))) s = (r1, s1)"
    by (cases "ioctl_or_throw io cv ''RDKIOC_CONFIG_SESSION'' (RDKIOC_CONFIG_SESSION (Some (session_cfg (sys_ctl s)))) s")
  have q1: "agrees s1 \<and> sys_ctl s1 = sys_ctl s \<and> sys_mem s1 = sys_mem s" by (rule quiet_ioctl [OF assms(1) _ s1]) simp
  show ?thesis
  proof (cases r1)
    case None
    then have "ioctl_or_throw io cv ''RDKIOC_LOAD_TARGETS'' (RDKIOC_LOAD_TARGETS (Some \<lparr>targets_ptr = cv_targets_ptr cv,
        batch_count = of_nat (length (map uapi_target (c_targets (sys_ctl s))))\<rparr>)) s1 = (r, s')"
      using assms(2) s1 by (simp add: configure_session_def and_then_def)
    from quiet_ioctl [OF conjunct1 [OF q1] _ this] q1 show ?thesis by simp
  next
    case (Some e)
    then show ?thesis using assms(2) s1 q1 by (simp add: configure_session_def and_then_def)
  qed
qed

lemma configure_agrees:
  "agrees s \<Longrightarrow> configure_session io cv s = (r, s') \<Longrightarrow> agrees s'"
  using configure_frame by blast

text \<open>A construction that succeeds leaves an open fallback window and every initial thread registered.\<close>

lemma construct:
  assumes "dev_ok d" "\<not> dev_running d" "dev_live d = {}" "TargetedRdProfiler io cv nm pin d mem = (None, s)"
  shows "agrees s" "c_window_open (sys_ctl s)" "c_auto_fallback_active (sys_ctl s)" "\<not> c_explicit_window_seen (sys_ctl s)"
    "\<exists>tids. get_threads cv 0 = Inr tids \<and> (\<forall>t. bound (sys_ctl s) t \<longleftrightarrow> t \<in> set tids)"
    "(\<forall>t n. cv_mmap cv t n \<noteq> 0) \<Longrightarrow> mappings_ok mem (sys_ctl s) (sys_mem s)"
proof -
  from assms(4) obtain c1 s2 s3 s4 s5 where c1: "read_settings cv (initial_controller cv nm pin) = Inr c1"
    and st: "load_targets_into cv \<lparr>sys_ctl = c1, sys_dev = d, sys_mem = mem\<rparr> = (None, s2)" "configure_session io cv s2 = (None, s3)"
      "register_initial_threads io cv s3 = (None, s4)" "start_window_locked io cv s4 = (None, s5)"
      "s = upd_ctl (\<lambda>c. c\<lparr>c_auto_fallback_active := True\<rparr>) s5"
    by (auto simp: TargetedRdProfiler_def Let_def and_then_def split: sum.splits if_splits option.splits prod.splits)
  note fresh = read_settings_fresh [OF c1]
  note fr = load_targets_into_frame [OF st(1), simplified]
  have a2: "agrees s2" using assms(1-3) fresh fr by (simp add: agrees_def)
  have m2: "mappings_ok mem (sys_ctl s2) (sys_mem s2)" using fr(2,5) fresh(2) by (simp add: mappings_ok_def)
  note q2 = configure_frame [OF a2 st(2)]
  from st(3) obtain tids where tids: "get_threads cv 0 = Inr tids" "register_threads io cv tids s3 = (None, s4)"
    by (auto simp: register_initial_threads_def split: sum.splits)
  note rg = register_threads_agree [OF conjunct1 [OF q2] tids(2), of mem]
  obtain d5 where s5: "agrees s5" "c_window_open (sys_ctl s5)" "s5 = s4\<lparr>sys_dev := d5, sys_ctl := (sys_ctl s4)\<lparr>c_window_open := True\<rparr>\<rparr>"
    using start_window [OF conjunct1 [OF rg], of cv] st(4) by auto
  show "agrees s" "c_window_open (sys_ctl s)" "c_auto_fallback_active (sys_ctl s)" using s5(1,2) by (simp_all add: st(5) agrees_def)
  have "\<not> c_explicit_window_seen (sys_ctl s3)" using q2 fr(6) fresh(4) by simp
  then show "\<not> c_explicit_window_seen (sys_ctl s)"
    using register_threads_flags [OF conjunct1 [OF q2] tids(2)] by (simp add: st(5) s5(3))
  have "\<not> bound (sys_ctl s3) t" for t using q2 fr(2) fresh(2) by simp
  then show "\<exists>tids. get_threads cv 0 = Inr tids \<and> (\<forall>t. bound (sys_ctl s) t \<longleftrightarrow> t \<in> set tids)"
    using rg tids(1) by (simp add: st(5) s5(3))
  have m3: "mappings_ok mem (sys_ctl s3) (sys_mem s3)" using m2 q2 by simp
  have cg: "mappings_ok mem (c\<lparr>c_window_open := w, c_auto_fallback_active := v\<rparr>) m = mappings_ok mem c m" for c w v m
    by (rule mappings_cong) (simp_all add: region_def)
  show "mappings_ok mem (sys_ctl s) (sys_mem s)" if "\<forall>t n. cv_mmap cv t n \<noteq> 0"
    using rg that m3 by (simp add: st(5) s5(3) cg)
qed

end

end
