(* ===== verification/Report_Correct.thy ===== *)
theory Report_Correct
  imports Report Controller_Correct
begin

text \<open>
  Facts about the writers: the table files can be read back, a writer leaves the device in order,
  a reopened file forgets what it held, and the destructor releases everything.
\<close>

subsection \<open>Reading a table back\<close>

definition plain :: "string \<Rightarrow> bool" where
  "plain s \<longleftrightarrow> s \<noteq> [] \<and> (\<forall>c\<in>set s. \<not> isspace c)"

lemma plain_texts [simp]: "plain (dec v)" "plain (hex0x w)"
proof -
  have "\<not> isspace c" if "c \<in> set (hex_u64 w)" for c
    using that set_show_base [of 16 c "unat w"] digit_not_space by (auto simp: hex_u64_def)
  then show "plain (hex0x w)" by (auto simp: plain_def hex0x_def isspace_def)
  show "plain (dec v)" using set_show_dec digit_not_space by (auto simp: plain_def dec_def)
qed

lemma plain_delims: "plain s \<Longrightarrow> CHR 0x09 \<notin> set s \<and> CHR 0x0A \<notin> set s"
  by (auto simp: plain_def isspace_def)

lemma join_no_newline: "\<forall>p\<in>set ps. plain p \<Longrightarrow> CHR 0x0A \<notin> set (join_with (CHR 0x09) ps)"
  by (induction "CHR 0x09" ps rule: join_with.induct) (auto dest: plain_delims)

lemma split_row:
  assumes "cols \<noteq> []" "\<forall>p\<in>set cols. plain p"
  shows "split_tab (join_with (CHR 0x09) cols) = cols"
proof -
  have "\<forall>p\<in>set cols. CHR 0x09 \<notin> set p" using assms(2) plain_delims by blast
  moreover have "last cols \<noteq> []" using assms by (simp add: plain_def)
  ultimately show ?thesis unfolding split_tab_def using assms(1) by (intro getline_all_join)
qed

lemma lines_of_rows:
  "\<forall>cols\<in>set rows. \<forall>p\<in>set cols. plain p \<Longrightarrow> lines_of (concat (map row rows)) = map (join_with (CHR 0x09)) rows"
proof (induction rows)
  case (Cons cols rows)
  then have "CHR 0x0A \<notin> set (join_with (CHR 0x09) cols)" by (simp add: join_no_newline)
  then have "lines_of (row cols @ rest) = join_with (CHR 0x09) cols # lines_of rest" for rest
    by (simp add: lines_of_def row_def getline_all_Cons)
  with Cons show ?case by simp
qed (simp add: lines_of_def)

text \<open>A reader of a table file: the cells of every line after the title line.\<close>

definition read_table :: "string \<Rightarrow> string list list" where
  "read_table txt = map split_tab (tl (lines_of txt))"

definition count_column :: "string \<Rightarrow> u64" where
  "count_column txt = sum_list (map (\<lambda>cols. fst (strtoull 10 (last cols))) (read_table txt))"

lemma read_table_rows:
  assumes "\<forall>cols\<in>set (title # rows). cols \<noteq> [] \<and> (\<forall>p\<in>set cols. plain p)"
  shows "read_table (concat (map row (title # rows))) = rows"
proof -
  have "lines_of (concat (map row (title # rows))) = map (join_with (CHR 0x09)) (title # rows)"
    using assms by (intro lines_of_rows) simp
  moreover have "map (split_tab \<circ> join_with (CHR 0x09)) rows = rows" using assms split_row by (intro map_idI) simp
  ultimately show ?thesis by (simp add: read_table_def)
qed

subsection \<open>Operations and writers\<close>

lemma out_text_append: "out_text path (xs @ ys) old = out_text path ys (out_text path xs old)"
  by (induction path xs old rule: out_text.induct) simp_all

lemma out_text_puts: "out_text path (map (FPut path) texts) old = old @ concat texts"
  by (induction texts arbitrary: old) simp_all

lemma write_all_append:
  "write_all (xs @ ys) d = (case write_all xs d of (Some e, ops, d1) \<Rightarrow> (Some e, ops, d1)
     | (None, ops, d1) \<Rightarrow> (case write_all ys d1 of (r, ops', d2) \<Rightarrow> (r, ops @ ops', d2)))"
  by (induction xs arbitrary: d) (auto split: prod.splits option.splits)

text \<open>A loop of writers that neither throw nor change the device.\<close>

lemma write_all_steady:
  "\<forall>i\<in>set is. w i d = (None, g i, d) \<Longrightarrow> write_all (map w is) d = (None, concat (map g is), d)"
  by (induction "is") simp_all

text \<open>What holds of the device before holds after, when every command keeps it.\<close>

definition keeps :: "('d \<Rightarrow> bool) \<Rightarrow> 'd writer \<Rightarrow> bool" where
  "keeps P w \<longleftrightarrow> (\<forall>d. P d \<longrightarrow> P (snd (snd (w d))))"

lemma keeps_emit [simp]: "keeps P (emit ops)" "keeps P (open_file cv path)" "keeps P (write_dwarf_event cv a b rep)"
  by (simp_all add: keeps_def emit_def open_file_def write_dwarf_event_def split: rd_reply.split)

lemma keeps_write_all: "\<forall>w\<in>set ws. keeps P w \<Longrightarrow> keeps P (write_all ws)"
proof (induction ws)
  case (Cons w ws)
  show ?case unfolding keeps_def
  proof (intro allI impI)
    fix d assume "P d"
    moreover obtain r ops d1 where w: "w d = (r, ops, d1)" by (cases "w d")
    ultimately have "P d1" using Cons.prems by (auto simp: keeps_def)
    then show "P (snd (snd (write_all (w # ws) d)))"
      using Cons w by (cases r) (auto simp: keeps_def split: prod.splits)
  qed
qed (simp add: keeps_def)

subsection \<open>Writers and the destructor over a device\<close>

context rd_device
begin

lemma keeps_query: "(\<And>rep. keeps dev_ok (k rep)) \<Longrightarrow> keeps dev_ok (query io cv name cmd k)"
  unfolding keeps_def query_def by (auto split: prod.split kret.split dest: io_ok)

lemma keeps_thread_files:
  "keeps dev_ok (write_thread_histograms io cv c st ti)" "keeps dev_ok (write_thread_pair_histograms io cv c st ti)"
  "keeps dev_ok (write_thread_contexts io cv c st ti)" "keeps dev_ok (write_thread_dwarf_events io cv c st ti)"
proof -
  show "keeps dev_ok (write_thread_histograms io cv c st ti)" "keeps dev_ok (write_thread_pair_histograms io cv c st ti)"
    "keeps dev_ok (write_thread_contexts io cv c st ti)"
    unfolding write_thread_histograms_def write_thread_pair_histograms_def write_thread_contexts_def Let_def
    by (rule keeps_write_all, auto intro!: keeps_query)+
  have "keeps dev_ok (write_all (emit ops # map (\<lambda>i. query io cv n (cmd i) (write_dwarf_event cv a b)) is))" for ops n cmd a b "is"
    by (rule keeps_write_all) (auto intro!: keeps_query)
  then have loop: "dev_ok d \<Longrightarrow> dev_ok (snd (snd (write_all (emit ops # map (\<lambda>i. query io cv n (cmd i) (write_dwarf_event cv a b)) is) d)))"
    for d ops n cmd a b "is" unfolding keeps_def by blast
  show "keeps dev_ok (write_thread_dwarf_events io cv c st ti)"
    unfolding keeps_def write_thread_dwarf_events_def Let_def
    by (simp del: write_all.simps) (intro impI allI, rule loop)
qed

lemma keeps_threads: "(\<And>sts. keeps dev_ok (k sts)) \<Longrightarrow> keeps dev_ok (write_threads io cv c info is sts k)"
proof (induction "is" arbitrary: sts)
  case Nil
  then show ?case by (simp add: keeps_def)
next
  case (Cons i "is")
  have t: "keeps dev_ok (write_thread io cv c info j st)" for j st
    unfolding write_thread_def by (rule keeps_write_all) (auto simp: keeps_thread_files)
  have "keeps dev_ok (query io cv n cmd (\<lambda>rep. let st = stats_reply (of_nat i) rep
      in write_all [write_thread io cv c info (of_nat i) st, write_threads io cv c info is (sts @ [st]) k]))" for n cmd
    using Cons t by (intro keeps_query) (auto simp: Let_def intro!: keeps_write_all)
  then show ?case by (simp add: keeps_def)
qed

lemma keeps_info: "keeps dev_ok (write_info io cv c)"
  unfolding write_info_def Let_def by (rule keeps_query, rule keeps_write_all) (auto intro!: keeps_threads)

lemma unregister_all_spec:
  "agrees s \<Longrightarrow> \<exists>s'. unregister_all io cv ts s = (None, s') \<and> agrees s' \<and>
     bound (sys_ctl s') = (\<lambda>u. u \<notin> set ts \<and> bound (sys_ctl s) u) \<and> c_window_open (sys_ctl s') = c_window_open (sys_ctl s) \<and>
     (mappings_ok mem0 (sys_ctl s) (sys_mem s) \<longrightarrow> mappings_ok mem0 (sys_ctl s') (sys_mem s'))"
proof (induction ts arbitrary: s)
  case (Cons t ts)
  obtain r s1 where s1: "unregister_thread_locked io cv t s = (r, s1)" by fastforce
  note un = unregister_thread [OF Cons.prems s1]
  show ?case
  proof (cases "bound (sys_ctl s) t")
    case True
    with Cons.IH [OF un(1)] s1 un show ?thesis by (auto simp: and_then_def)
  next
    case False
    with Cons.IH [OF Cons.prems] show ?thesis by (auto simp: and_then_def)
  qed
qed (simp add: fun_eq_iff)

lemma destroy_spec:
  assumes "agrees s" "mappings_ok mem0 (sys_ctl s) (sys_mem s)"
    and "{t. bound (sys_ctl s) t} \<subseteq> set (cv_thread_walk cv (c_threads (sys_ctl s)))"
  obtains r ops s' d where "destroy_profiler io cv close s = (r, ops, s'\<lparr>sys_dev := close d\<rparr>)" "dev_ok d" "ctl_inv (sys_ctl s')"
    "\<not> c_window_open (sys_ctl s')" "\<forall>t. \<not> bound (sys_ctl s') t" "mset (sys_mem s') = mset mem0"
proof -
  obtain s1 where s1: "stop_window_locked io cv s = (None, s1)" "agrees s1" "\<not> c_window_open (sys_ctl s1)"
    "\<exists>d. s1 = s\<lparr>sys_dev := d, sys_ctl := (sys_ctl s)\<lparr>c_window_open := False\<rparr>\<rparr>" by (rule stop_window [OF assms(1)])
  then have c1: "c_threads (sys_ctl s1) = c_threads (sys_ctl s)" "sys_mem s1 = sys_mem s" "bound (sys_ctl s1) = bound (sys_ctl s)" by auto
  have m1: "mappings_ok mem0 (sys_ctl s1) (sys_mem s1)"
    using assms(2) mappings_cong [of "sys_ctl s1" "sys_ctl s" mem0 "sys_mem s"] c1 by (simp add: region_def)
  obtain s2 where s2: "unregister_all io cv (cv_thread_walk cv (c_threads (sys_ctl s1))) s1 = (None, s2)" "agrees s2"
    "bound (sys_ctl s2) = (\<lambda>u. u \<notin> set (cv_thread_walk cv (c_threads (sys_ctl s1))) \<and> bound (sys_ctl s1) u)"
    "c_window_open (sys_ctl s2) = c_window_open (sys_ctl s1)" "mappings_ok mem0 (sys_ctl s2) (sys_mem s2)"
    using unregister_all_spec [OF s1(2), of cv _ mem0] m1 by blast
  have stop: "(if c_window_open (sys_ctl s) then stop_window_locked io cv s else (None, s)) = (None, s1)"
    using s1(1) by (auto simp: stop_window_locked_def split: if_splits)
  obtain r ops d where w: "write_info io cv (sys_ctl s2) (sys_dev s2) = (r, ops, d)" by (cases "write_info io cv (sys_ctl s2) (sys_dev s2)")
  have nb: "\<forall>t. \<not> bound (sys_ctl s2) t" using assms(3) c1 s2(3) by auto
  show thesis
  proof (rule that [where r = r and ops = ops and s' = s2 and d = d])
    show "destroy_profiler io cv close s = (r, ops, s2\<lparr>sys_dev := close d\<rparr>)"
      using s2(1) w by (simp add: destroy_profiler_def and_then_def stop)
    show "dev_ok d" using keeps_info [of cv "sys_ctl s2"] s2(2) w by (auto simp: keeps_def agrees_def)
    show "mset (sys_mem s2) = mset mem0" using s2(5) nb by (simp add: mappings_ok_def)
  qed (use s2(2,4) s1(3) nb in \<open>simp_all add: agrees_def\<close>)
qed

end

end
