(* ===== verification/Kernel_Device.thy ===== *)
theory Kernel_Device
  imports Report_Correct Module_Safety
begin

text \<open>
  The kernel module as the device that the controller drives: the ioctl interface of one open
  file provides the laws of \<open>rd_device\<close>.
\<close>

definition dev_io :: "kenv \<Rightarrow> nat \<Rightarrow> rd_module dev_io" where
  "dev_io env f m cmd =
     (case rd_wpctl_ioctl env m f cmd of
        None \<Rightarrow> (RetErr EFAULT, NoReply, m)
      | Some (ret, rep, evs, m') \<Rightarrow> (ret, rep, m'))"

definition kernel_ok :: "kenv \<Rightarrow> nat \<Rightarrow> rd_module \<Rightarrow> bool" where
  "kernel_ok env f m \<longleftrightarrow> module_inv m \<and> user_targets_ok env \<and> files m f \<noteq> None"

definition kernel_running :: "nat \<Rightarrow> rd_module \<Rightarrow> bool" where
  "kernel_running f m = (case files m f of None \<Rightarrow> False | Some s \<Rightarrow> running s)"

definition roster :: "rd_session \<Rightarrow> (int \<times> bool) list" where
  "roster s = map (\<lambda>t. (tid t, active t)) (threads s)"

definition live_tids :: "rd_session \<Rightarrow> int set" where
  "live_tids s = {t. (t, True) \<in> set (roster s)}"

definition kernel_live :: "nat \<Rightarrow> rd_module \<Rightarrow> int set" where
  "kernel_live f m = (case files m f of None \<Rightarrow> {} | Some s \<Rightarrow> live_tids s)"

lemma live_tids_alt: "live_tids s = {tid t | t. t \<in> set (threads s) \<and> active t}"
  by (auto simp: live_tids_def roster_def)

lemma live_tids_nth: "u \<in> live_tids s \<longleftrightarrow> (\<exists>j<length (threads s). active (threads s ! j) \<and> tid (threads s ! j) = u)"
  by (auto simp: live_tids_alt in_set_conv_nth)

subsection \<open>What each command does to the window and the roster\<close>

lemma those_map_keeps:
  "those (map g ts) = Some ts' \<Longrightarrow> (\<And>t t'. g t = Some t' \<Longrightarrow> k t' = k t) \<Longrightarrow> map k ts' = map k ts"
proof (induction ts arbitrary: ts')
  case (Cons t ts)
  then show ?case by (auto split: option.splits)
qed simp

lemma events_keep_roster:
  "rd_enable_thread_events env s t = Some t' \<Longrightarrow> (tid t', active t') = (tid t, active t)"
  "rd_disable_thread_events env s t = Some t' \<Longrightarrow> (tid t', active t') = (tid t, active t)"
  by (auto simp: rd_enable_thread_events_def rd_disable_thread_events_def Let_def bind_eq_Some_conv)

lemma start_window_roster:
  assumes "rd_start_window env s = Some s'"
  shows "running s' \<and> roster s' = roster s"
proof -
  have k: "(tid t', active t') = (tid t, active t)"
    if "(if active t then rd_enable_thread_events env (s\<lparr>running := True\<rparr>) t else Some t) = Some t'" for t t'
    using that by (cases "active t") (simp_all only: if_True if_False events_keep_roster option.inject)
  from assms obtain ts where ts: "those (map (\<lambda>t. if active t then rd_enable_thread_events env (s\<lparr>running := True\<rparr>) t else Some t)
      (threads s)) = Some ts" "s' = s\<lparr>running := True, threads := ts\<rparr>" by (auto simp: rd_start_window_def Let_def bind_eq_Some_conv)
  from those_map_keeps [OF ts(1) k] ts(2) show ?thesis by (simp add: roster_def)
qed

lemma stop_window_roster:
  assumes "rd_stop_window env s = Some s'"
  shows "\<not> running s' \<and> roster s' = roster s"
proof -
  have k: "(tid t', active t') = (tid t, active t)"
    if "(if active t then rd_disable_thread_events env (s\<lparr>running := False\<rparr>) t else Some t) = Some t'" for t t'
    using that by (cases "active t") (simp_all only: if_True if_False events_keep_roster option.inject)
  from assms obtain ts where ts: "those (map (\<lambda>t. if active t then rd_disable_thread_events env (s\<lparr>running := False\<rparr>) t else Some t)
      (threads s)) = Some ts" "s' = s\<lparr>running := False, threads := ts\<rparr>" by (auto simp: rd_stop_window_def Let_def bind_eq_Some_conv)
  from those_map_keeps [OF ts(1) k] ts(2) show ?thesis by (simp add: roster_def)
qed

lemma reset_session_roster:
  assumes "session_inv s" "rd_reset_session_locked env s = Some (ret, s')"
  shows "running s' = running s \<and> roster s' = roster s"
proof (cases "running s")
  case True
  then show ?thesis using assms(2) by (simp add: rd_reset_session_locked_def)
next
  case False
  have "thread_inv s 0 t" if "t \<in> set (threads s)" for t using assms(1) that by (simp add: session_inv_def)
  from reset_threads_inv [OF this] obtain ret' ts where ts:
    "rd_reset_threads env s RetOk (threads s) = Some (ret', ts)" "length ts = length (threads s)"
    "\<And>i. i < length (threads s) \<Longrightarrow> thread_inv s 0 (ts ! i) \<and> after_reset s (threads s ! i) (ts ! i)" by blast
  have "tid (ts ! i) = tid (threads s ! i) \<and> active (ts ! i) = active (threads s ! i)" if "i < length (threads s)" for i
    using ident_refs [of "ts ! i" "threads s ! i"] ts(3) [OF that] by (simp add: after_reset_def)
  then have "roster (s\<lparr>threads := ts\<rparr>) = roster s" using ts(2) by (simp add: roster_def list_eq_iff_nth_eq)
  moreover have "s' = s\<lparr>threads := ts\<rparr>" using assms(2) False ts(1) by (simp add: rd_reset_session_locked_def)
  ultimately show ?thesis by simp
qed

lemma config_roster: "rd_session_config_locked s cfg = (ret, s') \<Longrightarrow> running s' = running s \<and> roster s' = roster s"
  by (auto simp: rd_session_config_locked_def roster_def split: if_splits)

lemma load_roster: "rd_load_targets_locked env s b = (ret, s') \<Longrightarrow> running s' = running s \<and> roster s' = roster s"
  by (auto simp: rd_load_targets_locked_def roster_def split: if_splits sum.splits)

lemma register_roster:
  assumes "session_inv s" "rd_register_thread_locked env s reg = Some (ret, evs, s')"
  shows "running s' = running s \<and> live_tids s' = (if ret = RetOk then insert (reg_tid reg) (live_tids s) else live_tids s) \<and>
    (ret = RetOk \<longrightarrow> reg_scratch_base reg \<noteq> 0)"
  using assms(1)
proof (cases rule: register_inv [where env = env and arg = reg])
  case (failed ret' evs')
  then show ?thesis using assms(2) by simp
next
  case (registered t)
  then have "ret = RetOk" "s' = s\<lparr>threads := threads s @ [t]\<rparr>" using assms(2) by simp_all
  moreover have "reg_scratch_base reg \<noteq> 0" using registered(5) by (auto simp: register_ready_def)
  moreover have "live_tids (s\<lparr>threads := threads s @ [t]\<rparr>) = insert (reg_tid reg) (live_tids s)"
    using registered(3,4) by (auto simp: live_tids_def roster_def)
  ultimately show ?thesis by simp
qed

lemma unregister_roster:
  assumes "session_inv s" "rd_unregister_thread_locked env s t = Some (ret, evs, s')"
  shows "running s' = running s \<and> live_tids s' = live_tids s - {t} \<and> (t \<in> live_tids s \<longrightarrow> ret = RetOk)"
  using assms(1)
proof (cases rule: unregister_inv [where env = env and t = t])
  case absent
  then show ?thesis using assms(2) by (auto simp: find_active_None live_tids_alt)
next
  case (detached i t')
  have i: "i < length (threads s)" "tid (threads s ! i) = t" "active (threads s ! i)" using find_active_Some [OF detached(1)] by auto
  have uniq: "j = i" if "j < length (threads s)" "active (threads s ! j)" "tid (threads s ! j) = t" for j
    using assms(1) i that by (simp add: session_inv_def tids_ok_def)
  have s': "ret = RetOk" "s' = s\<lparr>threads := (threads s)[i := t']\<rparr>" using assms(2) detached(2) by simp_all
  have "u \<in> live_tids s' \<longleftrightarrow> u \<in> live_tids s \<and> u \<noteq> t" for u
  proof -
    have el: "active ((threads s)[i := t'] ! j) \<and> tid ((threads s)[i := t'] ! j) = u \<longleftrightarrow>
        j \<noteq> i \<and> active (threads s ! j) \<and> tid (threads s ! j) = u" if "j < length (threads s)" for j
      using that detached(4) by (cases "j = i") simp_all
    have "u \<in> live_tids s' \<longleftrightarrow> (\<exists>j<length (threads s). active ((threads s)[i := t'] ! j) \<and> tid ((threads s)[i := t'] ! j) = u)"
      unfolding s'(2) live_tids_nth by simp
    also have "\<dots> \<longleftrightarrow> (\<exists>j<length (threads s). j \<noteq> i \<and> active (threads s ! j) \<and> tid (threads s ! j) = u)"
      using el by blast
    also have "\<dots> \<longleftrightarrow> u \<in> live_tids s \<and> u \<noteq> t" unfolding live_tids_nth using i uniq by metis
    finally show ?thesis .
  qed
  then show ?thesis using s' by auto
qed

subsection \<open>The interface of an open file\<close>

lemma ioctl_session_roster:
  assumes "session_inv s" "rd_ioctl_session env s cmd = Some (ret, rep, evs, s')"
  shows "cmd = RDKIOC_START_WINDOW \<Longrightarrow> ret = RetOk \<and> running s' \<and> live_tids s' = live_tids s"
    "cmd = RDKIOC_STOP_WINDOW \<Longrightarrow> ret = RetOk \<and> \<not> running s' \<and> live_tids s' = live_tids s"
    "quiet cmd \<Longrightarrow> running s' = running s \<and> live_tids s' = live_tids s"
    "cmd = RDKIOC_REGISTER_THREAD (Some reg) \<Longrightarrow> rd_register_thread_locked env s reg = Some (ret, evs, s')"
    "cmd = RDKIOC_UNREGISTER_THREAD (Some t) \<Longrightarrow> rd_unregister_thread_locked env s t = Some (ret, evs, s')"
proof -
  note def = rd_ioctl_session_def Let_def
  show "ret = RetOk \<and> running s' \<and> live_tids s' = live_tids s" if "cmd = RDKIOC_START_WINDOW"
    using assms(2) that start_window_roster [of env s] by (auto simp: def live_tids_def)
  show "ret = RetOk \<and> \<not> running s' \<and> live_tids s' = live_tids s" if "cmd = RDKIOC_STOP_WINDOW"
    using assms(2) that stop_window_roster [of env s] by (auto simp: def live_tids_def)
  show "rd_register_thread_locked env s reg = Some (ret, evs, s')" if "cmd = RDKIOC_REGISTER_THREAD (Some reg)"
    using assms(2) that by (auto simp: def)
  show "rd_unregister_thread_locked env s t = Some (ret, evs, s')" if "cmd = RDKIOC_UNREGISTER_THREAD (Some t)"
    using assms(2) that by (auto simp: def)
  show "running s' = running s \<and> live_tids s' = live_tids s" if "quiet cmd"
  proof (cases cmd)
    case (RDKIOC_CONFIG_SESSION a)
    then show ?thesis using assms(2) config_roster [of s] by (cases a) (auto simp: def live_tids_def split: prod.splits)
  next
    case (RDKIOC_LOAD_TARGETS a)
    then show ?thesis using assms(2) load_roster [of env s] by (cases a) (auto simp: def live_tids_def split: prod.splits)
  next
    case RDKIOC_RESET_SESSION
    then show ?thesis using assms(2) reset_session_roster [OF assms(1), of env] by (auto simp: def live_tids_def)
  qed (use assms(2) that in \<open>auto simp: def split_beta\<close>)
qed

lemma dev_io_session:
  assumes "kernel_ok env f m" "dev_io env f m cmd = (ret, rep, m')"
  obtains s evs s' where "files m f = Some s" "session_inv s" "rd_ioctl_session env s cmd = Some (ret, rep, evs, s')"
    "files m' f = Some s'" "module_inv m'" "\<And>g. g \<noteq> f \<Longrightarrow> files m' g = files m g"
proof -
  from assms(1) obtain s where s: "files m f = Some s" "module_inv m" "user_targets_ok env" by (auto simp: kernel_ok_def)
  obtain ret' rep' evs m1 where m1: "rd_wpctl_ioctl env m f cmd = Some (ret', rep', evs, m1)" "module_inv m1"
    by (rule ioctl_inv [OF s(2,3)])
  then have eq: "ret' = ret" "rep' = rep" "m1 = m'" using assms(2) by (simp_all add: dev_io_def)
  from m1 s(1) obtain s' where "rd_ioctl_session env s cmd = Some (ret', rep', evs, s')" "files m1 = (files m)(f \<mapsto> s')"
    by (auto simp: rd_wpctl_ioctl_def bind_eq_Some_conv)
  with that [of s evs s'] s(1) module_inv_session [OF s(2,1)] m1(2) show thesis unfolding eq by simp
qed

interpretation kdev: rd_device "dev_io env f" "kernel_ok env f" "kernel_running f" "kernel_live f" for env f
proof
  fix m m' :: rd_module and cmd ret rep reg t
  show "kernel_ok env f m'" if "kernel_ok env f m" "dev_io env f m cmd = (ret, rep, m')"
    by (rule dev_io_session [OF that]) (use that(1) in \<open>simp add: kernel_ok_def\<close>)
  show "ret = RetOk \<and> kernel_running f m' \<and> kernel_live f m' = kernel_live f m"
    if "kernel_ok env f m" "dev_io env f m RDKIOC_START_WINDOW = (ret, rep, m')"
    by (rule dev_io_session [OF that]) (auto simp: kernel_running_def kernel_live_def dest: ioctl_session_roster(1))
  show "ret = RetOk \<and> \<not> kernel_running f m' \<and> kernel_live f m' = kernel_live f m"
    if "kernel_ok env f m" "dev_io env f m RDKIOC_STOP_WINDOW = (ret, rep, m')"
    by (rule dev_io_session [OF that]) (auto simp: kernel_running_def kernel_live_def dest: ioctl_session_roster(2))
  show "kernel_running f m' = kernel_running f m \<and> kernel_live f m' = kernel_live f m"
    if "kernel_ok env f m" "quiet cmd" "dev_io env f m cmd = (ret, rep, m')"
    by (rule dev_io_session [OF that(1,3)]) (use ioctl_session_roster(3) that(2) in \<open>simp add: kernel_running_def kernel_live_def\<close>)
  show "kernel_running f m' = kernel_running f m \<and>
      kernel_live f m' = (if ret = RetOk then insert (reg_tid reg) (kernel_live f m) else kernel_live f m) \<and>
      (ret = RetOk \<longrightarrow> reg_scratch_base reg \<noteq> 0)"
    if "kernel_ok env f m" "dev_io env f m (RDKIOC_REGISTER_THREAD (Some reg)) = (ret, rep, m')"
    by (rule dev_io_session [OF that])
       (use register_roster [OF _ ioctl_session_roster(4)] in \<open>simp add: kernel_running_def kernel_live_def\<close>)
  show "kernel_running f m' = kernel_running f m \<and> kernel_live f m' = kernel_live f m - {t} \<and> (t \<in> kernel_live f m \<longrightarrow> ret = RetOk)"
    if "kernel_ok env f m" "dev_io env f m (RDKIOC_UNREGISTER_THREAD (Some t)) = (ret, rep, m')"
    by (rule dev_io_session [OF that])
       (use unregister_roster [OF _ ioctl_session_roster(5)] in \<open>simp add: kernel_running_def kernel_live_def\<close>)
qed

end
