(* ===== verification/Profiler.thy ===== *)
theory Profiler
  imports Kernel_Device Kernel_Demo
begin

text \<open>
  The controller on top of the kernel module: the runs of a profiled process, in which the calls
  of the controller interleave with the probes and with other users of the module, and the
  agreement between the two sides that every run keeps.
\<close>

subsection \<open>Runs\<close>

text \<open>
  A run starts when the controller is constructed on a freshly opened file \<open>f\<close>.  Every call has its own
  environment on both sides; a call that throws leaves its state behind like any other.
\<close>

inductive profiler_run :: "nat \<Rightarrow> (u64 \<times> u64) list \<Rightarrow> rd_module rd_sys \<Rightarrow> bool" for f :: nat and mem :: "(u64 \<times> u64) list" where
  run_construct: "module_inv m \<Longrightarrow> files m f = Some (zero_session\<lparr>owner_tgid := g\<rparr>) \<Longrightarrow> user_targets_ok env \<Longrightarrow>
    (\<forall>t n. cv_mmap cv t n \<noteq> 0) \<Longrightarrow> TargetedRdProfiler (dev_io env f) cv nm pin m mem = (None, s) \<Longrightarrow> profiler_run f mem s"
| run_start: "profiler_run f mem s \<Longrightarrow> user_targets_ok env \<Longrightarrow> kernel_start (dev_io env f) cv s = (r, s') \<Longrightarrow> profiler_run f mem s'"
| run_stop: "profiler_run f mem s \<Longrightarrow> user_targets_ok env \<Longrightarrow> kernel_stop (dev_io env f) cv s = (r, s') \<Longrightarrow> profiler_run f mem s'"
| run_register: "profiler_run f mem s \<Longrightarrow> user_targets_ok env \<Longrightarrow> (\<forall>t n. cv_mmap cv t n \<noteq> 0) \<Longrightarrow>
    register_current_thread (dev_io env f) cv s = (r, s') \<Longrightarrow> profiler_run f mem s'"
| run_unregister: "profiler_run f mem s \<Longrightarrow> user_targets_ok env \<Longrightarrow>
    unregister_current_thread (dev_io env f) cv s = (r, s') \<Longrightarrow> profiler_run f mem s'"
| run_overflow: "profiler_run f mem s \<Longrightarrow> rd_perf_event_overflow_pre env (sys_dev s) event regs = Some m' \<Longrightarrow>
    profiler_run f mem (s\<lparr>sys_dev := m'\<rparr>)"
| run_watchpoint: "profiler_run f mem s \<Longrightarrow> rd_watchpoint_report_pre env (sys_dev s) event regs = Some m' \<Longrightarrow>
    profiler_run f mem (s\<lparr>sys_dev := m'\<rparr>)"
| run_other: "profiler_run f mem s \<Longrightarrow> rd_step (sys_dev s) m' \<Longrightarrow> files m' f = files (sys_dev s) f \<Longrightarrow>
    profiler_run f mem (s\<lparr>sys_dev := m'\<rparr>)"

subsection \<open>Agreement\<close>

definition in_step :: "nat \<Rightarrow> (u64 \<times> u64) list \<Rightarrow> rd_module rd_sys \<Rightarrow> bool" where
  "in_step f mem s \<longleftrightarrow> module_inv (sys_dev s) \<and> files (sys_dev s) f \<noteq> None \<and> ctl_inv (sys_ctl s) \<and>
     (c_window_open (sys_ctl s) \<longleftrightarrow> kernel_running f (sys_dev s)) \<and>
     (\<forall>t. bound (sys_ctl s) t \<longleftrightarrow> t \<in> kernel_live f (sys_dev s)) \<and> mappings_ok mem (sys_ctl s) (sys_mem s)"

lemma in_step_agrees:
  "user_targets_ok env \<Longrightarrow> in_step f mem s \<longleftrightarrow> kdev.agrees env f s \<and> mappings_ok mem (sys_ctl s) (sys_mem s)"
  by (auto simp: in_step_def kdev.agrees_def kernel_ok_def)

lemma mappings_threads:
  assumes "c_threads c' = c_threads c"
  shows "mappings_ok mem c' ms = mappings_ok mem c ms"
  using assms by (intro mappings_cong) (simp_all add: bound_def region_def)

text \<open>A step of the module that leaves the settings and the identities alone.\<close>

lemma kept_in_step:
  assumes "in_step f mem s" "module_inv m'" "kept (sys_dev s) m'"
  shows "in_step f mem (s\<lparr>sys_dev := m'\<rparr>)"
proof -
  from assms(1) obtain se where se: "files (sys_dev s) f = Some se" by (auto simp: in_step_def)
  from assms(3) have "rel_option (\<lambda>s s'. s' = s\<lparr>threads := threads s'\<rparr> \<and> map ident (threads s') = map ident (threads s))
      (files (sys_dev s) f) (files m' f)" by (simp add: kept_def)
  with se obtain se' where se': "files m' f = Some se'" "se' = se\<lparr>threads := threads se'\<rparr>"
    "map ident (threads se') = map ident (threads se)" by (cases "files m' f") auto
  have run: "running se' = running se" by (subst se'(2)) simp
  have "map (\<lambda>i. case i of ((k, ti, c, a, l), _) \<Rightarrow> (ti, a)) (map ident (threads x)) = roster x" for x
    by (simp add: roster_def ident_def comp_def)
  then have "roster se' = roster se" using se'(3) by metis
  then show ?thesis using assms(1,2) se se'(1) run
    by (simp add: in_step_def kernel_running_def kernel_live_def live_tids_def)
qed

lemma run_in_step: "profiler_run f mem s \<Longrightarrow> in_step f mem s"
proof (induction rule: profiler_run.induct)
  case (run_construct m g env cv nm pin s)
  have d: "kernel_ok env f m" "\<not> kernel_running f m" "kernel_live f m = {}"
    using run_construct(1-3) by (simp_all add: kernel_ok_def kernel_running_def kernel_live_def zero_session_def live_tids_def roster_def)
  from kdev.construct(1,6) [OF d run_construct(5)] run_construct(3,4) show ?case by (simp add: in_step_agrees [of env])
next
  case (run_start s env cv r s')
  have "kdev.agrees env f s" using run_start.IH run_start(2) by (simp add: in_step_agrees)
  from kdev.kernel_start_agrees [OF this run_start(3)] run_start.IH run_start(2) show ?case
    by (simp add: in_step_agrees [of env] mappings_threads [of "sys_ctl s'" "sys_ctl s"])
next
  case (run_stop s env cv r s')
  have "kdev.agrees env f s" using run_stop.IH run_stop(2) by (simp add: in_step_agrees)
  from kdev.kernel_stop_agrees [OF this run_stop(3)] run_stop.IH run_stop(2) show ?case
    by (simp add: in_step_agrees [of env] mappings_threads [of "sys_ctl s'" "sys_ctl s"])
next
  case (run_register s env cv r s')
  have "kdev.agrees env f s" using run_register.IH run_register(2) by (simp add: in_step_agrees)
  from kdev.register_thread(1,4) [OF this run_register(4) [unfolded register_current_thread_def]]
    run_register.IH run_register(2,3) show ?case by (simp add: in_step_agrees [of env])
next
  case (run_unregister s env cv r s')
  have "kdev.agrees env f s" using run_unregister.IH run_unregister(2) by (simp add: in_step_agrees)
  from kdev.unregister_thread(1,4) [OF this run_unregister(3) [unfolded unregister_current_thread_def]]
    run_unregister.IH run_unregister(2) show ?case by (simp add: in_step_agrees [of env])
next
  case (run_overflow s env event regs m')
  have "module_inv (sys_dev s)" using run_overflow.IH by (simp add: in_step_def)
  from overflow_inv [OF this, of env event regs] run_overflow(2) have "module_inv m'" "kept (sys_dev s) m'" by auto
  then show ?case by (rule kept_in_step [OF run_overflow.IH])
next
  case (run_watchpoint s env event regs m')
  have "module_inv (sys_dev s)" using run_watchpoint.IH by (simp add: in_step_def)
  from watchpoint_inv [OF this, of env event regs] run_watchpoint(2) have "module_inv m'" "kept (sys_dev s) m'" by auto
  then show ?case by (rule kept_in_step [OF run_watchpoint.IH])
next
  case (run_other s m')
  then have "module_inv m'" using rd_step_inv by (simp add: in_step_def)
  then show ?case using run_other.IH run_other(3) by (simp add: in_step_def kernel_running_def kernel_live_def)
qed

end
