(* ===== verification/Profiler_Demo.thy ===== *)
theory Profiler_Demo
  imports Profiler User_Demo
begin

text \<open>
  A run of the whole system: the controller is constructed on the demonstration environments and
  registers the one thread of its process on the processor where it runs.
\<close>

definition demo_stat :: string where
  "demo_stat = ''8 (app) S 1 1 1 0 0 0 0 0 0 0 0 0 0 0 0 0 0 0 0 0 0 0 0 0 0 0 0 0 0 0 0 0 0 0 0 2 0 0''"

definition demo_cv :: ctl_env where
  "demo_cv = \<lparr>cv_os = demo_os,
     cv_getenv = (\<lambda>v. if v = ''RD_TARGET_FILE'' then Some ''app.hotpc'' else if v = ''RD_WP_CAPACITY'' then Some ''1''
       else if v = ''RD_BP_CAPACITY'' then Some ''2'' else if v = ''RD_BP_SAMPLE_PERIOD'' then Some ''1000''
       else if v = ''RD_ENABLE'' then Some ''1'' else if v = ''RD_MODE'' then Some ''targeted_rd'' else if v = ''RD_NAME'' then Some ''out'' else None),
     cv_file = (\<lambda>p. if p = ''app.hotpc'' then Some demo_manifest else Some demo_stat),
     cv_can_create = (\<lambda>p. True), cv_write_ok = (\<lambda>p. True), cv_self_exe = Some ''/bin/app'', cv_open_device = None,
     cv_strerror = (\<lambda>e. ''error''), cv_gettid = 8, cv_nprocs = 4, cv_task_dir = Some [''8''], cv_page_size = 64,
     cv_sched_setaffinity = (\<lambda>t n. True), cv_mmap = (\<lambda>t n. 0x10000), cv_targets_ptr = 1, cv_hotspot_walk = id,
     cv_thread_walk = (\<lambda>m. [8])\<rparr>"

definition demo_ctl :: controller where
  "demo_ctl = (initial_controller demo_cv (Some ''out'') True)\<lparr>c_target_file := ''app.hotpc'', c_watchpoint_capacity := 1,
     c_bp_capacity := 2, c_bp_sample_period := 1000, c_main_binary_path := ''/bin/app'', c_cpu_owner := [0, 0, 0, 0]\<rparr>"

lemma demo_settings: "read_settings demo_cv (initial_controller demo_cv (Some ''out'') True) = Inr demo_ctl"
proof -
  have n: "fst (strtoll 10 ''1'') = 1" "fst (strtoll 10 ''2'') = 2" "fst (strtoll 10 ''1000'') = 1000" by code_simp+
  have v: "env_value demo_cv ''RD_TARGET_FILE'' = Some ''app.hotpc''" "env_value demo_cv ''RD_WP_CAPACITY'' = Some ''1''"
    "env_value demo_cv ''RD_BP_CAPACITY'' = Some ''2''" "env_value demo_cv ''RD_BP_SAMPLE_PERIOD'' = Some ''1000''"
    "env_value demo_cv ''RD_RD_EVENT'' = None" "env_value demo_cv ''RD_CALLCHAIN_MODE'' = None"
    "env_value demo_cv ''RD_DWARF_STACK_BYTES'' = None" "env_value demo_cv ''RD_DWARF_EVENT_CAPACITY'' = None"
    by (simp_all add: env_value_def demo_cv_def)
  have x: "read_self_exe_path demo_cv = ''/bin/app''"
    by (simp add: read_self_exe_path_def normalize_filesystem_path_def demo_cv_def demo_os_def)
  show ?thesis
    by (simp add: read_settings_def setting_def env_positive_def v n x read_event_name_def env_callchain_mode_def
        env_dwarf_stack_def number_or_def demo_ctl_def initial_controller_def Let_def)
       (simp add: demo_cv_def numeral_eq_Suc)
qed

definition demo_ctl2 :: controller where
  "demo_ctl2 = demo_ctl\<lparr>c_targets := demo_target_list, c_rejected_targets := demo_rejected, c_candidate_target_count := 2,
     c_capacity_truncated_target_count := 0\<rparr>"

lemma demo_load_into:
  "load_targets_into demo_cv \<lparr>sys_ctl = demo_ctl, sys_dev = d, sys_mem = []\<rparr> = (None, \<lparr>sys_ctl = demo_ctl2, sys_dev = d, sys_mem = []\<rparr>)"
proof -
  have "cv_os demo_cv = demo_os" "cv_hotspot_walk demo_cv = id" "cv_file demo_cv ''app.hotpc'' = Some demo_manifest"
    "c_target_file demo_ctl = ''app.hotpc''" "c_main_binary_path demo_ctl = ''/bin/app''" "c_bp_capacity demo_ctl = 2"
    by (simp_all add: demo_cv_def demo_ctl_def)
  then show ?thesis by (simp add: load_targets_into_def demo_load_targets demo_ctl2_def Let_def)
qed

text \<open>The device: opened, configured, loaded.\<close>

definition demo_dev :: "rd_session \<Rightarrow> rd_module" where
  "demo_dev s = \<lparr>files = [0 \<mapsto> s], rd_live_threads = [], rd_debug_tokens = 0\<rparr>"

lemma demo_dev_inv: "module_inv (demo_dev (zero_session\<lparr>owner_tgid := 7\<rparr>))"
proof -
  have "rd_reachable (snd (rd_wpctl_open demo_env (rd_module_init 0) 0))"
    by (rule rd_reachable.reach_step [OF rd_reachable.reach_init rd_step.step_open]) (simp add: rd_module_init_def)
  moreover have "snd (rd_wpctl_open demo_env (rd_module_init 0) 0) = demo_dev (zero_session\<lparr>owner_tgid := 7\<rparr>)"
    by (simp add: rd_wpctl_open_def rd_module_init_def demo_env_def demo_dev_def)
  ultimately show ?thesis using rd_reachable_inv by metis
qed

lemma demo_configure:
  "configure_session (dev_io demo_env 0) demo_cv \<lparr>sys_ctl = demo_ctl2, sys_dev = demo_dev (zero_session\<lparr>owner_tgid := 7\<rparr>), sys_mem = []\<rparr> =
     (None, \<lparr>sys_ctl = demo_ctl2, sys_dev = demo_dev (demo_session0\<lparr>running := False\<rparr>), sys_mem = []\<rparr>)"
proof -
  have "session_cfg demo_ctl2 = demo_cfg"
    by (simp add: session_cfg_def demo_ctl2_def demo_ctl_def initial_controller_def demo_cfg_def callchain_modes)
  moreover have "length (c_targets demo_ctl2) = 1" "cv_targets_ptr demo_cv = 1"
    by (simp_all add: demo_ctl2_def demo_target_list_def demo_cv_def)
  ultimately show ?thesis
    by (simp add: configure_session_def and_then_def ioctl_or_throw_def dev_io_def rd_wpctl_ioctl_def rd_ioctl_session_def
        demo_dev_def demo_config demo_load rd_update_live_def)
qed

lemma demo_cpu: "allocate_cpu_locked demo_cv (demo_ctl2\<lparr>c_threads := th\<rparr>) =
  Inr (2, demo_ctl2\<lparr>c_threads := th, c_cpu_owner := [0, 0, 1, 0]\<rparr>)"
proof -
  have p: "parse_cpu_from_tid_stat demo_cv 8 = 2"
  proof -
    have c: "cv_file demo_cv (''/proc/self/task/'' @ x) = Some demo_stat" for x by (simp add: demo_cv_def)
    have "lines_of demo_stat = [demo_stat]" "find_char (CHR ''('') 0 demo_stat = Some 2" "rfind_char (CHR '')'') demo_stat = Some 6"
      "nth_token 36 (drop 7 demo_stat) = Some ''2''" "atoi ''2'' = 2" by code_simp+
    then show ?thesis unfolding parse_cpu_from_tid_stat_def c by simp
  qed
  have st: "cpu_scan_start demo_cv (demo_ctl2\<lparr>c_threads := th\<rparr>) = 2"
    by (simp add: cpu_scan_start_def demo_ctl2_def demo_ctl_def initial_controller_def Let_def)
       (simp add: p demo_cv_def [THEN arg_cong, of cv_gettid] demo_cv_def [THEN arg_cong, of cv_nprocs])
  show ?thesis unfolding allocate_cpu_locked_def st
    by (simp add: demo_ctl2_def demo_ctl_def initial_controller_def Let_def upt_rec numeral_eq_Suc)
       (simp add: demo_cv_def upt_rec numeral_eq_Suc)
qed

lemma demo_setup_idle:
  "\<exists>t. rd_register_thread_locked demo_env (demo_session0\<lparr>running := False\<rparr>) demo_register =
     Some (RetOk, [], demo_session0\<lparr>running := False, threads := [t]\<rparr>)"
  by (simp add: rd_register_thread_locked_def demo_session0_def demo_register_def
      demo_env_def rd_find_active_thread_by_tid_def rd_check_thread_affinity_def
      rd_thread_setup_events_def rd_new_thread_def rd_alloc_arrays_def kcalloc_def rd_alloc_failed_def
      callchain_modes Let_def RD_IDLE_WP_LEN_def HW_BREAKPOINT_LEN_8_def rd_copy_target_def demo_target_def)

lemma demo_register_thread:
  obtains s where "register_initial_threads (dev_io demo_env 0) demo_cv
      \<lparr>sys_ctl = demo_ctl2, sys_dev = demo_dev (demo_session0\<lparr>running := False\<rparr>), sys_mem = []\<rparr> = (None, s)"
proof -
  let ?s = "\<lparr>sys_ctl = demo_ctl2, sys_dev = demo_dev (demo_session0\<lparr>running := False\<rparr>), sys_mem = []\<rparr>"
  have g: "get_threads demo_cv 0 = Inr [8]"
  proof -
    have "atoi ''8'' = 8" by code_simp
    then show ?thesis by (simp add: get_threads_def demo_cv_def)
  qed
  have th: "c_threads demo_ctl2 = Map.empty" "c_watchpoint_capacity demo_ctl2 = 1"
    by (simp_all add: demo_ctl2_def demo_ctl_def initial_controller_def)
  have e: "demo_ctl2\<lparr>c_threads := Map.empty(8 := None)\<rparr> = demo_ctl2\<lparr>c_threads := Map.empty\<rparr>" by simp
  have cv: "cv_sched_setaffinity demo_cv 8 2" "cv_mmap demo_cv 8 n = 0x10000" "cv_page_size demo_cv = 64" for n by (simp_all add: demo_cv_def)
  obtain t where t: "rd_register_thread_locked demo_env (demo_session0\<lparr>running := False\<rparr>)
      \<lparr>reg_tid = 8, reg_cpu = 2, reg_scratch_base = 0x10000, reg_scratch_stride = 64\<rparr> =
      Some (RetOk, [], demo_session0\<lparr>running := False, threads := [t]\<rparr>)"
    using demo_setup_idle unfolding demo_register_def by blast
  have nb: "\<not> bound demo_ctl2 8" by (simp add: bound_def th(1))
  have "\<exists>s. register_thread_locked (dev_io demo_env 0) demo_cv 8 ?s = (None, s)"
    using t nb by (simp add: register_thread_locked_def th e demo_cpu cv MAP_FAILED_def Let_def ioctl_or_throw_def
        dev_io_def rd_wpctl_ioctl_def rd_ioctl_session_def demo_dev_def)
  then obtain s where "register_thread_locked (dev_io demo_env 0) demo_cv 8 ?s = (None, s)" ..
  then show thesis by (intro that [of s]) (simp add: register_initial_threads_def g and_then_def)
qed

lemma demo_construct:
  obtains s where "TargetedRdProfiler (dev_io demo_env 0) demo_cv (Some ''out'') True (demo_dev (zero_session\<lparr>owner_tgid := 7\<rparr>)) [] = (None, s)"
proof -
  let ?d = "demo_dev (zero_session\<lparr>owner_tgid := 7\<rparr>)"
  obtain s4 where s4: "register_initial_threads (dev_io demo_env 0) demo_cv
      \<lparr>sys_ctl = demo_ctl2, sys_dev = demo_dev (demo_session0\<lparr>running := False\<rparr>), sys_mem = []\<rparr> = (None, s4)"
    by (rule demo_register_thread)
  have cv: "cv_open_device demo_cv = None" "cv_can_create demo_cv p" for p by (simp_all add: demo_cv_def)
  have ok: "kernel_ok demo_env 0 ?d" using demo_dev_inv demo_env_targets by (simp add: kernel_ok_def demo_dev_def)
  have "\<exists>s5. start_window_locked (dev_io demo_env 0) demo_cv s4 = (None, s5)"
  proof -
    have "kernel_ok demo_env 0 (sys_dev s4)"
    proof -
      have a: "kdev.agrees demo_env 0 \<lparr>sys_ctl = demo_ctl2, sys_dev = ?d, sys_mem = []\<rparr>"
        using load_targets_into_frame(1-3) [OF demo_load_into [of ?d]] read_settings_fresh [OF demo_settings] ok
        by (simp add: kdev.agrees_def kernel_running_def kernel_live_def live_tids_def roster_def demo_dev_def zero_session_def)
      note b = kdev.configure_agrees [OF a demo_configure]
      from s4 obtain tids where "register_threads (dev_io demo_env 0) demo_cv tids
          \<lparr>sys_ctl = demo_ctl2, sys_dev = demo_dev (demo_session0\<lparr>running := False\<rparr>), sys_mem = []\<rparr> = (None, s4)"
        by (auto simp: register_initial_threads_def split: sum.splits)
      from kdev.register_threads_agree [OF b this] show ?thesis by (simp add: kdev.agrees_def)
    qed
    then show ?thesis using kdev.io_start [of demo_env 0 "sys_dev s4"]
      by (cases "dev_io demo_env 0 (sys_dev s4) RDKIOC_START_WINDOW") (auto simp: start_window_locked_def and_then_def ioctl_or_throw_def)
  qed
  then obtain s5 where "start_window_locked (dev_io demo_env 0) demo_cv s4 = (None, s5)" ..
  then show thesis using s4
    by (intro that) (simp add: TargetedRdProfiler_def demo_settings demo_load_into demo_configure and_then_def cv Let_def)
qed

end
