(* ===== verification/Sampling_Demo.thy ===== *)
theory Sampling_Demo
  imports Ring_Correct Manifest Profiler_Demo
begin

text \<open>
  A small sampling run, on which the properties of the monitor are exercised: one thread, one SPE
  sampler, one mapping of the main binary, and a ring with one AUX record that holds one sample.
\<close>

definition demo_mn :: mon_env where
  "demo_mn = \<lparr>mn_cv = demo_cv, mn_pfm_encode = (\<lambda>n. Some (0, 0)), mn_perf_event_open = (\<lambda>os a t g. Inr (int (length (po_fds os)) + 3)),
     mn_mmap = (\<lambda>os n fd. 0x10000 + of_nat (length (po_maps os)) * 0x1000), mn_ring = (\<lambda>fd. undefined),
     mn_epoll_add = (\<lambda>os fd. True), mn_read_fd = (\<lambda>os fd. Some \<lparr>rf_value = 7, rf_time_enabled = 4, rf_time_running = 2\<rparr>),
     mn_clock_gettime = Some (5, 0), mn_clock_getres = Some (0, 1), mn_pfm_initialize = True, mn_epoll_create = 3,
     mn_eventfd = 4, mn_sem_init = True, mn_sampler_tid = 9, mn_epoll_add_eventfd = True, mn_l1_line_size = 64,
     mn_thread_walk = (\<lambda>m. filter (\<lambda>t. m t \<noteq> None) [8, 10]), mn_hot_walk = id\<rparr>"

definition demo_pkts :: "spe_pkt list" where
  "demo_pkts = [Address 0 0x84, Counter 0 10, Counter 1 3, Counter 2 2, Events 1 0x208, End_of_record]"

definition demo_sample :: spe_instruction_sample where
  "demo_sample = \<lparr>sp_pc = 0x84, sp_data_va = 0, sp_lat_total = 10, sp_lat_issue = 3, sp_lat_xlat = 2, sp_event_bits = 0x208, sp_flags = 63\<rparr>"

definition demo_buf :: perf_buffer where
  "demo_buf = \<lparr>pb_data_head = 64, pb_data_tail = 0, pb_aux_offset = 0x1000, pb_aux_size = 64, pb_aux_tail = 0,
     pb_data = [11, 0, 0, 0, 0, 0, 64, 0] @ u64_bytes 0 @ u64_bytes 22 @ u64_bytes 0 @ replicate 32 0,
     pb_aux = concat (map encode demo_pkts) @ replicate 42 0\<rparr>"

definition demo_rs :: "(ring_rec \<times> u64) list" where
  "demo_rs = [(AuxRec 0 0 demo_pkts, 64)]"

definition demo_slot :: sampler_slot where
  "demo_slot = (slot_of zero_slot_state [])\<lparr>ss_slot_id := 0, ss_tid := 8, ss_sampler_index := 0, ss_fd := 5, ss_ringbuf := 0x10000,
     ss_ringbuf_bytes := 128, ss_auxbuf := 0x11000, ss_auxbuf_bytes := 64\<rparr>"

definition demo_writer :: binary_writer where
  "demo_writer = \<lparr>bw_path = ''out.t8.sample0'', bw_open = True, bw_bytes = []\<rparr>"

definition demo_sampled :: thread_state where
  "demo_sampled = \<lparr>ts_tid = 8, ts_active = True, ts_counter_fds = [], ts_writers = [demo_writer], ts_samplers = [demo_slot]\<rparr>"

definition demo_monitor :: monitor where
  "demo_monitor = (initial_monitor demo_mn [] [(''ARM_SPE:LOADSTORE'', True)] 1000 1 1 ''out'' False)\<lparr>
     mo_main_binary_path := ''/bin/app'', mo_tids := [8], mo_threads := [8 \<mapsto> demo_sampled], mo_sampler_slots := [0 \<mapsto> (8, 0)],
     mo_module_maps := [\<lparr>me_module_id = 0, me_vm_start = 0x80, me_vm_end = 0xc0, me_file_offset = 0x10, me_path = ''/bin/app''\<rparr>],
     mo_kinfos := [zero_kinfo], mo_next_slot_id := 1, mo_prev_counters := [0], mo_retired_values := [0],
     mo_retired_time_enabled := [0], mo_retired_time_running := [0]\<rparr>"

lemma demo_ring: "ring_holds demo_buf 0 demo_rs"
proof -
  have n: "encoded_size demo_pkts = 22" by code_simp
  have l: "length (pb_data demo_buf) = 64" by (simp add: demo_buf_def)
  have h: "record_header (pb_data demo_buf) 0 = Some (PERF_RECORD_AUX, 64)" by code_simp
  have f: "record_field (pb_data demo_buf) 0 8 = Some 0" "record_field (pb_data demo_buf) 0 16 = Some 22"
    "record_field (pb_data demo_buf) 0 24 = Some 0" by code_simp+
  have st: "stored (pb_aux demo_buf) (pb_aux_size demo_buf) 0 demo_pkts" by code_simp
  have r: "rec_at demo_buf 0 (AuxRec 0 0 demo_pkts)" using n l f st by (simp add: rec_at_def)
  have "pb_data_head demo_buf = 64" "pb_data demo_buf \<noteq> []" using l by (auto simp: demo_buf_def)
  then show ?thesis using h r by (simp add: demo_rs_def rec_type_def)
qed

lemma demo_samples: "spec_samples [] (ring_pkts demo_rs) = [demo_sample]"
  by code_simp

lemma demo_slot_empty: "demo_slot = slot_of demo_slot []"
  by (simp add: demo_slot_def slot_of_def)

lemma demo_pc_present: "sample_pc_present demo_monitor"
proof -
  have "has_arm_spe_event [''ARM_SPE:LOADSTORE''] \<noteq> 0" by code_simp
  then show ?thesis by (simp add: sample_pc_present_def has_arm_spe_samples_def demo_monitor_def initial_monitor_def)
qed

lemma demo_drain_hyps:
  "mo_kinfos demo_monitor \<noteq> []" "pb_data_head demo_buf \<noteq> pb_data_tail demo_buf" "mo_threads demo_monitor (ss_tid demo_slot) = Some demo_sampled"
  "ss_sampler_index demo_slot < length (ts_writers demo_sampled)" "bw_open (ts_writers demo_sampled ! ss_sampler_index demo_slot)"
  "ring_holds demo_buf (pb_data_tail demo_buf) demo_rs" "pb_aux_size demo_buf \<noteq> 0" "ss_ringbuf demo_slot + pb_aux_offset demo_buf = ss_auxbuf demo_slot"
  using demo_ring by (simp_all add: demo_monitor_def demo_buf_def demo_slot_def demo_sampled_def demo_writer_def)

end
