(* ===== verification/Sampling_Properties.thy ===== *)
theory Sampling_Properties
  imports Sampling_Demo
begin

text \<open>
  The properties of the sampling run: the decoder, the aggregation of hotspots, their selection
  and the manifest that hands them to the targeted run.
\<close>

subsection \<open>Draining a sampler\<close>

text \<open>C5: a drain returns, and what it leaves is what the packets say: the ring buffer holds AUX, throttle and
  other records, the AUX buffer the packets they cover; the samples of the packets (the groups
  between two closing packets that carry the address of an instruction, continuing the group that the
  previous drain left open) are appended to the sample file of the thread, counted in the window,
  and added to the hotspots they belong to; all data is consumed.\<close>

theorem drain_decodes_ring:
  assumes "mo_kinfos m \<noteq> []" "pb_data_head b \<noteq> pb_data_tail b" "mo_threads m (ss_tid slot) = Some ts"
    and "ss_sampler_index slot < length (ts_writers ts)" "bw_open (ts_writers ts ! ss_sampler_index slot)"
    and "ring_holds b (pb_data_tail b) rs" "slot = slot_of slot g" "pb_aux_size b \<noteq> 0"
    and "ss_ringbuf slot + pb_aux_offset b = ss_auxbuf slot" "ss = spec_samples g (ring_pkts rs)"
  shows "\<exists>m'. process_samples_locked m b slot = Some (Inr (of_nat (length ss)), m',
      b\<lparr>pb_aux_tail := pb_aux_tail b + ring_aux_bytes rs, pb_data_tail := pb_data_head b\<rparr>, slot_of slot (left_open g (ring_pkts rs))) \<and>
    mo_threads m' = (mo_threads m)(ss_tid slot \<mapsto> ts\<lparr>ts_writers := (ts_writers ts)[ss_sampler_index slot :=
      (ts_writers ts ! ss_sampler_index slot)\<lparr>bw_bytes := bw_bytes (ts_writers ts ! ss_sampler_index slot) @ concat (map sample_bytes ss)\<rparr>]\<rparr>) \<and>
    (\<forall>k. stats_of m' (ss_tid slot) k = fold add_to_stats (filter (attributed m (ss_tid slot) k) ss) (stats_of m (ss_tid slot) k)) \<and>
    mo_written_sample_bytes m' = mo_written_sample_bytes m + 56 * of_nat (length ss) \<and>
    map ki_num_samples (mo_kinfos m') = upd_last (\<lambda>n. n + of_nat (length ss)) (map ki_num_samples (mo_kinfos m))"
proof -
  have "stats_of m' (ss_tid slot) k = stats_of (fold (record_hotspot_sample (ss_tid slot)) ss m) (ss_tid slot) k"
    if "mo_thread_hotspots m' = mo_thread_hotspots (fold (record_hotspot_sample (ss_tid slot)) ss m)" for m' k
    using that by (simp add: stats_of_def)
  with drain_decoded [OF assms] show ?thesis by (metis stats_of_fold)
qed

theorem drain_decodes_ring_witness:
  "\<exists>m' b' slot'. process_samples_locked demo_monitor demo_buf demo_slot = Some (Inr 1, m', b', slot') \<and> pb_data_tail b' = 64 \<and>
     mo_written_sample_bytes m' = 56 \<and> hs_lat_exec_sum (stats_of m' 8 \<lparr>hk_module_id = 0, hk_pc_offset = 0x14\<rparr>) = 5"
proof -
  let ?k = "\<lparr>hk_module_id = 0, hk_pc_offset = 0x14\<rparr>"
  note d = drain_decodes_ring [OF demo_drain_hyps(1-6) demo_slot_empty demo_drain_hyps(7,8) demo_samples [symmetric]]
  have f: "find_module_map demo_monitor 0x84 = Some \<lparr>me_module_id = 0, me_vm_start = 0x80, me_vm_end = 0xc0, me_file_offset = 0x10, me_path = ''/bin/app''\<rparr>"
    by (simp add: find_module_map_def demo_monitor_def)
  have "attributed demo_monitor 8 ?k demo_sample"
    using demo_pc_present by (simp add: attributed_def demo_sample_def f is_main_binary_module_def hotspot_key_of_def flag_set_def spe_flags)
       (simp add: demo_monitor_def)
  moreover have "stats_of demo_monitor 8 ?k = zero_hotspot_stats" by (simp add: stats_of_def demo_monitor_def initial_monitor_def)
  moreover have "hs_lat_exec_sum (add_to_stats demo_sample zero_hotspot_stats) = 5" by code_simp
  moreover have "ss_tid demo_slot = 8" "pb_data_head demo_buf = 64" "mo_written_sample_bytes demo_monitor = 0"
    by (simp_all add: demo_slot_def demo_buf_def demo_monitor_def initial_monitor_def)
  ultimately show ?thesis using d by auto
qed

subsection \<open>Termination\<close>

lemma payload_size_le: "arm_spe_payload_size h \<le> 8" "unknown_payload_size h \<le> 8"
proof -
  have "unat (h AND 0x30) \<le> 48" using word_and_le1 [of h "0x30"] by (simp add: word_le_nat_alt)
  then have "unat (drop_bit 4 (h AND 0x30)) \<le> 3" by (simp add: drop_bit_eq_div unat_div)
  then have "(2 :: nat) ^ unat (drop_bit 4 (h AND 0x30)) \<le> 2 ^ 3" by (rule power_increasing) simp
  then show "arm_spe_payload_size h \<le> 8" by (simp add: arm_spe_payload_size_def SPE_PACKET_HEADER_PAYLOAD_SIZE_MASK_def)
qed (simp add: unknown_payload_size_def Let_def)

lemma spe_packet_returns:
  assumes "pos + 9 \<le> length area"
  obtains n d' where "spe_packet area pos d = Some (n, d')" "n \<le> 8"
proof -
  have h: "arr_get (Some area) pos = Some (area ! pos)" using assms by simp
  have r: "read_spe_payload area pos n = Some (le_val (take n (drop (pos + 1) area)))" if "n \<le> 8" for n
    using that assms by (simp add: read_spe_payload_def read_bytes_def)
  note p = payload_size_le [of "area ! pos"]
  have "\<exists>n d'. spe_packet area pos d = Some (n, d') \<and> n \<le> 8"
    unfolding spe_packet_def h bind.bind_lunit r [OF order_refl] r [OF p(1)] Let_def using p by auto
  then show thesis using that by blast
qed

lemma spe_packets_returns:
  assumes "aux_size \<noteq> 0" "unat aux_size + 8 \<le> length area" "unat rec_size + 9 \<le> 2 ^ 64" "unat it \<le> unat rec_size + 8"
  shows "\<exists>d'. spe_packets area aux_size rec_offset rec_size it d = Some d'"
  using assms(4)
proof (induction "unat rec_size + 9 - unat it" arbitrary: it d rule: less_induct)
  case less
  show ?case
  proof (cases "it < rec_size")
    case False
    then show ?thesis by (subst spe_packets.simps) simp
  next
    case True
    have "unat ((rec_offset + it) mod aux_size) < unat aux_size"
      using assms(1) by (simp add: unat_mod unat_gt_0)
    then have "unat ((rec_offset + it) mod aux_size) + 9 \<le> length area" using assms(2) by linarith
    then obtain n d1 where s: "spe_packet area (unat ((rec_offset + it) mod aux_size)) d = Some (n, d1)" "n \<le> 8"
      by (rule spe_packet_returns)
    have lt: "unat it < unat rec_size" using True by (simp add: word_less_nat_alt)
    have "unat (it + 1 + of_nat n) = unat it + 1 + n"
      using lt s(2) assms(3) by (simp add: unat_word_ariths unat_of_nat take_bit_nat_eq_self)
    then have "\<exists>d'. spe_packets area aux_size rec_offset rec_size (it + 1 + of_nat n) d1 = Some d'"
      using lt s(2) by (intro less) auto
    then show ?thesis using True assms(1) s(1) by (subst spe_packets.simps) simp
  qed
qed

text \<open>C20: the decoder of AUX data always returns: whatever bytes a record covers, each packet
  advances by at most nine bytes and by at least one, so the loop ends after finitely many packets, provided the
  buffer may be read eight bytes past the position of its last packet and the size of the record
  does not reach the end of the 64-bit range.\<close>

theorem aux_decoding_terminates:
  assumes "aux_size \<noteq> 0" "unat aux_size + 8 \<le> length area" "unat rec_size + 9 \<le> 2 ^ 64"
  shows "\<exists>d'. spe_packets area aux_size rec_offset rec_size 0 d = Some d'"
  by (rule spe_packets_returns [OF assms]) simp

theorem aux_decoding_terminates_witness:
  "\<exists>d'. spe_packets (replicate 16 0x71) 8 3 100 0
     \<lparr>dr_mon = demo_monitor, dr_slot = demo_slot, dr_writer = demo_writer, dr_num_samples = 0, dr_aux_tail = 0\<rparr> = Some d'"
  by (rule aux_decoding_terminates) simp_all

subsection \<open>Hotspots\<close>


subsection \<open>The selection\<close>

lemma dominates_mark [simp]: "hotspot_dominates (mark z a) (mark z b) = hotspot_dominates a b"
  by (simp add: hotspot_dominates_def mark_def)

lemma enough_mark [simp]: "enough_samples m table (mark z a) = enough_samples m table a"
  "enough_samples m table (a\<lparr>hm_pareto_front := v\<rparr>) = enough_samples m table a"
  by (simp_all add: enough_samples_def mark_def)

lemma score_flag [simp]: "hotspot_score_before (a\<lparr>hm_pareto_front := v\<rparr>) (b\<lparr>hm_pareto_front := w\<rparr>) = hotspot_score_before a b"
  by (simp add: hotspot_score_before_def)

lemma ident_mark [simp]: "ident \<circ> mark z = ident"
  by (simp add: fun_eq_iff ident_def)

lemma distinct_ident_filter: "distinct (map ident xs) \<Longrightarrow> distinct (map ident (filter P xs))"
  by (simp add: distinct_map inj_on_def)

lemma parts_sorted:
  assumes "parts m table xs = (front, non_front, rest)" "distinct (map ident xs)"
  shows "sorted_wrt hotspot_score_before front \<and> sorted_wrt hotspot_score_before non_front \<and> sorted_wrt hotspot_score_before rest"
proof -
  have d: "distinct (map ident (map (mark z) (filter P (filter Q xs))))" for z P Q
    using distinct_ident_filter [OF assms(2), of "\<lambda>x. Q x \<and> P x"] by (simp add: conj_commute)
  show ?thesis using assms(1) sorted_scores [OF d] sorted_scores [OF distinct_ident_filter [OF assms(2)]]
    by (auto simp: parts_def Let_def sorted_wrt_map)
qed

text \<open>A summary with its flag as it was before the selection.\<close>

definition unmarked :: "hotspot_summary \<Rightarrow> hotspot_summary" where
  "unmarked h = h\<lparr>hm_pareto_front := 0\<rparr>"

lemma unmarked_mark [simp]: "unmarked \<circ> mark z = unmarked" "unmarked (unmarked h) = unmarked h"
  by (simp_all add: fun_eq_iff unmarked_def mark_def)

lemma mset_filter_split: "mset (map f (filter P xs)) + mset (map f (filter (\<lambda>x. \<not> P x) xs)) = mset (map f xs)"
  by (induction xs) simp_all

lemma parts_complete:
  assumes "parts m table xs = (front, non_front, rest)"
  shows "mset (map unmarked (front @ non_front @ rest)) = mset (map unmarked xs)"
proof -
  let ?e = "filter (enough_samples m table) xs"
  have "mset (map unmarked front) + mset (map unmarked non_front) = mset (map unmarked ?e)"
    using assms mset_filter_split [of unmarked "undominated ?e" ?e]
    by (auto simp: parts_def Let_def image_mset.compositionality simp flip: mset_filter)
  moreover have "mset (map unmarked rest) = mset (map unmarked (filter (\<lambda>x. \<not> enough_samples m table x) xs))"
    using assms by (auto simp: parts_def Let_def image_mset.compositionality unmarked_def [abs_def] comp_def)
  ultimately show ?thesis using mset_filter_split [of unmarked "enough_samples m table" xs] by (simp flip: add.assoc)
qed

lemma parts_roles:
  assumes "parts m table xs = (front, non_front, rest)"
  shows "h \<in> set front \<Longrightarrow> hm_pareto_front h = 1 \<and> enough_samples m table h \<and> (\<forall>g\<in>set (front @ non_front). \<not> hotspot_dominates g h)"
    "h \<in> set non_front \<Longrightarrow> hm_pareto_front h = 0 \<and> enough_samples m table h \<and> (\<exists>g\<in>set front. hotspot_dominates g h)"
    "h \<in> set rest \<Longrightarrow> hm_pareto_front h = 0 \<and> \<not> enough_samples m table h"
proof -
  let ?e = "filter (enough_samples m table) xs"
  have sets: "set front = mark ?e ` {x \<in> set ?e. undominated ?e x}" "set non_front = mark ?e ` {x \<in> set ?e. \<not> undominated ?e x}"
    "set rest = (\<lambda>s. s\<lparr>hm_pareto_front := 0\<rparr>) ` {x \<in> set xs. \<not> enough_samples m table x}"
    using assms by (auto simp: parts_def Let_def)
  show "hm_pareto_front h = 1 \<and> enough_samples m table h \<and> (\<forall>g\<in>set (front @ non_front). \<not> hotspot_dominates g h)" if "h \<in> set front"
    using that unfolding set_append sets by (auto simp: undominated_def)
  show "hm_pareto_front h = 0 \<and> enough_samples m table h \<and> (\<exists>g\<in>set front. hotspot_dominates g h)" if h: "h \<in> set non_front"
  proof -
    obtain x where x: "h = mark ?e x" "x \<in> set ?e" "\<not> undominated ?e x" using h unfolding sets by blast
    obtain y where "y \<in> set ?e" "undominated ?e y" "hotspot_dominates y x" using dominated_by_front [OF x(2,3)] by blast
    then show ?thesis using x unfolding sets by auto
  qed
  show "hm_pareto_front h = 0 \<and> \<not> enough_samples m table h" if "h \<in> set rest"
    using that unfolding sets by auto
qed

text \<open>C18: the hotspots of a thread are selected by the policy that the manifest names: every instruction of the
  table is in exactly one of three parts, the Pareto front of sample count and average latency (no
  eligible instruction dominates one of them), the other eligible ones (each dominated by one
  of the front) and those with too few samples; each part is strictly ordered by score, and the result is
  the prefix of the three that the limit allows, whatever the order in which the hash table is
  walked.\<close>

theorem pareto_selection:
  assumes "map_of (mo_thread_hotspots m) t = Some table" "tables_ok m" "\<And>xs. mset (walk xs) = mset xs"
  shows "\<exists>front non_front rest.
    collect_hotspots_for_thread walk m t = take (mo_hotspot_top_k m) (front @ non_front @ rest) \<and>
    mset (map unmarked (front @ non_front @ rest)) = mset (map (summary_of m t) table) \<and>
    sorted_wrt hotspot_score_before front \<and> sorted_wrt hotspot_score_before non_front \<and> sorted_wrt hotspot_score_before rest \<and>
    (\<forall>h\<in>set front. hm_pareto_front h = 1 \<and> enough_samples m table h \<and> (\<forall>g\<in>set (front @ non_front). \<not> hotspot_dominates g h)) \<and>
    (\<forall>h\<in>set non_front. hm_pareto_front h = 0 \<and> enough_samples m table h \<and> (\<exists>g\<in>set front. hotspot_dominates g h)) \<and>
    (\<forall>h\<in>set rest. hm_pareto_front h = 0 \<and> \<not> enough_samples m table h)"
proof -
  obtain front non_front rest where p: "parts m table (map (summary_of m t) table) = (front, non_front, rest)"
    by (metis prod.exhaust)
  have d: "distinct (map ident (map (summary_of m t) table))"
    using assms(1,2) by (intro distinct_summaries) (simp add: tables_ok_def)
  have u: "unmarked \<circ> summary_of m t = summary_of m t"
    by (simp add: fun_eq_iff unmarked_def summary_of_def Let_def)
  have c: "collect_hotspots_for_thread walk m t = take (mo_hotspot_top_k m) (front @ non_front @ rest)"
    unfolding collect_walk [OF assms(2,3)] using collect_parts [OF assms(1), of id] p by simp
  show ?thesis using c parts_complete [OF p] parts_sorted [OF p d] parts_roles [OF p] u
    by (intro exI [of _ front] exI [of _ non_front] exI [of _ rest]) (simp add: image_mset.compositionality)
qed

definition demo_stats :: "u64 \<Rightarrow> u64 \<Rightarrow> hotspot_stats" where
  "demo_stats n lat = zero_hotspot_stats\<lparr>hs_sample_count := n, hs_lat_total_sum := n * lat, hs_lat_total_count := n\<rparr>"

definition demo_table :: "(hotspot_key \<times> hotspot_stats) list" where
  "demo_table = [(\<lparr>hk_module_id = 0, hk_pc_offset = 0x14\<rparr>, demo_stats 8 10), (\<lparr>hk_module_id = 0, hk_pc_offset = 0x18\<rparr>, demo_stats 2 9)]"

definition demo_hot :: monitor where
  "demo_hot = demo_monitor\<lparr>mo_thread_hotspots := [(8, demo_table)]\<rparr>"

lemma demo_hot_inv: "hot_inv demo_hot" "tables_ok demo_hot" "map_of (mo_thread_hotspots demo_hot) 8 = Some demo_table"
proof -
  show t: "tables_ok demo_hot" by (simp add: tables_ok_def demo_hot_def demo_table_def)
  show "hot_inv demo_hot" using t
    by (auto simp: hot_inv_def maps_ok_def in_main_def demo_hot_def demo_table_def demo_monitor_def split: if_splits)
qed (simp add: demo_hot_def)

theorem pareto_selection_witness:
  "\<exists>front non_front rest. collect_hotspots_for_thread rev demo_hot 8 = front @ non_front @ rest \<and>
     length (front @ non_front @ rest) = 2"
proof -
  have "mo_hotspot_top_k demo_hot = 12" by (simp add: demo_hot_def demo_monitor_def initial_monitor_def)
  moreover from pareto_selection [OF demo_hot_inv(3,2), of rev] obtain front non_front rest where
    "collect_hotspots_for_thread rev demo_hot 8 = take (mo_hotspot_top_k demo_hot) (front @ non_front @ rest)"
    "mset (map unmarked (front @ non_front @ rest)) = mset (map (summary_of demo_hot 8) demo_table)" by auto
  moreover from this(2) have "length (front @ non_front @ rest) = length demo_table" by (metis length_map mset_eq_length)
  moreover have "length demo_table = 2" by (simp add: demo_table_def)
  ultimately have "collect_hotspots_for_thread rev demo_hot 8 = front @ non_front @ rest \<and> length (front @ non_front @ rest) = 2" by simp
  then show ?thesis by blast
qed

subsection \<open>From the manifest to the targeted run\<close>

definition agg_score_of :: "hotspot list \<Rightarrow> u64 \<Rightarrow> u64" where
  "agg_score_of agg pc = (case map_of agg pc of None \<Rightarrow> 0 | Some a \<Rightarrow> ah_candidate_score a)"

lemma agg_score_of_entry:
  "agg_score_of (hotspot_entry h agg) pc = agg_score_of agg pc + (if pc = hm_pc_offset h then hm_candidate_score h else 0)"
  by (simp add: agg_score_of_def hotspot_entry_def map_of_agg_add add_sample_def split: option.split)

lemma samples_of_entry:
  "samples_of (hotspot_entry h agg) pc = samples_of agg pc + (if pc = hm_pc_offset h then hm_sample_count h else 0)"
  by (simp add: hotspot_entry_def samples_of_add)

lemma entries_sum:
  "samples_of (fold hotspot_entry hs agg) pc = samples_of agg pc + sum_list (map hm_sample_count (filter (\<lambda>h. hm_pc_offset h = pc) hs))"
  "agg_score_of (fold hotspot_entry hs agg) pc = agg_score_of agg pc + sum_list (map hm_candidate_score (filter (\<lambda>h. hm_pc_offset h = pc) hs))"
  by (induction hs arbitrary: agg) (auto simp: samples_of_entry agg_score_of_entry)

lemma entries_keys:
  "distinct (map fst agg) \<Longrightarrow> distinct (map fst (fold hotspot_entry hs agg)) \<and>
     fst ` set (fold hotspot_entry hs agg) = fst ` set agg \<union> hm_pc_offset ` set hs"
proof (induction hs arbitrary: agg)
  case (Cons h hs)
  have "distinct (map fst (hotspot_entry h agg))" "fst ` set (hotspot_entry h agg) = insert (hm_pc_offset h) (fst ` set agg)"
    using agg_add_keys [OF Cons.prems] by (simp_all add: hotspot_entry_def)
  then show ?case using Cons.IH [of "hotspot_entry h agg"] by auto
qed simp

text \<open>C17: the manifest round trip: what the targeted run reads from the manifest that the sampling run wrote is
  the main binary and exactly one entry per offset of a written hotspot, with the sample counts and
  scores summed over the threads.\<close>

theorem manifest_roundtrip:
  assumes "hot_inv m" "sample_pc_present m" "cv_can_create (mn_cv env) (manifest_path m)"
    and "\<And>xs. mset (mn_hot_walk env xs) = mset xs"
    and "clean_text (mo_main_binary_path m)" "normalize_filesystem_path os (mo_main_binary_path m) = mo_main_binary_path m"
  shows "\<exists>agg. parse_manifest os (mo_main_binary_path m)
      (lines_of (out_text (manifest_path m) (write_hotspot_manifest env m) old)) ([], []) = Inr (mo_main_binary_path m, agg) \<and>
    distinct (map fst agg) \<and> fst ` set agg = hm_pc_offset ` set (all_hotspots env m) \<and>
    (\<forall>pc. samples_of agg pc = sum_list (map hm_sample_count (filter (\<lambda>h. hm_pc_offset h = pc) (all_hotspots env m))) \<and>
          agg_score_of agg pc = sum_list (map hm_candidate_score (filter (\<lambda>h. hm_pc_offset h = pc) (all_hotspots env m))))"
  using manifest_read_back [OF assms] entries_keys [of "[]" "all_hotspots env m"] entries_sum [of "all_hotspots env m" "[]"]
  by (simp add: samples_of_def agg_score_of_def)

theorem manifest_roundtrip_witness:
  "\<exists>agg. parse_manifest demo_os ''/bin/app'' (lines_of (out_text (manifest_path demo_hot) (write_hotspot_manifest demo_mn demo_hot) []))
     ([], []) = Inr (''/bin/app'', agg)"
proof -
  have "cv_can_create (mn_cv demo_mn) p" for p by (simp add: demo_mn_def demo_cv_def)
  moreover have "sample_pc_present demo_hot"
    using demo_pc_present by (simp add: demo_hot_def sample_pc_present_def has_arm_spe_samples_def)
  moreover have "mo_main_binary_path demo_hot = ''/bin/app''" by (simp add: demo_hot_def demo_monitor_def)
  moreover have "mset (mn_hot_walk demo_mn xs) = mset xs" for xs by (simp add: demo_mn_def)
  moreover have "normalize_filesystem_path demo_os ''/bin/app'' = ''/bin/app''"
    by (simp add: normalize_filesystem_path_def demo_os_def)
  ultimately show ?thesis using manifest_roundtrip [OF demo_hot_inv(1), of demo_mn demo_os "[]"] by auto
qed

lemma resolve_in_lines_found:
  "line \<in> set lines \<Longrightarrow> maps_to os bp off pc line \<Longrightarrow> \<exists>pc'. resolve_in_lines os bp off lines = Inr pc'"
proof (induction lines)
  case (Cons l lines)
  show ?case
  proof (cases "line = l")
    case True
    then show ?thesis using Cons.prems(2) by (auto simp: maps_to_def Let_def not_less [symmetric])
  next
    case False
    then obtain pc' where "resolve_in_lines os bp off lines = Inr pc'" using Cons by auto
    then show ?thesis by (simp add: Let_def split: option.split)
  qed
qed simp

lemma maps_to_unique: "maps_to os bp off pc line \<Longrightarrow> maps_to os bp off pc' line \<Longrightarrow> pc = pc'"
  by (auto simp: maps_to_def)

text \<open>C9: an instruction that was sampled at one address is found again in the targeted run, where the main binary
  may be loaded elsewhere: when one line of the maps file shows the mapping of the sampling run (same
  file offset, same length) and no other line covers the offset, the offset of the hotspot
  resolves to the start of the new mapping plus the distance that the sampled address had from the
  start of the old one.\<close>

theorem hotspot_relocates:
  assumes "find_module_map m pc = Some e"
    and "unat (me_file_offset e) + unat (me_vm_end e - me_vm_start e) < 2 ^ 64"
    and "os_self_maps os = Some maps" "line \<in> set (lines_of maps)" "map_line_fields os line = Some (r, offset_hex, mb)"
    and "map_range r = Some (vs, ve)" "fst (strtoull 16 offset_hex) = me_file_offset e" "ve - vs = me_vm_end e - me_vm_start e"
    and "\<forall>l\<in>set (lines_of maps). l \<noteq> line \<longrightarrow> (\<forall>p. \<not> maps_to os mb (hk_pc_offset (hotspot_key_of e pc)) p l)"
  shows "resolve_absolute_pc os mb (hk_pc_offset (hotspot_key_of e pc)) = Inr (vs + (pc - me_vm_start e))"
proof -
  let ?off = "hk_pc_offset (hotspot_key_of e pc)"
  have in_map: "me_vm_start e \<le> pc" "pc < me_vm_end e" using assms(1) by (auto simp: find_module_map_def find_Some_iff)
  have d: "unat (pc - me_vm_start e) = unat pc - unat (me_vm_start e)" "unat (me_vm_end e - me_vm_start e) = unat (me_vm_end e) - unat (me_vm_start e)"
    using in_map by (simp_all add: unat_sub)
  have lt: "unat (pc - me_vm_start e) < unat (me_vm_end e - me_vm_start e)" using in_map d by (simp add: word_less_nat_alt word_le_nat_alt)
  have off: "?off = me_file_offset e + (pc - me_vm_start e)" by (simp add: hotspot_key_of_def)
  have uo: "unat ?off = unat (me_file_offset e) + unat (pc - me_vm_start e)"
    unfolding off using assms(2) lt by (subst unat_add_lem [THEN iffD1]) simp_all
  have ue: "unat (me_file_offset e + (me_vm_end e - me_vm_start e)) = unat (me_file_offset e) + unat (me_vm_end e - me_vm_start e)"
    using assms(2) by (subst unat_add_lem [THEN iffD1]) simp_all
  have m: "maps_to os mb ?off (vs + (pc - me_vm_start e)) line"
    unfolding maps_to_def using assms(5-8) uo ue lt
    by (intro exI [of _ r] exI [of _ offset_hex] exI [of _ vs] exI [of _ ve]) (simp add: word_le_nat_alt word_less_nat_alt off)
  obtain p where p: "resolve_in_lines os mb ?off (lines_of maps) = Inr p" using resolve_in_lines_found [OF assms(4) m] by blast
  from resolve_in_lines_maps [OF p] obtain l where l: "l \<in> set (lines_of maps)" "maps_to os mb ?off p l" by blast
  then have "l = line" using assms(9) by metis
  then have "p = vs + (pc - me_vm_start e)" using maps_to_unique [OF _ m] l(2) by simp
  then show ?thesis using p assms(3) by (simp add: resolve_absolute_pc_def)
qed

theorem hotspot_relocates_witness:
  "resolve_absolute_pc demo_os ''/bin/app'' (hk_pc_offset (hotspot_key_of (mo_module_maps demo_monitor ! 0) 0x84)) = Inr 0x84"
proof -
  let ?e = "\<lparr>me_module_id = 0, me_vm_start = 0x80, me_vm_end = 0xc0, me_file_offset = 0x10, me_path = ''/bin/app''\<rparr>"
  let ?l = "''80-c0 r-xp 10 08:01 77 /bin/app''"
  have e: "find_module_map demo_monitor 0x84 = Some ?e" "mo_module_maps demo_monitor ! 0 = ?e"
    by (simp_all add: find_module_map_def demo_monitor_def)
  have l: "lines_of ?l = [?l]" "map_line_fields demo_os ?l = Some (''80-c0'', ''10'', ''/bin/app'')"
    "map_range ''80-c0'' = Some (0x80, 0xc0)" "fst (strtoull 16 ''10'') = 0x10" by code_simp+
  have "resolve_absolute_pc demo_os ''/bin/app'' (hk_pc_offset (hotspot_key_of ?e 0x84)) = Inr (0x80 + (0x84 - me_vm_start ?e))"
  proof (rule hotspot_relocates [OF e(1) _ _ _ l(2,3)])
    show "os_self_maps demo_os = Some ?l" by (simp add: demo_os_def)
  qed (simp_all only: l list.set insert_iff empty_iff, simp_all)
  then show ?thesis by (simp add: e(2))
qed

end
