(* ===== verification/Hook.thy ===== *)
theory Hook
  imports Prelude
begin

text \<open>
  \<^verbatim>\<open>src/pthread_hook.cc\<close>: the library's \<^verbatim>\<open>pthread_create\<close>, which wraps the entry of every thread
  of the program so that the profilers see it start and end, and the guard under which the
  profilers create threads of their own.  Function pointers and arguments are numbers; a context is
  an object of the heap, and \<open>None\<close> stands for access to one that has been deleted.
\<close>

subsection \<open>Threads and contexts\<close>

record thread_start_ctx =
  tc_start_routine :: u64
  tc_arg :: u64

text \<open>What a thread was created with: the program's entry, or the trampoline with a context.\<close>

datatype thread_entry = Direct u64 u64 | Trampoline nat

text \<open>Where a thread is: created, in \<^verbatim>\<open>thread_start_trampoline\<close> with its cleanup pushed, or in its routine.\<close>

datatype thread_stage = Created | Registered | Running

record hooked_thread =
  ht_entry :: thread_entry
  ht_stage :: thread_stage

datatype hook_event = OnStart int | Routine int u64 u64 | OnStop int

record hook =
  g_bypass_depth :: "int \<Rightarrow> u32"
  hk_ctxs :: "nat \<rightharpoonup> thread_start_ctx"
  hk_next :: nat
  hk_threads :: "int \<rightharpoonup> hooked_thread"
  hk_log :: "hook_event list"

definition hook_init :: hook where
  "hook_init = \<lparr>g_bypass_depth = (\<lambda>t. 0), hk_ctxs = Map.empty, hk_next = 0, hk_threads = Map.empty, hk_log = []\<rparr>"

definition log_event :: "hook_event \<Rightarrow> hook \<Rightarrow> hook" where
  "log_event e h = h\<lparr>hk_log := hk_log h @ [e]\<rparr>"

subsection \<open>The bypass\<close>

definition rd_pthread_hook_push_bypass :: "int \<Rightarrow> hook \<Rightarrow> hook" where
  "rd_pthread_hook_push_bypass t h = h\<lparr>g_bypass_depth := (g_bypass_depth h)(t := g_bypass_depth h t + 1)\<rparr>"

definition rd_pthread_hook_pop_bypass :: "int \<Rightarrow> hook \<Rightarrow> hook" where
  "rd_pthread_hook_pop_bypass t h =
     (if g_bypass_depth h t > 0 then h\<lparr>g_bypass_depth := (g_bypass_depth h)(t := g_bypass_depth h t - 1)\<rparr> else h)"

definition rd_pthread_hook_bypass_enabled :: "int \<Rightarrow> hook \<Rightarrow> bool" where
  "rd_pthread_hook_bypass_enabled t h \<longleftrightarrow> g_bypass_depth h t \<noteq> 0"

text \<open>A block under a \<^verbatim>\<open>PthreadCreateBypassGuard\<close>.\<close>

definition PthreadCreateBypassGuard :: "int \<Rightarrow> (hook \<Rightarrow> 'r \<times> hook) \<Rightarrow> hook \<Rightarrow> 'r \<times> hook" where
  "PthreadCreateBypassGuard t body h =
     (case body (rd_pthread_hook_push_bypass t h) of (r, h') \<Rightarrow> (r, rd_pthread_hook_pop_bypass t h'))"

subsection \<open>Creating a thread\<close>

text \<open>
  The system's \<^verbatim>\<open>pthread_create\<close>: it returns an error, or 0 and starts the thread \<open>u\<close>, whose
  thread-local depth is 0.
\<close>

definition real_pthread_create :: "int + int \<Rightarrow> thread_entry \<Rightarrow> hook \<Rightarrow> int \<times> hook" where
  "real_pthread_create real entry h =
     (case real of
        Inl rc \<Rightarrow> (rc, h)
      | Inr u \<Rightarrow> (0, h\<lparr>hk_threads := (hk_threads h)(u \<mapsto> \<lparr>ht_entry = entry, ht_stage = Created\<rparr>),
                      g_bypass_depth := (g_bypass_depth h)(u := 0)\<rparr>))"

definition new_ctx :: "u64 \<Rightarrow> u64 \<Rightarrow> hook \<Rightarrow> nat \<times> hook" where
  "new_ctx start_routine arg h =
     (hk_next h, h\<lparr>hk_ctxs := (hk_ctxs h)(hk_next h \<mapsto> \<lparr>tc_start_routine = start_routine, tc_arg = arg\<rparr>), hk_next := hk_next h + 1\<rparr>)"

definition delete_ctx :: "nat \<Rightarrow> hook \<Rightarrow> hook option" where
  "delete_ctx c h = (if hk_ctxs h c = None then None else Some (h\<lparr>hk_ctxs := (hk_ctxs h)(c := None)\<rparr>))"

definition pthread_create :: "int \<Rightarrow> int + int \<Rightarrow> u64 \<Rightarrow> u64 \<Rightarrow> hook \<Rightarrow> (int \<times> hook) option" where
  "pthread_create t real start_routine arg h =
     (if rd_pthread_hook_bypass_enabled t h then Some (real_pthread_create real (Direct start_routine arg) h)
      else let (c, h1) = new_ctx start_routine arg h;
               (rc, h2) = real_pthread_create real (Trampoline c) h1
           in if rc \<noteq> 0 then map_option (\<lambda>h3. (rc, h3)) (delete_ctx c h2) else Some (rc, h2))"

subsection \<open>The life of a thread\<close>

definition set_stage :: "int \<Rightarrow> hooked_thread \<Rightarrow> thread_stage \<Rightarrow> hook \<Rightarrow> hook" where
  "set_stage t ht stage h = h\<lparr>hk_threads := (hk_threads h)(t \<mapsto> ht\<lparr>ht_stage := stage\<rparr>)\<rparr>"

definition end_thread :: "int \<Rightarrow> hook \<Rightarrow> hook" where
  "end_thread t h = h\<lparr>hk_threads := (hk_threads h)(t := None)\<rparr>"

text \<open>The trampoline up to the call of the routine, and the call, which reads the context.\<close>

definition thread_start_trampoline :: "int \<Rightarrow> hooked_thread \<Rightarrow> hook \<Rightarrow> hook" where
  "thread_start_trampoline t ht h = log_event (OnStart t) (set_stage t ht Registered h)"

definition call_routine :: "int \<Rightarrow> hooked_thread \<Rightarrow> nat \<Rightarrow> hook \<Rightarrow> hook option" where
  "call_routine t ht c h =
     map_option (\<lambda>ctx. log_event (Routine t (tc_start_routine ctx) (tc_arg ctx)) (set_stage t ht Running h)) (hk_ctxs h c)"

definition cleanup_thread_ctx :: "int \<Rightarrow> nat \<Rightarrow> hook \<Rightarrow> hook option" where
  "cleanup_thread_ctx t c h = delete_ctx c (log_event (OnStop t) h)"

text \<open>
  One step of the thread \<open>t\<close>.  A thread with a pushed cleanup ends, by returning, by
  \<^verbatim>\<open>pthread_exit\<close> or by cancellation, only through the cleanup; \<open>leave\<close> tells whether it ends
  now.  A thread that was created directly runs without the hook.
\<close>

definition thread_step :: "int \<Rightarrow> bool \<Rightarrow> hooked_thread \<Rightarrow> hook \<Rightarrow> hook option" where
  "thread_step t leave ht h =
     (case ht_entry ht of
        Direct r a \<Rightarrow> Some (if leave then end_thread t h else set_stage t ht Running h)
      | Trampoline c \<Rightarrow>
          (case ht_stage ht of
             Created \<Rightarrow> Some (thread_start_trampoline t ht h)
           | Registered \<Rightarrow> if leave then map_option (end_thread t) (cleanup_thread_ctx t c h) else call_routine t ht c h
           | Running \<Rightarrow> map_option (end_thread t) (cleanup_thread_ctx t c h)))"

subsection \<open>Runs\<close>

inductive hook_run :: "hook \<Rightarrow> bool" where
  run_loaded: "hook_run hook_init"
| run_push: "hook_run h \<Longrightarrow> hook_run (rd_pthread_hook_push_bypass t h)"
| run_pop: "hook_run h \<Longrightarrow> hook_run (rd_pthread_hook_pop_bypass t h)"
| run_create: "hook_run h \<Longrightarrow> (case real of Inl rc \<Rightarrow> rc \<noteq> 0 | Inr u \<Rightarrow> hk_threads h u = None) \<Longrightarrow>
    pthread_create t real r a h = Some (rc', h') \<Longrightarrow> hook_run h'"
| run_thread: "hook_run h \<Longrightarrow> hk_threads h t = Some ht \<Longrightarrow> thread_step t leave ht h = Some h' \<Longrightarrow> hook_run h'"

text \<open>What the log says of thread \<open>t\<close>; \<open>None\<close> when its events are out of order.\<close>

datatype seen = Unseen | Seen | InRoutine

fun track :: "int \<Rightarrow> hook_event list \<Rightarrow> seen \<Rightarrow> seen option" where
  "track t [] st = Some st"
| "track t (OnStart u # es) st = (if u \<noteq> t then track t es st else if st = Unseen then track t es Seen else None)"
| "track t (Routine u r a # es) st = (if u \<noteq> t then track t es st else if st = Seen then track t es InRoutine else None)"
| "track t (OnStop u # es) st = (if u \<noteq> t then track t es st else if st \<noteq> Unseen then track t es Unseen else None)"

lemma track_append: "track t (es @ es') st = Option.bind (track t es st) (track t es')"
  by (induction t es st rule: track.induct) simp_all

definition expected :: "hook \<Rightarrow> int \<Rightarrow> seen" where
  "expected h t =
     (case hk_threads h t of
        None \<Rightarrow> Unseen
      | Some ht \<Rightarrow> (case ht_entry ht of
          Direct r a \<Rightarrow> Unseen
        | Trampoline c \<Rightarrow> (case ht_stage ht of Created \<Rightarrow> Unseen | Registered \<Rightarrow> Seen | Running \<Rightarrow> InRoutine)))"

definition owns :: "hook \<Rightarrow> int \<Rightarrow> nat \<Rightarrow> bool" where
  "owns h t c \<longleftrightarrow> (\<exists>st. hk_threads h t = Some \<lparr>ht_entry = Trampoline c, ht_stage = st\<rparr>)"

text \<open>Every context belongs to exactly one thread that still runs, and the log is in order.\<close>

definition hook_ok :: "hook \<Rightarrow> bool" where
  "hook_ok h \<longleftrightarrow> (\<forall>c. hk_ctxs h c \<noteq> None \<longrightarrow> c < hk_next h) \<and> (\<forall>c. (hk_ctxs h c \<noteq> None) = (\<exists>t. owns h t c)) \<and>
     (\<forall>t u c. owns h t c \<longrightarrow> owns h u c \<longrightarrow> t = u) \<and> (\<forall>t. track t (hk_log h) Unseen = Some (expected h t))"

lemma hook_okD:
  assumes "hook_ok h"
  shows "hk_ctxs h c \<noteq> None \<Longrightarrow> c < hk_next h" "owns h t c \<Longrightarrow> hk_ctxs h c \<noteq> None"
    "hk_ctxs h c \<noteq> None \<Longrightarrow> \<exists>t. owns h t c" "owns h t c \<Longrightarrow> owns h u c \<Longrightarrow> t = u" "track t (hk_log h) Unseen = Some (expected h t)"
  using assms unfolding hook_ok_def by blast+

lemma hook_ok_depth [simp]: "hook_ok (h\<lparr>g_bypass_depth := d\<rparr>) = hook_ok h"
  by (simp add: hook_ok_def owns_def expected_def)

lemma owns_ht: "ht_entry ht = Trampoline c \<Longrightarrow> hk_threads h t = Some ht \<Longrightarrow> owns h t c"
  by (cases ht) (simp add: owns_def)


subsection \<open>Every step keeps the order\<close>

lemma owns_upd:
  "owns (h\<lparr>hk_threads := (hk_threads h)(t \<mapsto> \<lparr>ht_entry = e, ht_stage = st\<rparr>)\<rparr>) u c \<longleftrightarrow> (if u = t then e = Trampoline c else owns h u c)"
  "owns (h\<lparr>hk_threads := (hk_threads h)(t := None)\<rparr>) u c \<longleftrightarrow> u \<noteq> t \<and> owns h u c"
  "owns (h\<lparr>hk_ctxs := cs\<rparr>) u c = owns h u c" "owns (h\<lparr>hk_next := n\<rparr>) u c = owns h u c" "owns (h\<lparr>hk_log := es\<rparr>) u c = owns h u c"
  by (auto simp: owns_def)

lemma expected_upd:
  "expected (h\<lparr>hk_threads := (hk_threads h)(t \<mapsto> ht)\<rparr>) u = (if u = t then expected (h\<lparr>hk_threads := [t \<mapsto> ht]\<rparr>) t else expected h u)"
  "expected (h\<lparr>hk_threads := (hk_threads h)(t := None)\<rparr>) u = (if u = t then Unseen else expected h u)"
  "expected (h\<lparr>hk_ctxs := cs\<rparr>) u = expected h u" "expected (h\<lparr>hk_next := n\<rparr>) u = expected h u" "expected (h\<lparr>hk_log := es\<rparr>) u = expected h u"
  by (simp_all add: expected_def)

lemma expected_None: "hk_threads h u = None \<Longrightarrow> expected h u = Unseen" "hk_threads h u = None \<Longrightarrow> \<not> owns h u c"
  by (simp_all add: expected_def owns_def)

lemma hook_ok_same:
  assumes "hook_ok h" "hk_ctxs h' = hk_ctxs h" "hk_next h' = hk_next h" "hk_log h' = hk_log h"
    and "\<And>u c. owns h' u c = owns h u c" "\<And>u. expected h' u = expected h u"
  shows "hook_ok h'"
  using assms by (simp add: hook_ok_def)

lemma hook_ok_logged:
  assumes "hook_ok h" "hk_ctxs h' = hk_ctxs h" "hk_next h' = hk_next h"
    and "\<And>u c. owns h' u c = owns h u c" "\<And>u. track u (hk_log h') Unseen = Some (expected h' u)"
  shows "hook_ok h'"
  using assms by (simp add: hook_ok_def)

lemma create_ok:
  assumes "hook_ok h" "case real of Inl rc \<Rightarrow> rc \<noteq> 0 | Inr u \<Rightarrow> hk_threads h u = None"
  shows "\<exists>rc h'. pthread_create t real r a h = Some (rc, h') \<and> hook_ok h'"
proof (cases real)
  case (Inl rc)
  let ?h = "h\<lparr>hk_next := Suc (hk_next h), hk_ctxs := (hk_ctxs h)(hk_next h := None)\<rparr>"
  have n: "hk_ctxs h (hk_next h) = None" using hook_okD(1) [OF assms(1)] by blast
  then have "(hk_ctxs h)(hk_next h := None) = hk_ctxs h" by auto
  then have "hook_ok ?h" using assms(1) hook_okD(1) [OF assms(1)] by (auto simp: hook_ok_def owns_upd expected_upd less_SucI)
  then show ?thesis using assms Inl
    by (simp add: pthread_create_def real_pthread_create_def new_ctx_def delete_ctx_def)
next
  case (Inr u)
  then have u: "hk_threads h u = None" using assms(2) by simp
  note free = expected_None [OF u]
  note ok = hook_okD [OF assms(1)]
  have d: "hook_ok (h\<lparr>hk_threads := (hk_threads h)(u \<mapsto> \<lparr>ht_entry = Direct r a, ht_stage = Created\<rparr>)\<rparr>)"
    by (rule hook_ok_same [OF assms(1)]) (use free in \<open>auto simp: owns_upd expected_upd expected_def\<close>)
  let ?h = "h\<lparr>hk_ctxs := (hk_ctxs h)(hk_next h \<mapsto> \<lparr>tc_start_routine = r, tc_arg = a\<rparr>), hk_next := Suc (hk_next h),
    hk_threads := (hk_threads h)(u \<mapsto> \<lparr>ht_entry = Trampoline (hk_next h), ht_stage = Created\<rparr>)\<rparr>"
  have o: "owns ?h t' c \<longleftrightarrow> (if t' = u then c = hk_next h else owns h t' c)" for t' c by (auto simp: owns_def)
  have e: "expected ?h t' = expected h t'" for t' using free(1) by (auto simp: expected_def u)
  have no: "\<not> owns h t' (hk_next h)" for t' using ok(1,2) by blast
  have "hook_ok ?h" unfolding hook_ok_def
  proof (intro conjI allI impI)
    fix c assume "hk_ctxs ?h c \<noteq> None"
    then show "c < hk_next ?h" using ok(1) by (auto split: if_splits intro: less_SucI)
  next
    fix c show "(hk_ctxs ?h c \<noteq> None) = (\<exists>t. owns ?h t c)"
    proof (cases "c = hk_next h")
      case False
      then have "(hk_ctxs ?h c \<noteq> None) = (\<exists>t. owns h t c)" using ok(2,3) by auto
      also have "\<dots> = (\<exists>t. owns ?h t c)" unfolding o using free(2) False by metis
      finally show ?thesis .
    qed (auto simp: o)
  next
    fix t' v c assume "owns ?h t' c" "owns ?h v c"
    then show "t' = v" using ok(4) no by (auto simp: o split: if_splits)
  next
    fix t' show "track t' (hk_log ?h) Unseen = Some (expected ?h t')" using ok(5) by (simp add: e)
  qed
  with d show ?thesis using Inr
    by (simp add: pthread_create_def real_pthread_create_def new_ctx_def)
qed

lemma direct_step_ok:
  assumes "hook_ok h" "hk_threads h t = Some ht" "ht_entry ht = Direct r a"
  shows "hook_ok (end_thread t h)" "hook_ok (set_stage t ht st h)"
proof -
  have e: "expected h t = Unseen" "\<not> owns h t c" for c using assms(2,3) by (auto simp: expected_def owns_def)
  show "hook_ok (end_thread t h)"
    by (rule hook_ok_same [OF assms(1)]) (use e in \<open>auto simp: end_thread_def owns_upd expected_upd\<close>)
  show "hook_ok (set_stage t ht st h)"
    by (rule hook_ok_same [OF assms(1)]) (use assms(2,3) in \<open>cases ht; auto simp: set_stage_def owns_def expected_def\<close>)+
qed

text \<open>What the log says of a wrapped thread at a stage.\<close>

definition seen_at :: "thread_stage \<Rightarrow> seen" where
  "seen_at st = (case st of Created \<Rightarrow> Unseen | Registered \<Rightarrow> Seen | Running \<Rightarrow> InRoutine)"

lemma expected_wrapped: "hk_threads h t = Some ht \<Longrightarrow> ht_entry ht = Trampoline c \<Longrightarrow> expected h t = seen_at (ht_stage ht)"
  by (simp add: expected_def seen_at_def)

text \<open>A wrapped thread moves to another stage with an event that says so.\<close>

lemma move_ok:
  assumes "hook_ok h" "hk_threads h t = Some ht" "ht_entry ht = Trampoline c"
    and "track t [e] (seen_at (ht_stage ht)) = Some (seen_at st)" "\<And>u x. u \<noteq> t \<Longrightarrow> track u [e] x = Some x"
  shows "hook_ok (log_event e (set_stage t ht st h))"
proof (rule hook_ok_logged [OF assms(1)])
  let ?h = "log_event e (set_stage t ht st h)"
  show "owns ?h u d = owns h u d" for u d
    using assms(2,3) by (cases ht) (auto simp: owns_def log_event_def set_stage_def)
  have x: "expected ?h u = (if u = t then seen_at st else expected h u)" for u
    using assms(3) by (simp add: log_event_def set_stage_def expected_def seen_at_def)
  have "track u (hk_log ?h) Unseen = track u [e] (expected h u)" for u
    using hook_okD(5) [OF assms(1)] by (simp add: log_event_def set_stage_def track_append)
  then show "track u (hk_log ?h) Unseen = Some (expected ?h u)" for u
    using assms(4,5) expected_wrapped [OF assms(2,3)] by (cases "u = t") (simp_all only: x if_True if_False refl simp_thms)
qed (simp_all add: log_event_def set_stage_def)

text \<open>The cleanup deletes the context of the thread, which nobody else has.\<close>

lemma cleanup_ok:
  assumes "hook_ok h" "owns h t c" "expected h t \<noteq> Unseen"
  shows "\<exists>h'. map_option (end_thread t) (cleanup_thread_ctx t c h) = Some h' \<and> hook_ok h'"
proof -
  note ok = hook_okD [OF assms(1)]
  let ?h = "h\<lparr>hk_ctxs := (hk_ctxs h)(c := None), hk_threads := (hk_threads h)(t := None), hk_log := hk_log h @ [OnStop t]\<rparr>"
  have o: "owns ?h u d \<longleftrightarrow> u \<noteq> t \<and> owns h u d" for u d by (auto simp: owns_def)
  have only: "d = c" if "owns h t d" for d using that assms(2) by (auto simp: owns_def)
  have "hook_ok ?h" unfolding hook_ok_def
  proof (intro conjI allI impI)
    fix d show "hk_ctxs ?h d \<noteq> None \<Longrightarrow> d < hk_next ?h" using ok(1) by (auto split: if_splits)
  next
    fix d show "(hk_ctxs ?h d \<noteq> None) = (\<exists>u. owns ?h u d)"
    proof (cases "d = c")
      case True
      then show ?thesis using ok(4) assms(2) by (auto simp: o)
    next
      case False
      then have "(hk_ctxs ?h d \<noteq> None) = (\<exists>u. owns h u d)" using ok(2,3) by auto
      also have "\<dots> = (\<exists>u. owns ?h u d)" unfolding o using only False by metis
      finally show ?thesis .
    qed
  next
    fix u v d show "owns ?h u d \<Longrightarrow> owns ?h v d \<Longrightarrow> u = v" using ok(4) by (auto simp: o)
  next
    fix u
    have "track u (hk_log ?h) Unseen = track u [OnStop t] (expected h u)" using ok(5) by (simp add: track_append)
    moreover have "expected ?h u = (if u = t then Unseen else expected h u)" by (simp add: expected_def)
    ultimately show "track u (hk_log ?h) Unseen = Some (expected ?h u)" using assms(3) by (cases "u = t") auto
  qed
  moreover have "map_option (end_thread t) (cleanup_thread_ctx t c h) = Some ?h"
    using ok(2) [OF assms(2)] by (simp add: cleanup_thread_ctx_def delete_ctx_def log_event_def end_thread_def)
  ultimately show ?thesis by blast
qed

lemma step_ok:
  assumes "hook_ok h" "hk_threads h t = Some ht"
  shows "\<exists>h'. thread_step t leave ht h = Some h' \<and> hook_ok h'"
proof (cases "ht_entry ht")
  case (Direct r a)
  then show ?thesis using direct_step_ok [OF assms Direct] by (simp add: thread_step_def)
next
  case (Trampoline c)
  note own = owns_ht [OF Trampoline assms(2)] and x = expected_wrapped [OF assms(2) Trampoline] and move = move_ok [OF assms Trampoline]
  obtain ctx where ctx: "hk_ctxs h c = Some ctx" using hook_okD(2) [OF assms(1) own] by blast
  show ?thesis
  proof (cases "ht_stage ht")
    case Created
    have "hook_ok (thread_start_trampoline t ht h)" unfolding thread_start_trampoline_def
      by (rule move) (simp_all add: Created seen_at_def)
    then show ?thesis by (simp add: thread_step_def Trampoline Created)
  next
    case Registered
    have "hook_ok (log_event (Routine t (tc_start_routine ctx) (tc_arg ctx)) (set_stage t ht Running h))"
      by (rule move) (simp_all add: Registered seen_at_def)
    then show ?thesis using cleanup_ok [OF assms(1) own] x Registered by (simp add: thread_step_def Trampoline call_routine_def ctx seen_at_def)
  next
    case Running
    then show ?thesis using cleanup_ok [OF assms(1) own] x by (simp add: thread_step_def Trampoline seen_at_def)
  qed
qed

lemma hook_run_ok: "hook_run h \<Longrightarrow> hook_ok h"
proof (induction rule: hook_run.induct)
  case run_loaded
  show ?case by (simp add: hook_ok_def hook_init_def owns_def expected_def)
next
  case (run_create h real t r a rc' h')
  then show ?case using create_ok [of h real t r a] by auto
next
  case (run_thread h t ht leave h')
  then show ?case using step_ok [of h t ht leave] by auto
qed (simp_all add: rd_pthread_hook_push_bypass_def rd_pthread_hook_pop_bypass_def)

end
