(* ===== verification/Periodic.thy ===== *)
theory Periodic
  imports Monitor_Report
begin

text \<open>
  \<^verbatim>\<open>src/periodic_profiler.cc\<close>: the events of each mode, and the profiler that cuts the run into windows
  of one second.  A call returns the exception it throws with the state it leaves; \<open>None\<close> stands for
  what the monitor's operations use it for and for a process that is terminated because an exception leaves the
  profiler's thread.
\<close>

subsection \<open>Modes and events\<close>

datatype perp_mode = PERP_OFF | PERP_ROOFLINE | PERP_NONE | PERP_PREFETCH

definition EVENT_LEADER :: "bool list" where
  "EVENT_LEADER = [True, True, True]"

definition SAMPLE_EVENTS :: "string list" where
  "SAMPLE_EVENTS = [''ARM_SPE:LOADSTORE'']"

definition PF_EVENTS :: "string list" where
  "PF_EVENTS = [''OFFCORE_RESPONSE_0:PF_L2_DATA_RD'', ''OFFCORE_RESPONSE_0:PF_L2_RFO'', ''L2_LINES_IN'', ''L2_LINES_OUT:USELESS_HWPF'']"

definition null_spec :: event_spec where
  "null_spec = []"

definition mem_samplers :: event_spec where
  "mem_samplers = zip SAMPLE_EVENTS EVENT_LEADER"

text \<open>The array of leaders is shorter than that of the events: \<open>beyond\<close> is what lies behind it in memory.\<close>

definition pf_counters :: "bool \<Rightarrow> event_spec" where
  "pf_counters beyond = zip PF_EVENTS (EVENT_LEADER @ [beyond])"

definition get_counters :: "bool \<Rightarrow> perp_mode \<Rightarrow> event_spec" where
  "get_counters beyond mode = (case mode of PERP_PREFETCH \<Rightarrow> pf_counters beyond | _ \<Rightarrow> null_spec)"

definition get_samplers :: "int \<Rightarrow> perp_mode \<Rightarrow> event_spec" where
  "get_samplers sample_period mode =
     (case mode of PERP_ROOFLINE \<Rightarrow> if sample_period \<noteq> 0 then mem_samplers else null_spec | _ \<Rightarrow> null_spec)"

subsection \<open>The profiler\<close>

record perp =
  pp_mon :: mon_sys
  pp_tag :: string

type_synonym perp_outcome = "(string option \<times> perp) option"

text \<open>
  An exception of the monitor's constructor leaves the constructor; one of \<^verbatim>\<open>start\<close> destroys the
  thread that is running already, which terminates the process.
\<close>

definition PeriodicProfiler ::
  "mon_env \<Rightarrow> bool \<Rightarrow> string \<Rightarrow> int \<Rightarrow> perp_mode \<Rightarrow> int \<Rightarrow> int \<Rightarrow> bool \<Rightarrow> perf_os \<Rightarrow> perp_outcome" where
  "PeriodicProfiler env beyond profile_name sample_period mode ring aux is_pin os =
     (case construct_monitor env (get_counters beyond mode) (get_samplers sample_period mode) (of_int sample_period) ring aux profile_name is_pin os of
        None \<Rightarrow> None
      | Some (Some e, s) \<Rightarrow> Some (Some e, \<lparr>pp_mon = s, pp_tag = ''init''\<rparr>)
      | Some (None, s) \<Rightarrow>
          (case mon_start env (Some ''init'') False s of
             None \<Rightarrow> None
           | Some (Some e, s1) \<Rightarrow> None
           | Some (None, s1) \<Rightarrow> Some (None, \<lparr>pp_mon = set_nonstop s1, pp_tag = ''init''\<rparr>)))"

text \<open>Calls on the profiler's own thread: an exception there terminates the process.\<close>

definition or_terminate :: "mon_outcome \<Rightarrow> mon_sys option" where
  "or_terminate r = (case r of Some (None, s) \<Rightarrow> Some s | _ \<Rightarrow> None)"

text \<open>One turn of the loop: the window is closed and the next one opened, in environments of their own.\<close>

definition run_tick :: "mon_env \<Rightarrow> mon_env \<Rightarrow> perp \<Rightarrow> perp option" where
  "run_tick env env' p =
     do {
       s1 \<leftarrow> or_terminate (mon_stop env (pp_mon p));
       s2 \<leftarrow> or_terminate (mon_start env' (Some (pp_tag p)) False s1);
       Some (p\<lparr>pp_mon := s2\<rparr>)
     }"

definition kernel_start_phase :: "mon_env \<Rightarrow> string \<Rightarrow> perp \<Rightarrow> string option \<times> perp" where
  "kernel_start_phase env tag p =
     (case mark_phase env (CHR ''+'' # tag) (pp_mon p) of
        (Some e, s) \<Rightarrow> (Some e, p\<lparr>pp_mon := s\<rparr>)
      | (None, s) \<Rightarrow> (None, p\<lparr>pp_mon := s, pp_tag := tag\<rparr>))"

definition kernel_stop_phase :: "mon_env \<Rightarrow> perp \<Rightarrow> string option \<times> perp" where
  "kernel_stop_phase env p =
     (case mark_phase env (CHR ''-'' # pp_tag p) (pp_mon p) of
        (Some e, s) \<Rightarrow> (Some e, p\<lparr>pp_mon := s\<rparr>)
      | (None, s) \<Rightarrow> (None, p\<lparr>pp_mon := s, pp_tag := ''init''\<rparr>))"

text \<open>
  Destruction: the turns that the thread still makes before it sees the flag, the end of the last
  window, and the destruction of the monitor.
\<close>

fun run_ticks :: "(mon_env \<times> mon_env) list \<Rightarrow> perp \<Rightarrow> perp option" where
  "run_ticks [] p = Some p"
| "run_ticks ((env, env') # envs) p = Option.bind (run_tick env env' p) (run_ticks envs)"

definition destroy_perp :: "mon_env \<Rightarrow> (mon_env \<times> mon_env) list \<Rightarrow> perp \<Rightarrow> (out_op list \<times> mon_sys) option" where
  "destroy_perp env envs p =
     do {
       p1 \<leftarrow> run_ticks envs p;
       s \<leftarrow> or_terminate (mon_stop env (pp_mon p1));
       destroy_monitor env s
     }"

end
