(* ===== verification/Starter.thy ===== *)
theory Starter
  imports Periodic
begin

text \<open>
  \<^verbatim>\<open>src/starter.cc\<close>: the library that is loaded into the profiled process.  Its constructor reads the
  environment and creates at most one profiler; the functions of \<^verbatim>\<open>include/rd.h\<close> and the thread
  callbacks go to the profiler that exists.  \<open>None\<close> stands for a process that is terminated by an
  exception that nobody catches, and for what the monitor's operations use it for.
\<close>

subsection \<open>Settings\<close>

definition read_period :: "ctl_env \<Rightarrow> int" where
  "read_period cv = (case cv_getenv cv ''RD_PERIOD'' of None \<Rightarrow> 0 | Some v \<Rightarrow> atoi v)"

text \<open>
  \<^verbatim>\<open>n = n << 1\<close> on an \<^verbatim>\<open>int\<close>, with the result that the compiler of the project gives for every
  value; a loop that does not end has no result.
\<close>

definition shl_int :: "int \<Rightarrow> int" where
  "shl_int n = signed_take_bit 31 (n * 2)"

partial_function (option) double_while :: "int \<Rightarrow> int \<Rightarrow> int option" where
  "double_while bufsize n = (if n \<le> bufsize then double_while bufsize (shl_int n) else Some n)"

declare double_while.simps [code]

definition parse_bufsize :: "string \<Rightarrow> int option" where
  "parse_bufsize env_bufsize =
     (let bufsize = atoi env_bufsize
      in if bufsize \<noteq> 0 then map_option (\<lambda>n. n div 2) (double_while bufsize 1) else Some 1)"

definition bufsize_setting :: "ctl_env \<Rightarrow> string \<Rightarrow> int option" where
  "bufsize_setting cv name = (case env_value cv name of None \<Rightarrow> Some 1 | Some v \<Rightarrow> parse_bufsize v)"

text \<open>\<^verbatim>\<open>commf.get(comm, 256)\<close>: at most 255 characters, up to the end of the line.\<close>

definition read_comm :: "ctl_env \<Rightarrow> string" where
  "read_comm cv = (case cv_file cv ''/proc/self/comm'' of None \<Rightarrow> []
     | Some content \<Rightarrow> take 255 (takeWhile (\<lambda>c. c \<noteq> CHR 0x0A) content))"

definition is_target :: "ctl_env \<Rightarrow> bool" where
  "is_target cv \<longleftrightarrow> (case env_value cv ''RD_TARGET'' of None \<Rightarrow> True | Some target \<Rightarrow> read_comm cv = target)"

definition profile_name :: "ctl_env \<Rightarrow> int \<Rightarrow> string" where
  "profile_name cv pid =
     (let name = (case cv_getenv cv ''RD_NAME'' of None \<Rightarrow> ''rd'' | Some n \<Rightarrow> n)
      in case cv_getenv cv ''RD_PIDNAME'' of
           None \<Rightarrow> name
         | Some pidname \<Rightarrow> if atoi pidname \<noteq> 0 then name @ show_int pid else name)"

text \<open>The mode of the periodic profiler and whether the targeted profiler runs; \<open>None\<close> for an unknown mode.\<close>

definition read_mode :: "ctl_env \<Rightarrow> (perp_mode \<times> bool) option" where
  "read_mode cv =
     (case env_value cv ''RD_MODE'' of
        None \<Rightarrow> Some (PERP_OFF, False)
      | Some mode \<Rightarrow>
          if mode = ''perp'' then Some (PERP_ROOFLINE, False)
          else if mode = ''noperp'' then Some (PERP_NONE, False)
          else if mode = ''pf'' then Some (PERP_PREFETCH, False)
          else if mode = ''targeted_rd'' then Some (PERP_OFF, True)
          else None)"

definition read_pin :: "ctl_env \<Rightarrow> bool" where
  "read_pin cv = (case env_value cv ''RD_PIN_CPU'' of None \<Rightarrow> False | Some pin \<Rightarrow> atoi pin \<noteq> 0)"

subsection \<open>The library\<close>

text \<open>The two global pointers, the environment variables that children inherit, and the device.\<close>

record 'd rd_lib =
  lib_perp :: "perp option"
  lib_targeted_rd :: "'d rd_sys option"
  lib_environ :: "string \<Rightarrow> string option"

definition create_targeted ::
  "'d dev_io \<Rightarrow> ctl_env \<Rightarrow> int \<Rightarrow> 'd \<Rightarrow> (u64 \<times> u64) list \<Rightarrow> 'd rd_lib \<Rightarrow> 'd rd_lib option" where
  "create_targeted io cv pid d mem lib =
     (case TargetedRdProfiler io cv (Some (profile_name cv pid)) True d mem of
        (None, s) \<Rightarrow> Some (lib\<lparr>lib_targeted_rd := Some s\<rparr>)
      | (Some e, s) \<Rightarrow> None)"

text \<open>The period passes through an unsigned 64-bit number.\<close>

definition create_perp ::
  "mon_env \<Rightarrow> bool \<Rightarrow> int \<Rightarrow> perp_mode \<Rightarrow> int \<Rightarrow> int \<Rightarrow> perf_os \<Rightarrow> 'd rd_lib \<Rightarrow> 'd rd_lib option" where
  "create_perp env beyond pid mode ringbufsize auxbufsize os lib =
     (let cv = mn_cv env; period = (of_int (read_period cv) :: u64)
      in case PeriodicProfiler env beyond (profile_name cv pid) (sint (ucast period :: s32)) mode ringbufsize auxbufsize (read_pin cv) os of
           Some (None, p) \<Rightarrow> Some (lib\<lparr>lib_perp := Some p\<rparr>)
         | _ \<Rightarrow> None)"

definition lib_init ::
  "'d dev_io \<Rightarrow> mon_env \<Rightarrow> bool \<Rightarrow> int \<Rightarrow> 'd \<Rightarrow> (u64 \<times> u64) list \<Rightarrow> perf_os \<Rightarrow> 'd rd_lib option" where
  "lib_init io env beyond pid d mem os =
     (let cv = mn_cv env;
          off = \<lparr>lib_perp = None, lib_targeted_rd = None, lib_environ = cv_getenv cv\<rparr>
      in if cv_getenv cv ''RD_ENABLE'' = None \<or> \<not> is_target cv then Some off
         else let lib = off\<lparr>lib_environ := (cv_getenv cv)(''RD_ENABLE'' := None)\<rparr> in
           do {
             (mode, targeted_rd_mode) \<leftarrow> read_mode cv;
             ringbufsize \<leftarrow> bufsize_setting cv ''RD_BUFSIZE'';
             auxbufsize \<leftarrow> bufsize_setting cv ''RD_AUXBUFSIZE'';
             if targeted_rd_mode then create_targeted io cv pid d mem lib
             else if mode \<noteq> PERP_OFF then create_perp env beyond pid mode ringbufsize auxbufsize os lib
             else Some lib
           })"

definition lib_deinit ::
  "'d dev_io \<Rightarrow> mon_env \<Rightarrow> (mon_env \<times> mon_env) list \<Rightarrow> ('d \<Rightarrow> 'd) \<Rightarrow> 'd rd_lib \<Rightarrow> (out_op list \<times> mon_sys option \<times> 'd rd_sys option) option" where
  "lib_deinit io env envs close lib =
     do {
       (out, m) \<leftarrow> (case lib_perp lib of None \<Rightarrow> Some ([], None)
                   | Some p \<Rightarrow> map_option (\<lambda>(out, s). (out, Some s)) (destroy_perp env envs p));
       case lib_targeted_rd lib of
         None \<Rightarrow> Some (out, m, None)
       | Some s \<Rightarrow> (case destroy_profiler io (mn_cv env) close s of (e, ops, s') \<Rightarrow> Some (out @ ops, m, Some s'))
     }"

subsection \<open>The functions of the program\<close>

text \<open>An exception goes to the caller.\<close>

definition with_perp :: "(perp \<Rightarrow> string option \<times> perp) \<Rightarrow> 'd rd_lib \<Rightarrow> string option \<times> 'd rd_lib" where
  "with_perp f lib = (case lib_perp lib of None \<Rightarrow> (None, lib) | Some p \<Rightarrow> (case f p of (e, p') \<Rightarrow> (e, lib\<lparr>lib_perp := Some p'\<rparr>)))"

definition with_targeted :: "('d rd_sys \<Rightarrow> 'd outcome) \<Rightarrow> 'd rd_lib \<Rightarrow> string option \<times> 'd rd_lib" where
  "with_targeted f lib =
     (case lib_targeted_rd lib of None \<Rightarrow> (None, lib) | Some s \<Rightarrow> (case f s of (e, s') \<Rightarrow> (e, lib\<lparr>lib_targeted_rd := Some s'\<rparr>)))"

definition rd_start :: "'d dev_io \<Rightarrow> mon_env \<Rightarrow> string \<Rightarrow> 'd rd_lib \<Rightarrow> string option \<times> 'd rd_lib" where
  "rd_start io env tag lib =
     (case with_perp (kernel_start_phase env tag) lib of
        (Some e, lib1) \<Rightarrow> (Some e, lib1)
      | (None, lib1) \<Rightarrow> with_targeted (kernel_start io (mn_cv env)) lib1)"

definition rd_stop :: "'d dev_io \<Rightarrow> mon_env \<Rightarrow> 'd rd_lib \<Rightarrow> string option \<times> 'd rd_lib" where
  "rd_stop io env lib =
     (case with_perp (kernel_stop_phase env) lib of
        (Some e, lib1) \<Rightarrow> (Some e, lib1)
      | (None, lib1) \<Rightarrow> with_targeted (kernel_stop io (mn_cv env)) lib1)"

definition rd_tag_addr :: "string \<Rightarrow> u64 \<Rightarrow> u64 \<Rightarrow> 'd rd_lib \<Rightarrow> 'd rd_lib" where
  "rd_tag_addr tag start stop lib =
     (case lib_perp lib of None \<Rightarrow> lib | Some p \<Rightarrow> lib\<lparr>lib_perp := Some (p\<lparr>pp_mon := tag_addr tag start stop (pp_mon p)\<rparr>)\<rparr>)"

text \<open>
  The walk over a line of the maps file.  The end of the text is no white space, so that the search
  for one runs past it: \<open>None\<close>.
\<close>

definition skip_field :: "string \<Rightarrow> string option" where
  "skip_field p = (let q = dropWhile (\<lambda>c. \<not> isspace c) p in if q = [] then None else Some (dropWhile isspace q))"

fun skip_fields :: "nat \<Rightarrow> string \<Rightarrow> string option" where
  "skip_fields 0 p = Some p"
| "skip_fields (Suc i) p = Option.bind (skip_field p) (skip_fields i)"

definition maps_line :: "string \<Rightarrow> (u64 \<times> u64 \<times> string) option" where
  "maps_line line =
     (let (start, p) = strtoull 16 line
      in if p = [] then None
         else let (stop, p) = strtoull 16 (tl p) in map_option (\<lambda>path. (start, stop, path)) (skip_fields 5 p))"

fun tag_lines :: "string \<Rightarrow> string \<Rightarrow> string list \<Rightarrow> mon_sys \<Rightarrow> mon_sys option" where
  "tag_lines tag file [] s = Some s"
| "tag_lines tag file (line # lines) s =
     Option.bind (maps_line line)
       (\<lambda>(start, stop, path). tag_lines tag file lines (if file = path then tag_addr tag start stop s else s))"

definition rd_tag_from_maps :: "ctl_env \<Rightarrow> string \<Rightarrow> string \<Rightarrow> 'd rd_lib \<Rightarrow> 'd rd_lib option" where
  "rd_tag_from_maps cv tag file lib =
     (case lib_perp lib of
        None \<Rightarrow> Some lib
      | Some p \<Rightarrow>
          map_option (\<lambda>s. lib\<lparr>lib_perp := Some (p\<lparr>pp_mon := s\<rparr>)\<rparr>)
            (tag_lines tag file (case os_self_maps (cv_os cv) of None \<Rightarrow> [] | Some content \<Rightarrow> lines_of content) (pp_mon p)))"

subsection \<open>Threads\<close>

text \<open>Exceptions of a registration are reported and dropped.\<close>

definition perp_thread :: "(mon_sys \<Rightarrow> mon_outcome) \<Rightarrow> 'd rd_lib \<Rightarrow> 'd rd_lib option" where
  "perp_thread f lib =
     (case lib_perp lib of
        None \<Rightarrow> Some lib
      | Some p \<Rightarrow> map_option (\<lambda>(e, s). lib\<lparr>lib_perp := Some (p\<lparr>pp_mon := s\<rparr>)\<rparr>) (f (pp_mon p)))"

definition rd_on_thread_start :: "'d dev_io \<Rightarrow> mon_env \<Rightarrow> 'd rd_lib \<Rightarrow> 'd rd_lib option" where
  "rd_on_thread_start io env lib =
     map_option (\<lambda>lib1. snd (with_targeted (register_current_thread io (mn_cv env)) lib1)) (perp_thread (mon_register_current_thread env) lib)"

definition rd_on_thread_stop :: "'d dev_io \<Rightarrow> mon_env \<Rightarrow> 'd rd_lib \<Rightarrow> 'd rd_lib option" where
  "rd_on_thread_stop io env lib =
     map_option (\<lambda>lib1. snd (with_targeted (unregister_current_thread io (mn_cv env)) lib1)) (perp_thread (mon_unregister_current_thread env) lib)"

end
