(* ===== verification/Monitor_Slots.thy ===== *)
theory Monitor_Slots
  imports Monitor
begin

text \<open>
  The table of sampler slots.  \<^verbatim>\<open>_sampler_slots\<close> holds pointers into the vectors of samplers of the
  threads: an entry that outlives its slot would be a dangling pointer that the sampler thread
  follows.  The table is exact in every reachable state of the monitor.
\<close>

subsection \<open>What a drain does not change\<close>

text \<open>The monitor without hotspots, decoder counters and the counts of its windows.\<close>

definition blank :: "kinfo \<Rightarrow> kinfo" where
  "blank k = k\<lparr>ki_num_samples := 0, ki_sample_throttles := 0\<rparr>"

lemma blank_upd_last: "(\<And>k. blank (g k) = blank k) \<Longrightarrow> map blank (upd_last g xs) = map blank xs"
  by (auto simp: upd_last_def map_butlast last_map) (metis append_butlast_last_id last_map list.map_disc_iff map_butlast)

definition still :: "monitor \<Rightarrow> monitor" where
  "still m = m\<lparr>mo_thread_hotspots := [], mo_hotspot_unmapped_samples := 0, mo_written_sample_bytes := 0,
     mo_spe_time_packet_flush_count := 0, mo_spe_end_packet_flush_count := 0, mo_spe_empty_flush_count := 0,
     mo_spe_unknown_packet_count := 0, mo_kinfos := map blank (mo_kinfos m)\<rparr>"

lemma still_throttle: "still (throttle m) = still m" "still (add_num_samples n m) = still m"
  by (simp_all add: still_def throttle_def add_num_samples_def blank_upd_last blank_def)

definition same :: "drain_state \<Rightarrow> drain_state \<Rightarrow> bool" where
  "same d d' \<longleftrightarrow> still (dr_mon d') = still (dr_mon d) \<and> reset_pending_spe_sample (dr_slot d') = reset_pending_spe_sample (dr_slot d)"

lemma same_refl [simp]: "same d d"
  by (simp add: same_def)

lemma same_trans: "same a b \<Longrightarrow> same b c \<Longrightarrow> same a c"
  by (simp add: same_def)

lemma still_record: "still (record_hotspot_sample t s m) = still m"
  by (simp add: record_hotspot_sample_def still_def split: option.split)

lemma still_counts [simp]:
  "still (m\<lparr>mo_spe_empty_flush_count := n\<rparr>) = still m" "still (m\<lparr>mo_spe_end_packet_flush_count := n\<rparr>) = still m"
  "still (m\<lparr>mo_spe_time_packet_flush_count := n\<rparr>) = still m" "still (m\<lparr>mo_written_sample_bytes := n\<rparr>) = still m"
  by (simp_all add: still_def)

lemma same_updates [simp]:
  "same d (d\<lparr>dr_aux_tail := v\<rparr>)" "same d (d\<lparr>dr_mon := throttle (dr_mon d)\<rparr>)"
  "same d (flush_pending_spe_sample_locked b d)"
proof -
  show "same d (flush_pending_spe_sample_locked b d)"
    by (simp add: same_def flush_pending_spe_sample_locked_def Let_def still_record)
       (simp add: reset_pending_spe_sample_def)
qed (simp_all add: same_def still_throttle)

lemma reset_put [simp]:
  "reset_pending_spe_sample (put_address i v slot) = reset_pending_spe_sample slot"
  "reset_pending_spe_sample (put_counter i v slot) = reset_pending_spe_sample slot"
  "reset_pending_spe_sample (put_events v slot) = reset_pending_spe_sample slot"
  by (simp_all add: reset_pending_spe_sample_def put_address_def put_counter_def put_events_def set_flag_def)

lemma same_slot [simp]:
  "same d (d\<lparr>dr_slot := put_address i v (dr_slot d)\<rparr>)" "same d (d\<lparr>dr_slot := put_counter i v (dr_slot d)\<rparr>)"
  "same d (d\<lparr>dr_slot := put_events v (dr_slot d)\<rparr>)"
  "same d (d\<lparr>dr_mon := (dr_mon d)\<lparr>mo_spe_unknown_packet_count := n\<rparr>\<rparr>)"
  "same d (d\<lparr>dr_writer := w, dr_mon := (dr_mon d)\<lparr>mo_written_sample_bytes := n\<rparr>, dr_num_samples := k\<rparr>)"
  by (simp_all add: same_def still_def)

lemma post_TrueI: "post m (\<lambda>x. True)"
  by (simp add: post_def)

lemma spe_packet_same: "post (spe_packet area pos d) (\<lambda>r. same d (snd r))"
  by (simp add: spe_packet_def Let_def post_TrueI)

lemma spe_packets_same: "post (spe_packets area sz off n it d) (same d)"
  unfolding post_def
proof (intro allI impI)
  fix d'
  assume "spe_packets area sz off n it d = Some d'"
  then show "same d d'"
  proof (rule spe_packets.raw_induct [where P = "\<lambda>_ _ _ _ _ d d'. same d d'", rotated])
    fix f area sz off n it d d'
    assume f: "\<And>area sz off n it d d'. f area sz off n it d = Some d' \<Longrightarrow> same d d'"
      and b: "(if it < n then if sz = 0 then None else spe_packet area (unat ((off + it) mod sz)) d \<bind>
        (\<lambda>r. f area sz off n (it + 1 + of_nat (fst r)) (snd r)) else Some d) = Some d'"
    have "post (if it < n then if sz = 0 then None else spe_packet area (unat ((off + it) mod sz)) d \<bind>
        (\<lambda>r. f area sz off n (it + 1 + of_nat (fst r)) (snd r)) else Some d) (same d)"
      using f same_trans by (simp add: post_def [of "f _ _ _ _ _ _"]) (blast intro: post_mono [OF spe_packet_same])
    then show "same d d'" using b by (rule postD)
  qed
qed

lemma same_then: "same d e \<Longrightarrow> post m (same e) \<Longrightarrow> post m (same d)"
  using same_trans by (auto simp: post_def)

lemma sample_record_same: "post (sample_record data tail d) (same d)"
  by (simp add: sample_record_def post_TrueI)

lemma aux_record_same: "post (aux_record b tail d) (same d)"
proof -
  define throttled where "throttled flags = (if flags AND PERF_AUX_FLAG_COLLISION \<noteq> 0 then d\<lparr>dr_mon := throttle (dr_mon d)\<rparr> else d)" for flags
  have t: "same d (throttled flags)" for flags by (simp add: throttled_def)
  have k: "post (spe_packets area sz off n it (throttled flags)) (\<lambda>d2. same d (d2\<lparr>dr_aux_tail := v d2\<rparr>))" for area sz off n it flags v
  proof (rule post_mono [OF same_then [OF t spe_packets_same]])
    show "same d (d2\<lparr>dr_aux_tail := v d2\<rparr>)" if "same d d2" for d2 using that by (rule same_trans) simp
  qed
  show ?thesis unfolding aux_record_def Let_def throttled_def [symmetric] by (simp add: k t post_TrueI)
qed

lemma ring_record_same: "post (ring_record b tail d) (\<lambda>r. same d (snd r))"
  using sample_record_same aux_record_same by (simp add: ring_record_def post_TrueI split_beta)

lemma ring_records_same: "post (ring_records b tail d) (\<lambda>r. same d (snd r))"
  unfolding post_def
proof (intro allI impI)
  fix r
  assume "ring_records b tail d = Some r"
  then show "same d (snd r)"
  proof (rule ring_records.raw_induct [where P = "\<lambda>_ _ d r. same d (snd r)", rotated])
    fix f b tail d r
    assume f: "\<And>b tail d r. f b tail d = Some r \<Longrightarrow> same d (snd r)"
      and body: "(if tail < pb_data_head b then ring_record b tail d \<bind> (\<lambda>r. f b (tail + fst r) (snd r)) else Some (tail, d)) = Some r"
    have "post (if tail < pb_data_head b then ring_record b tail d \<bind> (\<lambda>r. f b (tail + fst r) (snd r)) else Some (tail, d)) (\<lambda>r. same d (snd r))"
    proof -
      have "post (f b t e) (\<lambda>r. same d (snd r))" if "same d e" for t e using f same_trans [OF that] by (auto simp: post_def)
      then show ?thesis by (auto intro: post_mono [OF ring_record_same])
    qed
    then show "same d (snd r)" using body by (rule postD)
  qed
qed

subsection \<open>A view of the monitor that drains do not change\<close>

definition thread_of :: "monitor \<Rightarrow> int \<Rightarrow> thread_state" where
  "thread_of m t = (case mo_threads m t of None \<Rightarrow> zero_thread | Some ts \<Rightarrow> ts)"

lemma get_thread_of: "get_thread_state t s = thread_of (ms_mon s) t"
  by (simp add: get_thread_state_def thread_of_def)

lemma map_update_same: "f x = f (xs ! i) \<Longrightarrow> map f (xs[i := x]) = map f xs"
  by (cases "i < length xs") (simp_all add: map_update list_update_same_conv list_update_beyond)

text \<open>
  A drain changes the pending fields of its slot, the writer of the thread, hotspots, windows and
  counts.  Whatever view of the monitor is blind to these is kept by every operation that
  drains.
\<close>

locale drain_frame =
  fixes core :: "monitor \<Rightarrow> 'c"
  assumes core_still: "core (still m) = core m"
    and core_writer: "core (put_writer t i w m) = core m"
    and core_slot: "reset_pending_spe_sample slot = reset_pending_spe_sample (ts_samplers (thread_of m t) ! i) \<Longrightarrow>
      core (m\<lparr>mo_threads := (mo_threads m)(t \<mapsto> (thread_of m t)\<lparr>ts_samplers := (ts_samplers (thread_of m t))[i := slot]\<rparr>)\<rparr>) = core m"
begin

lemma add_num_samples_kept: "core (add_num_samples n m) = core m"
  using core_still still_throttle(2) by metis

lemma process_samples_kept:
  "post (process_samples_locked m b slot) (\<lambda>(r, m', b', slot'). core m' = core m \<and>
     reset_pending_spe_sample slot' = reset_pending_spe_sample slot \<and> (\<forall>u. ts_samplers (thread_of m' u) = ts_samplers (thread_of m u)))"
proof -
  have w: "ts_samplers (thread_of (put_writer t i w m) u) = ts_samplers (thread_of m u)" for t i w m u
    by (simp add: put_writer_def thread_of_def split: option.split)
  have n: "thread_of (add_num_samples k m) = thread_of m" for k m by (simp add: thread_of_def add_num_samples_def fun_eq_iff)
  have t: "mo_threads m' = mo_threads m" if "still m' = still m" for m m'
    using arg_cong [OF that, of mo_threads] by (simp add: still_def)
  have k: "post (ring_records b (pb_data_tail b) d) (\<lambda>r. core (dr_mon (snd r)) = core (dr_mon d) \<and>
      reset_pending_spe_sample (dr_slot (snd r)) = reset_pending_spe_sample (dr_slot d) \<and> thread_of (dr_mon (snd r)) = thread_of (dr_mon d))" for d
  proof (rule post_mono [OF ring_records_same])
    fix r assume "same d (snd r)"
    then have "still (dr_mon (snd r)) = still (dr_mon d)" "reset_pending_spe_sample (dr_slot (snd r)) = reset_pending_spe_sample (dr_slot d)"
      by (simp_all add: same_def)
    then show "core (dr_mon (snd r)) = core (dr_mon d) \<and> reset_pending_spe_sample (dr_slot (snd r)) = reset_pending_spe_sample (dr_slot d) \<and>
        thread_of (dr_mon (snd r)) = thread_of (dr_mon d)"
      using core_still t by (metis (no_types, lifting) ext thread_of_def)
  qed
  show ?thesis
    by (auto simp: process_samples_locked_def Let_def split_beta core_writer add_num_samples_kept w n split: option.split intro!: post_mono [OF k])
qed

text \<open>The event descriptor keeps its value or is read, which sets it to zero.\<close>

definition kept_sys :: "mon_sys \<Rightarrow> mon_sys \<Rightarrow> bool" where
  "kept_sys s s' \<longleftrightarrow> core (ms_mon s') = core (ms_mon s) \<and> (ms_eventfd s' = ms_eventfd s \<or> ms_eventfd s' = 0)"

lemma kept_sys_trans: "kept_sys s s1 \<Longrightarrow> kept_sys s1 s2 \<Longrightarrow> kept_sys s s2"
  by (auto simp: kept_sys_def)

abbreviation keeps :: "mon_sys \<Rightarrow> ('r \<times> mon_sys) option \<Rightarrow> bool" where
  "keeps s m \<equiv> post m (\<lambda>r. kept_sys s (snd r))"

lemma drain_slot_kept: "keeps s (drain_slot t i s)"
proof -
  have "core (ms_mon (upd_thread t (\<lambda>ts. ts\<lparr>ts_samplers := (ts_samplers ts)[i := slot']\<rparr>) (s\<lparr>ms_mon := m\<rparr>))) = core (ms_mon s)"
    if "core m = core (ms_mon s)" "reset_pending_spe_sample slot' = reset_pending_spe_sample (ts_samplers (get_thread_state t s) ! i)"
      "\<forall>u. ts_samplers (thread_of m u) = ts_samplers (thread_of (ms_mon s) u)" for m slot'
    using core_slot [of slot' m t i] that by (simp add: upd_thread_def get_thread_of)
  then show ?thesis unfolding drain_slot_def Let_def
    by (auto simp: split_beta kept_sys_def upd_thread_def dest!: postD [OF process_samples_kept] split: option.split)
qed

text \<open>Two operations one after the other, where an exception of the first ends both.\<close>

lemma keeps_seq:
  assumes "keeps s m" "\<And>k s'. keeps s' (g k s')"
  shows "keeps s (case m of None \<Rightarrow> None | Some (Inl e, s') \<Rightarrow> Some (Inl e, s') | Some (Inr k, s') \<Rightarrow> g k s')"
proof -
  have "keeps s (g k s')" if "kept_sys s s'" for k s'
    using assms(2) by (rule post_mono) (rule kept_sys_trans [OF that])
  then show ?thesis using assms(1) by (cases m) (auto split: sum.split)
qed

lemma drain_slots_kept: "keeps s (drain_slots t is n s)"
proof (induction "is" arbitrary: n s)
  case (Cons i "is")
  show ?case unfolding drain_slots.simps by (rule keeps_seq [OF drain_slot_kept Cons])
qed (simp add: kept_sys_def)

lemma drain_threads_kept: "keeps s (drain_threads ts n s)"
proof (induction ts arbitrary: n s)
  case (Cons t ts)
  have "keeps s (case drain_thread t n s of None \<Rightarrow> None | Some (Inl e, s') \<Rightarrow> Some (Inl e, s') | Some (Inr k, s') \<Rightarrow> drain_threads ts k s')"
    unfolding drain_thread_def by (rule keeps_seq [OF drain_slots_kept Cons])
  with Cons show ?case by simp
qed (simp add: kept_sys_def)

lemma sampler_drain_kept: "keeps s (sampler_drain env cmd s)"
  unfolding sampler_drain_def by (rule keeps_seq [OF drain_threads_kept]) (simp add: Let_def kept_sys_def)

lemma process_samples_id_kept: "keeps s (process_samples k s)"
  unfolding process_samples_def by (auto simp: drain_slot_kept split: option.split) (simp add: kept_sys_def)

lemma sampler_events_kept: "keeps s (sampler_events tokens s)"
proof (induction tokens arbitrary: s)
  case (Cons k tokens)
  have "keeps s (case process_samples (sint (ucast k :: s32)) s of None \<Rightarrow> None | Some (Inl e, s') \<Rightarrow> Some (Inl e, s') | Some (Inr _, s') \<Rightarrow> sampler_events tokens s')"
    by (rule keeps_seq [OF process_samples_id_kept Cons])
  with Cons show ?case by (simp add: kept_sys_def)
qed (simp add: kept_sys_def)

end

subsection \<open>What the slot table says\<close>

definition slot_ident :: "sampler_slot \<Rightarrow> int \<times> int" where
  "slot_ident slot = (ss_slot_id slot, ss_tid slot)"

definition idents :: "monitor \<Rightarrow> int \<Rightarrow> (int \<times> int) list" where
  "idents m t = map slot_ident (ts_samplers (thread_of m t))"

definition slot_view :: "monitor \<Rightarrow> (int \<Rightarrow> (int \<times> int) list) \<times> (int \<rightharpoonup> int \<times> nat) \<times> int" where
  "slot_view m = (idents m, mo_sampler_slots m, mo_next_slot_id m)"

definition exact_view :: "(int \<Rightarrow> (int \<times> int) list) \<times> (int \<rightharpoonup> int \<times> nat) \<times> int \<Rightarrow> bool" where
  "exact_view v = (case v of (ids, slots, nxt) \<Rightarrow>
     (\<forall>t i. i < length (ids t) \<longrightarrow> slots (fst (ids t ! i)) = Some (t, i) \<and> snd (ids t ! i) = t \<and> fst (ids t ! i) < nxt) \<and>
     (\<forall>k t i. slots k = Some (t, i) \<longrightarrow> i < length (ids t) \<and> fst (ids t ! i) = k))"

definition actives :: "monitor \<Rightarrow> int \<Rightarrow> bool" where
  "actives m t = ts_active (thread_of m t)"

text \<open>Threads that are not active have no samplers.\<close>

definition quiet :: "monitor \<Rightarrow> bool" where
  "quiet m \<longleftrightarrow> (\<forall>t. \<not> actives m t \<longrightarrow> idents m t = [])"

definition slot_table_ok :: "monitor \<Rightarrow> bool" where
  "slot_table_ok m \<longleftrightarrow> exact_view (slot_view m) \<and> quiet m"

lemma slots_ok_cong: "slot_view m' = slot_view m \<Longrightarrow> actives m' = actives m \<Longrightarrow> slot_table_ok m' = slot_table_ok m"
  by (simp add: slot_table_ok_def quiet_def slot_view_def)

text \<open>The parts of the monitor that the table depends on, and updates that leave them alone.\<close>

definition slot_core :: "monitor \<Rightarrow> ((int \<Rightarrow> (int \<times> int) list) \<times> (int \<rightharpoonup> int \<times> nat) \<times> int) \<times> (int \<Rightarrow> bool)" where
  "slot_core m = (slot_view m, actives m)"

lemma slots_ok_core: "slot_core m' = slot_core m \<Longrightarrow> slot_table_ok m' = slot_table_ok m"
  by (rule slots_ok_cong) (simp_all add: slot_core_def)

lemma core_threads: "slot_core m = slot_core (still m)"
  by (simp add: slot_core_def slot_view_def idents_def [abs_def] actives_def [abs_def] thread_of_def [abs_def] still_def)

lemma slot_core_upd [simp]:
  "slot_core (m\<lparr>mo_kinfos := ks\<rparr>) = slot_core m" "slot_core (m\<lparr>mo_events_enabled := b\<rparr>) = slot_core m"
  "slot_core (m\<lparr>mo_main_binary_path := p\<rparr>) = slot_core m" "slot_core (m\<lparr>mo_module_maps := mm\<rparr>) = slot_core m"
  "slot_core (m\<lparr>mo_start_time := st\<rparr>) = slot_core m" "slot_core (m\<lparr>mo_prev_counters := pc\<rparr>) = slot_core m"
  "slot_core (m\<lparr>mo_tids := ts\<rparr>) = slot_core m" "slot_core (m\<lparr>mo_phases := ph\<rparr>) = slot_core m"
  "slot_core (m\<lparr>mo_addr_tags := tags\<rparr>) = slot_core m" "slot_core (m\<lparr>mo_nonstop_mode := b\<rparr>) = slot_core m"
  "slot_core (add_retired i c m) = slot_core m" "slot_core (add_num_samples n m) = slot_core m"
  by (simp_all add: slot_core_def slot_view_def idents_def [abs_def] actives_def [abs_def] thread_of_def [abs_def] add_retired_def add_num_samples_def)

lemma slot_core_thread:
  "map slot_ident (ts_samplers ts) = idents m t \<Longrightarrow> ts_active ts = actives m t \<Longrightarrow>
   slot_core (m\<lparr>mo_threads := (mo_threads m)(t \<mapsto> ts)\<rparr>) = slot_core m"
  by (auto simp: slot_core_def slot_view_def idents_def fun_eq_iff actives_def thread_of_def)

lemma slot_core_upd_thread:
  "map slot_ident (ts_samplers (f (thread_of (ms_mon s) t))) = idents (ms_mon s) t \<Longrightarrow>
   ts_active (f (thread_of (ms_mon s) t)) = actives (ms_mon s) t \<Longrightarrow> slot_core (ms_mon (upd_thread t f s)) = slot_core (ms_mon s)"
  by (simp add: upd_thread_def get_thread_of slot_core_thread)

lemma slot_core_put_writer [simp]: "slot_core (put_writer t i w m) = slot_core m"
proof (cases "mo_threads m t")
  case None
  then have "(mo_threads m)(t := None) = mo_threads m" by (auto simp: fun_eq_iff)
  with None show ?thesis by (simp add: put_writer_def)
next
  case (Some ts)
  then show ?thesis by (simp add: put_writer_def slot_core_thread idents_def actives_def thread_of_def)
qed

interpretation slots: drain_frame slot_core
proof
  fix m t i w
  show "slot_core (still m) = slot_core m" by (rule core_threads [symmetric])
  show "slot_core (put_writer t i w m) = slot_core m" by simp
next
  fix m t i slot
  assume r: "reset_pending_spe_sample slot = reset_pending_spe_sample (ts_samplers (thread_of m t) ! i)"
  have "slot_ident sl = slot_ident (reset_pending_spe_sample sl)" for sl
    by (simp add: slot_ident_def reset_pending_spe_sample_def)
  with r have "slot_ident slot = slot_ident (ts_samplers (thread_of m t) ! i)" by metis
  then have "map slot_ident ((ts_samplers (thread_of m t))[i := slot]) = idents m t"
    unfolding idents_def by (rule map_update_same)
  then show "slot_core (m\<lparr>mo_threads := (mo_threads m)(t \<mapsto> (thread_of m t)\<lparr>ts_samplers := (ts_samplers (thread_of m t))[i := slot]\<rparr>)\<rparr>) = slot_core m"
    by (intro slot_core_thread) (simp_all add: actives_def)
qed

abbreviation keeps_slots :: "mon_sys \<Rightarrow> ('r \<times> mon_sys) option \<Rightarrow> bool" where
  "keeps_slots s m \<equiv> post m (\<lambda>r. slot_core (ms_mon (snd r)) = slot_core (ms_mon s))"

subsection \<open>Windows and counters\<close>

lemma for_active_mon [simp]:
  "ms_mon (for_active env enable_thread_locked s) = ms_mon s" "ms_mon (for_active env disable_thread_locked s) = ms_mon s"
proof -
  have "ms_mon (fold enable_thread_locked xs s) = ms_mon s" "ms_mon (fold disable_thread_locked xs s) = ms_mon s" for xs s
    by (induction xs arbitrary: s) (simp_all add: enable_thread_locked_def disable_thread_locked_def)
  then show "ms_mon (for_active env enable_thread_locked s) = ms_mon s" "ms_mon (for_active env disable_thread_locked s) = ms_mon s"
    by (simp_all add: for_active_def)
qed

lemma enable_core [simp]: "slot_core (ms_mon (enable_all env s)) = slot_core (ms_mon s)" "slot_core (ms_mon (disable_all env s)) = slot_core (ms_mon s)"
  by (simp_all add: enable_all_def disable_all_def)

lemma upd_kinfo_core [simp]: "slot_core (ms_mon (upd_kinfo f s)) = slot_core (ms_mon s)"
  by (simp add: upd_kinfo_def)

lemma snapshot_core [simp]:
  "slot_core (snapshot_main_binary_path cv m) = slot_core m" "slot_core (snd (snapshot_module_maps cv m)) = slot_core m"
  by (simp_all add: snapshot_main_binary_path_def snapshot_module_maps_def split: option.split)

lemma sem_wait_core: "post (sem_wait s) (\<lambda>s'. slot_core (ms_mon s') = slot_core (ms_mon s))"
  by (simp add: sem_wait_def)

lemma mon_start_core: "post (mon_start env tag off s) (\<lambda>r. slot_core (ms_mon (snd r)) = slot_core (ms_mon s))"
proof -
  have k: "slot_core m = slot_core (ms_mon s')" if "snapshot_module_maps cv (snapshot_main_binary_path cv' (ms_mon s')) = (e, m)" for cv cv' e m s'
    using that snapshot_core by (metis snd_conv)
  show ?thesis unfolding mon_start_def
    by (auto simp: Let_def split_beta k split: prod.split option.split intro!: post_mono [OF sem_wait_core])
qed

lemma read_indices_core: "slot_core (ms_mon (snd (read_indices env is s))) = slot_core (ms_mon s)"
proof (induction "is" arbitrary: s)
  case (Cons i "is")
  have "slot_core (ms_mon s2) = slot_core (ms_mon s1)" if "read_indices env is s1 = (r, s2)" for r s1 s2
    using Cons [of s1] that by simp
  then show ?case by (auto simp: Let_def split: sum.split prod.split)
qed simp

lemma mon_stop_core: "post (mon_stop env s) (\<lambda>r. slot_core (ms_mon (snd r)) = slot_core (ms_mon s))"
proof -
  have k: "slot_core (ms_mon s2) = slot_core (ms_mon s1)" if "read_counters env b s1 = (r, s2)" for b s1 r s2
    using that read_indices_core by (metis read_counters_def snd_conv)
  show ?thesis unfolding mon_stop_def
    by (auto simp: Let_def split: prod.split option.split sum.split dest!: k)
qed

subsection \<open>Opening and closing\<close>

lemma exact_view_close:
  assumes "exact_view (ids, slots, n)"
  shows "exact_view (ids(t := []), (\<lambda>k. if k \<in> fst ` set (ids t) then None else slots k), n)"
proof -
  have a: "slots (fst (ids u ! i)) = Some (u, i) \<and> snd (ids u ! i) = u \<and> fst (ids u ! i) < n" if "i < length (ids u)" for u i
    using assms that by (simp add: exact_view_def)
  have b: "i < length (ids u) \<and> fst (ids u ! i) = k" if "slots k = Some (u, i)" for u i k
    using assms that by (simp add: exact_view_def)
  have other: "fst (ids u ! i) \<notin> fst ` set (ids t)" if "u \<noteq> t" "i < length (ids u)" for u i
  proof
    assume "fst (ids u ! i) \<in> fst ` set (ids t)"
    then obtain j where "j < length (ids t)" "fst (ids t ! j) = fst (ids u ! i)" by (auto simp: in_set_conv_nth)
    with a [of j t] a [OF that(2)] that(1) show False by simp
  qed
  have own: "k \<in> fst ` set (ids t)" if "slots k = Some (t, i)" for k i
    using b [OF that] nth_mem [of i "ids t"] by force
  have "(\<lambda>k. if k \<in> fst ` set (ids t) then None else slots k) k = Some (u, i) \<Longrightarrow> u \<noteq> t \<and> i < length (ids u) \<and> fst (ids u ! i) = k" for k u i
    using b own by (auto split: if_splits)
  then show ?thesis unfolding exact_view_def using a other by (auto split: if_splits)
qed

lemma exact_view_open:
  assumes "exact_view (ids, slots, n)"
  shows "exact_view (ids(t := ids t @ [(n, t)]), slots(n \<mapsto> (t, length (ids t))), n + 1)"
proof -
  have fresh: "slots n = None"
  proof (rule ccontr)
    assume "slots n \<noteq> None"
    then obtain u i where "slots n = Some (u, i)" by auto
    then have "i < length (ids u)" "fst (ids u ! i) = n" using assms by (auto simp: exact_view_def)
    with assms show False by (auto simp: exact_view_def)
  qed
  show ?thesis using assms fresh unfolding exact_view_def by (auto simp: nth_append less_Suc_eq intro: order_less_imp_le)
qed

lemma exact_view_next: "exact_view (ids, slots, n) \<Longrightarrow> exact_view (ids, slots, n + 1)"
  by (fastforce simp: exact_view_def)

text \<open>While a thread is being opened: the table is exact, the other threads are as they were.\<close>

definition midway :: "int \<Rightarrow> monitor \<Rightarrow> monitor \<Rightarrow> bool" where
  "midway t m m' \<longleftrightarrow> exact_view (slot_view m') \<and> (\<forall>u. u \<noteq> t \<longrightarrow> idents m' u = idents m u \<and> actives m' u = actives m u)"

lemma midway_core: "slot_core m1 = slot_core m \<Longrightarrow> midway t m1 m' = midway t m m'" "slot_core m2 = slot_core m' \<Longrightarrow> midway t m m2 = midway t m m'"
  by (auto simp: midway_def slot_core_def slot_view_def)

lemma map_sampler_mon:
  "map_sampler env t i name fd rp ap s = (e, slot, s') \<Longrightarrow>
   ms_mon s' = (ms_mon s)\<lparr>mo_next_slot_id := mo_next_slot_id (ms_mon s) + 1\<rparr> \<and> slot_ident slot = (mo_next_slot_id (ms_mon s), t)"
  by (auto simp: map_sampler_def Let_def slot_ident_def reset_pending_spe_sample_def split: if_splits)

lemma thread_of_upd [simp]: "thread_of (m\<lparr>mo_threads := (mo_threads m)(t \<mapsto> ts)\<rparr>) u = (if u = t then ts else thread_of m u)"
  by (simp add: thread_of_def)

lemma open_samplers_midway:
  "midway t m (ms_mon s) \<Longrightarrow> midway t m (ms_mon (snd (open_samplers env t rp ap i spec fds s)))"
proof (induction spec arbitrary: i fds s)
  case (Cons ev spec)
  note prems = Cons.prems and ind = Cons.IH
  show ?case
  proof (cases fds)
    case Nil
    then show ?thesis using prems by simp
  next
    case (Cons fd fds')
    obtain name leader where ev: "ev = (name, leader)" by fastforce
    obtain e slot s1 where ms: "map_sampler env t i name fd rp ap s = (e, slot, s1)" by (metis prod.exhaust)
    note mm = map_sampler_mon [OF ms]
    define n where "n = mo_next_slot_id (ms_mon s)"
    define k where "k = length (ts_samplers (get_thread_state t s1))"
    define s3 where "s3 = upd_mon (\<lambda>m. m\<lparr>mo_sampler_slots := (mo_sampler_slots m)(ss_slot_id slot \<mapsto> (t, k))\<rparr>)
      (upd_thread t (\<lambda>ts. ts\<lparr>ts_samplers := ts_samplers ts @ [slot]\<rparr>) s1)"
    have th: "thread_of (ms_mon s1) u = thread_of (ms_mon s) u" for u using mm by (simp add: thread_of_def)
    have v: "exact_view (idents (ms_mon s), mo_sampler_slots (ms_mon s), n)" using prems by (simp add: midway_def slot_view_def n_def)
    have id1: "idents (ms_mon s1) = idents (ms_mon s)" "actives (ms_mon s1) = actives (ms_mon s)" using th by (auto simp: idents_def actives_def)
    have o1: "midway t m (ms_mon s1)"
      using prems exact_view_next [OF v] mm id1 by (simp add: midway_def slot_view_def n_def)
    have id3: "idents (ms_mon s3) = (idents (ms_mon s))(t := idents (ms_mon s) t @ [(n, t)])" "\<And>u. u \<noteq> t \<Longrightarrow> actives (ms_mon s3) u = actives (ms_mon s) u"
      using mm th by (auto simp: s3_def upd_thread_def get_thread_of idents_def actives_def n_def fun_eq_iff thread_of_def split: option.split)
    have "ss_slot_id slot = n" "k = length (idents (ms_mon s) t)" using mm th by (simp_all add: slot_ident_def n_def k_def get_thread_of idents_def)
    then have sl: "mo_sampler_slots (ms_mon s3) = (mo_sampler_slots (ms_mon s))(n \<mapsto> (t, length (idents (ms_mon s) t)))" "mo_next_slot_id (ms_mon s3) = n + 1"
      using mm by (simp_all add: s3_def upd_thread_def n_def)
    have o3: "midway t m (ms_mon s3)"
      using prems exact_view_open [OF v, of t] id3 sl by (simp add: midway_def slot_view_def)
    show ?thesis
    proof (cases e)
      case (Some msg)
      then show ?thesis using ms o1 by (simp add: ev Cons)
    next
      case None
      have ih: "midway t m (ms_mon (snd (open_samplers env t rp ap (Suc i) spec fds' s')))" if "ms_mon s' = ms_mon s3" for s'
        using o3 that by (intro ind) simp
      show ?thesis using ms None o3 ih by (simp add: ev Cons Let_def k_def [symmetric] s3_def [symmetric])
    qed
  qed
qed simp

lemma slot_core_os [simp]: "ms_mon (upd_os f s) = ms_mon s" "ms_mon (pin_thread env t s) = ms_mon s"
  by (simp_all add: pin_thread_def Let_def)

lemma open_counters_core: "slot_core (ms_mon (snd (open_counters env t s))) = slot_core (ms_mon s)"
proof -
  have k: "slot_core (ms_mon (upd_thread t (\<lambda>ts. ts\<lparr>ts_counter_fds := fds\<rparr>) s')) = slot_core (ms_mon s')" for fds s'
    by (rule slot_core_upd_thread) (simp_all add: idents_def actives_def)
  show ?thesis by (auto simp: open_counters_def k split: prod.split)
qed

lemma open_thread_midway:
  assumes "slot_table_ok (ms_mon s)" "\<not> actives (ms_mon s) t"
  shows "post (open_thread_locked env t s) (\<lambda>r. midway t (ms_mon s) (ms_mon (snd r)))"
proof -
  obtain e s1 where oc: "open_counters env t (pin_thread env t s) = (e, s1)" by (metis prod.exhaust)
  have c1: "slot_core (ms_mon s1) = slot_core (ms_mon s)" using open_counters_core [of env t "pin_thread env t s"] oc by simp
  have start: "midway t (ms_mon s) (ms_mon s)" using assms by (simp add: midway_def slot_table_ok_def)
  define s2 where "s2 ws = (if ts_writers (get_thread_state t s1) = [] then upd_thread t (\<lambda>ts. ts\<lparr>ts_writers := ws\<rparr>) s1 else s1)" for ws
  have c2: "slot_core (ms_mon (s2 ws)) = slot_core (ms_mon s)" for ws
    using c1 slot_core_upd_thread [of "\<lambda>ts. ts\<lparr>ts_writers := ws\<rparr>" s1 t] by (simp add: s2_def idents_def actives_def)
  have empty: "idents (ms_mon (s2 ws)) t = []" for ws
    using c2 [of ws] assms by (simp add: slot_table_ok_def quiet_def slot_core_def slot_view_def)
  have c3: "slot_core (ms_mon (upd_thread t (\<lambda>ts. ts\<lparr>ts_samplers := []\<rparr>) (s2 ws\<lparr>ms_os := os\<rparr>))) = slot_core (ms_mon s)" for ws os
    using c2 [of ws] empty [of ws] slot_core_upd_thread [of "\<lambda>ts. ts\<lparr>ts_samplers := []\<rparr>" "s2 ws\<lparr>ms_os := os\<rparr>" t]
    by (simp add: actives_def)
  have m3: "midway t (ms_mon s) (ms_mon (snd (open_samplers env t rp ap i spec fds (upd_thread t (\<lambda>ts. ts\<lparr>ts_samplers := []\<rparr>) (s2 ws\<lparr>ms_os := os\<rparr>)))))" for rp ap i spec fds ws os
    using start midway_core(2) [OF c3] by (intro open_samplers_midway) simp
  have m12: "midway t (ms_mon s) (ms_mon s1)" "midway t (ms_mon s) (ms_mon (s2 ws))" for ws
    using start midway_core(2) [OF c1] midway_core(2) [OF c2] by simp_all
  have eq: "open_thread_locked env t s = (case e of Some x \<Rightarrow> Some (e, s1) | None \<Rightarrow>
      let spec = mo_sampler_spec (ms_mon s); ws = ts_writers (get_thread_state t s1) in
      if spec = [] then Some (None, s1)
      else if ws \<noteq> [] \<and> length ws \<noteq> length spec then Some (Some ''writer vector size mismatch'', s1)
      else let s2' = s2 (map (new_writer env (ms_mon s1) t) [0..<length spec]) in
        do {
          rp \<leftarrow> buffer_pages (mo_ringbufsize (ms_mon s)) (cv_page_size (mn_cv env));
          ap \<leftarrow> buffer_pages (mo_auxbufsize (ms_mon s)) (cv_page_size (mn_cv env));
          case open_fds env t (mo_sample_period (ms_mon s)) 0 (- 1) spec (ms_os s2') of
            (Some e, fds, os) \<Rightarrow> Some (Some e, s2'\<lparr>ms_os := os\<rparr>)
          | (None, fds, os) \<Rightarrow> Some (open_samplers env t rp ap 0 spec fds (upd_thread t (\<lambda>ts. ts\<lparr>ts_samplers := []\<rparr>) (s2'\<lparr>ms_os := os\<rparr>)))
        })"
    unfolding open_thread_locked_def oc s2_def Let_def slot_core_os(2) by (cases e) simp_all
  show ?thesis unfolding eq Let_def by (simp add: m12 m3 post_TrueI split: option.split prod.split)
qed

lemma close_slots_mon:
  "ms_mon (fold close_slot xs s) = (ms_mon s)\<lparr>mo_sampler_slots := (\<lambda>k. if k \<in> ss_slot_id ` set xs then None else mo_sampler_slots (ms_mon s) k)\<rparr>"
  by (induction xs arbitrary: s) (auto simp: close_slot_def fun_eq_iff)

lemma close_thread_slots_ok:
  assumes "exact_view (slot_view (ms_mon s))" "\<And>u. u \<noteq> t \<Longrightarrow> \<not> actives (ms_mon s) u \<Longrightarrow> idents (ms_mon s) u = []"
  shows "slot_table_ok (ms_mon (close_thread_locked t s))"
proof -
  let ?m = "ms_mon (close_thread_locked t s)" and ?xs = "ts_samplers (thread_of (ms_mon s) t)"
  have m: "ms_mon (fold close_slot ?xs s) = (ms_mon s)\<lparr>mo_sampler_slots := (\<lambda>k. if k \<in> ss_slot_id ` set ?xs then None else mo_sampler_slots (ms_mon s) k)\<rparr>"
    by (rule close_slots_mon)
  have t: "thread_of ?m u = (if u = t then (thread_of (ms_mon s) t)\<lparr>ts_samplers := [], ts_counter_fds := [], ts_active := False\<rparr> else thread_of (ms_mon s) u)" for u
    by (simp add: close_thread_locked_def Let_def upd_thread_def get_thread_of m) (simp add: thread_of_def)
  have "mo_sampler_slots ?m = (\<lambda>k. if k \<in> ss_slot_id ` set ?xs then None else mo_sampler_slots (ms_mon s) k)" "mo_next_slot_id ?m = mo_next_slot_id (ms_mon s)"
    by (simp_all add: close_thread_locked_def Let_def upd_thread_def get_thread_of m)
  moreover have "ss_slot_id ` set ?xs = fst ` set (idents (ms_mon s) t)" by (force simp: idents_def slot_ident_def)
  moreover have "idents ?m = (idents (ms_mon s))(t := [])" by (simp add: idents_def t fun_eq_iff)
  ultimately have "exact_view (slot_view ?m)" using exact_view_close [of "idents (ms_mon s)"] assms(1) by (simp add: slot_view_def)
  moreover have "quiet ?m" using assms(2) by (auto simp: quiet_def idents_def actives_def t)
  ultimately show ?thesis by (simp add: slot_table_ok_def)
qed

lemma slots_okD: "slot_table_ok m \<Longrightarrow> exact_view (slot_view m)" "slot_table_ok m \<Longrightarrow> \<not> actives m u \<Longrightarrow> idents m u = []"
  by (simp_all add: slot_table_ok_def quiet_def)

lemma activate_slots_ok:
  assumes "midway t m (ms_mon s)" "slot_table_ok m"
  shows "slot_table_ok (ms_mon (upd_thread t (\<lambda>ts. ts\<lparr>ts_active := True\<rparr>) s))"
proof -
  let ?m = "ms_mon (upd_thread t (\<lambda>ts. ts\<lparr>ts_active := True\<rparr>) s)"
  have "thread_of ?m u = (if u = t then (thread_of (ms_mon s) t)\<lparr>ts_active := True\<rparr> else thread_of (ms_mon s) u)" for u
    by (simp add: upd_thread_def get_thread_of)
  then have "idents ?m = idents (ms_mon s)" "actives ?m = (actives (ms_mon s))(t := True)"
    by (auto simp: idents_def actives_def fun_eq_iff)
  moreover have "mo_sampler_slots ?m = mo_sampler_slots (ms_mon s)" "mo_next_slot_id ?m = mo_next_slot_id (ms_mon s)"
    by (simp_all add: upd_thread_def)
  ultimately show ?thesis using assms by (auto simp: slot_table_ok_def quiet_def midway_def slot_view_def)
qed

lemma register_slots_ok:
  assumes "slot_table_ok (ms_mon s)"
  shows "post (mon_register_thread_locked env t s) (\<lambda>r. slot_table_ok (ms_mon (snd r)))"
proof -
  define s2 where "s2 = upd_mon (\<lambda>m. m\<lparr>mo_tids := (if t \<in> set (mo_tids m) then mo_tids m else mo_tids m @ [t])\<rparr>)
    (upd_thread t (\<lambda>ts. ts\<lparr>ts_tid := t\<rparr>) s)"
  have "slot_core (ms_mon s2) = slot_core (ms_mon s)"
    using slot_core_upd_thread [of "\<lambda>ts. ts\<lparr>ts_tid := t\<rparr>" s t] by (simp add: s2_def idents_def actives_def)
  then have ok: "slot_table_ok (ms_mon s2)" using assms slots_ok_core by blast
  have "slot_table_ok (ms_mon (close_thread_locked t s3))" if "midway t (ms_mon s2) (ms_mon s3)" for s3
    using that slots_okD(2) [OF ok] by (intro close_thread_slots_ok) (auto simp: midway_def)
  moreover have "slot_table_ok (ms_mon (upd_thread t (\<lambda>ts. ts\<lparr>ts_active := True\<rparr>) s3))" if "midway t (ms_mon s2) (ms_mon s3)" for s3
    using activate_slots_ok [OF that ok] .
  ultimately show ?thesis
    using ok postD [OF open_thread_midway [OF ok]] unfolding mon_register_thread_locked_def Let_def s2_def [symmetric]
    by (fastforce simp: post_def get_thread_of actives_def split: option.splits prod.splits if_splits)
qed

lemma retire_fds_core: "slot_core (ms_mon (snd (retire_fds env ifs s))) = slot_core (ms_mon s)"
  by (induction ifs arbitrary: s) (auto split: sum.split)

lemma unregister_slots_ok:
  assumes "slot_table_ok (ms_mon s)"
  shows "post (mon_unregister_thread_locked env t s) (\<lambda>r. slot_table_ok (ms_mon (snd r)))"
proof -
  have drained: "slot_table_ok (ms_mon (snd r))" if "drain_thread t 0 s1 = Some r" "ms_mon s1 = ms_mon s" for r s1
    using postD [OF slots.drain_slots_kept that(1) [unfolded drain_thread_def]] that(2) slots_ok_core assms unfolding slots.kept_sys_def by metis
  have retired: "slot_table_ok (ms_mon s3)" if "accumulate_retired_counts_locked env t s2 = (e, s3)" "slot_table_ok (ms_mon s2)" for e s2 s3
    using that retire_fds_core slots_ok_core by (metis accumulate_retired_counts_locked_def snd_conv)
  have closed: "slot_table_ok (ms_mon (close_thread_locked t s3))" if "slot_table_ok (ms_mon s3)" for s3
    using slots_okD [OF that] by (rule close_thread_slots_ok)
  have d: "ms_mon (disable_thread_locked ts s) = ms_mon s" for ts by (simp add: disable_thread_locked_def)
  show ?thesis unfolding mon_unregister_thread_locked_def Let_def
    using assms by (auto simp: d split: option.split sum.split prod.split dest!: drained dest: retired intro!: closed)
qed

lemma attach_slots_ok: "slot_table_ok (ms_mon s) \<Longrightarrow> post (attach_threads env ts s) (\<lambda>s'. slot_table_ok (ms_mon s'))"
proof (induction ts arbitrary: s)
  case (Cons t ts)
  show ?case using Cons.IH postD [OF register_slots_ok [OF Cons.prems]] by (auto split: option.split)
qed simp

lemma slots_ok_empty: "mo_threads m = Map.empty \<Longrightarrow> mo_sampler_slots m = Map.empty \<Longrightarrow> slot_table_ok m"
  by (simp add: slot_table_ok_def exact_view_def slot_view_def quiet_def idents_def thread_of_def zero_thread_def)

lemma construct_slots_ok: "post (construct_monitor env cs ss period ring aux name pin os) (\<lambda>r. slot_table_ok (ms_mon (snd r)))"
proof -
  let ?m0 = "initial_monitor env cs ss period ring aux name pin"
  have st: "mo_threads m = Map.empty \<and> mo_sampler_slots m = Map.empty" if "monitor_settings cv ?m0 = Inr m" for cv m
    using that by (auto simp: monitor_settings_def initial_monitor_def split: sum.splits)
  have os: "mo_threads (ms_mon s') = mo_threads (ms_mon s) \<and> mo_sampler_slots (ms_mon s') = mo_sampler_slots (ms_mon s)"
    if "open_sampler_thread env s = (e, s')" for s e s'
    using that by (auto simp: open_sampler_thread_def Let_def split: if_splits)
  have e: "slot_table_ok ?m0" by (rule slots_ok_empty) (simp_all add: initial_monitor_def)
  have fin: "post (case attach_threads env tids s2 of None \<Rightarrow> None | Some s3 \<Rightarrow> Some (None, s3)) (\<lambda>r. slot_table_ok (ms_mon (snd r)))"
    if "slot_table_ok (ms_mon s2)" for tids and s2
    using attach_slots_ok [OF that, of env tids] by (simp add: post_def split: option.split)
  have rest: "post (case open_sampler_thread env s1 of (Some e, s1) \<Rightarrow> Some (Some e, s1)
      | (None, s1) \<Rightarrow> case get_threads (mn_cv env) (tid s1) of Inl e \<Rightarrow> Some (Some e, upd_mon f s1)
        | Inr tids \<Rightarrow> case attach_threads env tids (upd_mon f s1) of None \<Rightarrow> None | Some s3 \<Rightarrow> Some (None, s3)) (\<lambda>r. slot_table_ok (ms_mon (snd r)))"
    if "mo_threads (ms_mon s1) = Map.empty" "mo_sampler_slots (ms_mon s1) = Map.empty"
      and f: "\<And>m. mo_threads (f m) = mo_threads m" "\<And>m. mo_sampler_slots (f m) = mo_sampler_slots m" for s1 f tid
  proof -
    obtain e s2 where o: "open_sampler_thread env s1 = (e, s2)" by (metis prod.exhaust)
    have "slot_table_ok (ms_mon s2)" "slot_table_ok (f (ms_mon s2))" using os [OF o] that by (auto intro!: slots_ok_empty)
    then show ?thesis unfolding o using fin [of "upd_mon f s2"] by (cases e) (auto split: sum.split)
  qed
  show ?thesis
  proof (cases "monitor_settings (mn_cv env) ?m0")
    case (Inl msg)
    then show ?thesis using e by (simp add: construct_monitor_def)
  next
    case (Inr m)
    have "slot_table_ok m" using st [OF Inr] by (intro slots_ok_empty) simp_all
    show ?thesis
    proof (cases "mn_pfm_initialize env \<and> (\<exists>n. mn_clock_getres env = Some (0, n))")
      case True
      then obtain n where n: "mn_pfm_initialize env" "mn_clock_getres env = Some (0, n)" by blast
      let ?s1 = "\<lparr>ms_mon = m\<lparr>mo_clock_res := of_int n * 1000000000\<rparr>, ms_os = os, ms_eventfd = 0, ms_sem = 0\<rparr>"
      let ?f = "\<lambda>m. m\<lparr>mo_prev_counters := replicate (length cs + length ss) 0, mo_retired_values := replicate (length cs + length ss) 0,
        mo_retired_time_enabled := replicate (length cs + length ss) 0, mo_retired_time_running := replicate (length cs + length ss) 0\<rparr>"
      have "construct_monitor env cs ss period ring aux name pin os = (case open_sampler_thread env ?s1 of (Some e, s1) \<Rightarrow> Some (Some e, s1)
        | (None, s1) \<Rightarrow> case get_threads (mn_cv env) (mo_sampler_tid (ms_mon (upd_mon ?f s1))) of Inl e \<Rightarrow> Some (Some e, upd_mon ?f s1)
          | Inr tids \<Rightarrow> case attach_threads env tids (upd_mon ?f s1) of None \<Rightarrow> None | Some s3 \<Rightarrow> Some (None, s3))"
        unfolding construct_monitor_def Let_def using n Inr by simp
      moreover have "mo_threads (ms_mon ?s1) = Map.empty" "mo_sampler_slots (ms_mon ?s1) = Map.empty" using st [OF Inr] by simp_all
      ultimately show ?thesis using rest [of ?s1 ?f "\<lambda>s1. mo_sampler_tid (ms_mon (upd_mon ?f s1))"] by simp
    next
      case False
      then show ?thesis using \<open>slot_table_ok m\<close> by (auto simp: construct_monitor_def Let_def Inr split: option.split)
    qed
  qed
qed

subsection \<open>Reachable states\<close>

text \<open>
  The steps of the monitor: what the program's threads call, what the sampler thread does on the
  events of a wait and on a command.  Every call sees an environment of its own.
\<close>

inductive mon_step :: "mon_sys \<Rightarrow> mon_sys \<Rightarrow> bool" where
  step_register: "mon_register_current_thread env s = Some (r, s') \<Longrightarrow> mon_step s s'"
| step_unregister: "mon_unregister_current_thread env s = Some (r, s') \<Longrightarrow> mon_step s s'"
| step_start: "mon_start env tag off s = Some (r, s') \<Longrightarrow> mon_step s s'"
| step_stop: "mon_stop env s = Some (r, s') \<Longrightarrow> mon_step s s'"
| step_request: "mon_step s (read_samples s)"
| step_events: "sampler_events tokens s = Some (r, s') \<Longrightarrow> mon_step s s'"
| step_drain: "sampler_drain env cmd s = Some (r2, s') \<Longrightarrow> mon_step s s'"
| step_phase: "mon_step s (snd (mark_phase env tag s))"
| step_tag: "mon_step s (tag_addr tag start stop s)"
| step_nonstop: "mon_step s (set_nonstop s)"

inductive mon_reachable :: "mon_sys \<Rightarrow> bool" where
  reach_construct: "construct_monitor env cs ss period ring aux name pin os = Some (None, s) \<Longrightarrow> mon_reachable s"
| reach_mon_step: "mon_reachable s \<Longrightarrow> mon_step s s' \<Longrightarrow> mon_reachable s'"

lemma keeps_slots_ok: "keeps_slots s m \<Longrightarrow> m = Some (r, s') \<Longrightarrow> slot_table_ok (ms_mon s) \<Longrightarrow> slot_table_ok (ms_mon s')"
  using slots_ok_core [of "ms_mon s'" "ms_mon s"] by (auto simp: post_def)

lemma kept_slots_ok: "slots.keeps s m \<Longrightarrow> m = Some (r, s') \<Longrightarrow> slot_table_ok (ms_mon s) \<Longrightarrow> slot_table_ok (ms_mon s')"
  using slots_ok_core [of "ms_mon s'" "ms_mon s"] by (auto simp: post_def slots.kept_sys_def)

lemma mon_step_slots_ok: "mon_step s s' \<Longrightarrow> slot_table_ok (ms_mon s) \<Longrightarrow> slot_table_ok (ms_mon s')"
proof (induction rule: mon_step.induct)
  case (step_register env s r s')
  have e: "ms_mon (enable_thread_locked ts s1) = ms_mon s1" for ts s1 by (simp add: enable_thread_locked_def)
  have reg: "slot_table_ok (ms_mon s1)" if "mon_register_thread_locked env t s = Some (r, s1)" for t r s1
    using postD [OF register_slots_ok [OF step_register(2)] that] by simp
  show ?case
  proof (cases "mon_register_thread_locked env (cv_gettid (mn_cv env)) s")
    case None
    then show ?thesis using step_register by (simp add: mon_register_current_thread_def mon_then_def split: if_splits)
  next
    case (Some rs)
    then have "slot_table_ok (ms_mon (snd rs))" using reg [of _ "fst rs" "snd rs"] by simp
    then show ?thesis using step_register Some
      by (cases rs) (auto simp: mon_register_current_thread_def mon_then_def Let_def e split: if_splits option.splits)
  qed
next
  case (step_unregister env s r s')
  have "post (mon_unregister_current_thread env s) (\<lambda>r. slot_table_ok (ms_mon (snd r)))"
    using step_unregister(2) unregister_slots_ok by (simp add: mon_unregister_current_thread_def)
  then show ?case using step_unregister(1) by (auto dest: postD)
next
  case (step_start env tag off s r s')
  then show ?case using keeps_slots_ok [OF mon_start_core] by blast
next
  case (step_stop env s r s')
  then show ?case using keeps_slots_ok [OF mon_stop_core] by blast
next
  case (step_events tokens s r s')
  then show ?case using kept_slots_ok [OF slots.sampler_events_kept] by blast
next
  case (step_drain env cmd s r s')
  then show ?case using kept_slots_ok [OF slots.sampler_drain_kept] by blast
next
  case (step_phase s env tag)
  have "slot_core (ms_mon (snd (mark_phase env tag s))) = slot_core (ms_mon s)" by (auto simp: mark_phase_def split: sum.split)
  then show ?case using step_phase slots_ok_core by blast
next
  case (step_tag s tag start stop)
  then show ?case by (simp add: tag_addr_def slots_ok_core [OF slot_core_upd(9)])
next
  case (step_nonstop s)
  then show ?case by (simp add: set_nonstop_def slots_ok_core [OF slot_core_upd(10)])
next
  case (step_request s)
  then show ?case by (simp add: read_samples_def)
qed

lemma mon_reachable_slots_ok: "mon_reachable s \<Longrightarrow> slot_table_ok (ms_mon s)"
proof (induction rule: mon_reachable.induct)
  case (reach_construct env cs ss period ring aux name pin os s)
  then show ?case using postD [OF construct_slots_ok] by fastforce
qed (rule mon_step_slots_ok)

text \<open>The table spelled out: an id leads exactly to the slot of an active thread that has it.\<close>

lemma slot_table_ok_exact:
  assumes "slot_table_ok m"
  shows "mo_sampler_slots m k = Some (t, i) \<longleftrightarrow>
    (\<exists>ts. mo_threads m t = Some ts \<and> ts_active ts \<and> i < length (ts_samplers ts) \<and> ss_slot_id (ts_samplers ts ! i) = k)"
proof -
  have v: "exact_view (idents m, mo_sampler_slots m, mo_next_slot_id m)" using slots_okD(1) [OF assms] by (simp add: slot_view_def)
  have "mo_sampler_slots m k = Some (t, i) \<longleftrightarrow> i < length (idents m t) \<and> fst (idents m t ! i) = k"
    using v by (auto simp: exact_view_def)
  also have "\<dots> \<longleftrightarrow> actives m t \<and> i < length (ts_samplers (thread_of m t)) \<and> ss_slot_id (ts_samplers (thread_of m t) ! i) = k"
    using slots_okD(2) [OF assms, of t] by (cases "actives m t") (auto simp: idents_def slot_ident_def)
  also have "\<dots> \<longleftrightarrow> (\<exists>ts. mo_threads m t = Some ts \<and> ts_active ts \<and> i < length (ts_samplers ts) \<and> ss_slot_id (ts_samplers ts ! i) = k)"
    by (auto simp: actives_def thread_of_def zero_thread_def split: option.splits)
  finally show ?thesis .
qed

end
