(* ===== verification/Periodic_Correct.thy ===== *)
theory Periodic_Correct
  imports Periodic Monitor_Slots
begin

text \<open>
  Runs of the periodic profiler: its own thread cuts windows while the threads of the program come
  and go and mark phases, and the sampler thread drains.  The window protocol keeps every closed window complete and the
  event descriptor unused, so that the profiler can be destroyed and its information file
  written.
\<close>

subsection \<open>The windows of a monitor\<close>

text \<open>What the window protocol depends on: counters per window, mode, specifications and descriptors.\<close>

definition win_core :: "monitor \<Rightarrow> counter_data list option list \<times> bool \<times> event_spec \<times> event_spec \<times> int" where
  "win_core m = (map ki_counters (mo_kinfos m), mo_nonstop_mode m, mo_counter_spec m, mo_sampler_spec m, mo_event_fd m)"

interpretation wins: drain_frame win_core
proof
  fix m t i w
  show "win_core (still m) = win_core m" by (simp add: win_core_def still_def comp_def blank_def)
  show "win_core (put_writer t i w m) = win_core m" by (simp add: win_core_def put_writer_def split: option.split)
qed (simp add: win_core_def)

text \<open>The windows and the event descriptor are as they were.\<close>

definition kept_win :: "mon_sys \<Rightarrow> mon_sys \<Rightarrow> bool" where
  "kept_win s s' \<longleftrightarrow> win_core (ms_mon s') = win_core (ms_mon s) \<and> ms_eventfd s' = ms_eventfd s"

lemma kept_win_refl [simp]: "kept_win s s"
  by (simp add: kept_win_def)

lemma kept_win_trans: "kept_win a b \<Longrightarrow> kept_win b c \<Longrightarrow> kept_win a c"
  by (simp add: kept_win_def)

lemma win_core_upd [simp]:
  "win_core (m\<lparr>mo_threads := a\<rparr>) = win_core m" "win_core (m\<lparr>mo_sampler_slots := b\<rparr>) = win_core m"
  "win_core (m\<lparr>mo_next_slot_id := c\<rparr>) = win_core m" "win_core (m\<lparr>mo_tids := d\<rparr>) = win_core m"
  "win_core (m\<lparr>mo_events_enabled := e\<rparr>) = win_core m" "win_core (m\<lparr>mo_start_time := f\<rparr>) = win_core m"
  "win_core (m\<lparr>mo_prev_counters := g\<rparr>) = win_core m" "win_core (m\<lparr>mo_phases := h\<rparr>) = win_core m"
  "win_core (m\<lparr>mo_addr_tags := j\<rparr>) = win_core m" "win_core (add_retired i c' m) = win_core m"
  by (simp_all add: win_core_def add_retired_def)

lemma win_core_ops [simp]:
  "win_core (ms_mon (upd_thread t g s)) = win_core (ms_mon s)" "ms_eventfd (upd_thread t g s) = ms_eventfd s"
  "ms_eventfd (pin_thread env t s) = ms_eventfd s" "win_core (snapshot_main_binary_path cv m) = win_core m"
  by (simp_all add: upd_thread_def pin_thread_def Let_def snapshot_main_binary_path_def) (simp add: win_core_def)

lemma kept_win_upd [simp]:
  "kept_win s (s'\<lparr>ms_os := os\<rparr>) = kept_win s s'" "kept_win s (upd_thread t g s') = kept_win s s'"
  "kept_win s (s'\<lparr>ms_mon := m\<rparr>) \<longleftrightarrow> win_core m = win_core (ms_mon s) \<and> ms_eventfd s' = ms_eventfd s"
  by (simp_all add: kept_win_def)

subsection \<open>Registration keeps the windows\<close>

lemma map_sampler_win: "map_sampler env t i name fd rp ap s = (e, slot, s') \<Longrightarrow> kept_win s s'"
  by (auto simp: map_sampler_def Let_def kept_win_def split: if_splits)

lemma open_samplers_win: "kept_win s (snd (open_samplers env t rp ap i spec fds s))"
proof (induction spec arbitrary: i fds s)
  case (Cons ev spec)
  note ih = Cons
  obtain name leader where ev: "ev = (name, leader)" by fastforce
  have next_ok: "kept_win s (snd (open_samplers env t rp ap j spec fds' s2))" if "kept_win s s2" for j fds' s2
    using that ih by (rule kept_win_trans)
  show ?case
  proof (cases fds)
    case (Cons fd fds')
    obtain e slot s1 where ms: "map_sampler env t i name fd rp ap s = (e, slot, s1)" by (metis prod.exhaust)
    have k: "kept_win s s1" by (rule map_sampler_win [OF ms])
    show ?thesis
    proof (cases e)
      case None
      show ?thesis using k k [unfolded kept_win_def] ms None Cons ev by (simp add: Let_def next_ok)
    next
      case (Some msg)
      then show ?thesis using k ms Cons ev by (simp add: kept_win_def)
    qed
  qed simp
qed simp

lemma open_counters_win: "kept_win s (snd (open_counters env t s))"
  by (simp add: open_counters_def kept_win_def split: prod.split)

lemma open_thread_win: "post (open_thread_locked env t s) (\<lambda>r. kept_win s (snd r))"
proof -
  obtain e s1 where oc: "open_counters env t (pin_thread env t s) = (e, s1)" by (metis prod.exhaust)
  have k: "kept_win s s1" using open_counters_win [of "pin_thread env t s" env t] oc by (simp add: kept_win_def)
  have o: "kept_win s (snd (open_samplers env t rp ap i spec fds s2))" if "kept_win s s2" for rp ap i spec fds s2
    using that open_samplers_win by (rule kept_win_trans)
  show ?thesis unfolding open_thread_locked_def Let_def oc
    using k by (cases e) (auto simp: o post_TrueI split: prod.split option.split intro!: post_mono [OF post_TrueI])
qed

lemma close_thread_win: "kept_win s (close_thread_locked t s)"
proof -
  have "kept_win s (fold close_slot xs s')" if "kept_win s s'" for xs s'
    using that by (induction xs arbitrary: s') (simp_all add: close_slot_def kept_win_def)
  from this [OF kept_win_refl] show ?thesis by (simp add: close_thread_locked_def Let_def kept_win_def)
qed

lemma register_win: "post (mon_register_thread_locked env t s) (\<lambda>r. kept_win s (snd r))"
proof -
  define s2 where "s2 = upd_mon (\<lambda>m. m\<lparr>mo_tids := (if t \<in> set (mo_tids m) then mo_tids m else mo_tids m @ [t])\<rparr>)
    (upd_thread t (\<lambda>ts. ts\<lparr>ts_tid := t\<rparr>) s)"
  have k2: "kept_win s s2" by (simp add: s2_def kept_win_def)
  have k3: "kept_win s s3 \<and> kept_win s (upd_thread t f s3) \<and> kept_win s (close_thread_locked t s3)"
    if "open_thread_locked env t s2 = Some (r, s3)" for r s3 f
  proof -
    have k: "kept_win s s3" using kept_win_trans [OF k2] postD [OF open_thread_win that] by simp
    then show ?thesis using kept_win_trans [OF k close_thread_win] by (simp add: kept_win_def)
  qed
  show ?thesis unfolding mon_register_thread_locked_def Let_def s2_def [symmetric]
    using k2 by (auto simp: post_def split: option.splits if_splits dest!: k3)
qed

lemma enable_thread_win [simp]: "kept_win s (enable_thread_locked ts s') = kept_win s s'" "kept_win s (disable_thread_locked ts s') = kept_win s s'"
  by (simp_all add: kept_win_def enable_thread_locked_def disable_thread_locked_def)

lemma register_current_win: "post (mon_register_current_thread env s) (\<lambda>r. kept_win s (snd r))"
  using postD [OF register_win]
  by (auto simp: mon_register_current_thread_def mon_then_def Let_def post_def split: option.splits if_splits)

text \<open>Draining may read the event descriptor as well.\<close>

lemma retire_fds_win: "kept_win s (snd (retire_fds env ifs s))"
proof (induction ifs arbitrary: s)
  case (Cons ifd ifs)
  have "kept_win s (snd (retire_fds env ifs (upd_mon (add_retired i c) s)))" for i c
    by (rule kept_win_trans [OF _ Cons]) (simp add: kept_win_def)
  with Cons show ?case by (cases ifd) (auto split: sum.split)
qed simp

lemma kept_sysI: "wins.kept_sys a b \<Longrightarrow> kept_win b c \<Longrightarrow> wins.kept_sys a c"
  by (auto simp: wins.kept_sys_def kept_win_def)

lemma unregister_win: "wins.keeps s (mon_unregister_current_thread env s)"
proof -
  have k: "wins.keeps s (mon_unregister_thread_locked env t s)" for t
  proof (cases "mo_threads (ms_mon s) t")
    case (Some ts)
    define s1 where "s1 = (if mo_events_enabled (ms_mon s) then disable_thread_locked ts s else s)"
    have s1: "kept_win s s1" by (simp add: s1_def)
    have "wins.kept_sys s s2" if "drain_thread t 0 s1 = Some (r, s2)" for r s2
      using postD [OF wins.drain_slots_kept that [unfolded drain_thread_def]] s1 by (auto simp: wins.kept_sys_def kept_win_def)
    moreover have "kept_win s2 s3 \<and> kept_win s2 (close_thread_locked t s3)" if "accumulate_retired_counts_locked env t s2 = (r, s3)" for s2 r s3
      using retire_fds_win [of s2 env] that kept_win_trans [OF _ close_thread_win] unfolding accumulate_retired_counts_locked_def by (metis snd_conv)
    ultimately show ?thesis unfolding mon_unregister_thread_locked_def Some Let_def option.case s1_def [symmetric]
      by (auto simp: post_def split: if_splits option.splits sum.splits prod.splits intro: kept_sysI) (simp_all add: wins.kept_sys_def)
  qed (simp add: mon_unregister_thread_locked_def wins.kept_sys_def)
  then show ?thesis by (simp add: mon_unregister_current_thread_def wins.kept_sys_def)
qed

subsection \<open>Opening and closing a window\<close>

lemma all_win [simp]:
  "kept_win s (enable_all env s') = kept_win s s'" "kept_win s (disable_all env s') = kept_win s s'"
proof -
  have e: "ms_eventfd (fold enable_thread_locked xs s) = ms_eventfd s" "ms_eventfd (fold disable_thread_locked xs s) = ms_eventfd s" for xs s
    by (induction xs arbitrary: s) (simp_all add: enable_thread_locked_def disable_thread_locked_def)
  show "kept_win s (enable_all env s') = kept_win s s'" "kept_win s (disable_all env s') = kept_win s s'"
    by (simp_all add: kept_win_def enable_all_def disable_all_def e [folded for_active_def] for_active_def) (simp_all add: e flip: for_active_def)
qed

lemma snapshot_maps_win: "snapshot_module_maps cv m = (e, m') \<Longrightarrow> win_core m' = win_core m"
  by (auto simp: snapshot_module_maps_def win_core_def split: if_splits option.splits)

lemma sem_wait_win: "post (sem_wait s) (kept_win s)"
  by (simp add: sem_wait_def kept_win_def)

abbreviation open_win :: "mon_sys \<Rightarrow> mon_sys" where
  "open_win s \<equiv> upd_mon (\<lambda>m. m\<lparr>mo_kinfos := mo_kinfos m @ [zero_kinfo]\<rparr>) s"

lemma mon_start_win: "post (mon_start env tag off s) (\<lambda>r. kept_win (open_win s) (snd r))"
proof -
  define s1 where "s1 = open_win s"
  define s2 where "s2 = upd_kinfo (\<lambda>k. k\<lparr>ki_tag := (case tag of None \<Rightarrow> ''?'' | Some t \<Rightarrow> t), ki_offloaded := off\<rparr>) s1"
  have k2: "kept_win s1 s2" by (simp add: s2_def s1_def upd_kinfo_def win_core_def)
  define begun where "begun s3 = (let s4 = upd_mon (snapshot_main_binary_path (mn_cv env)) s3 in
    case snapshot_module_maps (mn_cv env) (ms_mon s4) of (Some e, m) \<Rightarrow> Some (Some e, s4\<lparr>ms_mon := m\<rparr>)
    | (None, m) \<Rightarrow> (case mn_clock_gettime env of None \<Rightarrow> Some (Some ''failed clock_gettime'', s4\<lparr>ms_mon := m\<rparr>)
      | Some now \<Rightarrow> Some (None, enable_all env (s4\<lparr>ms_mon := m\<lparr>mo_start_time := now\<rparr>\<rparr>))))" for s3
  have k: "post (begun s3) (\<lambda>r. kept_win s1 (snd r))" if "kept_win s1 s3" for s3
    using that snapshot_maps_win [of "mn_cv env" "snapshot_main_binary_path (mn_cv env) (ms_mon s3)"]
    by (auto simp: begun_def Let_def kept_win_def [of s1 s3] split: prod.split option.split)
  have w: "post (if \<not> mo_nonstop_mode (ms_mon s2) \<and> mo_epoll_fd (ms_mon s2) \<noteq> - 1 then sem_wait s2 else Some s2) (kept_win s1)"
    using k2 by (auto intro!: post_mono [OF sem_wait_win] kept_win_trans [OF k2])
  have "mon_start env tag off s = (if (case tag of None \<Rightarrow> False | Some t \<Rightarrow> bad_tag t)
      then Some (Some (take 127 (''Invalid tag '' @ [CHR 0x27] @ the tag @ [CHR 0x27])), s1)
      else (if \<not> mo_nonstop_mode (ms_mon s2) \<and> mo_epoll_fd (ms_mon s2) \<noteq> - 1 then sem_wait s2 else Some s2) \<bind> begun)"
    unfolding mon_start_def Let_def s1_def s2_def begun_def by simp
  moreover have "post (if \<not> mo_nonstop_mode (ms_mon s2) \<and> mo_epoll_fd (ms_mon s2) \<noteq> - 1 then sem_wait s2 else Some s2)
      (\<lambda>x. post (begun x) (\<lambda>r. kept_win s1 (snd r)))"
    using w by (rule post_mono) (rule k)
  ultimately show ?thesis unfolding s1_def [symmetric] by (simp only: post_if post_bind post_Some snd_conv kept_win_refl simp_thms) blast
qed

text \<open>Reading the counters gives one value for every counter and sampler.\<close>

lemma read_indices_win: "read_indices env is s = (r, s') \<Longrightarrow> kept_win s s' \<and> (\<forall>cds. r = Inr cds \<longrightarrow> length cds = length is)"
proof (induction "is" arbitrary: s r s')
  case (Cons i "is")
  let ?s1 = "\<lambda>c. upd_mon (\<lambda>m. m\<lparr>mo_prev_counters := (mo_prev_counters m)[i := rf_value c]\<rparr>) s"
  have "kept_win s s2 \<and> (\<forall>cds. q = Inr cds \<longrightarrow> length cds = length is)" if "read_indices env is (?s1 c) = (q, s2)" for c q s2
    using Cons.IH [OF that] kept_win_trans [of s "?s1 c" s2] by simp
  then show ?case using Cons.prems by (fastforce simp: Let_def split: sum.splits prod.splits)
qed auto

definition closed_win :: "nat \<Rightarrow> mon_sys \<Rightarrow> mon_sys \<Rightarrow> bool" where
  "closed_win n s s' \<longleftrightarrow> (\<exists>cds. length cds = n \<and> kept_win (upd_kinfo (\<lambda>k. k\<lparr>ki_counters := Some cds\<rparr>) s) s')"

lemma mon_stop_win:
  assumes "mon_stop env s = Some (None, s')" "mo_nonstop_mode (ms_mon s)"
  shows "closed_win (length (mo_counter_spec (ms_mon s)) + length (mo_sampler_spec (ms_mon s))) s s'"
proof -
  obtain t where t: "mn_clock_gettime env = Some t" "mo_kinfos (ms_mon s) \<noteq> []"
    using assms by (auto simp: mon_stop_def Let_def split: option.splits if_splits)
  define g :: "kinfo \<Rightarrow> kinfo" where "g = (\<lambda>k. k\<lparr>ki_duration := duration (mo_start_time (ms_mon s)) t, ki_clock_start := ticks (mo_clock_res (ms_mon s)) (mo_start_time (ms_mon s)),
    ki_clock_stop := ticks (mo_clock_res (ms_mon s)) t, ki_counters := Some []\<rparr>)"
  obtain cds s4 where r: "read_counters env True (upd_kinfo g s) = (Inr cds, s4)" "s' = upd_kinfo (\<lambda>k. k\<lparr>ki_counters := Some cds\<rparr>) s4"
    using assms t by (auto simp: mon_stop_def Let_def g_def split: prod.splits sum.splits)
  have "kept_win (upd_kinfo g s) s4" and n: "length cds = length (mo_counter_spec (ms_mon s)) + length (mo_sampler_spec (ms_mon s))"
    using read_indices_win [OF r(1) [unfolded read_counters_def Let_def]] by (simp_all add: upd_kinfo_def)
  then have c: "map ki_counters (mo_kinfos (ms_mon s4)) = map ki_counters (upd_last g (mo_kinfos (ms_mon s)))" and
    o: "mo_nonstop_mode (ms_mon s4) = mo_nonstop_mode (ms_mon s)" "mo_counter_spec (ms_mon s4) = mo_counter_spec (ms_mon s)"
      "mo_sampler_spec (ms_mon s4) = mo_sampler_spec (ms_mon s)" "mo_event_fd (ms_mon s4) = mo_event_fd (ms_mon s)" "ms_eventfd s4 = ms_eventfd s"
    by (simp_all add: kept_win_def win_core_def upd_kinfo_def)
  have m: "map ki_counters (upd_last (\<lambda>k. k\<lparr>ki_counters := Some cds\<rparr>) xs) = upd_last (\<lambda>_. Some cds) (map ki_counters xs)"
    "upd_last (\<lambda>_. Some cds) (map ki_counters (upd_last g xs)) = upd_last (\<lambda>_. Some cds) (map ki_counters xs)" for xs
    by (simp_all add: upd_last_def map_butlast)
  have "map ki_counters (upd_last (\<lambda>k. k\<lparr>ki_counters := Some cds\<rparr>) (mo_kinfos (ms_mon s4))) =
      map ki_counters (upd_last (\<lambda>k. k\<lparr>ki_counters := Some cds\<rparr>) (mo_kinfos (ms_mon s)))"
    by (simp only: m c)
  then have "kept_win (upd_kinfo (\<lambda>k. k\<lparr>ki_counters := Some cds\<rparr>) s) s'"
    using o by (simp add: r(2) kept_win_def win_core_def upd_kinfo_def)
  with n show ?thesis unfolding closed_win_def by blast
qed

subsection \<open>Runs of the profiler\<close>

text \<open>
  The run with the number of windows opened.  The profiler's thread makes its first turn a second
  after it was started; the constructor is over by then.
\<close>

inductive perp_run :: "nat \<Rightarrow> perp \<Rightarrow> bool" where
  perp_construct: "PeriodicProfiler env beyond name period mode ring aux pin os = Some (None, p) \<Longrightarrow> perp_run 1 p"
| perp_window: "perp_run n p \<Longrightarrow> run_tick env env' p = Some p' \<Longrightarrow> perp_run (Suc n) p'"
| perp_phase_start: "perp_run n p \<Longrightarrow> kernel_start_phase env tag p = (r, p') \<Longrightarrow> perp_run n p'"
| perp_phase_stop: "perp_run n p \<Longrightarrow> kernel_stop_phase env p = (r, p') \<Longrightarrow> perp_run n p'"
| perp_register: "perp_run n p \<Longrightarrow> mon_register_current_thread env (pp_mon p) = Some (r, s) \<Longrightarrow> perp_run n (p\<lparr>pp_mon := s\<rparr>)"
| perp_unregister: "perp_run n p \<Longrightarrow> mon_unregister_current_thread env (pp_mon p) = Some (r, s) \<Longrightarrow> perp_run n (p\<lparr>pp_mon := s\<rparr>)"
| perp_events: "perp_run n p \<Longrightarrow> sampler_events tokens (pp_mon p) = Some (q, s) \<Longrightarrow> perp_run n (p\<lparr>pp_mon := s\<rparr>)"
| perp_tag: "perp_run n p \<Longrightarrow> perp_run n (p\<lparr>pp_mon := tag_addr tag a b (pp_mon p)\<rparr>)"

text \<open>A closed window has a value for every counter and sampler.\<close>

definition full :: "monitor \<Rightarrow> counter_data list option \<Rightarrow> bool" where
  "full m c \<longleftrightarrow> (\<exists>cs. c = Some cs \<and> length cs = length (mo_counter_spec m) + length (mo_sampler_spec m))"

definition win_ok :: "nat \<Rightarrow> mon_sys \<Rightarrow> bool" where
  "win_ok n s \<longleftrightarrow> ms_eventfd s = 0 \<and> mo_nonstop_mode (ms_mon s) \<and> n \<noteq> 0 \<and> length (mo_kinfos (ms_mon s)) = n \<and>
     (\<forall>c\<in>set (butlast (map ki_counters (mo_kinfos (ms_mon s)))). full (ms_mon s) c)"

lemma win_core_fields:
  assumes "win_core m' = win_core m"
  shows "map ki_counters (mo_kinfos m') = map ki_counters (mo_kinfos m)" "mo_nonstop_mode m' = mo_nonstop_mode m"
    "mo_counter_spec m' = mo_counter_spec m" "mo_sampler_spec m' = mo_sampler_spec m" "mo_event_fd m' = mo_event_fd m"
    "length (mo_kinfos m') = length (mo_kinfos m)" "full m' = full m"
proof -
  show c: "map ki_counters (mo_kinfos m') = map ki_counters (mo_kinfos m)" "mo_nonstop_mode m' = mo_nonstop_mode m"
    "mo_counter_spec m' = mo_counter_spec m" "mo_sampler_spec m' = mo_sampler_spec m" "mo_event_fd m' = mo_event_fd m"
    using assms by (simp_all add: win_core_def)
  show "length (mo_kinfos m') = length (mo_kinfos m)" using arg_cong [OF c(1), of length] by simp
  show "full m' = full m" using c by (simp add: full_def fun_eq_iff)
qed

lemma win_ok_kept: "wins.kept_sys s s' \<Longrightarrow> win_ok n s \<Longrightarrow> win_ok n s'"
  using win_core_fields [of "ms_mon s'" "ms_mon s"] by (auto simp: win_ok_def wins.kept_sys_def)

lemma kept_win_sys: "kept_win s s' \<Longrightarrow> wins.kept_sys s s'"
  by (simp add: kept_win_def wins.kept_sys_def)

lemma win_ok_stop:
  assumes "win_ok n s" "mon_stop env s = Some (None, s')"
  shows "win_ok n s' \<and> (\<forall>k\<in>set (mo_kinfos (ms_mon s')). full (ms_mon s') (ki_counters k))"
proof -
  have ns: "mo_nonstop_mode (ms_mon s)" using assms(1) by (simp add: win_ok_def)
  obtain cds where n: "length cds = length (mo_counter_spec (ms_mon s)) + length (mo_sampler_spec (ms_mon s))"
    and k: "kept_win (upd_kinfo (\<lambda>k. k\<lparr>ki_counters := Some cds\<rparr>) s) s'"
    using mon_stop_win [OF assms(2) ns] by (auto simp: closed_win_def)
  let ?s = "upd_kinfo (\<lambda>k. k\<lparr>ki_counters := Some cds\<rparr>) s"
  have e: "butlast (map ki_counters (upd_last (\<lambda>k. k\<lparr>ki_counters := Some cds\<rparr>) xs)) = butlast (map ki_counters xs)" for xs
    by (simp add: upd_last_def map_butlast)
  have f: "full (ms_mon ?s) = full (ms_mon s)" by (simp add: full_def upd_kinfo_def fun_eq_iff)
  have ok: "win_ok n ?s" using assms(1) f by (simp add: win_ok_def e) (simp add: upd_kinfo_def e)
  have "c \<in> set (butlast (map ki_counters (mo_kinfos (ms_mon s)))) \<or> c = Some cds" if "c \<in> set (map ki_counters (mo_kinfos (ms_mon ?s)))" for c
    using that by (auto simp: upd_kinfo_def upd_last_def map_butlast [symmetric] split: if_splits)
  then have "full (ms_mon ?s) c" if "c \<in> set (map ki_counters (mo_kinfos (ms_mon ?s)))" for c
    using that assms(1) n f by (auto simp: win_ok_def full_def)
  then have "full (ms_mon s') c" if "c \<in> set (map ki_counters (mo_kinfos (ms_mon s')))" for c
    using that k win_core_fields(1,7) [of "ms_mon s'" "ms_mon ?s"] by (simp only: kept_win_def)
  then show ?thesis using win_ok_kept [OF kept_win_sys [OF k] ok] by simp
qed

lemma win_ok_start:
  assumes "win_ok n s" "\<forall>k\<in>set (mo_kinfos (ms_mon s)). full (ms_mon s) (ki_counters k)" "mon_start env tag off s = Some (r, s')"
  shows "win_ok (Suc n) s'"
proof -
  have "win_ok (Suc n) (open_win s)" using assms(1,2) by (auto simp: win_ok_def full_def)
  then show ?thesis by (rule win_ok_kept [OF kept_win_sys [OF postD [OF mon_start_win assms(3), simplified]]])
qed

lemma or_terminate_Some: "or_terminate r = Some s \<longleftrightarrow> r = Some (None, s)"
  by (auto simp: or_terminate_def split: option.splits)

lemma win_ok_tick:
  assumes "win_ok n (pp_mon p)" "run_tick env env' p = Some p'"
  shows "win_ok (Suc n) (pp_mon p')"
proof -
  obtain s1 s2 where s: "mon_stop env (pp_mon p) = Some (None, s1)" "mon_start env' (Some (pp_tag p)) False s1 = Some (None, s2)" "pp_mon p' = s2"
    using assms(2) by (auto simp: run_tick_def or_terminate_Some bind_eq_Some_conv)
  then show ?thesis using win_ok_stop [OF assms(1) s(1)] win_ok_start [OF _ _ s(2)] by simp
qed

lemma attach_win: "post (attach_threads env ts s) (kept_win s)"
proof (induction ts arbitrary: s)
  case (Cons t ts)
  have "post (attach_threads env ts s') (kept_win s)" if "kept_win s s'" for s'
    by (rule post_mono [OF Cons]) (rule kept_win_trans [OF that])
  then show ?case using postD [OF register_win [of env t s]] by (auto split: option.split)
qed simp

lemma construct_win: "post (construct_monitor env cs ss period ring aux name pin os) (\<lambda>(e, s). e = None \<longrightarrow> mo_kinfos (ms_mon s) = [] \<and> ms_eventfd s = 0)"
proof -
  let ?m0 = "initial_monitor env cs ss period ring aux name pin"
  have st: "mo_kinfos m = []" if "monitor_settings cv ?m0 = Inr m" for cv m
    using that by (auto simp: monitor_settings_def initial_monitor_def split: sum.splits)
  have os: "mo_kinfos (ms_mon s') = mo_kinfos (ms_mon s) \<and> ms_eventfd s' = 0" if "open_sampler_thread env s = (e, s')" "ms_eventfd s = 0" for s e s'
    using that by (auto simp: open_sampler_thread_def Let_def split: if_splits)
  have at: "mo_kinfos (ms_mon s') = [] \<and> ms_eventfd s' = 0" if "attach_threads env ts s = Some s'" "mo_kinfos (ms_mon s) = []" "ms_eventfd s = 0" for ts s s'
    using that postD [OF attach_win that(1)] win_core_fields(6) [of "ms_mon s'" "ms_mon s"] by (simp add: kept_win_def)
  show ?thesis unfolding construct_monitor_def Let_def
    by (auto simp: post_def split: sum.splits option.splits prod.splits if_splits dest!: os at st)
qed

lemma perp_run_ok: "perp_run n p \<Longrightarrow> win_ok n (pp_mon p)"
proof (induction rule: perp_run.induct)
  case (perp_construct env beyond name period mode ring aux pin os p)
  then obtain s s1 where s: "construct_monitor env (get_counters beyond mode) (get_samplers period mode) (of_int period) ring aux name pin os = Some (None, s)"
    "mon_start env (Some ''init'') False s = Some (None, s1)" "pp_mon p = set_nonstop s1"
    by (auto simp: PeriodicProfiler_def split: option.splits prod.splits)
  have z: "mo_kinfos (ms_mon s) = []" "ms_eventfd s = 0" using postD [OF construct_win s(1)] by simp_all
  have "kept_win (open_win s) s1" using postD [OF mon_start_win s(2)] by simp
  then have "map ki_counters (mo_kinfos (ms_mon s1)) = [None]" "ms_eventfd s1 = 0"
    using z by (simp_all add: kept_win_def win_core_def zero_kinfo_def)
  moreover from this(1) have "length (mo_kinfos (ms_mon s1)) = 1" by auto
  ultimately show ?case using s(3) by (simp add: win_ok_def set_nonstop_def)
next
  case (perp_window n p env env' p')
  then show ?case using win_ok_tick by blast
next
  case (perp_phase_start n p env tag r p')
  have "kept_win (pp_mon p) (pp_mon p')" using perp_phase_start(2) by (auto simp: kernel_start_phase_def mark_phase_def split: prod.splits option.splits sum.splits)
  then show ?case using perp_phase_start win_ok_kept kept_win_sys by blast
next
  case (perp_phase_stop n p env r p')
  have "kept_win (pp_mon p) (pp_mon p')" using perp_phase_stop(2) by (auto simp: kernel_stop_phase_def mark_phase_def split: prod.splits option.splits sum.splits)
  then show ?case using perp_phase_stop win_ok_kept kept_win_sys by blast
next
  case (perp_register n p env r s)
  then show ?case using win_ok_kept [OF kept_win_sys] postD [OF register_current_win perp_register(2)] by simp
next
  case (perp_unregister n p env r s)
  then show ?case using win_ok_kept postD [OF unregister_win perp_unregister(2)] by simp
next
  case (perp_events n p tokens q s)
  then show ?case using win_ok_kept postD [OF wins.sampler_events_kept perp_events(2)] by simp
next
  case (perp_tag n p tag a b)
  have "kept_win (pp_mon p) (tag_addr tag a b (pp_mon p))" by (simp add: tag_addr_def)
  then show ?case using perp_tag win_ok_kept [OF kept_win_sys] by simp
qed

subsection \<open>The information file of complete windows\<close>

lemma those_Some: "None \<notin> set xs \<Longrightarrow> \<exists>ys. those xs = Some ys"
proof (induction xs)
  case (Cons x xs)
  then show ?case by (cases x) auto
qed simp

lemma per_window_counter_Some:
  assumes "\<forall>k\<in>set ks. full m (ki_counters k)" "i < length (mo_counter_spec m) + length (mo_sampler_spec m)"
  shows "per_window_counter key i f ks \<noteq> None"
proof -
  have "counter_of i k \<noteq> None" if "k \<in> set ks" for k
    using assms that by (auto simp: counter_of_def full_def arr_get_def)
  then have "None \<notin> set (map (counter_of i) ks)" by force
  from those_Some [OF this] show ?thesis by (auto simp: per_window_counter_def)
qed

lemma write_info_returns:
  assumes "\<forall>k\<in>set (mo_kinfos m). full m (ki_counters k)"
  shows "\<exists>lines. mon_write_info env m = Some lines"
proof -
  note pw = per_window_counter_Some [OF assms]
  have "\<exists>cs. those (concat (map (\<lambda>i. let name = fst (mo_counter_spec m ! i) in
      [per_window_counter name i (\<lambda>c. dec (cd_value c)) (mo_kinfos m),
       per_window_counter (''active_'' @ name) i (\<lambda>c. show_double (cd_active_time c)) (mo_kinfos m)]) [0..<length (mo_counter_spec m)])) = Some cs"
    by (rule those_Some) (auto simp: Let_def dest!: sym [of None] dest: pw [THEN notE, rotated])
  moreover have "\<exists>ss. those (map (\<lambda>i. per_window_counter (fst (mo_sampler_spec m ! i)) (length (mo_counter_spec m) + i) (\<lambda>c. dec (cd_value c)) (mo_kinfos m))
      (filter (\<lambda>i. parse_arm_spe_event (fst (mo_sampler_spec m ! i)) = 0) [0..<length (mo_sampler_spec m)])) = Some ss"
    by (rule those_Some) (auto dest!: sym [of None] dest: pw [THEN notE, rotated])
  ultimately have "\<exists>cl. counter_lines m = Some cl" by (auto simp: counter_lines_def Let_def)
  then show ?thesis by (auto simp: mon_write_info_def info_windows_def Let_def)
qed

lemma close_threads_win: "kept_win s s' \<Longrightarrow> kept_win s (fold close_thread_locked ts s')"
proof (induction ts arbitrary: s')
  case (Cons t ts)
  then show ?case using kept_win_trans [OF Cons.prems close_thread_win] by simp
qed simp

text \<open>A monitor whose windows are complete and whose event descriptor is unused can be destroyed.\<close>

lemma destroy_returns:
  assumes "ms_eventfd s = 0" "\<forall>k\<in>set (mo_kinfos (ms_mon s)). full (ms_mon s) (ki_counters k)"
    and "mo_event_fd (ms_mon s) = - 1 \<or> (\<exists>g s1. sampler_drain env SAMPLER_STOP s = Some (Inr g, s1))"
  shows "\<exists>out s'. destroy_monitor env s = Some (out, s') \<and> map ki_counters (mo_kinfos (ms_mon s')) = map ki_counters (mo_kinfos (ms_mon s))"
proof -
  have e: "s\<lparr>ms_eventfd := 0\<rparr> = s" using assms(1) by simp
  have "\<exists>s1. join_sampler env s = Some s1 \<and> wins.kept_sys s s1"
  proof (cases "mo_event_fd (ms_mon s) = - 1")
    case False
    then obtain g s1 where d: "sampler_drain env SAMPLER_STOP s = Some (Inr g, s1)" using assms(3) by blast
    then have "\<not> g" by (auto simp: sampler_drain_def Let_def split: option.splits prod.splits sum.splits)
    then show ?thesis unfolding join_sampler_def Let_def e using d False assms(1) postD [OF wins.sampler_drain_kept d] by simp
  qed (simp add: join_sampler_def wins.kept_sys_def)
  then obtain s1 where s1: "join_sampler env s = Some s1" "wins.kept_sys s s1" by blast
  let ?s3 = "fold close_thread_locked (mn_thread_walk env (mo_threads (ms_mon (disable_all env s1)))) (disable_all env s1)"
  have "kept_win s1 ?s3" by (rule close_threads_win) simp
  then have c: "win_core (ms_mon ?s3) = win_core (ms_mon s)" using s1(2) by (simp add: kept_win_def wins.kept_sys_def)
  have "\<forall>c\<in>set (map ki_counters (mo_kinfos (ms_mon ?s3))). full (ms_mon ?s3) c"
    unfolding win_core_fields(1) [OF c] win_core_fields(7) [OF c] using assms(2) by simp
  then obtain ls where "mon_write_info env (ms_mon ?s3) = Some ls" using write_info_returns [of "ms_mon ?s3" env] by auto
  then show ?thesis using s1(1) win_core_fields(1) [OF c] by (simp add: destroy_monitor_def Let_def)
qed

end
