(* ===== verification/Starter_Correct.thy ===== *)
theory Starter_Correct
  imports Starter Periodic_Correct Profiler Manifest
begin

text \<open>
  Facts on the preload library: the rounding of buffer sizes, the walk over the maps file, and runs
  of the library, in which the profiler behind it is only driven the way its own theory allows.
\<close>

subsection \<open>Buffer sizes\<close>

lemma shl_int_small: "0 \<le> n \<Longrightarrow> n < 2 ^ 30 \<Longrightarrow> shl_int n = n * 2"
  unfolding shl_int_def by (intro signed_take_bit_int_eq_self) simp_all

text \<open>The loop returns for a bound below \<open>2 ^ 30\<close>, with the first power of two above it.\<close>

lemma double_while_returns:
  "0 < v \<Longrightarrow> v < 2 ^ 30 \<Longrightarrow> 2 ^ k \<le> v \<Longrightarrow> \<exists>j. double_while v (2 ^ k) = Some (2 * 2 ^ j) \<and> 2 ^ j \<le> v \<and> v < 2 * 2 ^ j"
proof (induction "30 - k" arbitrary: k)
  case 0
  have "(2 :: int) ^ 30 \<le> 2 ^ k" using 0 by (intro power_increasing) simp_all
  then show ?case using 0 by linarith
next
  case (Suc d)
  have s: "shl_int (2 ^ k) = 2 ^ Suc k" using Suc.prems by (subst shl_int_small) simp_all
  have step: "double_while v (2 ^ k) = double_while v (2 ^ Suc k)" using Suc.prems(3) by (subst double_while.simps) (simp only: s if_True)
  show ?case
  proof (cases "2 ^ Suc k \<le> v")
    case True
    have "d = 30 - Suc k" using Suc.hyps(2) by simp
    from Suc.hyps(1) [OF this Suc.prems(1,2) True] show ?thesis unfolding step .
  next
    case False
    then have "double_while v (2 ^ Suc k) = Some (2 * 2 ^ k)" by (subst double_while.simps) simp
    then show ?thesis unfolding step using Suc.prems False by (intro exI [of _ k]) simp
  qed
qed

text \<open>From \<open>2 ^ 30\<close> on the doubled value wraps round to a negative number and then to zero, where it stays.\<close>

definition stuck :: "int \<Rightarrow> bool" where
  "stuck n \<longleftrightarrow> n = 0 \<or> n = - (2 ^ 31) \<or> (\<exists>k\<le>30. n = 2 ^ k)"

lemma stuck_shl: "stuck n \<Longrightarrow> stuck (shl_int n)"
proof -
  have w: "shl_int 0 = 0" "shl_int (- (2 ^ 31)) = 0" "shl_int (2 ^ 30) = - (2 ^ 31)" by (simp_all add: shl_int_def)
  have "stuck (shl_int (2 ^ k))" if "k \<le> 30" for k
  proof (cases "k = 30")
    case True
    then show ?thesis using w by (simp add: stuck_def)
  next
    case False
    then have k: "k < 30" using that by simp
    then have "(2 :: int) ^ k < 2 ^ 30" by (intro power_strict_increasing) simp_all
    then have "shl_int (2 ^ k) = 2 ^ Suc k" by (subst shl_int_small) simp_all
    then show ?thesis using k unfolding stuck_def by (intro disjI2 exI [of _ "Suc k"]) simp
  qed
  then show "stuck n \<Longrightarrow> stuck (shl_int n)" using w unfolding stuck_def [of n] by (auto simp: stuck_def)
qed

lemma stuck_le: "stuck n \<Longrightarrow> 2 ^ 30 \<le> v \<Longrightarrow> n \<le> v"
proof -
  have "(2 :: int) ^ k \<le> 2 ^ 30" if "k \<le> 30" for k using that by (intro power_increasing) simp_all
  then show "stuck n \<Longrightarrow> 2 ^ 30 \<le> v \<Longrightarrow> n \<le> v" by (force simp: stuck_def)
qed

lemma double_while_forever:
  assumes "2 ^ 30 \<le> v" "stuck n"
  shows "double_while v n = None"
proof -
  have "\<not> (2 ^ 30 \<le> v \<and> stuck n)" if "double_while v n = Some y" for y
    using that
  proof (rule double_while.raw_induct [where P = "\<lambda>v n y. \<not> (2 ^ 30 \<le> v \<and> stuck n)", rotated])
    fix f v n y
    assume "\<And>v n y. f v n = Some y \<Longrightarrow> \<not> (2 ^ 30 \<le> v \<and> stuck n)" "(if n \<le> v then f v (shl_int n) else Some n) = Some y"
    then show "\<not> (2 ^ 30 \<le> v \<and> stuck n)" using stuck_shl [of n] stuck_le [of n v] by metis
  qed
  then show ?thesis using assms by (cases "double_while v n") auto
qed

subsection \<open>Lines of the maps file\<close>

text \<open>A mapping the way the kernel prints it: the fields, and the path after padding.\<close>

record map_entry =
  mp_start :: u64
  mp_end :: u64
  mp_fields :: "string list"
  mp_pad :: nat
  mp_path :: string

definition map_entry_line :: "map_entry \<Rightarrow> string" where
  "map_entry_line e = hex_u64 (mp_start e) @ CHR ''-'' # hex_u64 (mp_end e) @ CHR '' '' #
     concat (map (\<lambda>f. f @ '' '') (mp_fields e)) @ replicate (mp_pad e) (CHR '' '') @ mp_path e"

text \<open>Four fields (permissions, offset, device, inode) without white space; the path does not start with any.\<close>

definition map_entry_ok :: "map_entry \<Rightarrow> bool" where
  "map_entry_ok e \<longleftrightarrow> length (mp_fields e) = 4 \<and> (\<forall>f\<in>set (mp_fields e). f \<noteq> [] \<and> (\<forall>c\<in>set f. \<not> isspace c)) \<and>
     (mp_path e = [] \<or> \<not> isspace (hd (mp_path e))) \<and> CHR 0x0A \<notin> set (mp_path e)"

lemma strtoull_plain_hex:
  assumes "rest = [] \<or> \<not> is_digit 16 (hd rest) \<and> hd rest \<notin> {CHR ''x'', CHR ''X''}"
  shows "strtoull 16 (hex_u64 v @ rest) = (v, rest)"
proof -
  let ?s = "hex_u64 v"
  have d: "\<forall>c\<in>set ?s. is_digit 16 c" "?s \<noteq> []" using set_show_base [of 16] by (auto simp: hex_u64_def)
  have x: "\<not> is_digit 16 (CHR ''x'')" "\<not> is_digit 16 (CHR ''X'')" "\<not> is_digit 16 (CHR ''-'')" "\<not> is_digit 16 (CHR ''+'')" by code_simp+
  have sp: "\<not> isspace c" if "is_digit 16 c" for c using that by (auto simp: isspace_def is_digit_def digit_val_def)
  obtain c cs where s: "?s = c # cs" using d(2) by (cases ?s) auto
  have c: "is_digit 16 c" using d(1) s by simp
  have "dropWhile isspace (?s @ rest) = ?s @ rest" using s c sp by simp
  moreover have "strip_sign (?s @ rest) = (False, ?s @ rest)" using s c x by (auto simp: strip_sign_def)
  moreover have "\<not> hex_prefixed (?s @ rest)"
  proof (cases cs)
    case Nil
    then show ?thesis using s assms by (cases rest) (auto simp: hex_prefixed_def)
  next
    case (Cons c' cs')
    then have "is_digit 16 c'" using d(1) s by simp
    then show ?thesis using s Cons x by (auto simp: hex_prefixed_def)
  qed
  moreover have "digits 16 0 (?s @ rest) = (unat v, rest)" unfolding hex_u64_def using assms by (intro digits_show_rest) auto
  ultimately have "strto 16 (?s @ rest) = Some (False, unat v, rest)" using s c by (simp add: strto_def)
  then show ?thesis by (rule strtoull_unat)
qed

lemma dropWhile_pre: "(\<forall>c\<in>set xs. P c) \<Longrightarrow> dropWhile P (xs @ ys) = dropWhile P ys"
  by (induction xs) auto

lemma skip_field_step:
  assumes "\<forall>c\<in>set f. \<not> isspace c" "rest = [] \<or> \<not> isspace (hd rest)"
  shows "skip_field (f @ replicate (Suc n) (CHR '' '') @ rest) = Some rest"
proof -
  have "isspace (CHR '' '')" by (simp add: isspace_def)
  then have "dropWhile (\<lambda>c. \<not> isspace c) (f @ replicate (Suc n) (CHR '' '') @ rest) = replicate (Suc n) (CHR '' '') @ rest"
    using assms(1) by (simp add: dropWhile_pre)
  moreover have "dropWhile isspace (replicate (Suc n) (CHR '' '') @ rest) = rest"
    using assms(2) \<open>isspace (CHR '' '')\<close> by (subst dropWhile_pre) (auto simp: dropWhile_hd)
  ultimately show ?thesis by (simp add: skip_field_def Let_def)
qed

lemma maps_line_entry:
  assumes "map_entry_ok e"
  shows "maps_line (map_entry_line e) = Some (mp_start e, mp_end e, mp_path e)"
proof -
  obtain a b c d where f: "mp_fields e = [a, b, c, d]" using assms by (auto simp: map_entry_ok_def numeral_eq_Suc length_Suc_conv)
  have ns: "\<forall>x\<in>set a. \<not> isspace x" "\<forall>x\<in>set b. \<not> isspace x" "\<forall>x\<in>set c. \<not> isspace x" "\<forall>x\<in>set d. \<not> isspace x"
    and hd: "\<not> isspace (hd a)" "\<not> isspace (hd b)" "\<not> isspace (hd c)" "\<not> isspace (hd d)" "a \<noteq> []" "b \<noteq> []" "c \<noteq> []" "d \<noteq> []"
    and p: "mp_path e = [] \<or> \<not> isspace (hd (mp_path e))"
    using assms f by (auto simp: map_entry_ok_def)
  have x: "\<not> is_digit 16 (CHR ''-'')" "\<not> is_digit 16 (CHR '' '')" by code_simp+
  let ?t5 = "d @ replicate (Suc (mp_pad e)) (CHR '' '') @ mp_path e"
  let ?t4 = "c @ replicate (Suc 0) (CHR '' '') @ ?t5" let ?t3 = "b @ replicate (Suc 0) (CHR '' '') @ ?t4"
  let ?t2 = "a @ replicate (Suc 0) (CHR '' '') @ ?t3" let ?t1 = "[] @ replicate (Suc 0) (CHR '' '') @ ?t2"
  have l: "map_entry_line e = hex_u64 (mp_start e) @ CHR ''-'' # hex_u64 (mp_end e) @ ?t1" by (simp add: map_entry_line_def f)
  have "strtoull 16 (map_entry_line e) = (mp_start e, CHR ''-'' # hex_u64 (mp_end e) @ ?t1)"
    unfolding l by (rule strtoull_plain_hex) (simp add: x)
  moreover have "strtoull 16 (hex_u64 (mp_end e) @ ?t1) = (mp_end e, ?t1)" by (rule strtoull_plain_hex) (simp add: x)
  moreover have "skip_fields 5 ?t1 = Some (mp_path e)"
  proof -
    have "skip_field ?t1 = Some ?t2" by (rule skip_field_step) (use hd in simp_all)
    moreover have "skip_field ?t2 = Some ?t3" by (rule skip_field_step) (use ns hd in simp_all)
    moreover have "skip_field ?t3 = Some ?t4" by (rule skip_field_step) (use ns hd in simp_all)
    moreover have "skip_field ?t4 = Some ?t5" by (rule skip_field_step) (use ns hd in simp_all)
    moreover have "skip_field ?t5 = Some (mp_path e)" by (rule skip_field_step) (use ns p in simp_all)
    ultimately show ?thesis by (simp only: numeral_eq_Suc pred_numeral_simps skip_fields.simps bind.bind_lunit arith_simps)
  qed
  ultimately show ?thesis by (simp add: maps_line_def)
qed

lemma tag_lines_entries:
  "\<forall>e\<in>set es. map_entry_ok e \<Longrightarrow> tag_lines tag file (map map_entry_line es) s =
     Some (fold (\<lambda>e. tag_addr tag (mp_start e) (mp_end e)) (filter (\<lambda>e. mp_path e = file) es) s)"
  by (induction es arbitrary: s) (simp_all add: maps_line_entry)

lemma fold_tag_addr:
  "fold (\<lambda>e. tag_addr tag (mp_start e) (mp_end e)) es s =
     upd_mon (\<lambda>m. m\<lparr>mo_addr_tags := mo_addr_tags m @ map (\<lambda>e. \<lparr>at_tag = tag, at_start = mp_start e, at_end = mp_end e\<rparr>) es\<rparr>) s"
  by (induction es arbitrary: s) (simp_all add: tag_addr_def)

lemma map_entry_no_newline: "map_entry_ok e \<Longrightarrow> CHR 0x0A \<notin> set (map_entry_line e)"
proof -
  assume ok: "map_entry_ok e"
  have "CHR 0x0A \<notin> set (hex_u64 v)" for v
    using set_show_base [of 16 "CHR 0x0A"] by (auto simp: hex_u64_def is_digit_def digit_val_def)
  moreover have "CHR 0x0A \<notin> set f" if "f \<in> set (mp_fields e)" for f using ok that by (auto simp: map_entry_ok_def isspace_def)
  ultimately show ?thesis using ok by (auto simp: map_entry_line_def map_entry_ok_def)
qed

subsection \<open>Runs of the library\<close>

text \<open>
  A run of the library in a process: it is loaded, the program calls its functions and its threads
  start and end; between the calls the window thread and the sampler thread of the periodic profiler work, and the kernel
  module handles hits and serves other processes.  Every call sees an environment of its own.
\<close>

inductive lib_step :: "nat \<Rightarrow> rd_module rd_lib \<Rightarrow> rd_module rd_lib \<Rightarrow> bool" for f :: nat where
  lib_rd_start: "user_targets_ok kenv \<Longrightarrow> rd_start (dev_io kenv f) env tag lib = (r, lib') \<Longrightarrow> lib_step f lib lib'"
| lib_rd_stop: "user_targets_ok kenv \<Longrightarrow> rd_stop (dev_io kenv f) env lib = (r, lib') \<Longrightarrow> lib_step f lib lib'"
| lib_rd_tag_addr: "lib_step f lib (rd_tag_addr tag start stop lib)"
| lib_rd_tag_from_maps: "rd_tag_from_maps cv tag file lib = Some lib' \<Longrightarrow> lib_step f lib lib'"
| lib_window: "lib_perp lib = Some p \<Longrightarrow> run_tick env env' p = Some p' \<Longrightarrow> lib_step f lib (lib\<lparr>lib_perp := Some p'\<rparr>)"
| lib_sampler: "lib_perp lib = Some p \<Longrightarrow> sampler_events tokens (pp_mon p) = Some (q, s) \<Longrightarrow>
    lib_step f lib (lib\<lparr>lib_perp := Some (p\<lparr>pp_mon := s\<rparr>)\<rparr>)"
| lib_overflow: "lib_targeted_rd lib = Some s \<Longrightarrow> rd_perf_event_overflow_pre kenv (sys_dev s) event regs = Some m \<Longrightarrow>
    lib_step f lib (lib\<lparr>lib_targeted_rd := Some (s\<lparr>sys_dev := m\<rparr>)\<rparr>)"
| lib_watchpoint: "lib_targeted_rd lib = Some s \<Longrightarrow> rd_watchpoint_report_pre kenv (sys_dev s) event regs = Some m \<Longrightarrow>
    lib_step f lib (lib\<lparr>lib_targeted_rd := Some (s\<lparr>sys_dev := m\<rparr>)\<rparr>)"
| lib_other: "lib_targeted_rd lib = Some s \<Longrightarrow> rd_step (sys_dev s) m \<Longrightarrow> files m f = files (sys_dev s) f \<Longrightarrow>
    lib_step f lib (lib\<lparr>lib_targeted_rd := Some (s\<lparr>sys_dev := m\<rparr>)\<rparr>)"

text \<open>The callbacks of thread \<open>t\<close>, in some environment.\<close>

definition lib_thread_started :: "nat \<Rightarrow> int \<Rightarrow> rd_module rd_lib \<Rightarrow> rd_module rd_lib \<Rightarrow> bool" where
  "lib_thread_started f t lib lib' \<longleftrightarrow> (\<exists>kenv env. user_targets_ok kenv \<and> (\<forall>u n. cv_mmap (mn_cv env) u n \<noteq> 0) \<and>
     cv_gettid (mn_cv env) = t \<and> rd_on_thread_start (dev_io kenv f) env lib = Some lib')"

definition lib_thread_stopped :: "nat \<Rightarrow> int \<Rightarrow> rd_module rd_lib \<Rightarrow> rd_module rd_lib \<Rightarrow> bool" where
  "lib_thread_stopped f t lib lib' \<longleftrightarrow> (\<exists>kenv env. user_targets_ok kenv \<and> cv_gettid (mn_cv env) = t \<and>
     rd_on_thread_stop (dev_io kenv f) env lib = Some lib')"

inductive lib_run :: "nat \<Rightarrow> (u64 \<times> u64) list \<Rightarrow> rd_module rd_lib \<Rightarrow> bool" for f :: nat and mem :: "(u64 \<times> u64) list" where
  lib_loaded: "module_inv m \<Longrightarrow> files m f = Some (zero_session\<lparr>owner_tgid := g\<rparr>) \<Longrightarrow> user_targets_ok kenv \<Longrightarrow>
    (\<forall>t n. cv_mmap (mn_cv env) t n \<noteq> 0) \<Longrightarrow> lib_init (dev_io kenv f) env beyond pid m mem os = Some lib \<Longrightarrow> lib_run f mem lib"
| lib_steps: "lib_run f mem lib \<Longrightarrow> lib_step f lib lib' \<Longrightarrow> lib_run f mem lib'"
| lib_thread_start: "lib_run f mem lib \<Longrightarrow> lib_thread_started f t lib lib' \<Longrightarrow> lib_run f mem lib'"
| lib_thread_stop: "lib_run f mem lib \<Longrightarrow> lib_thread_stopped f t lib lib' \<Longrightarrow> lib_run f mem lib'"

text \<open>At most one profiler exists, and it is in a state that a run of its own reaches.\<close>

definition lib_ok :: "nat \<Rightarrow> (u64 \<times> u64) list \<Rightarrow> rd_module rd_lib \<Rightarrow> bool" where
  "lib_ok f mem lib \<longleftrightarrow> (lib_perp lib = None \<or> lib_targeted_rd lib = None) \<and> (\<forall>p. lib_perp lib = Some p \<longrightarrow> (\<exists>n. perp_run n p)) \<and>
     (\<forall>s. lib_targeted_rd lib = Some s \<longrightarrow> profiler_run f mem s)"

lemma lib_ok_perp:
  assumes "lib_ok f mem lib" "lib_perp lib = Some p" "\<And>n. perp_run n p \<Longrightarrow> \<exists>n'. perp_run n' p'"
  shows "lib_ok f mem (lib\<lparr>lib_perp := Some p'\<rparr>)"
  using assms by (auto simp: lib_ok_def)

lemma lib_ok_targeted:
  assumes "lib_ok f mem lib" "lib_targeted_rd lib = Some s" "profiler_run f mem s \<Longrightarrow> profiler_run f mem s'"
  shows "lib_ok f mem (lib\<lparr>lib_targeted_rd := Some s'\<rparr>)"
  using assms by (auto simp: lib_ok_def)

lemma with_perp_ok:
  assumes "lib_ok f mem lib" "with_perp h lib = (r, lib')" "\<And>n p e p'. perp_run n p \<Longrightarrow> h p = (e, p') \<Longrightarrow> perp_run n p'"
  shows "lib_ok f mem lib'"
proof (cases "lib_perp lib")
  case (Some p)
  obtain e p' where h: "h p = (e, p')" by fastforce
  then have "lib' = lib\<lparr>lib_perp := Some p'\<rparr>" using assms(2) Some by (simp add: with_perp_def)
  then show ?thesis using lib_ok_perp [OF assms(1) Some] assms(3) h by blast
qed (use assms in \<open>simp add: with_perp_def\<close>)

lemma with_targeted_ok:
  assumes "lib_ok f mem lib" "with_targeted h lib = (r, lib')" "\<And>s e s'. profiler_run f mem s \<Longrightarrow> h s = (e, s') \<Longrightarrow> profiler_run f mem s'"
  shows "lib_ok f mem lib'"
proof (cases "lib_targeted_rd lib")
  case (Some s)
  obtain e s' where h: "h s = (e, s')" by fastforce
  then have "lib' = lib\<lparr>lib_targeted_rd := Some s'\<rparr>" using assms(2) Some by (simp add: with_targeted_def)
  then show ?thesis using lib_ok_targeted [OF assms(1) Some] assms(3) h by blast
qed (use assms in \<open>simp add: with_targeted_def\<close>)

text \<open>A call to both profilers, the second when the first has not thrown.\<close>

lemma both_ok:
  assumes "lib_ok f mem lib" "(case with_perp h lib of (Some e, lib1) \<Rightarrow> (Some e, lib1) | (None, lib1) \<Rightarrow> with_targeted k lib1) = (r, lib')"
    and "\<And>n p e p'. perp_run n p \<Longrightarrow> h p = (e, p') \<Longrightarrow> perp_run n p'"
    and "\<And>s e s'. profiler_run f mem s \<Longrightarrow> k s = (e, s') \<Longrightarrow> profiler_run f mem s'"
  shows "lib_ok f mem lib'"
proof -
  obtain e lib1 where w: "with_perp h lib = (e, lib1)" by fastforce
  have ok: "lib_ok f mem lib1" by (rule with_perp_ok [OF assms(1) w assms(3)])
  show ?thesis
  proof (cases e)
    case None
    then show ?thesis using assms(2) w with_targeted_ok [OF ok _ assms(4)] by simp
  qed (use assms(2) w ok in simp)
qed

text \<open>The callbacks of a thread: an exception of either profiler is dropped.\<close>

lemma thread_ok:
  assumes "lib_ok f mem lib" "map_option (\<lambda>lib1. snd (with_targeted k lib1)) (perp_thread h lib) = Some lib'"
    and "\<And>n p e s. perp_run n p \<Longrightarrow> h (pp_mon p) = Some (e, s) \<Longrightarrow> perp_run n (p\<lparr>pp_mon := s\<rparr>)"
    and "\<And>s e s'. profiler_run f mem s \<Longrightarrow> k s = (e, s') \<Longrightarrow> profiler_run f mem s'"
  shows "lib_ok f mem lib'"
proof -
  obtain lib1 where p: "perp_thread h lib = Some lib1" "lib' = snd (with_targeted k lib1)" using assms(2) by auto
  have "lib_ok f mem lib1"
  proof (cases "lib_perp lib")
    case (Some q)
    obtain e s where h: "h (pp_mon q) = Some (e, s)" "lib1 = lib\<lparr>lib_perp := Some (q\<lparr>pp_mon := s\<rparr>)\<rparr>"
      using p(1) Some by (auto simp: perp_thread_def)
    then show ?thesis using lib_ok_perp [OF assms(1) Some] assms(3) by blast
  qed (use p assms(1) in \<open>simp add: perp_thread_def\<close>)
  moreover obtain r lib2 where w: "with_targeted k lib1 = (r, lib2)" by fastforce
  ultimately have "lib_ok f mem lib2" using assms(4) by (rule with_targeted_ok)
  then show ?thesis using p(2) w by simp
qed

lemma tag_lines_perp:
  "tag_lines tag file ls s = Some s' \<Longrightarrow> perp_run n (p\<lparr>pp_mon := s\<rparr>) \<Longrightarrow> perp_run n (p\<lparr>pp_mon := s'\<rparr>)"
proof (induction ls arbitrary: s)
  case (Cons l ls)
  obtain a b path where l: "maps_line l = Some (a, b, path)" "tag_lines tag file ls (if file = path then tag_addr tag a b s else s) = Some s'"
    using Cons.prems(1) by (auto simp: bind_eq_Some_conv)
  have "perp_run n (p\<lparr>pp_mon := tag_addr tag a b s\<rparr>)" using perp_tag [OF Cons.prems(2), of tag a b] by simp
  then show ?case using Cons.IH [OF l(2)] Cons.prems(2) by simp
qed simp

lemma lib_init_ok:
  assumes "module_inv m" "files m f = Some (zero_session\<lparr>owner_tgid := g\<rparr>)" "user_targets_ok kenv" "\<forall>t n. cv_mmap (mn_cv env) t n \<noteq> 0"
    and "lib_init (dev_io kenv f) env beyond pid m mem os = Some lib"
  shows "lib_ok f mem lib"
proof -
  have off: "lib_ok f mem \<lparr>lib_perp = None, lib_targeted_rd = None, lib_environ = e\<rparr>" for e by (simp add: lib_ok_def)
  have t: "lib_ok f mem lib'" if "create_targeted (dev_io kenv f) (mn_cv env) pid m mem \<lparr>lib_perp = None, lib_targeted_rd = None, lib_environ = e\<rparr> = Some lib'" for e lib'
    using that run_construct [OF assms(1-4)] by (auto simp: create_targeted_def lib_ok_def split: prod.splits option.splits)
  have p: "lib_ok f mem lib'" if "create_perp env beyond pid mode r a os \<lparr>lib_perp = None, lib_targeted_rd = None, lib_environ = e\<rparr> = Some lib'" for mode r a e lib'
    using that perp_construct by (fastforce simp: create_perp_def Let_def lib_ok_def split: prod.splits option.splits)
  show ?thesis using assms(5) off t p
    by (auto simp: lib_init_def Let_def bind_eq_Some_conv split: if_splits)
qed

lemma lib_step_ok: "lib_step f lib lib' \<Longrightarrow> lib_ok f mem lib \<Longrightarrow> lib_ok f mem lib'"
proof (induction rule: lib_step.induct)
  case (lib_rd_start kenv env tag lib r lib')
  show ?case
    by (rule both_ok [OF lib_rd_start.prems lib_rd_start.hyps(2) [unfolded rd_start_def]])
       (auto intro: perp_phase_start run_start [OF _ lib_rd_start.hyps(1)])
next
  case (lib_rd_stop kenv env lib r lib')
  show ?case
    by (rule both_ok [OF lib_rd_stop.prems lib_rd_stop.hyps(2) [unfolded rd_stop_def]])
       (auto intro: perp_phase_stop run_stop [OF _ lib_rd_stop.hyps(1)])
next
  case (lib_rd_tag_addr lib tag start stop)
  then show ?case by (cases "lib_perp lib") (auto simp: rd_tag_addr_def intro!: lib_ok_perp intro: perp_tag)
next
  case (lib_rd_tag_from_maps cv tag path lib lib')
  show ?case
  proof (cases "lib_perp lib")
    case (Some p)
    then obtain ls s where t: "tag_lines tag path ls (pp_mon p) = Some s" "lib' = lib\<lparr>lib_perp := Some (p\<lparr>pp_mon := s\<rparr>)\<rparr>"
      using lib_rd_tag_from_maps.hyps by (auto simp: rd_tag_from_maps_def)
    have "perp_run n (p\<lparr>pp_mon := s\<rparr>)" if "perp_run n p" for n using tag_lines_perp [OF t(1), of n p] that by simp
    then show ?thesis using lib_ok_perp [OF lib_rd_tag_from_maps.prems Some] t(2) by blast
  qed (use lib_rd_tag_from_maps in \<open>simp add: rd_tag_from_maps_def\<close>)
qed (blast intro: lib_ok_perp lib_ok_targeted perp_window perp_events run_overflow run_watchpoint run_other)+

lemma lib_run_ok: "lib_run f mem lib \<Longrightarrow> lib_ok f mem lib"
proof (induction rule: lib_run.induct)
  case (lib_loaded m g kenv env beyond pid os lib)
  then show ?case by (rule lib_init_ok)
next
  case (lib_steps lib lib')
  then show ?case using lib_step_ok by blast
next
  case (lib_thread_start lib t lib')
  then obtain kenv env where e: "user_targets_ok kenv" "\<forall>u n. cv_mmap (mn_cv env) u n \<noteq> 0" "rd_on_thread_start (dev_io kenv f) env lib = Some lib'"
    by (auto simp: lib_thread_started_def)
  show ?case
    by (rule thread_ok [OF lib_thread_start.IH e(3) [unfolded rd_on_thread_start_def]])
       (auto intro: perp_register run_register [OF _ e(1,2)])
next
  case (lib_thread_stop lib t lib')
  then obtain kenv env where e: "user_targets_ok kenv" "rd_on_thread_stop (dev_io kenv f) env lib = Some lib'"
    by (auto simp: lib_thread_stopped_def)
  show ?case
    by (rule thread_ok [OF lib_thread_stop.IH e(2) [unfolded rd_on_thread_stop_def]])
       (auto intro: perp_unregister run_unregister [OF _ e(1)])
qed

end
