(* ===== verification/Hooked.thy ===== *)
theory Hooked
  imports Hook Starter_Correct
begin

text \<open>
  The hook and the library together.  What the hook relies on of the library behind its callbacks is
  the locale \<open>thread_client\<close>: the start callback registers at most the calling thread, and after the stop
  callback the thread is not registered.  A client that keeps this has, in every run with the hook, only
  registered threads that are alive.
\<close>

subsection \<open>Runs with a client\<close>

text \<open>What the events that a step of the hook adds to its log do to the client.\<close>

fun client_effect :: "(int \<Rightarrow> 's \<Rightarrow> 's \<Rightarrow> bool) \<Rightarrow> (int \<Rightarrow> 's \<Rightarrow> 's \<Rightarrow> bool) \<Rightarrow> hook_event list \<Rightarrow> 's \<Rightarrow> 's \<Rightarrow> bool" where
  "client_effect on_start on_stop [] s s' = (s' = s)"
| "client_effect on_start on_stop (OnStart t # es) s s' = (\<exists>s1. on_start t s s1 \<and> client_effect on_start on_stop es s1 s')"
| "client_effect on_start on_stop (Routine t r a # es) s s' = client_effect on_start on_stop es s s'"
| "client_effect on_start on_stop (OnStop t # es) s s' = (\<exists>s1. on_stop t s s1 \<and> client_effect on_start on_stop es s1 s')"

inductive hooked_run ::
  "(int \<Rightarrow> 's \<Rightarrow> 's \<Rightarrow> bool) \<Rightarrow> (int \<Rightarrow> 's \<Rightarrow> 's \<Rightarrow> bool) \<Rightarrow> ('s \<Rightarrow> 's \<Rightarrow> bool) \<Rightarrow> 's \<Rightarrow> hook \<Rightarrow> 's \<Rightarrow> bool"
  for on_start on_stop other and s0 :: 's where
  hooked_loaded: "hooked_run on_start on_stop other s0 hook_init s0"
| hooked_push: "hooked_run on_start on_stop other s0 h s \<Longrightarrow> hooked_run on_start on_stop other s0 (rd_pthread_hook_push_bypass t h) s"
| hooked_pop: "hooked_run on_start on_stop other s0 h s \<Longrightarrow> hooked_run on_start on_stop other s0 (rd_pthread_hook_pop_bypass t h) s"
| hooked_create: "hooked_run on_start on_stop other s0 h s \<Longrightarrow> (case res of Inl rc \<Rightarrow> rc \<noteq> 0 | Inr u \<Rightarrow> hk_threads h u = None) \<Longrightarrow>
    pthread_create t res r a h = Some (rc', h') \<Longrightarrow> hooked_run on_start on_stop other s0 h' s"
| hooked_thread: "hooked_run on_start on_stop other s0 h s \<Longrightarrow> hk_threads h t = Some ht \<Longrightarrow> thread_step t leave ht h = Some h' \<Longrightarrow>
    client_effect on_start on_stop (drop (length (hk_log h)) (hk_log h')) s s' \<Longrightarrow> hooked_run on_start on_stop other s0 h' s'"
| hooked_other: "hooked_run on_start on_stop other s0 h s \<Longrightarrow> other s s' \<Longrightarrow> hooked_run on_start on_stop other s0 h s'"

lemma hooked_hook_run: "hooked_run on_start on_stop other s0 h s \<Longrightarrow> hook_run h"
  by (induction rule: hooked_run.induct) (auto intro: hook_run.intros)

text \<open>A step of a thread adds at most one event, which is the thread's own.\<close>

lemma thread_step_log:
  assumes "thread_step t leave ht h = Some h'"
  obtains "hk_log h' = hk_log h" | "hk_log h' = hk_log h @ [OnStart t]" | r a where "hk_log h' = hk_log h @ [Routine t r a]" | "hk_log h' = hk_log h @ [OnStop t]"
  using assms
  by (auto simp: thread_step_def thread_start_trampoline_def call_routine_def cleanup_thread_ctx_def delete_ctx_def log_event_def set_stage_def
      end_thread_def split: thread_entry.splits thread_stage.splits if_splits)

lemma thread_step_others:
  assumes "thread_step t leave ht h = Some h'" "u \<noteq> t"
  shows "expected h' u = expected h u"
proof -
  have "hk_threads h' u = hk_threads h u" using assms
    by (auto simp: thread_step_def thread_start_trampoline_def call_routine_def cleanup_thread_ctx_def delete_ctx_def log_event_def set_stage_def
        end_thread_def split: thread_entry.splits thread_stage.splits if_splits)
  then show ?thesis by (simp add: expected_def)
qed

lemma create_expected:
  assumes "pthread_create t res r a h = Some (rc, h')" "case res of Inl rc \<Rightarrow> rc \<noteq> 0 | Inr u \<Rightarrow> hk_threads h u = None"
  shows "expected h' u = expected h u"
  using assms
  by (auto simp: pthread_create_def real_pthread_create_def new_ctx_def delete_ctx_def expected_def Let_def split: sum.splits if_splits)

subsection \<open>The contract of a client\<close>

locale thread_client =
  fixes inv :: "'s \<Rightarrow> bool" and registered :: "'s \<Rightarrow> int set"
    and on_start on_stop :: "int \<Rightarrow> 's \<Rightarrow> 's \<Rightarrow> bool" and other :: "'s \<Rightarrow> 's \<Rightarrow> bool"
  assumes client_start: "inv s \<Longrightarrow> on_start t s s' \<Longrightarrow> inv s' \<and> registered s' \<subseteq> insert t (registered s)"
    and client_stop: "inv s \<Longrightarrow> on_stop t s s' \<Longrightarrow> inv s' \<and> registered s' \<subseteq> registered s - {t}"
    and client_other: "inv s \<Longrightarrow> other s s' \<Longrightarrow> inv s' \<and> registered s' \<subseteq> registered s"
begin

lemma thread_step_client:
  assumes "inv s" "hook_ok h" "hk_threads h t = Some ht" "thread_step t leave ht h = Some h'"
    and "client_effect on_start on_stop (drop (length (hk_log h)) (hk_log h')) s s'"
    and "registered s \<subseteq> I \<union> {u. expected h u \<noteq> Unseen}"
  shows "inv s' \<and> registered s' \<subseteq> I \<union> {u. expected h' u \<noteq> Unseen}"
proof -
  have ok': "hook_ok h'" using step_ok [OF assms(2,3), of leave] assms(4) by auto
  have others: "expected h u \<noteq> Unseen \<Longrightarrow> u \<noteq> t \<Longrightarrow> expected h' u \<noteq> Unseen" for u using thread_step_others [OF assms(4)] by metis
  have seen: "expected h' t = Unseen \<longleftrightarrow> track t (hk_log h') Unseen = Some Unseen" "track t (hk_log h) Unseen = Some (expected h t)"
    using hook_okD(5) [OF ok', of t] hook_okD(5) [OF assms(2), of t] by simp_all
  from assms(4) show ?thesis
  proof (cases rule: thread_step_log)
    case 1
    then have "s' = s" "expected h' t = Unseen \<longleftrightarrow> expected h t = Unseen" using assms(5) seen by simp_all
    then show ?thesis using assms(1,6) others by blast
  next
    case 2
    then have "on_start t s s'" "expected h' t \<noteq> Unseen" using assms(5) seen by (auto simp: track_append split: if_splits)
    then show ?thesis using client_start [OF assms(1)] assms(6) others by blast
  next
    case (3 r a)
    then have "s' = s" "expected h' t \<noteq> Unseen" using assms(5) seen by (auto simp: track_append split: if_splits)
    then show ?thesis using assms(1,6) others by blast
  next
    case 4
    then have "on_stop t s s'" using assms(5) by simp
    then show ?thesis using client_stop [OF assms(1)] assms(6) others by blast
  qed
qed

lemma registered_alive:
  "hooked_run on_start on_stop other s0 h s \<Longrightarrow> inv s0 \<Longrightarrow> inv s \<and> registered s \<subseteq> registered s0 \<union> {t. expected h t \<noteq> Unseen}"
proof (induction rule: hooked_run.induct)
  case (hooked_create h s res t r a rc' h')
  then show ?case using create_expected [of t res r a h rc' h'] by simp
next
  case (hooked_thread h s t ht leave h' s')
  note ok = hook_run_ok [OF hooked_hook_run [OF hooked_thread.hyps(1)]] and ih = hooked_thread.IH [OF hooked_thread.prems]
  show ?case by (rule thread_step_client [OF conjunct1 [OF ih] ok hooked_thread.hyps(2-4) conjunct2 [OF ih]])
next
  case (hooked_other h s s')
  then show ?case using client_other [of s s'] by blast
qed (auto simp: expected_def rd_pthread_hook_push_bypass_def rd_pthread_hook_pop_bypass_def)

end

subsection \<open>The library is a client\<close>

text \<open>The threads that the targeted profiler has registered.\<close>

definition lib_registered :: "rd_module rd_lib \<Rightarrow> int set" where
  "lib_registered lib = {t. \<exists>s. lib_targeted_rd lib = Some s \<and> bound (sys_ctl s) t}"

lemma lib_registered_targeted:
  "lib_registered (lib\<lparr>lib_perp := p\<rparr>) = lib_registered lib" "lib_registered (lib\<lparr>lib_targeted_rd := Some s\<rparr>) = {t. bound (sys_ctl s) t}"
  "lib_targeted_rd lib = Some s \<Longrightarrow> lib_registered lib = {t. bound (sys_ctl s) t}" "lib_targeted_rd lib = None \<Longrightarrow> lib_registered lib = {}"
  by (simp_all add: lib_registered_def)

lemma window_calls_threads:
  "c_threads (sys_ctl (snd (start_window_locked io cv s))) = c_threads (sys_ctl s)" "c_threads (sys_ctl (snd (stop_window_locked io cv s))) = c_threads (sys_ctl s)"
  "c_threads (sys_ctl (snd (reset_session_locked io cv s))) = c_threads (sys_ctl s)"
  by (auto simp: start_window_locked_def stop_window_locked_def reset_session_locked_def and_then_def ioctl_or_throw_def
      split: prod.splits option.splits kret.splits)

lemma kernel_calls_threads:
  "c_threads (sys_ctl (snd (kernel_start io cv s))) = c_threads (sys_ctl s)" "c_threads (sys_ctl (snd (kernel_stop io cv s))) = c_threads (sys_ctl s)"
proof -
  have w: "c_threads (sys_ctl s') = c_threads (sys_ctl s)"
    if "start_window_locked io cv s = (r, s') \<or> stop_window_locked io cv s = (r, s') \<or> reset_session_locked io cv s = (r, s')" for s r s'
    using that window_calls_threads [of io cv s] by auto
  show "c_threads (sys_ctl (snd (kernel_start io cv s))) = c_threads (sys_ctl s)"
    by (auto simp: kernel_start_def and_then_def Let_def window_calls_threads split: prod.splits option.splits) (metis w)+
  show "c_threads (sys_ctl (snd (kernel_stop io cv s))) = c_threads (sys_ctl s)" by (simp add: kernel_stop_def window_calls_threads)
qed


lemma perp_thread_targeted: "perp_thread h lib = Some lib1 \<Longrightarrow> lib_targeted_rd lib1 = lib_targeted_rd lib"
  by (auto simp: perp_thread_def split: option.splits)

lemma with_perp_targeted: "with_perp h lib = (r, lib1) \<Longrightarrow> lib_targeted_rd lib1 = lib_targeted_rd lib"
  by (auto simp: with_perp_def split: option.splits prod.splits)

lemma lib_registered_cong: "lib_targeted_rd lib' = lib_targeted_rd lib \<Longrightarrow> lib_registered lib' = lib_registered lib"
  by (simp add: lib_registered_def)

lemma with_targeted_registered:
  assumes "with_targeted k lib = (r, lib')" "\<And>s e s'. lib_targeted_rd lib = Some s \<Longrightarrow> k s = (e, s') \<Longrightarrow> {t. bound (sys_ctl s') t} \<subseteq> R {t. bound (sys_ctl s) t}"
    and "\<And>X. {} \<subseteq> R X"
  shows "lib_registered lib' \<subseteq> R (lib_registered lib)"
proof (cases "lib_targeted_rd lib")
  case None
  then show ?thesis using assms(1,3) by (simp add: with_targeted_def lib_registered_targeted(4))
next
  case (Some s)
  obtain e s' where k: "k s = (e, s')" by fastforce
  then have "lib' = lib\<lparr>lib_targeted_rd := Some s'\<rparr>" using assms(1) Some by (simp add: with_targeted_def)
  then show ?thesis using assms(2) [OF Some k] by (simp add: lib_registered_targeted(2) lib_registered_targeted(3) [OF Some])
qed

lemma lib_agrees:
  assumes "lib_run f mem lib" "lib_targeted_rd lib = Some s" "user_targets_ok kenv"
  shows "kdev.agrees kenv f s"
  using lib_run_ok [OF assms(1)] assms(2,3) run_in_step in_step_agrees by (metis lib_ok_def)

lemma lib_started_registered:
  assumes "lib_run f mem lib" "lib_thread_started f t lib lib'"
  shows "lib_registered lib' \<subseteq> insert t (lib_registered lib)"
proof -
  obtain kenv env lib1 where e: "user_targets_ok kenv" "cv_gettid (mn_cv env) = t" "perp_thread (mon_register_current_thread env) lib = Some lib1"
    "lib' = snd (with_targeted (register_current_thread (dev_io kenv f) (mn_cv env)) lib1)"
    using assms(2) by (auto simp: lib_thread_started_def rd_on_thread_start_def)
  note same = perp_thread_targeted [OF e(3)]
  obtain r where w: "with_targeted (register_current_thread (dev_io kenv f) (mn_cv env)) lib1 = (r, lib')" using e(4) by (metis prod.collapse)
  have "lib_registered lib' \<subseteq> insert t (lib_registered lib1)"
  proof (rule with_targeted_registered [OF w])
    fix s x s'
    assume "lib_targeted_rd lib1 = Some s" and r: "register_current_thread (dev_io kenv f) (mn_cv env) s = (x, s')"
    then have ag: "kdev.agrees kenv f s" using same lib_agrees [OF assms(1) _ e(1)] by simp
    note reg = kdev.register_thread [OF ag, of "mn_cv env" t x s']
    show "{u. bound (sys_ctl s') u} \<subseteq> insert t {u. bound (sys_ctl s) u}"
      using reg(2,3) r e(2) by (cases x) (auto simp: register_current_thread_def)
  qed simp
  then show ?thesis using lib_registered_cong [OF same] by simp
qed

lemma lib_stopped_registered:
  assumes "lib_run f mem lib" "lib_thread_stopped f t lib lib'"
  shows "lib_registered lib' \<subseteq> lib_registered lib - {t}"
proof -
  obtain kenv env lib1 where e: "user_targets_ok kenv" "cv_gettid (mn_cv env) = t" "perp_thread (mon_unregister_current_thread env) lib = Some lib1"
    "lib' = snd (with_targeted (unregister_current_thread (dev_io kenv f) (mn_cv env)) lib1)"
    using assms(2) by (auto simp: lib_thread_stopped_def rd_on_thread_stop_def)
  note same = perp_thread_targeted [OF e(3)]
  obtain r where w: "with_targeted (unregister_current_thread (dev_io kenv f) (mn_cv env)) lib1 = (r, lib')" using e(4) by (metis prod.collapse)
  have "lib_registered lib' \<subseteq> lib_registered lib1 - {t}"
  proof (rule with_targeted_registered [OF w])
    fix s x s'
    assume "lib_targeted_rd lib1 = Some s" and r: "unregister_current_thread (dev_io kenv f) (mn_cv env) s = (x, s')"
    then have ag: "kdev.agrees kenv f s" using same lib_agrees [OF assms(1) _ e(1)] by simp
    show "{u. bound (sys_ctl s') u} \<subseteq> {u. bound (sys_ctl s) u} - {t}"
      using kdev.unregister_thread(3) [OF ag, of "mn_cv env" t x s'] r e(2) by (auto simp: unregister_current_thread_def)
  qed simp
  then show ?thesis using lib_registered_cong [OF same] by simp
qed

lemma bound_threads: "c_threads c' = c_threads c \<Longrightarrow> bound c' = bound c"
  by (simp add: bound_def fun_eq_iff)

lemma lib_step_registered: "lib_step f lib lib' \<Longrightarrow> lib_registered lib' = lib_registered lib"
proof -
  have both: "lib_registered lib' = lib_registered lib"
    if "(case with_perp h lib of (Some e, lib1) \<Rightarrow> (Some e, lib1) | (None, lib1) \<Rightarrow> with_targeted k lib1) = (r, lib')"
      and k: "\<And>s. c_threads (sys_ctl (snd (k s))) = c_threads (sys_ctl s)" for h k r and lib lib' :: "rd_module rd_lib"
  proof -
    obtain e lib1 where w: "with_perp h lib = (e, lib1)" by fastforce
    have "bound (sys_ctl s') = bound (sys_ctl s)" if "k s = (x, s')" for s x s' using bound_threads k [of s] that by (metis snd_conv)
    then have "lib_registered lib2 = lib_registered lib1" if "with_targeted k lib1 = (q, lib2)" for q lib2
      using that by (auto simp: with_targeted_def lib_registered_def split: option.splits prod.splits)
    then show ?thesis using that(1) w lib_registered_cong [OF with_perp_targeted [OF w]] by (cases e) auto
  qed
  show "lib_step f lib lib' \<Longrightarrow> lib_registered lib' = lib_registered lib"
  proof (induction rule: lib_step.induct)
    case (lib_rd_start kenv env tag lib r lib')
    show ?case by (rule both [OF lib_rd_start.hyps(2) [unfolded rd_start_def]]) (rule kernel_calls_threads(1))
  next
    case (lib_rd_stop kenv env lib r lib')
    show ?case by (rule both [OF lib_rd_stop.hyps(2) [unfolded rd_stop_def]]) (rule kernel_calls_threads(2))
  qed (auto simp: rd_tag_addr_def rd_tag_from_maps_def lib_registered_def split: option.splits)
qed

interpretation lib: thread_client "lib_run f mem" lib_registered "lib_thread_started f" "lib_thread_stopped f" "lib_step f" for f mem
proof
  fix s s' t
  assume run: "lib_run f mem s"
  show "lib_run f mem s' \<and> lib_registered s' \<subseteq> insert t (lib_registered s)" if "lib_thread_started f t s s'"
    using lib_thread_start [OF run that] lib_started_registered [OF run that] by blast
  show "lib_run f mem s' \<and> lib_registered s' \<subseteq> lib_registered s - {t}" if "lib_thread_stopped f t s s'"
    using lib_thread_stop [OF run that] lib_stopped_registered [OF run that] by blast
  show "lib_run f mem s' \<and> lib_registered s' \<subseteq> lib_registered s" if "lib_step f s s'"
    using lib_steps [OF run that] lib_step_registered [OF that] by blast
qed

end
