(* ===== verification/Hook_Properties.thy ===== *)
theory Hook_Properties
  imports Hook
begin

text \<open>
  What the hook guarantees: contexts are neither leaked nor used after they were deleted, the callbacks
  of a thread come in pairs around its routine, and the profilers' own threads are not hooked.
\<close>

subsection \<open>Contexts\<close>

text \<open>C28: the hook never uses or deletes a context that is gone, whatever threads are created, fail to be created,
  return, exit or are cancelled, in any order: a creation and a step of any thread are always defined;
  and no context is leaked: the contexts in memory are exactly those of the wrapped threads that
  have not ended, one each.\<close>

theorem hook_contexts_safe:
  assumes "hook_run h"
  shows "(\<forall>t real r a. (case real of Inl rc \<Rightarrow> rc \<noteq> 0 | Inr u \<Rightarrow> hk_threads h u = None) \<longrightarrow> pthread_create t real r a h \<noteq> None) \<and>
    (\<forall>t ht leave. hk_threads h t = Some ht \<longrightarrow> thread_step t leave ht h \<noteq> None) \<and>
    (\<forall>c. hk_ctxs h c \<noteq> None \<longleftrightarrow> (\<exists>!t. owns h t c))"
proof (intro conjI allI impI)
  note ok = hook_run_ok [OF assms]
  show "pthread_create t real r a h \<noteq> None" if "case real of Inl rc \<Rightarrow> rc \<noteq> 0 | Inr u \<Rightarrow> hk_threads h u = None" for t real r a
    using create_ok [OF ok that, of t r a] by auto
  show "thread_step t leave ht h \<noteq> None" if "hk_threads h t = Some ht" for t leave ht
    using step_ok [OF ok that, of leave] by auto
  show "hk_ctxs h c \<noteq> None \<longleftrightarrow> (\<exists>!t. owns h t c)" for c using hook_okD(2-4) [OF ok] by metis
qed

definition demo_hooked :: hook where
  "demo_hooked = (case pthread_create 1 (Inr 2) 0x400 7 hook_init of Some (rc, h) \<Rightarrow> h | None \<Rightarrow> hook_init)"

lemma demo_hooked_run: "hook_run demo_hooked" "hk_threads demo_hooked 2 = Some \<lparr>ht_entry = Trampoline 0, ht_stage = Created\<rparr>"
proof -
  have c: "pthread_create 1 (Inr 2) 0x400 7 hook_init = Some (0, demo_hooked)"
    by (simp add: demo_hooked_def pthread_create_def rd_pthread_hook_bypass_enabled_def new_ctx_def real_pthread_create_def hook_init_def)
  show "hook_run demo_hooked" by (rule run_create [OF run_loaded _ c]) (simp add: hook_init_def)
  show "hk_threads demo_hooked 2 = Some \<lparr>ht_entry = Trampoline 0, ht_stage = Created\<rparr>" by code_simp
qed

theorem hook_contexts_safe_witness:
  "thread_step 2 True \<lparr>ht_entry = Trampoline 0, ht_stage = Created\<rparr> demo_hooked \<noteq> None"
  using hook_contexts_safe [OF demo_hooked_run(1)] demo_hooked_run(2) by blast

subsection \<open>Callbacks\<close>

text \<open>The numbers of start and stop callbacks of a thread.\<close>

fun callbacks :: "int \<Rightarrow> hook_event list \<Rightarrow> nat \<times> nat" where
  "callbacks t [] = (0, 0)"
| "callbacks t (e # es) = (case callbacks t es of (n, m) \<Rightarrow> (if e = OnStart t then Suc n else n, if e = OnStop t then Suc m else m))"

lemma track_counts:
  "track t es st = Some st' \<Longrightarrow> callbacks t es = (n, m) \<Longrightarrow> n + (if st = Unseen then 0 else 1) = m + (if st' = Unseen then 0 else 1)"
proof (induction t es st arbitrary: n m rule: track.induct)
  case (2 t u es st)
  then show ?case by (cases "callbacks t es") (auto split: if_splits)
next
  case (3 t u r a es st)
  then show ?case by (cases "callbacks t es") (auto split: if_splits)
next
  case (4 t u es st)
  then show ?case by (cases "callbacks t es") (auto split: if_splits)
qed auto

text \<open>C29: the callbacks of a thread come in pairs: in every run the events of each thread are in the order start callback,
  routine, stop callback, where the routine is left out only when the thread ends before it; a thread that has
  ended has had as many stop as start callbacks, so the profilers unregister every thread
  that they registered.\<close>

theorem callbacks_paired:
  assumes "hook_run h"
  shows "track t (hk_log h) Unseen = Some (expected h t) \<and>
    (hk_threads h t = None \<longrightarrow> fst (callbacks t (hk_log h)) = snd (callbacks t (hk_log h)))"
proof -
  have tr: "track t (hk_log h) Unseen = Some (expected h t)" by (rule hook_okD(5) [OF hook_run_ok [OF assms]])
  moreover have "fst (callbacks t (hk_log h)) = snd (callbacks t (hk_log h))" if "hk_threads h t = None"
    using track_counts [OF tr, of "fst (callbacks t (hk_log h))" "snd (callbacks t (hk_log h))"] that by (simp add: expected_None)
  ultimately show ?thesis by blast
qed

theorem callbacks_paired_witness:
  "\<exists>h. hook_run h \<and> hk_log h = [OnStart 2, Routine 2 0x400 7, OnStop 2] \<and> fst (callbacks 2 (hk_log h)) = snd (callbacks 2 (hk_log h))"
proof -
  define h1 where "h1 = thread_start_trampoline 2 \<lparr>ht_entry = Trampoline 0, ht_stage = Created\<rparr> demo_hooked"
  have s1: "thread_step 2 False \<lparr>ht_entry = Trampoline 0, ht_stage = Created\<rparr> demo_hooked = Some h1"
    by (simp add: thread_step_def h1_def)
  have r1: "hook_run h1" "hk_threads h1 2 = Some \<lparr>ht_entry = Trampoline 0, ht_stage = Registered\<rparr>"
    using run_thread [OF demo_hooked_run s1] by (simp_all add: h1_def thread_start_trampoline_def log_event_def set_stage_def)
  have "\<exists>h2. thread_step 2 False \<lparr>ht_entry = Trampoline 0, ht_stage = Registered\<rparr> h1 = Some h2 \<and>
      hk_threads h2 2 = Some \<lparr>ht_entry = Trampoline 0, ht_stage = Running\<rparr> \<and> hk_ctxs h2 0 \<noteq> None \<and> hk_log h2 = [OnStart 2, Routine 2 0x400 7]"
    by (simp add: thread_step_def call_routine_def h1_def thread_start_trampoline_def log_event_def set_stage_def demo_hooked_def pthread_create_def
        rd_pthread_hook_bypass_enabled_def new_ctx_def real_pthread_create_def hook_init_def)
  then obtain h2 where s2: "thread_step 2 False \<lparr>ht_entry = Trampoline 0, ht_stage = Registered\<rparr> h1 = Some h2"
    "hk_threads h2 2 = Some \<lparr>ht_entry = Trampoline 0, ht_stage = Running\<rparr>" "hk_ctxs h2 0 \<noteq> None" "hk_log h2 = [OnStart 2, Routine 2 0x400 7]" by blast
  obtain h3 where s3: "thread_step 2 True \<lparr>ht_entry = Trampoline 0, ht_stage = Running\<rparr> h2 = Some h3" "hk_threads h3 2 = None"
    "hk_log h3 = [OnStart 2, Routine 2 0x400 7, OnStop 2]"
    using s2(3,4) by (auto simp: thread_step_def cleanup_thread_ctx_def delete_ctx_def log_event_def end_thread_def)
  have "hook_run h3" by (rule run_thread [OF run_thread [OF r1 s2(1)] s2(2) s3(1)])
  from callbacks_paired [OF this, of 2] this s3 show ?thesis by blast
qed

subsection \<open>The guard\<close>

text \<open>A thread created under the guard is not hooked: it starts at the given routine with the given argument, without a
  context and without callbacks, and after the guard the depth of the creating thread is what it was; so the
  sampler thread and the window thread never register themselves.  The depth is kept as long as the
  nesting stays below the largest 32-bit number.\<close>

theorem guarded_thread_unhooked:
  assumes "g_bypass_depth h t \<noteq> - 1" "u \<noteq> t"
  shows "\<exists>h'. PthreadCreateBypassGuard t (\<lambda>h. the (pthread_create t (Inr u) r a h)) h = (0, h') \<and>
    hk_threads h' u = Some \<lparr>ht_entry = Direct r a, ht_stage = Created\<rparr> \<and> hk_ctxs h' = hk_ctxs h \<and> hk_log h' = hk_log h \<and>
    g_bypass_depth h' t = g_bypass_depth h t"
proof -
  have "g_bypass_depth h t + 1 \<noteq> 0" using assms(1) by (simp add: add_eq_0_iff2)
  then show ?thesis using assms(2)
    by (simp add: PthreadCreateBypassGuard_def rd_pthread_hook_push_bypass_def pthread_create_def rd_pthread_hook_bypass_enabled_def
        real_pthread_create_def rd_pthread_hook_pop_bypass_def word_neq_0_conv)
qed

theorem guarded_thread_unhooked_witness:
  "\<exists>h'. PthreadCreateBypassGuard 1 (\<lambda>h. the (pthread_create 1 (Inr 5) 0x500 0 h)) hook_init = (0, h') \<and>
     hk_threads h' 5 = Some \<lparr>ht_entry = Direct 0x500 0, ht_stage = Created\<rparr> \<and> hk_ctxs h' = Map.empty"
  using guarded_thread_unhooked [where h = hook_init and t = 1 and u = 5 and r = "0x500" and a = 0] by (simp add: hook_init_def) blast

end
