(* ===== verification/Monitor_Properties.thy ===== *)
theory Monitor_Properties
  imports Monitor_Slots Sampling_Demo
begin

text \<open>
  The properties of the monitor's operations: the slot table, counters across windows and
  exiting threads, and the faults that modelling its resources and its event descriptor shows.
\<close>

definition demo_perf :: perf_os where
  "demo_perf = \<lparr>po_fds = [], po_enabled = [], po_epoll = [], po_maps = [], po_bufs = (\<lambda>a. demo_buf), po_pinned = []\<rparr>"

subsection \<open>The slot table\<close>



subsection \<open>Counters\<close>

text \<open>The total of a counter: what retired threads had, and the readings of the descriptors.\<close>

definition counter_total :: "mon_env \<Rightarrow> mon_sys \<Rightarrow> nat \<Rightarrow> u64" where
  "counter_total env s i = mo_retired_values (ms_mon s) ! i +
     sum_list (map (\<lambda>fd. rf_value (the (mn_read_fd env (ms_os s) fd))) (fds_of_index env (ms_mon s) i))"


lemma fds_of_index_prev [simp]: "fds_of_index env (m\<lparr>mo_prev_counters := p\<rparr>) i = fds_of_index env m i"
  by (simp add: fds_of_index_def active_threads_def Let_def)

lemma counter_total_prev [simp]: "counter_total env (s\<lparr>ms_mon := (ms_mon s)\<lparr>mo_prev_counters := p\<rparr>\<rparr>) i = counter_total env s i"
  by (simp add: counter_total_def)



definition demo_sampling :: mon_sys where
  "demo_sampling = \<lparr>ms_mon = demo_monitor, ms_os = demo_perf\<lparr>po_fds := [5]\<rparr>, ms_eventfd = 0, ms_sem = 1\<rparr>"


subsection \<open>Exiting threads\<close>

type_synonym fds_view = "bool \<times> int list \<times> (nat \<times> int) list"

definition fds_view_of :: "monitor \<Rightarrow> int \<Rightarrow> fds_view" where
  "fds_view_of m u = (let ts = thread_of m u in (ts_active ts, ts_counter_fds ts, map (\<lambda>sl. (ss_sampler_index sl, ss_fd sl)) (ts_samplers ts)))"

definition fds_core :: "monitor \<Rightarrow> (int \<Rightarrow> fds_view) \<times> event_spec \<times> event_spec \<times> u64 list" where
  "fds_core m = (fds_view_of m, mo_counter_spec m, mo_sampler_spec m, mo_retired_values m)"

interpretation fds: drain_frame fds_core
proof
  fix m t i w
  show "fds_core (still m) = fds_core m"
    by (simp add: fds_core_def fds_view_of_def [abs_def] still_def thread_of_def [abs_def])
  have "fds_view_of (put_writer t i w m) u = fds_view_of m u" for u
    by (simp add: fds_view_of_def put_writer_def thread_of_def Let_def split: option.split)
  then show "fds_core (put_writer t i w m) = fds_core m" by (simp add: fds_core_def put_writer_def fun_eq_iff)
next
  fix m t i slot
  assume r: "reset_pending_spe_sample slot = reset_pending_spe_sample (ts_samplers (thread_of m t) ! i)"
  let ?f = "\<lambda>sl. (ss_sampler_index sl, ss_fd sl)"
  have "?f sl = ?f (reset_pending_spe_sample sl)" for sl by (simp add: reset_pending_spe_sample_def)
  then have "?f slot = ?f (ts_samplers (thread_of m t) ! i)" using r by metis
  then have "map ?f ((ts_samplers (thread_of m t))[i := slot]) = map ?f (ts_samplers (thread_of m t))" by (rule map_update_same)
  then show "fds_core (m\<lparr>mo_threads := (mo_threads m)(t \<mapsto> (thread_of m t)\<lparr>ts_samplers := (ts_samplers (thread_of m t))[i := slot]\<rparr>)\<rparr>) = fds_core m"
    by (auto simp: fds_core_def fds_view_of_def fun_eq_iff Let_def thread_of_def split: option.split)
qed

text \<open>What a thread contributes to counter \<open>i\<close>.\<close>

definition contrib :: "(int \<Rightarrow> u64) \<Rightarrow> nat \<Rightarrow> nat \<Rightarrow> fds_view \<Rightarrow> u64" where
  "contrib val nc i v = (case v of (on, cfds, sfds) \<Rightarrow>
     if \<not> on then 0
     else if i < nc then (if i < length cfds then val (cfds ! i) else 0)
     else if i - nc < length sfds then val (snd (sfds ! (i - nc))) else 0)"

definition complete_walk :: "mon_env \<Rightarrow> bool" where
  "complete_walk env \<longleftrightarrow> (\<forall>m. finite (dom m) \<longrightarrow> distinct (mn_thread_walk env m) \<and> set (mn_thread_walk env m) = dom m)"

lemma walk_contrib:
  "set w \<subseteq> dom (mo_threads m) \<Longrightarrow>
   sum_list (map val (let xs = filter ts_active (List.map_filter (mo_threads m) w) in
     if i < nc then map (\<lambda>ts. ts_counter_fds ts ! i) (filter (\<lambda>ts. i < length (ts_counter_fds ts)) xs)
     else map (\<lambda>ts. ss_fd (ts_samplers ts ! (i - nc))) (filter (\<lambda>ts. i - nc < length (ts_samplers ts)) xs))) =
   sum_list (map (\<lambda>u. contrib val nc i (fds_view_of m u)) w)"
proof (induction w)
  case (Cons u w)
  then obtain ts where "mo_threads m u = Some ts" by auto
  then show ?case using Cons by (auto simp: List.map_filter_simps Let_def contrib_def fds_view_of_def thread_of_def)
qed (simp add: List.map_filter_simps)

lemma active_dom: "{u. fst (fds_view_of m u)} \<subseteq> dom (mo_threads m)"
  by (auto simp: fds_view_of_def thread_of_def zero_thread_def Let_def split: option.splits)

lemma counter_total_contrib:
  assumes "complete_walk env" "finite (dom (mo_threads (ms_mon s)))"
  shows "counter_total env s i = mo_retired_values (ms_mon s) ! i +
    (\<Sum>u | fst (fds_view_of (ms_mon s) u). contrib (\<lambda>fd. rf_value (the (mn_read_fd env (ms_os s) fd))) (length (mo_counter_spec (ms_mon s))) i (fds_view_of (ms_mon s) u))"
proof -
  let ?m = "ms_mon s" and ?c = "\<lambda>u. contrib (\<lambda>fd. rf_value (the (mn_read_fd env (ms_os s) fd))) (length (mo_counter_spec (ms_mon s))) i (fds_view_of (ms_mon s) u)"
  have w: "distinct (mn_thread_walk env (mo_threads ?m))" "set (mn_thread_walk env (mo_threads ?m)) = dom (mo_threads ?m)"
    using assms by (simp_all add: complete_walk_def)
  have "counter_total env s i = mo_retired_values ?m ! i + sum_list (map ?c (mn_thread_walk env (mo_threads ?m)))"
    using walk_contrib [OF equalityD1 [OF w(2)], where val = "\<lambda>fd. rf_value (the (mn_read_fd env (ms_os s) fd))" and i = i and nc = "length (mo_counter_spec ?m)"]
    unfolding counter_total_def fds_of_index_def active_threads_def Let_def by (simp only: add_left_cancel)
  also have "sum_list (map ?c (mn_thread_walk env (mo_threads ?m))) = (\<Sum>u\<in>dom (mo_threads ?m). ?c u)"
    using w by (simp add: sum_list_distinct_conv_sum_set)
  also have "\<dots> = (\<Sum>u | fst (fds_view_of ?m u). ?c u)"
    by (rule sum.mono_neutral_right [OF assms(2) active_dom]) (auto simp: contrib_def split: prod.splits)
  finally show ?thesis .
qed

text \<open>What retiring adds to the retired count of a counter.\<close>

definition picked :: "(int \<Rightarrow> u64) \<Rightarrow> nat \<Rightarrow> (nat \<times> int) list \<Rightarrow> u64" where
  "picked val i ifs = sum_list (map (\<lambda>(j, fd). if j = i then val fd else 0) ifs)"

lemma picked_zip:
  "picked val i (zip [k..<n] xs) = (if k \<le> i \<and> i < n \<and> i - k < length xs then val (xs ! (i - k)) else 0)"
proof (induction xs arbitrary: k)
  case (Cons x xs)
  show ?case
  proof (cases "k < n")
    case True
    then have "[k..<n] = k # [Suc k..<n]" by (simp add: upt_conv_Cons)
    then show ?thesis using Cons.IH [of "Suc k"] True by (auto simp: picked_def nth_Cons' Suc_diff_Suc split: if_splits)
  qed (auto simp: picked_def)
qed (simp add: picked_def)

lemma picked_append [simp]: "picked val i (xs @ ys) = picked val i xs + picked val i ys"
  by (simp add: picked_def)

lemma retire_fds_values:
  assumes "retire_fds env ifs s = (None, s')" "\<forall>(j, fd)\<in>set ifs. 0 \<le> fd \<and> j < length (mo_retired_values (ms_mon s))"
  shows "ms_os s' = ms_os s \<and> mo_threads (ms_mon s') = mo_threads (ms_mon s) \<and> mo_counter_spec (ms_mon s') = mo_counter_spec (ms_mon s) \<and>
    mo_retired_values (ms_mon s') ! i = mo_retired_values (ms_mon s) ! i + picked (\<lambda>fd. rf_value (the (mn_read_fd env (ms_os s) fd))) i ifs"
  using assms
proof (induction ifs arbitrary: s)
  case (Cons jfd ifs)
  obtain j fd where jfd: "jfd = (j, fd)" by fastforce
  obtain c where c: "mn_read_fd env (ms_os s) fd = Some c" "retire_fds env ifs (upd_mon (add_retired j c) s) = (None, s')"
    using Cons.prems jfd by (auto simp: read_fd_def split: option.splits sum.splits)
  let ?s1 = "upd_mon (add_retired j c) s"
  have j: "j < length (mo_retired_values (ms_mon s))" using Cons.prems(2) jfd by simp
  have f: "mo_threads (ms_mon ?s1) = mo_threads (ms_mon s)" "mo_counter_spec (ms_mon ?s1) = mo_counter_spec (ms_mon s)"
    "mo_retired_values (ms_mon ?s1) = (mo_retired_values (ms_mon s))[j := mo_retired_values (ms_mon s) ! j + rf_value c]"
    by (simp_all add: add_retired_def)
  have "\<forall>(j, fd)\<in>set ifs. 0 \<le> fd \<and> j < length (mo_retired_values (ms_mon ?s1))" using Cons.prems(2) f(3) by auto
  from Cons.IH [OF c(2) this] show ?case using j f c(1) jfd by (auto simp: picked_def nth_list_update add.assoc)
qed (simp add: picked_def)

text \<open>A thread as registration leaves it: open descriptors, samplers in order, not more than the specification has.\<close>

definition well_opened :: "monitor \<Rightarrow> thread_state \<Rightarrow> bool" where
  "well_opened m ts \<longleftrightarrow> (\<forall>fd\<in>set (thread_fds ts). 0 \<le> fd) \<and> length (ts_counter_fds ts) \<le> length (mo_counter_spec m) \<and>
     length (ts_samplers ts) \<le> length (mo_sampler_spec m) \<and> map ss_sampler_index (ts_samplers ts) = [0..<length (ts_samplers ts)]"

lemma picked_indexed:
  assumes "well_opened m ts" "ts_active ts" "ts = thread_of m t"
  shows "picked val i (indexed_fds m ts) = contrib val (length (mo_counter_spec m)) i (fds_view_of m t)"
proof -
  let ?nc = "length (mo_counter_spec m)" and ?k = "length (ts_samplers ts)"
  have "map (\<lambda>slot. (?nc + ss_sampler_index slot, ss_fd slot)) (ts_samplers ts) = zip (map ((+) ?nc) (map ss_sampler_index (ts_samplers ts))) (map ss_fd (ts_samplers ts))"
    by (simp add: zip_map_map comp_def flip: zip_same_conv_map) (simp add: zip_same_conv_map)
  also have "map ((+) ?nc) [0..<?k] = [?nc..<?nc + ?k]" by (rule nth_equalityI) simp_all
  then have "map ((+) ?nc) (map ss_sampler_index (ts_samplers ts)) = [?nc..<?nc + ?k]" using assms(1) by (simp add: well_opened_def)
  finally have z: "map (\<lambda>slot. (?nc + ss_sampler_index slot, ss_fd slot)) (ts_samplers ts) = zip [?nc..<?nc + ?k] (map ss_fd (ts_samplers ts))" .
  show ?thesis using assms unfolding indexed_fds_def z picked_append picked_zip
    by (auto simp: contrib_def fds_view_of_def well_opened_def Let_def)
qed

interpretation doms: drain_frame "\<lambda>m. finite (dom (mo_threads m))"
proof
  fix m t i w
  show "finite (dom (mo_threads (still m))) = finite (dom (mo_threads m))" by (simp add: still_def)
  have "dom (mo_threads (put_writer t i w m)) = dom (mo_threads m)" by (auto simp: put_writer_def split: if_splits)
  then show "finite (dom (mo_threads (put_writer t i w m))) = finite (dom (mo_threads m))" by simp
qed simp

lemma close_thread_view:
  "fds_view_of (ms_mon (close_thread_locked t s)) = (fds_view_of (ms_mon s))(t := (False, [], []))"
  "mo_retired_values (ms_mon (close_thread_locked t s)) = mo_retired_values (ms_mon s)"
  "mo_counter_spec (ms_mon (close_thread_locked t s)) = mo_counter_spec (ms_mon s)"
  "finite (dom (mo_threads (ms_mon (close_thread_locked t s)))) = finite (dom (mo_threads (ms_mon s)))"
  by (simp_all add: close_thread_locked_def Let_def upd_thread_def get_thread_of close_slots_mon fun_eq_iff fds_view_of_def)
     (simp_all add: thread_of_def)

lemma fds_core_fields:
  assumes "fds_core m' = fds_core m"
  shows "fds_view_of m' = fds_view_of m" "mo_counter_spec m' = mo_counter_spec m" "mo_sampler_spec m' = mo_sampler_spec m"
    "mo_retired_values m' = mo_retired_values m"
  using assms by (simp_all add: fds_core_def)

lemma well_opened_core:
  assumes "fds_core m' = fds_core m" "well_opened m (thread_of m t)"
  shows "well_opened m' (thread_of m' t)"
proof -
  have v: "ts_counter_fds (thread_of m' t) = ts_counter_fds (thread_of m t)"
    "map (\<lambda>sl. (ss_sampler_index sl, ss_fd sl)) (ts_samplers (thread_of m' t)) = map (\<lambda>sl. (ss_sampler_index sl, ss_fd sl)) (ts_samplers (thread_of m t))"
    using fun_cong [OF fds_core_fields(1) [OF assms(1)], of t] by (simp_all add: fds_view_of_def Let_def)
  have m: "map ss_fd (ts_samplers (thread_of m' t)) = map ss_fd (ts_samplers (thread_of m t))"
    "map ss_sampler_index (ts_samplers (thread_of m' t)) = map ss_sampler_index (ts_samplers (thread_of m t))"
    using arg_cong [OF v(2), of "map snd"] arg_cong [OF v(2), of "map fst"] by (simp_all add: comp_def)
  then have "length (ts_samplers (thread_of m' t)) = length (ts_samplers (thread_of m t))" by (metis length_map)
  then show ?thesis using assms fds_core_fields [OF assms(1)] v(1) m by (simp add: well_opened_def thread_fds_def)
qed

lemma indexed_bounds:
  assumes "well_opened m ts" "(j, fd) \<in> set (indexed_fds m ts)"
  shows "0 \<le> fd \<and> j < length (mo_counter_spec m) + length (mo_sampler_spec m)"
proof -
  have "ss_sampler_index sl < length (ts_samplers ts)" if "sl \<in> set (ts_samplers ts)" for sl
  proof -
    have "ss_sampler_index sl \<in> set (map ss_sampler_index (ts_samplers ts))" using that by simp
    moreover have "map ss_sampler_index (ts_samplers ts) = [0..<length (ts_samplers ts)]" using assms(1) by (simp add: well_opened_def)
    ultimately show ?thesis by (simp only: set_upt atLeastLessThan_iff)
  qed
  then show ?thesis using assms by (auto simp: indexed_fds_def well_opened_def thread_fds_def dest: set_zip_leftD set_zip_rightD) force+
qed

text \<open>C23: an exiting thread takes no counts with it: when a thread is unregistered while its counters stand still,
  the total of every counter and sampler is the same before and after, so the next window still contains what the
  thread had counted.\<close>

theorem retiring_keeps_totals:
  assumes "mon_unregister_thread_locked env t s = Some (None, s')" "mo_threads (ms_mon s) t = Some ts" "ts_active ts"
    and "well_opened (ms_mon s) ts" "complete_walk env" "finite (dom (mo_threads (ms_mon s)))"
    and "\<And>os os' fd. mn_read_fd env os fd = mn_read_fd env os' fd"
    and "length (mo_retired_values (ms_mon s)) = length (mo_counter_spec (ms_mon s)) + length (mo_sampler_spec (ms_mon s))"
  shows "counter_total env s' i = counter_total env s i"
proof -
  define s1 where "s1 = (if mo_events_enabled (ms_mon s) then disable_thread_locked ts s else s)"
  have m1: "ms_mon s1 = ms_mon s" by (simp add: s1_def disable_thread_locked_def)
  obtain k s2 s3 where d: "drain_thread t 0 s1 = Some (Inr k, s2)" "accumulate_retired_counts_locked env t s2 = (None, s3)" "s' = close_thread_locked t s3"
    using assms(1-3) by (auto simp: mon_unregister_thread_locked_def Let_def s1_def split: option.splits sum.splits prod.splits if_splits)
  have core: "fds_core (ms_mon s2) = fds_core (ms_mon s)" and fin: "finite (dom (mo_threads (ms_mon s2)))"
    using postD [OF fds.drain_slots_kept d(1) [unfolded drain_thread_def]] postD [OF doms.drain_slots_kept d(1) [unfolded drain_thread_def]] assms(6)
    by (simp_all add: m1 fds.kept_sys_def doms.kept_sys_def)
  have ts: "thread_of (ms_mon s) t = ts" using assms(2) by (simp add: thread_of_def)
  let ?m2 = "ms_mon s2" and ?nc = "length (mo_counter_spec (ms_mon s))" and ?val = "\<lambda>fd. rf_value (the (mn_read_fd env (ms_os s) fd))"
  have v: "(\<lambda>fd. rf_value (the (mn_read_fd env os fd))) = ?val" for os using assms(7) by metis
  have wo: "well_opened ?m2 (thread_of ?m2 t)" using well_opened_core [OF core, of t] assms(4) ts by simp
  have act: "ts_active (thread_of ?m2 t)" using fun_cong [OF fds_core_fields(1) [OF core], of t] assms(3) ts by (simp add: fds_view_of_def Let_def)
  have r: "retire_fds env (indexed_fds ?m2 (thread_of ?m2 t)) s2 = (None, s3)"
    using d(2) by (simp add: accumulate_retired_counts_locked_def get_thread_of)
  have b: "\<forall>(j, fd)\<in>set (indexed_fds ?m2 (thread_of ?m2 t)). 0 \<le> fd \<and> j < length (mo_retired_values ?m2)"
    using indexed_bounds [OF wo] assms(8) fds_core_fields [OF core] by auto
  note rv = retire_fds_values [OF r b, of i]
  have p: "picked ?val i (indexed_fds ?m2 (thread_of ?m2 t)) = contrib ?val ?nc i (fds_view_of (ms_mon s) t)"
    using picked_indexed [OF wo act refl] fds_core_fields [OF core] by simp
  have v3: "fds_view_of (ms_mon s3) = fds_view_of (ms_mon s)" "mo_counter_spec (ms_mon s3) = mo_counter_spec (ms_mon s)" "finite (dom (mo_threads (ms_mon s3)))"
  proof -
    have "mo_threads (ms_mon s3) = mo_threads ?m2" using rv by blast
    then have "fds_view_of (ms_mon s3) = fds_view_of ?m2" by (simp add: fds_view_of_def [abs_def] thread_of_def)
    then show "fds_view_of (ms_mon s3) = fds_view_of (ms_mon s)" using fds_core_fields(1) [OF core] by simp
    show "mo_counter_spec (ms_mon s3) = mo_counter_spec (ms_mon s)" using rv fds_core_fields(2) [OF core] by simp
    show "finite (dom (mo_threads (ms_mon s3)))" using fin \<open>mo_threads (ms_mon s3) = mo_threads ?m2\<close> by simp
  qed
  have ra: "mo_retired_values (ms_mon s') ! i = mo_retired_values (ms_mon s) ! i + contrib ?val ?nc i (fds_view_of (ms_mon s) t)"
    using rv p v [of "ms_os s2"] fds_core_fields [OF core] by (simp add: d(3) close_thread_view)
  let ?A = "{u. fst (fds_view_of (ms_mon s) u)}" and ?c = "\<lambda>u. contrib ?val ?nc i (fds_view_of (ms_mon s) u)"
  have A: "finite ?A" "t \<in> ?A"
    using finite_subset [OF active_dom assms(6)] assms(3) ts by (simp_all add: fds_view_of_def)
  have A': "{u. fst (fds_view_of (ms_mon s') u)} = ?A - {t}" by (auto simp: d(3) close_thread_view v3)
  have "counter_total env s' i = mo_retired_values (ms_mon s') ! i + (\<Sum>u\<in>?A - {t}. contrib ?val ?nc i (fds_view_of (ms_mon s') u))"
  proof -
    have f: "finite (dom (mo_threads (ms_mon s')))" "mo_counter_spec (ms_mon s') = mo_counter_spec (ms_mon s)"
      using v3 by (simp_all add: d(3) close_thread_view)
    show ?thesis unfolding counter_total_contrib [OF assms(5) f(1)] v [of "ms_os s'"] A' f(2) ..
  qed
  also have "(\<Sum>u\<in>?A - {t}. contrib ?val ?nc i (fds_view_of (ms_mon s') u)) = (\<Sum>u\<in>?A - {t}. ?c u)"
    by (rule sum.cong) (auto simp: d(3) close_thread_view v3)
  also have "mo_retired_values (ms_mon s') ! i + (\<Sum>u\<in>?A - {t}. ?c u) = mo_retired_values (ms_mon s) ! i + (\<Sum>u\<in>?A. ?c u)"
    using ra sum.remove [OF A, of ?c] by (simp add: add.assoc)
  also have "\<dots> = counter_total env s i" using counter_total_contrib [OF assms(5,6), of i] by simp
  finally show ?thesis .
qed

text \<open>The demonstration environment with a walk that covers every table.\<close>

definition demo_mn_all :: mon_env where
  "demo_mn_all = demo_mn\<lparr>mn_thread_walk := (\<lambda>m. sorted_list_of_set (dom m))\<rparr>"

theorem retiring_keeps_totals_witness:
  "\<exists>s'. mon_unregister_thread_locked demo_mn_all 8 demo_sampling = Some (None, s') \<and> counter_total demo_mn_all s' 0 = counter_total demo_mn_all demo_sampling 0"
proof -
  have "case mon_unregister_thread_locked demo_mn 8 demo_sampling of Some (None, _) \<Rightarrow> True | _ \<Rightarrow> False" by code_simp
  moreover have "mon_unregister_thread_locked demo_mn_all 8 demo_sampling = mon_unregister_thread_locked demo_mn 8 demo_sampling"
  proof -
    have "retire_fds demo_mn_all ifs s = retire_fds demo_mn ifs s" for ifs s
      by (induction ifs arbitrary: s) (auto simp: read_fd_def demo_mn_all_def split: sum.split)
    then have "accumulate_retired_counts_locked demo_mn_all = accumulate_retired_counts_locked demo_mn"
      by (intro ext) (simp add: accumulate_retired_counts_locked_def)
    then show ?thesis by (simp only: mon_unregister_thread_locked_def)
  qed
  ultimately obtain s' where s': "mon_unregister_thread_locked demo_mn_all 8 demo_sampling = Some (None, s')" by (auto split: option.splits)
  have "counter_total demo_mn_all s' 0 = counter_total demo_mn_all demo_sampling 0"
  proof (rule retiring_keeps_totals [OF s'])
    show "mo_threads (ms_mon demo_sampling) 8 = Some demo_sampled" "ts_active demo_sampled" "finite (dom (mo_threads (ms_mon demo_sampling)))"
      by (simp_all add: demo_sampling_def demo_monitor_def demo_sampled_def)
    show "well_opened (ms_mon demo_sampling) demo_sampled"
      by (simp add: well_opened_def demo_sampling_def demo_monitor_def demo_sampled_def initial_monitor_def thread_fds_def demo_slot_def)
    show "complete_walk demo_mn_all" by (simp add: complete_walk_def demo_mn_all_def)
  qed (simp_all add: demo_mn_all_def demo_mn_def demo_sampling_def demo_monitor_def initial_monitor_def)
  with s' show ?thesis by blast
qed

subsection \<open>The event descriptor adds requests up\<close>

text \<open>C39: requests to the sampler thread are written to an event descriptor, which adds them up until they are
  read.  So a drain request that the thread has not read yet turns the stop request of the
  destructor into a value that is no stop: the thread goes on and the destructor, which joins it, does
  not return.  And two drain requests read at once are taken for a stop.\<close>

theorem eventfd_requests_coalesce:
  assumes "mo_event_fd (ms_mon s) \<noteq> - 1"
  shows "(ms_eventfd s \<noteq> 0 \<longrightarrow> destroy_monitor env s = None) \<and>
    (ms_eventfd s = 0 \<longrightarrow> sampler_events [EVENTFD_TOKEN] (read_samples (read_samples s)) = Some (Inr (Some SAMPLER_STOP), s))"
proof -
  have g: "goes_on" if "sampler_drain env cmd s0 = Some (Inr goes_on, s1)" "cmd \<noteq> SAMPLER_STOP" for cmd s0 goes_on s1
    using that by (auto simp: sampler_drain_def Let_def split: option.splits prod.splits sum.splits)
  have "join_sampler env s = None" if "ms_eventfd s \<noteq> 0"
    using that assms g [of "ms_eventfd s + SAMPLER_STOP" "s\<lparr>ms_eventfd := 0\<rparr>"]
    by (auto simp: join_sampler_def Let_def split: option.split sum.split)
  then have "destroy_monitor env s = None" if "ms_eventfd s \<noteq> 0" using that by (simp add: destroy_monitor_def)
  then show ?thesis using assms by (simp add: read_samples_def SAMPLER_STOP_def)
qed

theorem eventfd_requests_coalesce_witness:
  "\<exists>s'. mon_stop demo_mn (upd_mon (\<lambda>m. m\<lparr>mo_event_fd := 4\<rparr>) demo_sampling) = Some (None, s') \<and> destroy_monitor demo_mn s' = None"
proof -
  let ?s = "upd_mon (\<lambda>m. m\<lparr>mo_event_fd := 4\<rparr>) demo_sampling"
  have "case mon_stop demo_mn ?s of Some (None, s') \<Rightarrow> mo_event_fd (ms_mon s') = 4 \<and> ms_eventfd s' = 1 | _ \<Rightarrow> False" by code_simp
  then obtain s' where s': "mon_stop demo_mn ?s = Some (None, s')" "mo_event_fd (ms_mon s') = 4" "ms_eventfd s' = 1"
    by (auto split: option.splits)
  with eventfd_requests_coalesce [of s' demo_mn] show ?thesis by simp
qed

subsection \<open>Failed registrations and refused tags\<close>

text \<open>A registration that fails because the ring buffer of a sampler cannot be mapped leaks the sampler's
  descriptor: the failing slot has taken it out of the list that the error path closes, and has not
  been added to the thread whose samplers the caller closes; no thread of the monitor owns it any more.\<close>

theorem failed_mapping_leaks_fd:
  assumes "mo_counter_spec (ms_mon s) = []" "mo_sampler_spec (ms_mon s) = [(name, leader)]" "mo_threads (ms_mon s) t = None"
    and "\<not> mo_is_pin (ms_mon s)" "init_perf_attr env name True (mo_sample_period (ms_mon s)) = Inr attr"
    and "mn_perf_event_open env (ms_os s) attr t (- 1) = Inr fd" "\<And>os n. mn_mmap env os n fd = MAP_FAILED"
    and "buffer_pages (mo_ringbufsize (ms_mon s)) (cv_page_size (mn_cv env)) = Some rp"
    and "buffer_pages (mo_auxbufsize (ms_mon s)) (cv_page_size (mn_cv env)) = Some ap"
  shows "\<exists>s'. mon_register_thread_locked env t s = Some (Some ''mapping sampler ring buffer failed'', s') \<and>
    po_fds (ms_os s') = fd # po_fds (ms_os s) \<and> thread_fds (get_thread_state t s') = [] \<and>
    (\<forall>u. u \<noteq> t \<longrightarrow> mo_threads (ms_mon s') u = mo_threads (ms_mon s) u)"
  using assms
  by (simp add: mon_register_thread_locked_def Let_def open_thread_locked_def pin_thread_def open_counters_def upd_thread_def
      get_thread_state_def zero_thread_def map_sampler_def close_thread_locked_def thread_fds_def)

definition demo_no_mmap :: mon_env where
  "demo_no_mmap = demo_mn\<lparr>mn_mmap := (\<lambda>os n fd. MAP_FAILED)\<rparr>"

theorem failed_mapping_leaks_fd_witness:
  "\<exists>s'. mon_register_thread_locked demo_no_mmap 10 demo_sampling = Some (Some ''mapping sampler ring buffer failed'', s') \<and> po_fds (ms_os s') = [4, 5]"
proof -
  have spec: "mo_counter_spec (ms_mon demo_sampling) = []" "mo_sampler_spec (ms_mon demo_sampling) = [(''ARM_SPE:LOADSTORE'', True)]"
    "mo_threads (ms_mon demo_sampling) 10 = None" "\<not> mo_is_pin (ms_mon demo_sampling)" "mo_sample_period (ms_mon demo_sampling) = 1000"
    "mo_ringbufsize (ms_mon demo_sampling) = 1" "mo_auxbufsize (ms_mon demo_sampling) = 1" "po_fds (ms_os demo_sampling) = [5]"
    by (simp_all add: demo_sampling_def demo_monitor_def initial_monitor_def demo_perf_def)
  have "case init_perf_attr demo_no_mmap ''ARM_SPE:LOADSTORE'' True 1000 of Inr _ \<Rightarrow> True | _ \<Rightarrow> False" by code_simp
  then obtain attr where a: "init_perf_attr demo_no_mmap ''ARM_SPE:LOADSTORE'' True 1000 = Inr attr" by (auto split: sum.splits)
  have o: "mn_perf_event_open demo_no_mmap (ms_os demo_sampling) attr 10 (- 1) = Inr 4" "mn_mmap demo_no_mmap os n 4 = MAP_FAILED" for os n
    by (simp_all add: demo_no_mmap_def demo_mn_def spec)
  have b: "buffer_pages 1 (cv_page_size (mn_cv demo_no_mmap)) = Some 16384" by code_simp
  have "\<exists>s'. mon_register_thread_locked demo_no_mmap 10 demo_sampling = Some (Some ''mapping sampler ring buffer failed'', s') \<and>
    po_fds (ms_os s') = 4 # po_fds (ms_os demo_sampling) \<and> thread_fds (get_thread_state 10 s') = [] \<and>
    (\<forall>u. u \<noteq> 10 \<longrightarrow> mo_threads (ms_mon s') u = mo_threads (ms_mon demo_sampling) u)"
    using a b by (intro failed_mapping_leaks_fd [OF spec(1,2,3,4) _ o]) (simp_all add: spec)
  then show ?thesis by (auto simp: spec)
qed




end
