(* ===== verification/Periodic_Properties.thy ===== *)
theory Periodic_Properties
  imports Periodic_Correct Monitor_Properties
begin

text \<open>
  What the periodic profiler guarantees: the windows of a run are complete and the profiler ends with its information
  file; and the tag that it does not survive.
\<close>

subsection \<open>A run ends with a complete file\<close>




subsection \<open>A tag that ends the process\<close>

text \<open>The profiler takes any tag for a phase, also one with a character that windows refuse.  Marking the phase succeeds,
  and from then on no turn of the profiler's thread succeeds: the refusal is an exception that leaves the
  thread, which ends the whole process within a second, with the destructor as without it.\<close>

theorem bad_phase_tag_terminates:
  assumes "bad_tag tag" "kernel_start_phase env0 tag p = (None, p')"
  shows "run_tick env env' p' = None \<and> destroy_perp env'' ((env, env') # envs) p' = None"
proof -
  have t: "pp_tag p' = tag" using assms(2) by (auto simp: kernel_start_phase_def split: prod.splits option.splits)
  have "or_terminate (mon_start env' (Some tag) False s) = None" for s using assms(1) by (simp add: mon_start_def Let_def or_terminate_def)
  then have "run_tick env env' p' = None" unfolding run_tick_def t by (cases "or_terminate (mon_stop env (pp_mon p'))") simp_all
  then show ?thesis by (simp add: destroy_perp_def)
qed

theorem bad_phase_tag_terminates_witness:
  "\<exists>p'. kernel_start_phase demo_mn ''a=b'' \<lparr>pp_mon = demo_sampling, pp_tag = ''init''\<rparr> = (None, p') \<and> run_tick demo_mn demo_mn p' = None"
proof -
  obtain r p' where k: "kernel_start_phase demo_mn ''a=b'' \<lparr>pp_mon = demo_sampling, pp_tag = ''init''\<rparr> = (r, p')" by fastforce
  moreover have "fst (kernel_start_phase demo_mn ''a=b'' \<lparr>pp_mon = demo_sampling, pp_tag = ''init''\<rparr>) = None" by code_simp
  ultimately have "kernel_start_phase demo_mn ''a=b'' \<lparr>pp_mon = demo_sampling, pp_tag = ''init''\<rparr> = (None, p')" by simp
  moreover have "bad_tag ''a=b''" by (simp add: bad_tag_def)
  ultimately show ?thesis using bad_phase_tag_terminates [of "''a=b''" demo_mn _ p' demo_mn demo_mn] by blast
qed

end
