(* ===== verification/Kernel_Resources.thy ===== *)
theory Kernel_Resources
  imports Kernel_Demo
begin

text \<open>
  The properties of the kernel module that concern resources and the session's life: what
  registration creates and releases, what the window commands, the reset and the release do,
  what the queries return, and the protocol that keeps live resources from being freed while a
  handler uses them.
\<close>

lemma unat_of_nat_small: "n < 2 ^ LENGTH('a) \<Longrightarrow> unat (of_nat n :: 'a::len word) = n"
  by (simp add: unat_of_nat take_bit_nat_eq_self)

subsection \<open>Registration and release\<close>

text \<open>C27: a registration returns for every argument; if it fails, the session is unchanged and every
  event it had created has been disabled and released, in particular when it fails half way
  through the breakpoints or watchpoints; if it succeeds, the session has one more live
  thread, with the id asked for, and nothing was released.\<close>

theorem register_all_or_nothing:
  assumes "session_inv s"
  shows "\<exists>ret evs s'. rd_register_thread_locked env s arg = Some (ret, evs, s') \<and> session_inv s' \<and>
    (ret \<noteq> RetOk \<longrightarrow> s' = s \<and> (\<forall>tsk. register_ready env s arg tsk \<longrightarrow>
       evs = map (perf_event_disable env) (setup_created env s (rd_new_thread tsk arg)))) \<and>
    (ret = RetOk \<longrightarrow> evs = [] \<and> (\<exists>t. s' = s\<lparr>threads := threads s @ [t]\<rparr> \<and> active t \<and> tid t = reg_tid arg))"
  using assms
proof (cases rule: register_inv [where env = env and arg = arg])
  case (failed ret evs)
  with assms show ?thesis by blast
next
  case (registered t)
  then show ?thesis by blast
qed

definition demo_env_no_wp :: kenv where
  "demo_env_no_wp = demo_env\<lparr>register_wp := (\<lambda>i a. Inl ENOMEM)\<rparr>"

lemma demo_session0_inv: "session_inv demo_session0"
proof -
  have "cfg_ok demo_session" "loaded_ok demo_session" using demo_session_inv
    by (simp_all add: session_inv_def demo_session_def demo_session0_def)
  then show ?thesis
    by (simp add: session_inv_def cfg_ok_def loaded_ok_def session_ok_def shifts_ok_def tids_ok_def
        demo_session_def demo_session0_def)
qed

theorem register_all_or_nothing_witness:
  "rd_register_thread_locked demo_env_no_wp demo_session0 demo_register = Some (RetErr ENOMEM,
     map (perf_event_disable demo_env) [demo_event 0 (rd_init_mem_attr demo_env),
       demo_event 100 (rd_init_bp_attr demo_env 0x1040 1000)], demo_session0)"
proof -
  let ?tsk = "\<lparr>task_tgid = 7, task_cpus = [2]\<rparr>"
  have ready: "register_ready demo_env_no_wp demo_session0 demo_register ?tsk"
    by (simp add: register_ready_def demo_session0_def demo_register_def demo_env_no_wp_def demo_env_def
        rd_find_active_thread_by_tid_def rd_check_thread_affinity_def)
  have ret: "\<exists>evs. rd_register_thread_locked demo_env_no_wp demo_session0 demo_register = Some (RetErr ENOMEM, evs, demo_session0)"
    unfolding register_ready_eq [OF ready]
    by (simp add: rd_thread_setup_events_def demo_session0_def demo_register_def
        demo_env_no_wp_def demo_env_def rd_new_thread_def rd_alloc_arrays_def kcalloc_def rd_alloc_failed_def
        callchain_modes Let_def rd_thread_destroy_def rd_thread_free_live_def release_events_def)
  have "setup_created demo_env_no_wp demo_session0 (rd_new_thread ?tsk demo_register) =
      [demo_event 0 (rd_init_mem_attr demo_env), demo_event 100 (rd_init_bp_attr demo_env 0x1040 1000)]"
    by (simp add: setup_created_def demo_session0_def demo_register_def demo_env_no_wp_def demo_env_def
        rd_new_thread_def rd_alloc_arrays_def kcalloc_def rd_alloc_failed_def callchain_modes Let_def
        bp_call_def wp_call_def rd_copy_target_def demo_target_def rd_init_mem_attr_def rd_init_bp_attr_def)
  moreover have "perf_event_disable demo_env_no_wp = perf_event_disable demo_env" by (simp add: demo_env_no_wp_def)
  ultimately show ?thesis
    using register_all_or_nothing [OF demo_session0_inv, of demo_env_no_wp demo_register] ret ready by auto
qed

text \<open>Unregistering a thread releases exactly the events it held, counts its armed slots as
  dropped, keeps its results for the queries and leaves it inactive; an id without a live
  thread is refused with \<^verbatim>\<open>ENOENT\<close> and nothing changes.\<close>

theorem unregister_releases:
  assumes "session_inv s"
  shows "case rd_find_active_thread_by_tid s t of
      None \<Rightarrow> rd_unregister_thread_locked env s t = Some (RetErr ENOENT, [], s)
    | Some i \<Rightarrow> \<exists>t'. rd_unregister_thread_locked env s t = Some (RetOk,
          map (perf_event_disable env) (held_events (threads s ! i)), s\<lparr>threads := (threads s)[i := t']\<rparr>) \<and>
        session_inv (s\<lparr>threads := (threads s)[i := t']\<rparr>) \<and> \<not> active t' \<and> held_events t' = [] \<and>
        dropped t' = dropped (threads s ! i) + of_nat (armed_count (threads s ! i))"
  using assms
proof (cases rule: unregister_inv [where env = env and t = t])
  case absent
  then show ?thesis by simp
next
  case (detached i t')
  then show ?thesis by auto
qed

theorem unregister_releases_witness:
  "\<exists>t'. rd_unregister_thread_locked demo_env demo_session 8 = Some (RetOk,
     map (perf_event_disable demo_env) (held_events demo_thread), demo_session\<lparr>threads := [t']\<rparr>) \<and> \<not> active t'"
proof -
  have "rd_find_active_thread_by_tid demo_session 8 = Some 0" "threads demo_session = [demo_thread]"
    by (simp_all add: rd_find_active_thread_by_tid_def demo_session_def demo_thread_def rd_new_thread_def demo_register_def)
  with unregister_releases [OF demo_session_inv, where t = 8 and env = demo_env] show ?thesis by auto
qed

text \<open>Closing the file always returns, releases exactly the events of the session's live threads,
  and leaves a module state in which the session is gone and the invariant holds.\<close>

theorem release_frees_session:
  assumes "rd_reachable m" "files m f = Some s"
  shows "\<exists>m'. rd_wpctl_release env m f =
      Some (map (perf_event_disable env) (concat (map held_events (filter active (threads s)))), m') \<and>
    files m' f = None \<and> (\<forall>g. g \<noteq> f \<longrightarrow> files m' g = files m g) \<and> (\<forall>i. (f, i) \<notin> set (rd_live_threads m'))"
proof -
  obtain evs m' where r: "rd_wpctl_release env m f = Some (evs, m')" "module_inv m'" "files m' f = None"
    "evs = map (perf_event_disable env) (concat (map held_events (filter active (threads s))))"
    by (rule release_inv [OF rd_reachable_inv [OF assms(1)], of env f s]) (simp add: assms(2))
  have "files m' g = files m g" if "g \<noteq> f" for g
    using r(1) that by (auto simp: rd_wpctl_release_def assms(2) bind_eq_Some_conv)
  moreover have "(f, i) \<notin> set (rd_live_threads m')" for i
    using r(2,3) by (auto simp: module_inv_def live_of_def)
  ultimately show ?thesis using r by blast
qed

theorem release_frees_session_witness:
  "\<exists>m'. rd_wpctl_release demo_env demo_module 0 =
     Some (map (perf_event_disable demo_env) (held_events demo_thread), m') \<and> files m' 0 = None"
proof -
  have "files demo_module 0 = Some demo_session" "filter active (threads demo_session) = [demo_thread]"
    using demo_thread_fields by (simp_all add: demo_module_def demo_session_def)
  with release_frees_session [OF demo_reachable this(1), of demo_env] show ?thesis by auto
qed

subsection \<open>The life of a session\<close>

text \<open>A session is configured once and loaded once, in this order: a successful configuration
  makes every later one fail with \<^verbatim>\<open>EBUSY\<close>, targets are refused before it, and a successful
  load makes every later load fail with \<^verbatim>\<open>EINVAL\<close>; failures change nothing.\<close>

theorem configure_and_load_once:
  assumes "rd_session_config_locked s cfg = (ret, s')" "rd_load_targets_locked env s' batch = (ret', s'')"
  shows "(ret \<noteq> RetOk \<longrightarrow> s' = s) \<and> (ret' \<noteq> RetOk \<longrightarrow> s'' = s') \<and>
    (ret = RetOk \<longrightarrow> rd_session_config_locked s' cfg' = (RetErr EBUSY, s') \<and>
       rd_load_targets_locked env s batch = (RetErr EINVAL, s)) \<and>
    (ret' = RetOk \<longrightarrow> rd_load_targets_locked env' s'' batch' = (RetErr EINVAL, s'') \<and>
       rd_session_config_locked s'' cfg' = (RetErr EBUSY, s''))"
proof -
  note config = rd_session_config_locked_def and load = rd_load_targets_locked_def
  have "ret \<noteq> RetOk \<longrightarrow> s' = s" using assms(1) by (auto simp: config split: if_splits)
  moreover have "ret' \<noteq> RetOk \<longrightarrow> s'' = s'" using assms(2) by (auto simp: load split: if_splits sum.splits)
  moreover have "ret = RetOk \<longrightarrow> configured s' \<and> \<not> configured s" using assms(1) by (auto simp: config split: if_splits)
  moreover have "ret' = RetOk \<longrightarrow> targets_loaded s''" using assms(2) by (auto simp: load split: if_splits sum.splits)
  ultimately show ?thesis by (simp add: config load)
qed

theorem configure_and_load_once_witness:
  "rd_session_config_locked (demo_session0\<lparr>running := False, targets_loaded := False, target_count := 0, targets := None\<rparr>)
     demo_cfg = (RetErr EBUSY, demo_session0\<lparr>running := False, targets_loaded := False, target_count := 0, targets := None\<rparr>)"
  using configure_and_load_once [OF demo_config demo_load, of demo_cfg] by blast

text \<open>A reset is refused while the window is open; otherwise it empties every counter, histogram and
  table of every thread, parks every slot as idle at its own scratch address, and keeps the
  threads, their events and the targets.\<close>

theorem reset_clears_session:
  assumes "session_inv s"
  shows "\<exists>ret s'. rd_reset_session_locked env s = Some (ret, s') \<and> session_inv s' \<and>
    (if running s then ret = RetErr EBUSY \<and> s' = s
     else targets s' = targets s \<and> length (threads s') = length (threads s) \<and>
       (\<forall>i<length (threads s). after_reset s (threads s ! i) (threads s' ! i)))"
proof (cases "running s")
  case True
  with assms show ?thesis by (simp add: rd_reset_session_locked_def)
next
  case False
  have "thread_inv s 0 t" if "t \<in> set (threads s)" for t using assms that by (simp add: session_inv_def)
  from reset_threads_inv [OF this] obtain ret ts where ts:
    "rd_reset_threads env s RetOk (threads s) = Some (ret, ts)" "length ts = length (threads s)"
    "\<And>i. i < length (threads s) \<Longrightarrow> thread_inv s 0 (ts ! i) \<and> after_reset s (threads s ! i) (ts ! i)" by blast
  then have "session_inv (s\<lparr>threads := ts\<rparr>)"
    using session_inv_ident [OF assms ts(2)] by (simp add: after_reset_def)
  with ts False show ?thesis by (auto simp: rd_reset_session_locked_def)
qed

theorem reset_clears_session_witness:
  "\<exists>ret s'. rd_reset_session_locked demo_env (demo_session\<lparr>running := False\<rparr>) = Some (ret, s') \<and>
     after_reset (demo_session\<lparr>running := False\<rparr>) demo_thread (threads s' ! 0)"
proof -
  have "session_inv (demo_session\<lparr>running := False\<rparr>)" using demo_session_inv by (simp add: session_inv_def)
  from reset_clears_session [OF this, of demo_env] show ?thesis by (auto simp: demo_session_def)
qed

subsection \<open>The window\<close>

lemma those_map_nth:
  "those (map g ts) = Some ts' \<Longrightarrow> length ts' = length ts \<and> (\<forall>i<length ts. g (ts ! i) = Some (ts' ! i))"
proof (induction ts arbitrary: ts')
  case (Cons t ts)
  then obtain t' us where u: "g t = Some t'" "those (map g ts) = Some us" "ts' = t' # us"
    by (auto split: option.splits)
  with Cons.IH [OF u(2)] show ?case by (auto simp: nth_Cons split: nat.split)
qed simp

lemma present_map_option: "present (map (map_option f) evs) = map f (present evs)"
  by (simp add: present_def comp_def filter_map map_option_case option.case_eq_if)

lemma enable_held:
  assumes "thread_inv s p t" "active t" "rd_enable_thread_events env s t = Some t'"
  shows "held_events t' = map (perf_event_enable env) (held_events t) \<and> active t'"
  using assms by (auto simp: thread_inv_def live_ok_def rd_enable_thread_events_def events_apply_full
      held_events_def present_map_option)

lemma disable_held:
  assumes "thread_inv s p t" "active t" "rd_disable_thread_events env s t = Some t'"
  shows "held_events t' = map (perf_event_disable env) (held_events t) \<and> active t'"
  using assms by (auto simp: thread_inv_def live_ok_def rd_disable_thread_events_def events_apply_full
      held_events_def present_map_option)

text \<open>What one of the two commands does to the threads of a session, thread by thread.\<close>

lemma window_threads:
  assumes "session_inv s" "those (map (\<lambda>t. if active t then g t else Some t) (threads s)) = Some ts"
    and "\<And>t t'. thread_inv s 0 t \<Longrightarrow> active t \<Longrightarrow> g t = Some t' \<Longrightarrow> held_events t' = map f (held_events t) \<and> active t'"
  shows "length ts = length (threads s)"
    "\<And>i. i < length ts \<Longrightarrow> active (ts ! i) = active (threads s ! i)"
    "\<And>i. i < length ts \<Longrightarrow> active (ts ! i) \<Longrightarrow> held_events (ts ! i) = map f (held_events (threads s ! i))"
proof -
  note nth = those_map_nth [OF assms(2)]
  show "length ts = length (threads s)" using nth by blast
  have "active (ts ! i) = active (threads s ! i) \<and>
      (active (ts ! i) \<longrightarrow> held_events (ts ! i) = map f (held_events (threads s ! i)))" if "i < length ts" for i
    using nth that assms(3) [OF session_invD(1) [OF assms(1)]] by (cases "active (threads s ! i)") auto
  then show "\<And>i. i < length ts \<Longrightarrow> active (ts ! i) = active (threads s ! i)"
    "\<And>i. i < length ts \<Longrightarrow> active (ts ! i) \<Longrightarrow> held_events (ts ! i) = map f (held_events (threads s ! i))" by blast+
qed

text \<open>Opening the window enables every event of every live thread, closing it disables them all, given
  that the perf interface enables and disables what it is asked to; threads that were detached
  are left alone.\<close>

theorem window_switches_events:
  assumes "session_inv s"
    and enable: "\<forall>e. pe_enabled (perf_event_enable env e)" and disable: "\<forall>e. \<not> pe_enabled (perf_event_disable env e)"
  shows "\<exists>s1 s2. rd_start_window env s = Some s1 \<and> rd_stop_window env s = Some s2 \<and>
    running s1 \<and> \<not> running s2 \<and> activity s1 = activity s \<and> activity s2 = activity s \<and>
    (\<forall>t\<in>set (threads s1). active t \<longrightarrow> (\<forall>e\<in>set (held_events t). pe_enabled e)) \<and>
    (\<forall>t\<in>set (threads s2). active t \<longrightarrow> (\<forall>e\<in>set (held_events t). \<not> pe_enabled e))"
proof -
  obtain s1 s2 where s: "rd_start_window env s = Some s1" "activity s1 = activity s" "running s1"
    "rd_stop_window env s = Some s2" "activity s2 = activity s" "\<not> running s2"
    using start_window_inv [OF assms(1), of env] stop_window_inv [OF assms(1), of env] by metis
  have on: "held_events t' = map (perf_event_enable env) (held_events t) \<and> active t'"
    if "thread_inv s 0 t" "active t" "rd_enable_thread_events env (s\<lparr>running := True\<rparr>) t = Some t'" for t t'
    using enable_held [of "s\<lparr>running := True\<rparr>" 0 t env t'] that by simp
  have off: "held_events t' = map (perf_event_disable env) (held_events t) \<and> active t'"
    if "thread_inv s 0 t" "active t" "rd_disable_thread_events env (s\<lparr>running := False\<rparr>) t = Some t'" for t t'
    using disable_held [of "s\<lparr>running := False\<rparr>" 0 t env t'] that by simp
  have th: "those (map (\<lambda>t. if active t then rd_enable_thread_events env (s\<lparr>running := True\<rparr>) t else Some t) (threads s)) =
      Some (threads s1)"
    "those (map (\<lambda>t. if active t then rd_disable_thread_events env (s\<lparr>running := False\<rparr>) t else Some t) (threads s)) =
      Some (threads s2)"
    using s(1,4) by (auto simp: rd_start_window_def rd_stop_window_def bind_eq_Some_conv Let_def)
  have "\<forall>e\<in>set (held_events t). pe_enabled e" if "t \<in> set (threads s1)" "active t" for t
  proof -
    from that(1) obtain i where i: "i < length (threads s1)" "t = threads s1 ! i" by (auto simp: in_set_conv_nth)
    with that(2) have "held_events t = map (perf_event_enable env) (held_events (threads s ! i))"
      using window_threads(3) [OF assms(1) th(1) on] by blast
    then show ?thesis using enable by simp
  qed
  moreover have "\<forall>e\<in>set (held_events t). \<not> pe_enabled e" if "t \<in> set (threads s2)" "active t" for t
  proof -
    from that(1) obtain i where i: "i < length (threads s2)" "t = threads s2 ! i" by (auto simp: in_set_conv_nth)
    with that(2) have "held_events t = map (perf_event_disable env) (held_events (threads s ! i))"
      using window_threads(3) [OF assms(1) th(2) off] by blast
    then show ?thesis using disable by simp
  qed
  ultimately show ?thesis using s by blast
qed

theorem window_switches_events_witness:
  "\<exists>s1. rd_start_window demo_env demo_session = Some s1 \<and>
     (\<forall>t\<in>set (threads s1). active t \<longrightarrow> (\<forall>e\<in>set (held_events t). pe_enabled e))"
proof -
  have "\<forall>e. pe_enabled (perf_event_enable demo_env e)" "\<forall>e. \<not> pe_enabled (perf_event_disable demo_env e)"
    by (simp_all add: demo_env_def)
  from window_switches_events [OF demo_session_inv this] show ?thesis by blast
qed

subsection \<open>Queries\<close>

lemma sum_list_slices:
  fixes h :: "'a::comm_monoid_add list"
  shows "m * n \<le> length h \<Longrightarrow> sum_list (map (\<lambda>k. sum_list (take n (drop (k * n) h))) [0..<m]) = sum_list (take (m * n) h)"
proof (induction m)
  case (Suc m)
  have "take (m * n + n) h = take (m * n) h @ take n (drop (m * n) h)" by (rule take_add)
  with Suc show ?case by (simp add: add.commute)
qed simp

text \<open>What the histogram queries of one thread deliver: the consecutive slices of its table.\<close>

lemma hist_queries:
  assumes "session_inv s" "rd_find_thread_by_index s ti = Some t" "copy_to_user_ok env"
  obtains h where "length h = unat (target_count s) * RD_WPCTL_LOG2_BUCKETS" "sum_list h = hits t"
    "\<forall>k<unat (target_count s). rd_get_hist_locked env s (Some (ti, of_nat k)) = Some (RetOk, HistReply
       \<lparr>hr_thread_index = ti, hr_target_index = of_nat k,
        hr_buckets = take RD_WPCTL_LOG2_BUCKETS (drop (k * RD_WPCTL_LOG2_BUCKETS) h)\<rparr>)"
proof -
  have res: "results_ok s t" by (rule session_inv_results [OF assms(1,2)])
  obtain h where h: "log2_hist t = Some h" "length h = unat (target_count s) * RD_WPCTL_LOG2_BUCKETS"
    using res by (auto simp: results_ok_def)
  have acc: "sum_list h = hits t"
    using assms(2) session_invD(1) [OF assms(1), of "unat ti"] h(1)
    by (auto simp: rd_find_thread_by_index_def thread_inv_def accounts_ok_def split: if_splits)
  have "rd_get_hist_locked env s (Some (ti, of_nat k)) = Some (RetOk, HistReply \<lparr>hr_thread_index = ti,
      hr_target_index = of_nat k, hr_buckets = take RD_WPCTL_LOG2_BUCKETS (drop (k * RD_WPCTL_LOG2_BUCKETS) h)\<rparr>)"
    if "k < unat (target_count s)" for k
  proof -
    have "unat (target_count s) < 2 ^ 32" by (rule order_less_le_trans [OF unsigned_less]) simp
    then have u: "unat (of_nat k :: u32) = k" using that by (intro unat_of_nat_small) simp
    then have lt: "(of_nat k :: u32) < target_count s" using that by (simp add: word_less_nat_alt)
    obtain h' where "log2_hist t = Some h'" "arr_slice h' (k * RD_WPCTL_LOG2_BUCKETS) RD_WPCTL_LOG2_BUCKETS =
        Some (take RD_WPCTL_LOG2_BUCKETS (drop (k * RD_WPCTL_LOG2_BUCKETS) h'))"
      using hist_slice [OF res lt] u by metis
    with assms(2,3) h(1) lt u show ?thesis by (simp add: rd_get_hist_locked_def rd_reply_user_def)
  qed
  then show thesis using that h(2) acc by blast
qed

text \<open>The buckets that the histogram query delivers for one target.\<close>

definition queried_buckets :: "kenv \<Rightarrow> rd_session \<Rightarrow> u32 \<Rightarrow> nat \<Rightarrow> u64 list" where
  "queried_buckets env s ti k =
     (case rd_get_hist_locked env s (Some (ti, of_nat k)) of Some (RetOk, HistReply r) \<Rightarrow> hr_buckets r | _ \<Rightarrow> [])"

text \<open>In every reachable state, the histograms that the queries deliver for all targets of a thread
  sum to the hits that the statistics query delivers for it (modulo 2^64).\<close>

theorem queried_histograms_sum_to_hits:
  assumes "rd_reachable m" "files m f = Some s" "rd_find_thread_by_index s ti = Some t" "copy_to_user_ok env"
  shows "\<exists>st. rd_get_thread_stats_locked env s (Some ti) = (RetOk, StatsReply st) \<and>
    sum_list (map (\<lambda>k. sum_list (queried_buckets env s ti k)) [0..<unat (target_count s)]) = st_hits st"
proof -
  have inv: "session_inv s" by (rule module_inv_session [OF rd_reachable_inv [OF assms(1)] assms(2)])
  obtain h where h: "length h = unat (target_count s) * RD_WPCTL_LOG2_BUCKETS" "sum_list h = hits t"
    "\<forall>k<unat (target_count s). rd_get_hist_locked env s (Some (ti, of_nat k)) = Some (RetOk, HistReply
       \<lparr>hr_thread_index = ti, hr_target_index = of_nat k,
        hr_buckets = take RD_WPCTL_LOG2_BUCKETS (drop (k * RD_WPCTL_LOG2_BUCKETS) h)\<rparr>)"
    by (rule hist_queries [OF inv assms(3,4)])
  have "sum_list (map (\<lambda>k. sum_list (queried_buckets env s ti k)) [0..<unat (target_count s)]) =
      sum_list (map (\<lambda>k. sum_list (take RD_WPCTL_LOG2_BUCKETS (drop (k * RD_WPCTL_LOG2_BUCKETS) h)))
        [0..<unat (target_count s)])" by (rule arg_cong [of _ _ sum_list], rule map_cong) (simp_all add: queried_buckets_def h(3))
  also have "\<dots> = hits t" using sum_list_slices [of "unat (target_count s)" RD_WPCTL_LOG2_BUCKETS h] h(1,2) by simp
  finally show ?thesis using assms(3,4) by (simp add: rd_get_thread_stats_locked_def rd_reply_user_def)
qed

theorem queried_histograms_sum_to_hits_witness:
  "\<exists>st. rd_get_thread_stats_locked demo_env demo_session (Some 0) = (RetOk, StatsReply st) \<and>
     sum_list (queried_buckets demo_env demo_session 0 0) = st_hits st"
proof -
  have "files demo_module 0 = Some demo_session" "rd_find_thread_by_index demo_session 0 = Some demo_thread"
    "copy_to_user_ok demo_env"
    by (simp_all add: demo_module_def demo_session_def rd_find_thread_by_index_def demo_env_def)
  from queried_histograms_sum_to_hits [OF demo_reachable this] demo_thread_fields(4) show ?thesis by simp
qed

subsection \<open>Stacks and call chains\<close>

text \<open>C33: a stack snapshot never exceeds the size asked for or its buffer; the bytes it declares are those
  of the user's stack at the stack pointer, in order; and it is short only when the next
  chunk of 256 bytes cannot be read.\<close>

theorem stack_snapshot_is_prefix:
  assumes "copy_reads env um" "length (snap_stack snap) = RD_WPCTL_MAX_DWARF_STACK_BYTES" "sp \<noteq> 0"
    and "want = min (unat (dwarf_stack_bytes s)) RD_WPCTL_MAX_DWARF_STACK_BYTES"
    and "rd_copy_user_stack_snapshot env s t snap sp = (t', snap')"
  shows "snap_stack_base snap' = sp \<and> length (snap_stack snap') = length (snap_stack snap) \<and>
    copied_prefix env um sp want (unat (snap_stack_size snap')) (snap_stack snap')"
proof (cases "want = 0")
  case True
  with assms(3-5) show ?thesis
    by (auto simp: rd_copy_user_stack_snapshot_def copied_prefix_def Let_def)
next
  case False
  obtain n buf where c: "rd_copy_chunks env sp want 0 (snap_stack snap) = (n, buf)" by fastforce
  have spec: "length buf = length (snap_stack snap) \<and> copied_prefix env um sp want n buf"
    by (rule rd_copy_chunks_spec [OF assms(1) c]) (simp_all add: assms(2,4))
  then have "n < 2 ^ 32" by (simp add: copied_prefix_def assms(4) uapi_consts)
  then have "unat (of_nat n :: u32) = n" by (simp add: unat_of_nat_small)
  moreover have "(t', snap') = (if n = 0 then t\<lparr>dwarf_stack_copy_failed := dwarf_stack_copy_failed t + 1\<rparr> else t,
      snap\<lparr>snap_stack_base := sp, snap_stack_size := of_nat n, snap_stack := buf\<rparr>)"
    unfolding assms(5) [symmetric] rd_copy_user_stack_snapshot_def Let_def assms(4) [symmetric]
    using c False assms(3) by simp
  ultimately show ?thesis using spec by simp
qed

theorem stack_snapshot_is_prefix_witness:
  "\<exists>t' snap'. rd_copy_user_stack_snapshot demo_env (demo_session\<lparr>dwarf_stack_bytes := 512\<rparr>) demo_thread zero_snapshot 0x8000 =
     (t', snap') \<and> copied_prefix demo_env (\<lambda>_. 0) 0x8000 512 (unat (snap_stack_size snap')) (snap_stack snap')"
proof -
  obtain t' snap' where c: "rd_copy_user_stack_snapshot demo_env (demo_session\<lparr>dwarf_stack_bytes := 512\<rparr>) demo_thread
      zero_snapshot 0x8000 = (t', snap')" by fastforce
  have "copy_reads demo_env (\<lambda>_. 0)" by (auto simp: copy_reads_def demo_env_def map_replicate_const)
  from stack_snapshot_is_prefix [OF this _ _ _ c, of 512] c show ?thesis by (auto simp: zero_snapshot_def uapi_consts)
qed

text \<open>C35: a captured call chain starts at the interrupted instruction, holds at most eight addresses, none
  of them zero and no two neighbours equal, whatever the user's stack holds; a chain is marked
  truncated only when it is full.\<close>

theorem callchain_capture_ok:
  assumes "user_mode env r" "regs_pc r \<noteq> 0" "rd_capture_callchain env t (Some r) = (t', key)"
  shows "\<exists>ips. key_ips key = ips @ replicate (RD_WPCTL_MAX_CALLCHAIN_DEPTH - length ips) 0 \<and>
    unat (key_depth key) = length ips \<and> chain_ok ips \<and> hd ips = regs_pc r \<and> callchain_failed t' = callchain_failed t \<and>
    (callchain_truncated t' \<noteq> callchain_truncated t \<longrightarrow> length ips = RD_WPCTL_MAX_CALLCHAIN_DEPTH)"
proof -
  obtain ips tr where u: "rd_unwind (rd_read_frame env) [regs_pc r] (gregs r 29) = (ips, tr)" by fastforce
  have start: "chain_ok [regs_pc r]" using assms(2) by (simp add: chain_ok_def uapi_consts)
  have ok: "chain_ok ips" "hd ips = regs_pc r" using rd_unwind_chain_ok [OF start, of "rd_read_frame env" "gregs r 29"] u by simp_all
  have full: "tr \<Longrightarrow> length ips = RD_WPCTL_MAX_CALLCHAIN_DEPTH"
    using rd_unwind_truncated [OF _ start, of "rd_read_frame env" "gregs r 29"] u by simp
  have "length ips < 2 ^ 8" using ok(1) by (simp add: chain_ok_def uapi_consts)
  then have "unat (of_nat (length ips) :: u8) = length ips" by (simp add: unat_of_nat_small)
  with assms u ok full show ?thesis
    by (intro exI [of _ ips]) (auto simp: rd_capture_callchain_def Let_def split: if_splits)
qed

theorem callchain_capture_ok_witness:
  "\<exists>key. snd (rd_capture_callchain demo_env demo_thread (Some demo_regs)) = key \<and> unat (key_depth key) \<ge> 1"
proof -
  obtain t' key where c: "rd_capture_callchain demo_env demo_thread (Some demo_regs) = (t', key)" by fastforce
  have "user_mode demo_env demo_regs" "regs_pc demo_regs \<noteq> 0" by (simp_all add: demo_env_def demo_regs_def)
  from callchain_capture_ok [OF this c] obtain ips where "unat (key_depth key) = length ips" "chain_ok ips" by blast
  then have "unat (key_depth key) \<ge> 1" by (cases ips) (simp_all add: chain_ok_def)
  with c show ?thesis by simp
qed

subsection \<open>Live resources\<close>

text \<open>C11: however handlers and the detaching context interleave, once a thread's live resources are
  freed no handler is inside the code that uses them or still holds a reference, and the
  completion the detaching context waits for is signalled at most once.\<close>

theorem live_resources_safe:
  assumes "live_reachable n s"
  shows "l_completed s \<le> 1 \<and>
    (l_freed s \<longrightarrow> l_refs s = 0 \<and> (\<forall>h\<in>set (l_handlers s). h = Outside \<and> \<not> reads_live h \<and> \<not> holds_ref h))"
proof -
  have inv: "live_inv s" by (rule live_reachable_inv [OF assms])
  have "h = Outside" if "l_freed s" "h \<in> set (l_handlers s)" for h
    using that inv live_not_freed [OF inv] by (auto simp: in_set_conv_nth live_inv_def)
  moreover have "l_completed s \<le> 1" "l_freed s \<longrightarrow> l_refs s = 0" using inv by (auto simp: live_inv_def split: if_splits)
  ultimately show ?thesis by (auto simp: reads_live_def holds_ref_def)
qed

text \<open>A run with one handler, never inside, to the end of the detachment.\<close>

definition demo_detaching :: "dpc \<Rightarrow> nat \<Rightarrow> nat \<Rightarrow> live_state" where
  "demo_detaching d refs c = \<lparr>l_active = False, l_detached = True, l_linked = False, l_refs = refs, l_completed = c,
     l_freed = (d = Freed), l_grace = {}, l_dpc = d, l_handlers = [Outside]\<rparr>"

lemma demo_detaching_reachable:
  "live_reachable 1 (demo_detaching Unlinked 1 0)" "live_reachable 1 (demo_detaching Freed 0 1)"
proof -
  have "live_reachable 1 ((live_init 1)\<lparr>l_active := False, l_detached := True, l_dpc := Flagged\<rparr>)"
    by (rule live_reachable.live [OF live_reachable.start live_step.flag]) (simp add: live_init_def)
  moreover have "{i. i = 0 \<and> in_rcu ([Outside] ! i)} = {}" by (auto simp: in_rcu_def)
  ultimately show u: "live_reachable 1 (demo_detaching Unlinked 1 0)"
    using live_reachable.live [OF _ live_step.unlink, of 1 "(live_init 1)\<lparr>l_active := False, l_detached := True, l_dpc := Flagged\<rparr>"]
    by (simp add: live_init_def demo_detaching_def del: Collect_empty_eq)
  from live_reachable.live [OF u live_step.sync] have "live_reachable 1 (demo_detaching Synced 1 0)"
    by (simp add: demo_detaching_def)
  from live_reachable.live [OF this live_step.put_own] have "live_reachable 1 (demo_detaching Put 0 1)"
    by (simp add: demo_detaching_def drop_ref_def)
  from live_reachable.live [OF this live_step.free] show "live_reachable 1 (demo_detaching Freed 0 1)"
    by (simp add: demo_detaching_def)
qed

theorem live_resources_safe_witness:
  "l_freed (demo_detaching Freed 0 1) \<and> l_refs (demo_detaching Freed 0 1) = 0"
  using live_resources_safe [OF demo_detaching_reachable(2)] by (simp add: demo_detaching_def)

lemma live_step_past_unlink:
  "live_step s s' \<Longrightarrow> l_dpc s \<notin> {Attached, Flagged} \<Longrightarrow> l_dpc s' \<notin> {Attached, Flagged}"
  by (induction rule: live_step.induct) (simp_all add: set_h_def drop_ref_def)

lemma live_steps_keep:
  "live_step\<^sup>*\<^sup>* s s' \<Longrightarrow> live_reachable n s \<Longrightarrow> l_dpc s \<notin> {Attached, Flagged} \<Longrightarrow>
   live_reachable n s' \<and> l_dpc s' \<notin> {Attached, Flagged}"
  by (induction rule: rtranclp_induct) (auto intro: live_reachable.live dest: live_step_past_unlink)

text \<open>C12: the wait of a detaching context ends.  From the moment the thread is unlinked there is no
  infinite run, and a run that cannot continue has freed the resources: no handler blocks the
  completion for ever and none is forgotten.\<close>

theorem detach_terminates:
  assumes "live_reachable n s" "l_dpc s \<notin> {Attached, Flagged}"
  shows "\<not> (\<exists>f. f 0 = s \<and> (\<forall>k. live_step (f k) (f (Suc k)))) \<and>
    (\<forall>s'. live_step\<^sup>*\<^sup>* s s' \<and> \<not> (\<exists>s''. live_step s' s'') \<longrightarrow> l_freed s')"
proof (intro conjI notI allI impI)
  assume "\<exists>f. f 0 = s \<and> (\<forall>k. live_step (f k) (f (Suc k)))"
  then obtain f where f: "f 0 = s" "\<And>k. live_step (f k) (f (Suc k))" by blast
  have "live_step\<^sup>*\<^sup>* s (f k)" for k
    by (induction k) (auto simp: f(1) intro: rtranclp.rtrancl_into_rtrancl f(2))
  then have "live_inv (f k)" "l_dpc (f k) \<notin> {Attached, Flagged}" for k
    using live_steps_keep [OF _ assms] live_reachable_inv by blast+
  then have "live_measure (f (Suc k)) < live_measure (f k)" for k by (intro live_step_decreases f(2))
  then have "live_measure (f k) + k \<le> live_measure (f 0)" for k
    by (induction k) (simp, metis Suc_leI add_Suc_right add_less_mono1 order_less_le_trans)
  from this [of "Suc (live_measure (f 0))"] show False by simp
next
  fix s' assume "live_step\<^sup>*\<^sup>* s s' \<and> \<not> (\<exists>s''. live_step s' s'')"
  then have "live_inv s'" "\<not> (\<exists>s''. live_step s' s'')"
    using live_steps_keep [OF _ assms] live_reachable_inv by blast+
  then show "l_freed s'" using live_step_exists [of s'] by (auto simp: live_inv_def)
qed

theorem detach_terminates_witness:
  "\<not> (\<exists>f. f 0 = demo_detaching Unlinked 1 0 \<and> (\<forall>k. live_step (f k) (f (Suc k))))"
  using detach_terminates [OF demo_detaching_reachable(1)] by (simp add: demo_detaching_def)

subsection \<open>Loading the module\<close>

text \<open>Loading the module succeeds exactly when all three hooks are registered, a failure leaves none of
  them registered, and unloading removes them all.\<close>

theorem module_init_all_or_nothing:
  "(fst (rd_wpctl_init a b c) = RetOk \<longleftrightarrow> a = RetOk \<and> b = RetOk \<and> c = RetOk) \<and>
   snd (rd_wpctl_init a b c) =
     (if fst (rd_wpctl_init a b c) = RetOk then [Overflow_kprobe, Watchpoint_kprobe, Miscdev] else []) \<and>
   rd_wpctl_exit (snd (rd_wpctl_init a b c)) = []"
  by (simp add: rd_wpctl_init_def rd_wpctl_exit_def)

end
