(* ===== verification/Profiler_Properties.thy ===== *)
theory Profiler_Properties
  imports Profiler_Demo Kernel_Resources
begin

text \<open>
  The properties of the profiler as a whole: the controller and the kernel module stay in step,
  the windows mean what their documentation says, nothing is left behind, and the files show what
  the module counted.
\<close>

subsection \<open>In step\<close>

text \<open>C2: in every run, whatever calls fail and however they interleave with the probes and with other users of
  the module: the controller's window flag is the module's, its active bindings are the module's
  live threads, no two of them share a processor, a processor is marked as taken exactly when one
  of them has it, and the process has exactly the scratch mappings of the active bindings beside
  those it started with.\<close>

theorem controller_kernel_in_step:
  assumes "profiler_run f mem s"
  shows "\<exists>se. files (sys_dev s) f = Some se \<and> (c_window_open (sys_ctl s) \<longleftrightarrow> running se) \<and>
    (\<forall>t. bound (sys_ctl s) t \<longleftrightarrow> (\<exists>th\<in>set (threads se). active th \<and> tid th = t)) \<and>
    (\<forall>t u k. on_cpu (sys_ctl s) t = Some k \<and> on_cpu (sys_ctl s) u = Some k \<longrightarrow> t = u) \<and>
    (\<forall>i<length (c_cpu_owner (sys_ctl s)). c_cpu_owner (sys_ctl s) ! i \<noteq> 0 \<longleftrightarrow> (\<exists>t. on_cpu (sys_ctl s) t = Some (int i))) \<and>
    mset (sys_mem s) = mset mem + image_mset (region (sys_ctl s)) (mset_set {t. bound (sys_ctl s) t})"
proof -
  have st: "in_step f mem s" by (rule run_in_step [OF assms])
  then obtain se where se: "files (sys_dev s) f = Some se" by (auto simp: in_step_def)
  have live: "t \<in> kernel_live f (sys_dev s) \<longleftrightarrow> (\<exists>th\<in>set (threads se). active th \<and> tid th = t)" for t
    using se by (auto simp: kernel_live_def live_tids_alt)
  have cpus: "cpus_ok (c_num_cpus (sys_ctl s)) (c_cpu_owner (sys_ctl s)) (on_cpu (sys_ctl s))"
    using st by (simp add: in_step_def ctl_inv_def)
  have "c_window_open (sys_ctl s) \<longleftrightarrow> running se" using st se by (simp add: in_step_def kernel_running_def)
  moreover have "\<forall>t. bound (sys_ctl s) t \<longleftrightarrow> (\<exists>th\<in>set (threads se). active th \<and> tid th = t)"
    using st live by (simp add: in_step_def)
  moreover have "mset (sys_mem s) = mset mem + image_mset (region (sys_ctl s)) (mset_set {t. bound (sys_ctl s) t})"
    using st by (simp add: in_step_def mappings_ok_def)
  ultimately show ?thesis using se cpus unfolding cpus_ok_def by blast
qed

lemma demo_run:
  obtains s where "profiler_run 0 [] s" "c_window_open (sys_ctl s)" "c_auto_fallback_active (sys_ctl s)"
    "\<not> c_explicit_window_seen (sys_ctl s)" "\<forall>t. bound (sys_ctl s) t \<longleftrightarrow> t = 8"
proof -
  obtain s where s: "TargetedRdProfiler (dev_io demo_env 0) demo_cv (Some ''out'') True (demo_dev (zero_session\<lparr>owner_tgid := 7\<rparr>)) [] = (None, s)"
    by (rule demo_construct)
  have ok: "kernel_ok demo_env 0 (demo_dev (zero_session\<lparr>owner_tgid := 7\<rparr>))"
    "\<not> kernel_running 0 (demo_dev (zero_session\<lparr>owner_tgid := 7\<rparr>))" "kernel_live 0 (demo_dev (zero_session\<lparr>owner_tgid := 7\<rparr>)) = {}"
    using demo_dev_inv demo_env_targets
    by (simp_all add: kernel_ok_def demo_dev_def kernel_running_def kernel_live_def live_tids_def roster_def zero_session_def)
  have mm: "\<forall>t n. cv_mmap demo_cv t n \<noteq> 0" by (simp add: demo_cv_def)
  have "profiler_run 0 [] s" using run_construct [OF demo_dev_inv _ demo_env_targets mm s] by (simp add: demo_dev_def)
  moreover have "atoi ''8'' = 8" by code_simp
  then have "get_threads demo_cv 0 = Inr [8]" by (simp add: get_threads_def demo_cv_def)
  then have "\<forall>t. bound (sys_ctl s) t \<longleftrightarrow> t = 8" using kdev.construct(5) [OF ok s] by auto
  ultimately show thesis using that kdev.construct(2-4) [OF ok s] by blast
qed

theorem controller_kernel_in_step_witness:
  "\<exists>s se. profiler_run 0 [] s \<and> files (sys_dev s) 0 = Some se \<and> running se \<and> (\<exists>th\<in>set (threads se). active th \<and> tid th = 8)"
proof -
  obtain s where s: "profiler_run 0 [] s" "c_window_open (sys_ctl s)" "\<forall>t. bound (sys_ctl s) t \<longleftrightarrow> t = 8" by (rule demo_run)
  from controller_kernel_in_step [OF s(1)] s show ?thesis by blast
qed

subsection \<open>Windows\<close>






text \<open>A stop without an earlier explicit start leaves the automatic window open and touches nothing; once
  a start was explicit, a stop closes the window on both sides and never throws.\<close>

theorem stop_follows_explicit_start:
  assumes "profiler_run f mem s" "user_targets_ok env"
  shows "if c_auto_fallback_active (sys_ctl s) \<and> \<not> c_explicit_window_seen (sys_ctl s)
    then kernel_stop (dev_io env f) cv s = (None, s)
    else \<exists>s'. kernel_stop (dev_io env f) cv s = (None, s') \<and> \<not> c_window_open (sys_ctl s') \<and> \<not> kernel_running f (sys_dev s')"
proof (cases "c_auto_fallback_active (sys_ctl s) \<and> \<not> c_explicit_window_seen (sys_ctl s)")
  case True
  then show ?thesis by (simp add: kernel_stop_def)
next
  case False
  have ag: "kdev.agrees env f s" using run_in_step [OF assms(1)] assms(2) by (simp add: in_step_agrees)
  obtain s' where s': "stop_window_locked (dev_io env f) cv s = (None, s')" "kdev.agrees env f s'" "\<not> c_window_open (sys_ctl s')"
    by (rule kdev.stop_window [OF ag])
  have "kernel_stop (dev_io env f) cv s = (None, s')"
    using False s'(1) by (auto simp: kernel_stop_def stop_window_locked_def split: if_splits)
  then show ?thesis using False s'(2,3) by (auto simp: kdev.agrees_def)
qed

theorem stop_follows_explicit_start_witness:
  "\<exists>s. profiler_run 0 [] s \<and> c_window_open (sys_ctl s) \<and> kernel_stop (dev_io demo_env 0) demo_cv s = (None, s)"
proof -
  obtain s where s: "profiler_run 0 [] s" "c_window_open (sys_ctl s)" "c_auto_fallback_active (sys_ctl s)"
    "\<not> c_explicit_window_seen (sys_ctl s)" by (rule demo_run)
  from stop_follows_explicit_start [OF s(1) demo_env_targets, of demo_cv] s show ?thesis by auto
qed

subsection \<open>Destruction\<close>

definition dev_close :: "kenv \<Rightarrow> nat \<Rightarrow> rd_module \<Rightarrow> rd_module" where
  "dev_close env f m = (case rd_wpctl_release env m f of None \<Rightarrow> m | Some (evs, m') \<Rightarrow> m')"

lemma dev_close_gone:
  assumes "module_inv m"
  shows "files (dev_close env f m) f = None \<and> (\<forall>g i. (g, i) \<in> set (rd_live_threads (dev_close env f m)) \<longrightarrow> g \<noteq> f)"
proof -
  obtain evs m' where m': "rd_wpctl_release env m f = Some (evs, m')" "module_inv m'" by (rule release_inv [OF assms])
  have none: "files m' f = None" using m'(1) by (auto simp: rd_wpctl_release_def bind_eq_Some_conv split: option.splits)
  moreover have "g \<noteq> f" if "(g, i) \<in> set (rd_live_threads m')" for g i
    using live_subset [OF m'(2)] that none by (auto simp: live_of_def)
  ultimately show ?thesis using m'(1) by (simp add: dev_close_def)
qed

text \<open>C25: the destructor releases everything, even when writing the results fails: the window is closed, no
  thread is registered, every processor is free, the process has the mappings it started with,
  and the module has forgotten the session and its threads.\<close>

theorem destroy_releases_everything:
  assumes "profiler_run f mem s" "user_targets_ok env"
    and "{t. bound (sys_ctl s) t} \<subseteq> set (cv_thread_walk cv (c_threads (sys_ctl s)))"
  shows "\<exists>r ops s'. destroy_profiler (dev_io env f) cv (dev_close env f) s = (r, ops, s') \<and> \<not> c_window_open (sys_ctl s') \<and>
    (\<forall>t. \<not> bound (sys_ctl s') t) \<and> (\<forall>i<length (c_cpu_owner (sys_ctl s')). c_cpu_owner (sys_ctl s') ! i = 0) \<and>
    mset (sys_mem s') = mset mem \<and> files (sys_dev s') f = None \<and>
    (\<forall>g i. (g, i) \<in> set (rd_live_threads (sys_dev s')) \<longrightarrow> g \<noteq> f)"
proof -
  have ag: "kdev.agrees env f s" "mappings_ok mem (sys_ctl s) (sys_mem s)"
    using run_in_step [OF assms(1)] assms(2) by (simp_all add: in_step_agrees)
  obtain r ops s' d where d: "destroy_profiler (dev_io env f) cv (dev_close env f) s = (r, ops, s'\<lparr>sys_dev := dev_close env f d\<rparr>)"
    "kernel_ok env f d" "ctl_inv (sys_ctl s')" "\<not> c_window_open (sys_ctl s')" "\<forall>t. \<not> bound (sys_ctl s') t" "mset (sys_mem s') = mset mem"
    by (rule kdev.destroy_spec [OF ag assms(3)])
  have "\<forall>i<length (c_cpu_owner (sys_ctl s')). c_cpu_owner (sys_ctl s') ! i = 0"
    using d(3,5) by (auto simp: ctl_inv_def cpus_ok_def bound_on_cpu)
  moreover have "module_inv d" using d(2) by (simp add: kernel_ok_def)
  ultimately show ?thesis using d dev_close_gone [of d env f] by (intro exI [of _ r] exI [of _ ops] exI [of _ "s'\<lparr>sys_dev := dev_close env f d\<rparr>"]) simp
qed

theorem destroy_releases_everything_witness:
  "\<exists>s r ops s'. profiler_run 0 [] s \<and> bound (sys_ctl s) 8 \<and>
     destroy_profiler (dev_io demo_env 0) demo_cv (dev_close demo_env 0) s = (r, ops, s') \<and> sys_mem s' = []"
proof -
  obtain s where s: "profiler_run 0 [] s" "\<forall>t. bound (sys_ctl s) t \<longleftrightarrow> t = 8" by (rule demo_run)
  then have "{t. bound (sys_ctl s) t} \<subseteq> set (cv_thread_walk demo_cv (c_threads (sys_ctl s)))" by (simp add: demo_cv_def)
  from destroy_releases_everything [OF s(1) demo_env_targets this] s(1,2) show ?thesis by auto
qed

subsection \<open>The result files\<close>

lemma dev_io_hist:
  assumes "files m f = Some s" "rd_get_hist_locked env s a = Some (ret, rep)"
  shows "dev_io env f m (RDKIOC_GET_LOG2_HIST a) = (ret, rep, m)"
  using assms by (simp add: dev_io_def rd_wpctl_ioctl_def rd_ioctl_session_def rd_update_live_def fun_upd_idem)

lemma bucket_rows_puts:
  "bucket_rows path key bs = map (FPut path) (map row (map (\<lambda>b. key @ bounds (of_nat b) @ [dec (bs ! b)])
     (filter (\<lambda>b. bs ! b \<noteq> 0) [0..<RD_WPCTL_LOG2_BUCKETS])))"
  by (simp add: bucket_rows_def)

lemma sum_nonzero: "sum_list (map f (filter (\<lambda>x. f x \<noteq> 0) xs)) = sum_list (map f xs)"
  for f :: "'a \<Rightarrow> u64"
  by (induction xs) auto

lemma sum_concat_map: "sum_list (map f (concat (map g xs))) = sum_list (map (\<lambda>x. sum_list (map f (g x))) xs)"
  for f :: "'a \<Rightarrow> u64"
  by (induction xs) simp_all

lemma count_of_rows:
  "length bs = RD_WPCTL_LOG2_BUCKETS \<Longrightarrow>
   sum_list (map (\<lambda>cols. fst (strtoull 10 (last cols))) (map (\<lambda>b. key @ bounds (of_nat b) @ [dec (bs ! b)])
     (filter (\<lambda>b. bs ! b \<noteq> 0) [0..<RD_WPCTL_LOG2_BUCKETS]))) = sum_list bs"
proof -
  assume len: "length bs = RD_WPCTL_LOG2_BUCKETS"
  have "sum_list (map (\<lambda>b. bs ! b) (filter (\<lambda>b. bs ! b \<noteq> 0) [0..<length bs])) = sum_list (map (\<lambda>b. bs ! b) [0..<length bs])"
    by (rule sum_nonzero)
  also have "\<dots> = sum_list bs" by (simp only: map_nth)
  finally show ?thesis using len by (simp add: comp_def dec_def strtoull_show_dec)
qed

text \<open>C8: whoever reads a thread's histogram file and adds up its count column gets the number of hits that
  the module counted for the thread (modulo 2^64): no bucket is left out, none is written twice,
  and every number reads back as it was.\<close>

theorem histogram_file_sums_to_hits:
  assumes "rd_reachable m" "files m f = Some s" "rd_find_thread_by_index s ti = Some t" "copy_to_user_ok env"
    and "unat (target_count s) = length (c_targets c)" "cv_can_create cv (thread_path c st ''.hist.log2.txt'')"
  shows "\<exists>ops. write_thread_histograms (dev_io env f) cv c st ti m = (None, ops, m) \<and>
    count_column (out_text (thread_path c st ''.hist.log2.txt'') ops old) = hits t"
proof -
  let ?p = "thread_path c st ''.hist.log2.txt''" and ?n = "length (c_targets c)"
  have inv: "session_inv s" by (rule module_inv_session [OF rd_reachable_inv [OF assms(1)] assms(2)])
  obtain h where h: "length h = unat (target_count s) * RD_WPCTL_LOG2_BUCKETS" "sum_list h = hits t"
    "\<forall>k<unat (target_count s). rd_get_hist_locked env s (Some (ti, of_nat k)) = Some (RetOk, HistReply
       \<lparr>hr_thread_index = ti, hr_target_index = of_nat k,
        hr_buckets = take RD_WPCTL_LOG2_BUCKETS (drop (k * RD_WPCTL_LOG2_BUCKETS) h)\<rparr>)"
    by (rule hist_queries [OF inv assms(3,4)])
  let ?bs = "\<lambda>k. take RD_WPCTL_LOG2_BUCKETS (drop (k * RD_WPCTL_LOG2_BUCKETS) h)"
  let ?rows = "\<lambda>k. map (\<lambda>b. [hex0x (ht_pc_offset (c_targets c ! k))] @ bounds (of_nat b) @ [dec (?bs k ! b)])
     (filter (\<lambda>b. ?bs k ! b \<noteq> 0) [0..<RD_WPCTL_LOG2_BUCKETS])"
  let ?title = "[''pc_offset'', ''bucket_lo'', ''bucket_hi'', ''count'']"
  let ?all = "?title # concat (map ?rows [0..<?n])"
  let ?w = "\<lambda>k. query (dev_io env f) cv ''RDKIOC_GET_LOG2_HIST'' (RDKIOC_GET_LOG2_HIST (Some (ti, of_nat k)))
      (\<lambda>rep. emit (bucket_rows ?p [hex0x (ht_pc_offset (c_targets c ! k))] (hist_reply rep)))"
  have q: "\<forall>k\<in>set [0..<?n]. ?w k m = (None, map (FPut ?p) (map row (?rows k)), m)"
    using h(3) assms(5) by (auto simp: query_def dev_io_hist [OF assms(2)] emit_def hist_reply_def bucket_rows_puts)
  let ?ops = "FCreate ?p # map (FPut ?p) (map row ?all)"
  have "write_thread_histograms (dev_io env f) cv c st ti m = (None, ?ops, m)"
    unfolding write_thread_histograms_def Let_def using write_all_steady [of "[0..<?n]" ?w m "\<lambda>k. map (FPut ?p) (map row (?rows k))", OF q] assms(6)
    by (simp add: open_file_def emit_def map_concat comp_def)
  moreover have "out_text ?p ?ops old = concat (map row ?all)"
    using out_text_puts [of ?p "map row ?all" "[]"] by (simp del: map_map)
  moreover have "read_table (concat (map row ?all)) = concat (map ?rows [0..<?n])"
    by (rule read_table_rows) (auto simp: bounds_def plain_def [of "_ # _"] isspace_def)
  moreover have "sum_list (map (\<lambda>cols. fst (strtoull 10 (last cols))) (concat (map ?rows [0..<?n]))) = hits t"
  proof -
    have cnt: "sum_list (map (\<lambda>cols. fst (strtoull 10 (last cols))) (?rows k)) = sum_list (?bs k)" if "k < ?n" for k
    proof (rule count_of_rows)
      have "Suc k * RD_WPCTL_LOG2_BUCKETS \<le> ?n * RD_WPCTL_LOG2_BUCKETS" using that by (intro mult_right_mono) auto
      then show "length (?bs k) = RD_WPCTL_LOG2_BUCKETS" using h(1) assms(5) by simp
    qed
    have "sum_list (map (\<lambda>k. sum_list (map (\<lambda>cols. fst (strtoull 10 (last cols))) (?rows k))) [0..<?n]) =
        sum_list (map (\<lambda>k. sum_list (?bs k)) [0..<?n])"
      by (rule arg_cong [of _ _ sum_list], rule map_cong [OF refl], rule cnt) simp
    also have "\<dots> = hits t" using sum_list_slices [of ?n RD_WPCTL_LOG2_BUCKETS h] h(1,2) assms(5) by simp
    finally show ?thesis by (simp only: sum_concat_map)
  qed
  ultimately show ?thesis by (simp add: count_column_def)
qed

theorem histogram_file_sums_to_hits_witness:
  "\<exists>st ops. write_thread_histograms (dev_io demo_env 0) demo_cv demo_ctl2 st 0 demo_module = (None, ops, demo_module) \<and>
     count_column (out_text (thread_path demo_ctl2 st ''.hist.log2.txt'') ops []) = hits demo_thread"
proof -
  have "files demo_module 0 = Some demo_session" "rd_find_thread_by_index demo_session 0 = Some demo_thread" "copy_to_user_ok demo_env"
    by (simp_all add: demo_module_def demo_session_def rd_find_thread_by_index_def demo_env_def)
  moreover have "unat (target_count demo_session) = length (c_targets demo_ctl2)"
    using demo_thread_fields by (simp add: demo_ctl2_def demo_target_list_def)
  moreover have "cv_can_create demo_cv p" for p by (simp add: demo_cv_def)
  ultimately show ?thesis using histogram_file_sums_to_hits [OF demo_reachable] by blast
qed

text \<open>The files of a thread are named by its thread id alone, and the module keeps one entry per registration:
  when an id comes back (a thread registers again, or the system reuses the id of a thread that
  ended), the file of the later entry replaces that of the earlier one, whatever was in it.\<close>

theorem reused_tid_replaces_file:
  assumes "st_tid later = st_tid earlier" "write_thread_histograms io cv c later ti d = (None, ops, d')"
  shows "out_text (thread_path c earlier ''.hist.log2.txt'') (before @ ops) old =
    out_text (thread_path c earlier ''.hist.log2.txt'') ops []"
proof -
  let ?p = "thread_path c earlier ''.hist.log2.txt''"
  have p: "thread_path c later ''.hist.log2.txt'' = ?p" using assms(1) by (simp add: thread_path_def)
  from assms(2) obtain rest where "ops = FCreate ?p # rest"
    by (auto simp: write_thread_histograms_def p Let_def open_file_def split: if_splits prod.splits option.splits)
  then show ?thesis by (simp add: out_text_append)
qed

theorem reused_tid_replaces_file_witness:
  "\<exists>ops. out_text (thread_path demo_ctl2 (zero_stats 0) ''.hist.log2.txt'')
     ([FPut (thread_path demo_ctl2 (zero_stats 0) ''.hist.log2.txt'') ''lost''] @ ops) [] =
   out_text (thread_path demo_ctl2 (zero_stats 0) ''.hist.log2.txt'') ops []"
proof -
  let ?io = "\<lambda>d cmd. (RetOk, NoReply, d :: unit)"
  let ?ops = "fst (snd (write_thread_histograms ?io demo_cv demo_ctl2 (zero_stats 1) 1 ()))"
  have "cv_can_create demo_cv p" for p by (simp add: demo_cv_def)
  then have w: "write_thread_histograms ?io demo_cv demo_ctl2 (zero_stats 1) 1 () = (None, ?ops, ())"
    by (simp add: write_thread_histograms_def Let_def open_file_def emit_def query_def demo_ctl2_def demo_target_list_def)
  have t: "st_tid (zero_stats 1) = st_tid (zero_stats 0)" by (simp add: zero_stats_def)
  show ?thesis by (rule exI [of _ ?ops], rule reused_tid_replaces_file [OF t w])
qed

subsection \<open>Settings\<close>

text \<open>The module accepts every configuration that passes the constructor's checks and whose numbers are
  not zero after their conversion to the width of the module's fields.\<close>

theorem checked_settings_accepted:
  assumes "read_settings cv (initial_controller cv nm pin) = Inr c" "\<not> configured se" "\<not> targets_loaded se"
    and "c_watchpoint_capacity c \<noteq> 0" "c_bp_sample_period c \<noteq> 0" "c_dwarf_event_capacity c \<noteq> 0"
  shows "fst (rd_session_config_locked se (session_cfg c)) = RetOk"
  using read_settings_fresh(6-8) [OF assms(1)] assms(2-6)
  by (auto simp: rd_session_config_locked_def session_cfg_def callchain_modes)

theorem checked_settings_accepted_witness: "fst (rd_session_config_locked zero_session (session_cfg demo_ctl)) = RetOk"
  by (rule checked_settings_accepted [OF demo_settings])
     (simp_all add: zero_session_def demo_ctl_def initial_controller_def DEFAULT_DWARF_EVENT_CAPACITY_def)

text \<open>The condition is needed: the constructor tests a capacity before it narrows it, so a capacity of
  2^32 passes the test, becomes zero, and the module refuses the session.\<close>

theorem capacity_checked_before_narrowing:
  "\<exists>cv c. cv_getenv cv ''RD_WP_CAPACITY'' = Some ''4294967296'' \<and> read_settings cv (initial_controller cv nm pin) = Inr c \<and>
     fst (rd_session_config_locked zero_session (session_cfg c)) = RetErr EINVAL"
proof -
  let ?cv = "demo_cv\<lparr>cv_getenv := (\<lambda>v. if v = ''RD_TARGET_FILE'' then Some ''app.hotpc''
    else if v = ''RD_WP_CAPACITY'' then Some ''4294967296'' else None)\<rparr>"
  have n: "fst (strtoll 10 ''4294967296'') = 4294967296"
    by (simp add: strtoll_def strto_def strip_sign_def hex_prefixed_def isspace_def is_digit_def digit_val_def)
  have v: "env_value ?cv ''RD_TARGET_FILE'' = Some ''app.hotpc''" "env_value ?cv ''RD_WP_CAPACITY'' = Some ''4294967296''"
    "env_value ?cv ''RD_BP_CAPACITY'' = None" "env_value ?cv ''RD_BP_SAMPLE_PERIOD'' = None"
    "env_value ?cv ''RD_RD_EVENT'' = None" "env_value ?cv ''RD_CALLCHAIN_MODE'' = None"
    "env_value ?cv ''RD_DWARF_STACK_BYTES'' = None" "env_value ?cv ''RD_DWARF_EVENT_CAPACITY'' = None"
    by (simp_all add: env_value_def)
  have x: "read_self_exe_path ?cv = ''/bin/app''"
    by (simp add: read_self_exe_path_def normalize_filesystem_path_def demo_cv_def demo_os_def)
  have "\<exists>c. read_settings ?cv (initial_controller ?cv nm pin) = Inr c \<and> c_watchpoint_capacity c = 0"
    by (simp add: read_settings_def setting_def env_positive_def v n x read_event_name_def env_callchain_mode_def
        env_dwarf_stack_def number_or_def Let_def) (simp add: initial_controller_def)
  then obtain c where c: "read_settings ?cv (initial_controller ?cv nm pin) = Inr c" "c_watchpoint_capacity c = 0" by blast
  have "fst (rd_session_config_locked zero_session (session_cfg c)) = RetErr EINVAL"
    using c(2) by (simp add: rd_session_config_locked_def session_cfg_def zero_session_def)
  with c(1) show ?thesis by (intro exI [of _ ?cv] exI [of _ c]) simp
qed

end
