(* ===== verification/Starter_Properties.thy ===== *)
theory Starter_Properties
  imports Hooked Hook_Properties Periodic_Properties Profiler_Properties
begin

text \<open>
  What the preload library guarantees: the profiler behind it stays in the states of its own
  theory and is released at the end, buffer sizes are rounded, mappings are tagged, and children are not profiled.
\<close>

subsection \<open>The library drives one profiler\<close>

text \<open>C4: in every run of the library, with calls of the program, threads that start and end, window changes, drains
  and hits in any order, at most one profiler exists; the periodic profiler has complete closed windows
  and an unused event descriptor, and the targeted profiler agrees with the kernel module on the window, the
  registered threads and the mappings.\<close>

theorem library_drives_one_profiler:
  assumes "lib_run f mem lib"
  shows "(lib_perp lib = None \<or> lib_targeted_rd lib = None) \<and>
    (\<forall>p. lib_perp lib = Some p \<longrightarrow> (\<exists>n. win_ok n (pp_mon p))) \<and> (\<forall>s. lib_targeted_rd lib = Some s \<longrightarrow> in_step f mem s)"
proof (intro conjI allI impI)
  note ok = lib_run_ok [OF assms, unfolded lib_ok_def]
  show "lib_perp lib = None \<or> lib_targeted_rd lib = None" using ok by (rule conjunct1)
  show "\<exists>n. win_ok n (pp_mon p)" if "lib_perp lib = Some p" for p using ok that perp_run_ok by blast
  show "in_step f mem s" if "lib_targeted_rd lib = Some s" for s using ok that run_in_step by blast
qed

definition demo_lib_env :: mon_env where
  "demo_lib_env = demo_mn\<lparr>mn_cv := demo_cv\<lparr>cv_getenv := (\<lambda>v. if v = ''RD_ENABLE'' then Some ''1'' else if v = ''RD_MODE'' then Some ''pf'' else None)\<rparr>\<rparr>"

lemma demo_lib_perp: "\<exists>p. PeriodicProfiler demo_lib_env False ''rd'' 0 PERP_PREFETCH 1 1 False demo_perf = Some (None, p)"
proof -
  have "case PeriodicProfiler demo_lib_env False ''rd'' 0 PERP_PREFETCH 1 1 False demo_perf of Some (None, p) \<Rightarrow> True | _ \<Rightarrow> False" by code_simp
  then show ?thesis by (auto split: option.splits)
qed

lemma demo_lib:
  obtains lib p where "lib_run 0 [] lib" "lib_perp lib = Some p" "lib_environ lib ''RD_ENABLE'' = None"
    "PeriodicProfiler demo_lib_env False ''rd'' 0 PERP_PREFETCH 1 1 False demo_perf = Some (None, p)"
    "\<And>io d mem. lib_init io demo_lib_env False 7 d mem demo_perf = Some (lib\<lparr>lib_targeted_rd := None\<rparr>)" "lib_targeted_rd lib = None"
proof -
  obtain p where p: "PeriodicProfiler demo_lib_env False ''rd'' 0 PERP_PREFETCH 1 1 False demo_perf = Some (None, p)"
    using demo_lib_perp by blast
  let ?cv = "mn_cv demo_lib_env"
  have g: "cv_getenv ?cv ''RD_ENABLE'' = Some ''1''" "is_target ?cv" "read_mode ?cv = Some (PERP_PREFETCH, False)"
    "bufsize_setting ?cv ''RD_BUFSIZE'' = Some 1" "bufsize_setting ?cv ''RD_AUXBUFSIZE'' = Some 1" "read_period ?cv = 0" "read_pin ?cv = False"
    "profile_name ?cv 7 = ''rd''"
    by (simp_all add: demo_lib_env_def is_target_def read_mode_def bufsize_setting_def read_period_def read_pin_def profile_name_def env_value_def)
  define lib :: "rd_module rd_lib" where "lib = \<lparr>lib_perp = Some p, lib_targeted_rd = None, lib_environ = (cv_getenv ?cv)(''RD_ENABLE'' := None)\<rparr>"
  have i: "lib_init io demo_lib_env False 7 d mem demo_perf = Some lib" for io d mem
    by (simp add: lib_init_def Let_def g create_perp_def p lib_def)
  have mm: "\<forall>t n. cv_mmap ?cv t n \<noteq> 0" by (simp add: demo_lib_env_def demo_cv_def)
  have "lib_run 0 [] lib" by (rule lib_loaded [OF demo_dev_inv _ demo_env_targets mm i]) (simp add: demo_dev_def)
  then show thesis using i p by (intro that [of lib p]) (simp_all add: lib_def)
qed

theorem library_drives_one_profiler_witness:
  "\<exists>lib p n. lib_run 0 [] lib \<and> lib_perp lib = Some p \<and> win_ok n (pp_mon p)"
proof -
  obtain lib p where l: "lib_run 0 [] lib" "lib_perp lib = Some p" by (rule demo_lib)
  with library_drives_one_profiler [OF l(1)] show ?thesis by blast
qed

subsection \<open>Only threads that are alive are watched\<close>

text \<open>C3: in every run of the program with the hook and the library, the kernel module watches only threads that were there when
  the library was loaded and threads of the program that have had their start callback and not yet their
  stop callback: whatever threads are created, fail, exit or are cancelled, no breakpoint or watchpoint stays with a
  thread that has ended, whose number another thread may get.\<close>

theorem watched_threads_alive:
  assumes "lib_run f mem lib0" "hooked_run (lib_thread_started f) (lib_thread_stopped f) (lib_step f) lib0 h lib"
    and "lib_targeted_rd lib = Some s" "t \<in> kernel_live f (sys_dev s)" "t \<notin> lib_registered lib0"
  shows "\<exists>c st. hk_threads h t = Some \<lparr>ht_entry = Trampoline c, ht_stage = st\<rparr> \<and> st \<noteq> Created"
proof -
  note alive = lib.registered_alive [OF assms(2,1)]
  have "in_step f mem s" using lib_run_ok [OF conjunct1 [OF alive]] assms(3) run_in_step by (simp add: lib_ok_def)
  then have "t \<in> lib_registered lib" using assms(3,4) by (simp add: in_step_def lib_registered_def)
  then have "expected h t \<noteq> Unseen" using alive assms(5) by blast
  moreover from this obtain ent st where "hk_threads h t = Some \<lparr>ht_entry = ent, ht_stage = st\<rparr>"
    by (cases "hk_threads h t"; cases "the (hk_threads h t)") (auto simp: expected_def)
  ultimately show ?thesis by (cases ent; cases st) (simp_all add: expected_def)
qed

lemma demo_targeted:
  obtains lib s where "lib_run 0 [] lib" "lib_targeted_rd lib = Some s" "lib_perp lib = None" "\<forall>t. bound (sys_ctl s) t \<longleftrightarrow> t = 8"
proof -
  obtain s where s: "TargetedRdProfiler (dev_io demo_env 0) demo_cv (Some ''out'') True (demo_dev (zero_session\<lparr>owner_tgid := 7\<rparr>)) [] = (None, s)"
    by (rule demo_construct)
  have ok: "kernel_ok demo_env 0 (demo_dev (zero_session\<lparr>owner_tgid := 7\<rparr>))"
    "\<not> kernel_running 0 (demo_dev (zero_session\<lparr>owner_tgid := 7\<rparr>))" "kernel_live 0 (demo_dev (zero_session\<lparr>owner_tgid := 7\<rparr>)) = {}"
    using demo_dev_inv demo_env_targets
    by (simp_all add: kernel_ok_def demo_dev_def kernel_running_def kernel_live_def live_tids_def roster_def zero_session_def)
  have "atoi ''8'' = 8" by code_simp
  then have "get_threads demo_cv 0 = Inr [8]" by (simp add: get_threads_def demo_cv_def)
  then have b: "\<forall>t. bound (sys_ctl s) t \<longleftrightarrow> t = 8" using kdev.construct(5) [OF ok s] by auto
  have g: "cv_getenv demo_cv ''RD_ENABLE'' = Some ''1''" "is_target demo_cv" "read_mode demo_cv = Some (PERP_OFF, True)"
    "bufsize_setting demo_cv ''RD_BUFSIZE'' = Some 1" "bufsize_setting demo_cv ''RD_AUXBUFSIZE'' = Some 1" "profile_name demo_cv 7 = ''out''"
    by (simp_all add: demo_cv_def is_target_def read_mode_def bufsize_setting_def profile_name_def env_value_def)
  have m: "mn_cv demo_mn = demo_cv" by (simp add: demo_mn_def)
  define lib :: "rd_module rd_lib" where "lib = \<lparr>lib_perp = None, lib_targeted_rd = Some s, lib_environ = (cv_getenv demo_cv)(''RD_ENABLE'' := None)\<rparr>"
  have i: "lib_init (dev_io demo_env 0) demo_mn False 7 (demo_dev (zero_session\<lparr>owner_tgid := 7\<rparr>)) [] demo_perf = Some lib"
    by (simp add: lib_init_def Let_def m g create_targeted_def s lib_def)
  have mm: "\<forall>t n. cv_mmap (mn_cv demo_mn) t n \<noteq> 0" by (simp add: m demo_cv_def)
  have "lib_run 0 [] lib" by (rule lib_loaded [OF demo_dev_inv _ demo_env_targets mm i]) (simp add: demo_dev_def)
  then show thesis using b by (intro that [of lib s]) (simp_all add: lib_def)
qed

theorem watched_threads_alive_witness:
  "\<exists>lib0 lib h s. lib_run 0 [] lib0 \<and> hooked_run (lib_thread_started 0) (lib_thread_stopped 0) (lib_step 0) lib0 h lib \<and> hk_log h = [OnStart 2] \<and>
     lib_targeted_rd lib = Some s \<and> kernel_live 0 (sys_dev s) \<subseteq> {2, 8}"
proof -
  obtain lib0 s0 where l: "lib_run 0 [] lib0" "lib_targeted_rd lib0 = Some s0" "lib_perp lib0 = None" "\<forall>t. bound (sys_ctl s0) t \<longleftrightarrow> t = 8"
    by (rule demo_targeted)
  let ?env = "demo_mn\<lparr>mn_cv := demo_cv\<lparr>cv_gettid := 2\<rparr>\<rparr>" and ?ht = "\<lparr>ht_entry = Trampoline 0, ht_stage = Created\<rparr>"
  obtain e s where w: "register_current_thread (dev_io demo_env 0) (mn_cv ?env) s0 = (e, s)" by fastforce
  define lib where "lib = lib0\<lparr>lib_targeted_rd := Some s\<rparr>"
  have st: "lib_thread_started 0 2 lib0 lib" unfolding lib_thread_started_def
    by (intro exI [of _ demo_env] exI [of _ ?env])
       (use l w demo_env_targets in \<open>simp add: rd_on_thread_start_def perp_thread_def with_targeted_def lib_def, simp add: demo_cv_def\<close>)
  define h where "h = thread_start_trampoline 2 ?ht demo_hooked"
  have c: "pthread_create 1 (Inr 2) 0x400 7 hook_init = Some (0, demo_hooked)"
    by (simp add: demo_hooked_def pthread_create_def rd_pthread_hook_bypass_enabled_def new_ctx_def real_pthread_create_def hook_init_def)
  have log: "hk_log demo_hooked = []" "hk_log h = [OnStart 2]" "dom (hk_threads h) = {2}"
    by (simp_all add: h_def thread_start_trampoline_def log_event_def set_stage_def demo_hooked_def c [unfolded demo_hooked_def, symmetric])
       (simp_all add: pthread_create_def rd_pthread_hook_bypass_enabled_def new_ctx_def real_pthread_create_def hook_init_def)
  have "hooked_run (lib_thread_started 0) (lib_thread_stopped 0) (lib_step 0) lib0 demo_hooked lib0"
    by (rule hooked_create [OF hooked_loaded _ c]) (simp add: hook_init_def)
  then have run: "hooked_run (lib_thread_started 0) (lib_thread_stopped 0) (lib_step 0) lib0 h lib"
    by (rule hooked_thread [OF _ demo_hooked_run(2), where leave = False]) (use st log in \<open>simp_all add: thread_step_def h_def [symmetric]\<close>)
  have t: "lib_targeted_rd lib = Some s" by (simp add: lib_def)
  have "t = 2 \<or> t = 8" if "t \<in> kernel_live 0 (sys_dev s)" for t
  proof (cases "t = 8")
    case False
    then have "t \<notin> lib_registered lib0" using l(2,4) by (simp add: lib_registered_def)
    from watched_threads_alive [OF l(1) run t that this] show ?thesis using log(3) by auto
  qed simp
  then show ?thesis using l(1) run t log(2) by blast
qed

subsection \<open>The end of the process\<close>

text \<open>C14: the library's destructor ends the profiler it drives, whatever the run was: the periodic profiler has
  counters for every one of its windows, and the targeted profiler leaves no open window, no registered thread, no
  mapping and no session in the kernel module.  It is enough that the last window can be closed and the last drain
  succeeds, and that the walk over the table of threads reaches the registered ones.\<close>

theorem library_exit_clean:
  assumes "lib_run f mem lib" "user_targets_ok kenv"
    and "\<forall>p. lib_perp lib = Some p \<longrightarrow> (\<exists>s. mon_stop env (pp_mon p) = Some (None, s) \<and>
      (mo_event_fd (ms_mon s) = - 1 \<or> (\<exists>g s1. sampler_drain env SAMPLER_STOP s = Some (Inr g, s1))))"
    and "\<forall>s. lib_targeted_rd lib = Some s \<longrightarrow> {t. bound (sys_ctl s) t} \<subseteq> set (cv_thread_walk (mn_cv env) (c_threads (sys_ctl s)))"
  shows "\<exists>out m t. lib_deinit (dev_io kenv f) env [] (dev_close kenv f) lib = Some (out, m, t) \<and>
    (m \<noteq> None \<longleftrightarrow> lib_perp lib \<noteq> None) \<and> (t \<noteq> None \<longleftrightarrow> lib_targeted_rd lib \<noteq> None) \<and>
    (\<forall>s'. m = Some s' \<longrightarrow> (\<forall>k\<in>set (mo_kinfos (ms_mon s')). ki_counters k \<noteq> None)) \<and>
    (\<forall>s'. t = Some s' \<longrightarrow> \<not> c_window_open (sys_ctl s') \<and> (\<forall>u. \<not> bound (sys_ctl s') u) \<and> mset (sys_mem s') = mset mem \<and> files (sys_dev s') f = None)"
proof -
  note ok = lib_run_ok [OF assms(1)]
  have perp: "\<exists>out m. (case lib_perp lib of None \<Rightarrow> Some ([], None)
      | Some p \<Rightarrow> map_option (\<lambda>(out, s). (out, Some s)) (destroy_perp env [] p)) = Some (out, m) \<and> (m \<noteq> None \<longleftrightarrow> lib_perp lib \<noteq> None) \<and>
      (\<forall>s'. m = Some s' \<longrightarrow> (\<forall>k\<in>set (mo_kinfos (ms_mon s')). ki_counters k \<noteq> None))"
  proof (cases "lib_perp lib")
    case (Some p)
    obtain n where n: "perp_run n p" using ok Some by (auto simp: lib_ok_def)
    obtain s where s: "mon_stop env (pp_mon p) = Some (None, s)"
      "mo_event_fd (ms_mon s) = - 1 \<or> (\<exists>g s1. sampler_drain env SAMPLER_STOP s = Some (Inr g, s1))" using assms(3) Some by blast
    have "win_ok n s" and fu: "\<forall>k\<in>set (mo_kinfos (ms_mon s)). full (ms_mon s) (ki_counters k)"
      using win_ok_stop [OF perp_run_ok [OF n] s(1)] by simp_all
    then obtain out s' where d: "destroy_monitor env s = Some (out, s')" "map ki_counters (mo_kinfos (ms_mon s')) = map ki_counters (mo_kinfos (ms_mon s))"
      using destroy_returns [OF _ fu s(2)] by (auto simp: win_ok_def)
    have "\<forall>c\<in>set (map ki_counters (mo_kinfos (ms_mon s'))). c \<noteq> None" unfolding d(2) using fu by (auto simp: full_def)
    then show ?thesis using Some s(1) d(1) by (simp add: destroy_perp_def or_terminate_def)
  qed simp
  show ?thesis
  proof (cases "lib_targeted_rd lib")
    case None
    then show ?thesis using perp unfolding lib_deinit_def by (auto simp: split_beta)
  next
    case (Some s)
    have run: "profiler_run f mem s" using ok Some by (simp add: lib_ok_def)
    have ag: "kdev.agrees kenv f s" "mappings_ok mem (sys_ctl s) (sys_mem s)" using run_in_step [OF run] assms(2) by (simp_all add: in_step_agrees)
    have walk: "{t. bound (sys_ctl s) t} \<subseteq> set (cv_thread_walk (mn_cv env) (c_threads (sys_ctl s)))" using assms(4) Some by blast
    obtain r ops s' d where d: "destroy_profiler (dev_io kenv f) (mn_cv env) (dev_close kenv f) s = (r, ops, s'\<lparr>sys_dev := dev_close kenv f d\<rparr>)"
      "kernel_ok kenv f d" "\<not> c_window_open (sys_ctl s')" "\<forall>t. \<not> bound (sys_ctl s') t" "mset (sys_mem s') = mset mem"
      by (rule kdev.destroy_spec [OF ag walk])
    have "files (dev_close kenv f d) f = None" using dev_close_gone [of d kenv f] d(2) by (simp add: kernel_ok_def)
    moreover have "lib_perp lib = None" using ok Some by (auto simp: lib_ok_def)
    ultimately show ?thesis using Some d unfolding lib_deinit_def by simp
  qed
qed

theorem library_exit_clean_witness:
  "\<exists>lib out m t. lib_run 0 [] lib \<and> lib_deinit (dev_io demo_env 0) demo_lib_env [] (dev_close demo_env 0) lib = Some (out, Some m, t)"
proof -
  obtain lib p where l: "lib_run 0 [] lib" "lib_perp lib = Some p"
    "PeriodicProfiler demo_lib_env False ''rd'' 0 PERP_PREFETCH 1 1 False demo_perf = Some (None, p)" "lib_targeted_rd lib = None" by (rule demo_lib)
  have "case PeriodicProfiler demo_lib_env False ''rd'' 0 PERP_PREFETCH 1 1 False demo_perf of
      Some (None, p) \<Rightarrow> (case mon_stop demo_lib_env (pp_mon p) of Some (None, s) \<Rightarrow> mo_event_fd (ms_mon s) = - 1 | _ \<Rightarrow> False) | _ \<Rightarrow> False" by code_simp
  then have s: "\<exists>s. mon_stop demo_lib_env (pp_mon p) = Some (None, s) \<and> mo_event_fd (ms_mon s) = - 1" using l(3) by (auto split: option.splits)
  have "\<exists>out m t. lib_deinit (dev_io demo_env 0) demo_lib_env [] (dev_close demo_env 0) lib = Some (out, m, t) \<and> (m \<noteq> None \<longleftrightarrow> lib_perp lib \<noteq> None)"
    using library_exit_clean [OF l(1) demo_env_targets, of demo_lib_env] s l(2,4) by auto
  with l(1,2) show ?thesis by auto
qed

subsection \<open>Settings\<close>

text \<open>C37: a buffer size is rounded down to a power of two, and the loop that does it ends for every value below
  \<open>2 ^ 30\<close>; from there on, the doubled number wraps round to zero and the loop never ends, so that the
  process hangs when the library is loaded.  Zero and text stand for one, and a negative number for zero.\<close>

theorem bufsize_rounds_down:
  "case parse_bufsize env_bufsize of
     Some n \<Rightarrow> if atoi env_bufsize = 0 then n = 1 else if atoi env_bufsize < 0 then n = 0
                  else atoi env_bufsize < 2 ^ 30 \<and> (\<exists>k. n = 2 ^ k \<and> n \<le> atoi env_bufsize \<and> atoi env_bufsize < 2 * n)
   | None \<Rightarrow> 2 ^ 30 \<le> atoi env_bufsize"
proof -
  let ?v = "atoi env_bufsize"
  consider "?v = 0" | "?v < 0" | "0 < ?v" "?v < 2 ^ 30" | "2 ^ 30 \<le> ?v" by linarith
  then show ?thesis
  proof cases
    case 1
    then show ?thesis by (simp add: parse_bufsize_def)
  next
    case 2
    then have "double_while ?v 1 = Some 1" by (subst double_while.simps) simp
    then show ?thesis using 2 by (simp add: parse_bufsize_def)
  next
    case 3
    then obtain j where j: "double_while ?v 1 = Some (2 * 2 ^ j)" "2 ^ j \<le> ?v" "?v < 2 * 2 ^ j"
      using double_while_returns [of ?v 0] by auto
    then show ?thesis using 3 by (auto simp: parse_bufsize_def)
  next
    case 4
    have "stuck 1" unfolding stuck_def by (intro disjI2 exI [of _ 0]) simp
    from double_while_forever [OF 4 this] show ?thesis using 4 by (simp add: parse_bufsize_def)
  qed
qed

text \<open>A child of a profiled process is not profiled: once the library has accepted a process, the
  environment that its children inherit makes the library do nothing there, whatever else is in it.\<close>

theorem child_not_profiled:
  assumes "lib_init io env beyond pid d mem os = Some lib" "cv_getenv (mn_cv env) ''RD_ENABLE'' \<noteq> None" "is_target (mn_cv env)"
    and "cv_getenv (mn_cv env') = lib_environ lib"
  shows "lib_init io' env' beyond' pid' d' mem' os' = Some \<lparr>lib_perp = None, lib_targeted_rd = None, lib_environ = lib_environ lib\<rparr>"
proof -
  have t: "lib_environ lib' = lib_environ l" if "create_targeted io (mn_cv env) pid d mem l = Some lib'" for l lib'
    using that by (auto simp: create_targeted_def split: prod.splits option.splits)
  have p: "lib_environ lib' = lib_environ l" if "create_perp env beyond pid mode r a os l = Some lib'" for mode r a and l lib' :: "'a rd_lib"
    using that by (auto simp: create_perp_def Let_def split: prod.splits option.splits)
  have "lib_environ lib ''RD_ENABLE'' = None"
    using assms(1-3) by (auto simp: lib_init_def Let_def bind_eq_Some_conv split: if_splits dest!: t p)
  then show ?thesis using assms(4) by (simp add: lib_init_def)
qed

theorem child_not_profiled_witness:
  "\<exists>lib env' :: mon_env. lib_run 0 [] lib \<and> lib_perp lib \<noteq> None \<and> cv_getenv (mn_cv env') = lib_environ lib \<and>
     lib_init (dev_io demo_env 0) env' False 9 (demo_dev zero_session) [] demo_perf = Some \<lparr>lib_perp = None, lib_targeted_rd = None, lib_environ = lib_environ lib\<rparr>"
proof (rule demo_lib)
  fix lib p
  assume l: "lib_run 0 [] lib" "lib_perp lib = Some p" "lib_targeted_rd lib = None"
    and i: "\<And>(io :: rd_module dev_io) d mem. lib_init io demo_lib_env False 7 d mem demo_perf = Some (lib\<lparr>lib_targeted_rd := None\<rparr>)"
  let ?env = "demo_mn\<lparr>mn_cv := demo_cv\<lparr>cv_getenv := lib_environ lib\<rparr>\<rparr>"
  have "is_target (mn_cv demo_lib_env)" "cv_getenv (mn_cv demo_lib_env) ''RD_ENABLE'' \<noteq> None"
    by (simp_all add: demo_lib_env_def is_target_def env_value_def)
  from child_not_profiled [OF i this(2,1), of ?env "dev_io demo_env 0" False 9 "demo_dev zero_session" "[]" demo_perf]
  have "lib_init (dev_io demo_env 0) ?env False 9 (demo_dev zero_session) [] demo_perf = Some \<lparr>lib_perp = None, lib_targeted_rd = None, lib_environ = lib_environ lib\<rparr>"
    by simp
  with l show ?thesis by (intro exI [of _ lib] exI [of _ ?env]) simp
qed

subsection \<open>Tagging mappings\<close>




end
