(* ===== verification/Spec2Isabelle.thy ===== *)
theory Spec2Isabelle
  imports Kernel_Properties User_Properties Sampling_Properties Starter_Properties
begin

text \<open>
  Verification of RD_SPE_TOOL, a profiler that measures reuse distances of hot memory accesses
  on arm64.

  \<^bold>\<open>The program.\<close> The tool runs in two phases. A sampling run finds hot load and store
  instructions and writes them to a manifest (\<^verbatim>\<open>.hotpc\<close>). A second run, the
  \<^emph>\<open>targeted\<close> one, reads the manifest, disassembles each hot instruction to learn how
  it computes its address, and hands the result to a kernel module. The module puts an execute
  breakpoint on each hot instruction of each thread; when one is hit it computes the address of the
  access, puts a data watchpoint there and remembers the value of a memory-access counter; the next
  access to the address hits the watchpoint, and the difference of the counter is the reuse
  distance, which goes into a log2 histogram. At the end user space queries the module and writes
  the histograms to files.

  \<^bold>\<open>Kernel module\<close> (\<^verbatim>\<open>src/kernel/rd_wpctl.c\<close>, with the ABI of
  \<^verbatim>\<open>src/include/uapi/rd_wpctl_ioctl.h\<close>). One theory per group of functions, in the
  order of the source:
    \<^item> \<open>Uapi\<close>: the structures, constants and commands of the ioctl interface;
    \<^item> \<open>Seed_Address\<close>: register access, effective address, random numbers, log2 bucket;
    \<^item> \<open>Thread_State\<close>: \<^verbatim>\<open>struct rd_thread_ctx\<close>, \<^verbatim>\<open>struct rd_session\<close>, the
      perf event attributes, and \<open>kenv\<close>, the record of the kernel services the module calls;
    \<^item> \<open>Callchain\<close>: frame-pointer unwinding and user stack snapshots;
    \<^item> \<open>Tables\<close>: the tables of call contexts and of use-reuse pairs;
    \<^item> \<open>Slots\<close>: the watchpoint slots of a thread and the choice of a slot;
    \<^item> \<open>Hits\<close>: the handlers of breakpoint and watchpoint hits;
    \<^item> \<open>Session\<close>: event creation, detaching, registration, configuration, loading;
    \<^item> \<open>Device\<close>: the queries, the ioctl dispatcher, open, release, the two probes, module
      init and exit, over the module state \<open>rd_module\<close> (the open files and the live list);
    \<^item> \<open>Live_Refs\<close>: the protocol of the list of live threads, the reference count and the
      completion, as a step relation over any number of concurrent handlers.
  A pointer is an option, an array a list inside an option; a function that could read or write
  outside an array, follow a null pointer, shift too far or wait for a completion that cannot come
  has the value \<open>None\<close> there. Counters are words of their width.

  \<^bold>\<open>Controller\<close> (\<^verbatim>\<open>src/src/targeted_rd.cc\<close>,
  \<^verbatim>\<open>src/include/targeted_rd.hh\<close>, \<^verbatim>\<open>src/src/threads.cc\<close>):
    \<^item> \<open>Text_Utils\<close>: the string helpers, and the C library functions they call;
    \<^item> \<open>Decode\<close>: from an operand as objdump prints it to an address template;
    \<^item> \<open>Targets\<close>: objdump, the process maps, the manifest, ranking and selection;
    \<^item> \<open>Controller\<close>: settings, configuration, windows, CPU allocation, registration of
      threads, the constructor; \<open>ctl_env\<close> holds the system calls it makes, \<open>rd_sys\<close> the
      controller with the device behind its file descriptor and the process's mappings;
    \<^item> \<open>Report\<close>: the writers of the result files and the destructor.

  \<^bold>\<open>Sampling monitor\<close> (\<^verbatim>\<open>src/src/monitor.cc\<close>, \<^verbatim>\<open>src/include/monitor.hh\<close>,
  \<^verbatim>\<open>src/src/clock.cc\<close>), which finds the hot instructions from SPE samples:
    \<^item> \<open>Std_Sort\<close>: \<^verbatim>\<open>std::sort\<close> by a strict order, and the locale \<open>sort_by_key\<close> of what a
      caller gets from it, interpreted on both rankings; \<open>Doubles\<close>: rounding of IEEE doubles;
    \<^item> \<open>Monitor_State\<close>: samples, hotspots, windows, threads, samplers, the class
      \<^verbatim>\<open>Monitor\<close>, and the perf objects it sees, with \<open>mon_sys\<close> for all of them together;
    \<^item> \<open>Hotspots\<close>: module maps, attribution of a sample, Pareto selection;
    \<^item> \<open>Spe\<close>: the decoder of SPE packets and the drain of a ring and its AUX area;
    \<^item> \<open>Monitor\<close>: perf resources of a thread, registration, windows, counters, the sampler thread,
      construction; \<open>Monitor_Report\<close>: the manifest, the information file, the destructor.

  \<^bold>\<open>Library\<close>, which is loaded into the profiled process:
    \<^item> \<open>Periodic\<close> (\<^verbatim>\<open>src/src/periodic_profiler.cc\<close>): the profiler that cuts a sampling run into windows;
    \<^item> \<open>Starter\<close> (\<^verbatim>\<open>src/src/starter.cc\<close>): settings, creation and destruction of the one profiler,
      the public functions and the thread callbacks, on \<open>rd_lib\<close>;
    \<^item> \<open>Hook\<close> (\<^verbatim>\<open>src/src/pthread_hook.cc\<close>): the interposed \<^verbatim>\<open>pthread_create\<close>, with the contexts of
      the wrapped threads as objects of a heap.

  \<^bold>\<open>What is shown.\<close>
    \<^item> \<open>Hit_Safety\<close>, \<open>Lifecycle\<close>, \<open>Device_Safety\<close>, \<open>Module_Safety\<close>: each operation
      preserves the invariant of a thread, a session and the module and has a value; hence no
      reachable state of the module has a faulting operation. \<open>Views\<close> and
      \<open>Hit_Effects\<close> give the effect of a hit on the results.
    \<^item> \<open>Kernel_Properties\<close>: accounting, the live list, what a hit does, the address, the
      buckets, the contexts. \<open>Kernel_Resources\<close>: registration, release, reset, windows,
      queries, snapshots, and the safety and termination of the live-thread protocol.
    \<^item> \<open>Decode_Correct\<close>, \<open>User_Properties\<close>: a printed operand decodes to the address
      the architecture gives it, through the module's check; the manifest is aggregated, ranked and
      selected as documented; quoting and relocation.
    \<^item> \<open>Controller_Correct\<close> and \<open>Report_Correct\<close>: the locale \<open>rd_device\<close> states
      what the controller relies on of the device; its lemmas are the controller's invariant, its
      agreement with the device and the destructor. \<open>Kernel_Device\<close> interprets the locale on
      the module's own ioctl dispatcher, so \<open>Profiler_Properties\<close> holds of the two together, in
      every run of \<open>Profiler\<close>, where probes and other processes act in between.
    \<^item> \<open>Spe_Correct\<close> and \<open>Ring_Correct\<close>: the drain of a ring refines a decoder of packet lists, and
      it ends; \<open>Hotspots_Correct\<close> and \<open>Manifest\<close>: the tables hold what the samples say, and the manifest
      that is written is the manifest that the targeted run reads. \<open>Sampling_Properties\<close> states these, up to
      the address of a sampled instruction in the second run.
    \<^item> \<open>Monitor_Slots\<close>: the locale \<open>drain_frame\<close> says what draining does not change of a view of
      the monitor; it is interpreted on the slot table, the descriptors and the windows. \<open>Monitor_Properties\<close>: the
      slot table in every reachable state, the sums of the windows, threads that exit, and three errors.
    \<^item> \<open>Periodic_Correct\<close>, \<open>Periodic_Properties\<close>: runs of the periodic profiler keep complete windows and end
      with the information file.
    \<^item> \<open>Starter_Correct\<close>, \<open>Starter_Properties\<close>: runs of the library are runs of the profiler behind
      it, and its destructor releases that profiler; sizes, children and tags.
    \<^item> \<open>Hooked\<close>: the hook with a client behind its callbacks, the locale \<open>thread_client\<close> of what it relies
      on, and the library as such a client, so that the module watches only threads that are alive.
    \<^item> \<open>Hook_Properties\<close>: contexts are used and deleted once, callbacks are paired, guarded threads are not hooked.
    \<^item> \<open>Kernel_Demo\<close>, \<open>User_Demo\<close>, \<open>Profiler_Demo\<close> and \<open>Sampling_Demo\<close> hold concrete states on which
      the theorems are applied.

  \<^bold>\<open>Bounds.\<close> No definition uses fuel. Loops over tables and arrays are structural recursions
  over index lists whose length is the loop bound of the source; the unwinder stops after the
  eight frames of the ABI; the live-thread protocol is a relation, and that its waits end is a
  theorem. The loops over ring records, over SPE packets and over buffer sizes may run for ever in the source;
  they are partial functions whose value is \<open>None\<close> then, and the theorems say when they have one.

  \<^bold>\<open>Assumptions.\<close> Kernel services (perf events, user memory, register access, allocation),
  system calls, libpfm, objdump and the file system are parameters: fields of \<open>kenv\<close>,
  \<open>os_env\<close>, \<open>ctl_env\<close> and \<open>mon_env\<close> that a theorem ranges over, with what it needs of them among
  its hypotheses. An ioctl and a probe are single steps, as the session mutex and the thread's
  spinlock make them, except in \<open>Live_Refs\<close>, where the interleaving itself is the subject; a call of
  the monitor is a single step, as its mutex makes it, and so is a turn of the window thread.

  \<^bold>\<open>Not modelled.\<close> Debug and progress messages beyond the counting of their tokens, and the event
  names of x86. The window thread and the program share the tag of the current phase without a lock; the model takes
  each access as atomic. The programs under \<^verbatim>\<open>src/bin\<close> are benchmarks, and the scripts under
  \<^verbatim>\<open>src/postproc\<close> only read the result files.
\<close>

end
